(* ===== verification/Prelude.thy ===== *)
theory Prelude
  imports Complex_Main
begin

text \<open>
  Shared vocabulary of the development: the JavaScript strings, arrays, \<open>Map\<close>s and numbers
  the sources use, the error values they throw, and the lemmas about them that the
  components' proofs rest on. Strings are lists of characters; an array is a list; a
  \<open>Map\<close> is an association list in insertion order; a \<open>Date\<close> is its number of milliseconds;
  a JavaScript number is an \<open>int\<close> where the code keeps it integral and a \<open>rat\<close> where it
  divides.
\<close>

named_theorems js_str \<open>facts on JavaScript strings\<close>
named_theorems js_map \<open>facts on insertion-ordered maps\<close>

section \<open>Errors as values\<close>

text \<open>
  What a handler throws: an \<open>ApiError\<close> of \<^verbatim>\<open>lib/errors.ts\<close> with its HTTP status and
  machine-readable code, PostgreSQL's unique violation (code 23505), or another error with
  its message.
\<close>

datatype failure =
    ApiError (status_of: int) (code_of: string) (message_of: string)
  | UniqueViolation
  | OtherError string

type_synonym 'a result = "failure + 'a"

fun error_message :: "failure \<Rightarrow> string" where
  "error_message (ApiError _ _ m) = m"
| "error_message UniqueViolation = ''duplicate key value violates unique constraint''"
| "error_message (OtherError m) = m"

definition is_ok :: "'a result \<Rightarrow> bool" where
  "is_ok r = (case r of Inl _ \<Rightarrow> False | Inr _ \<Rightarrow> True)"

definition then_do :: "'a result \<Rightarrow> ('a \<Rightarrow> 'b result) \<Rightarrow> 'b result" where
  "then_do r f = (case r of Inl e \<Rightarrow> Inl e | Inr x \<Rightarrow> f x)"

definition check_that :: "bool \<Rightarrow> failure \<Rightarrow> unit result" where
  "check_that b e = (if b then Inr () else Inl e)"

lemma is_ok_simps [simp]: "is_ok (Inr x)" "\<not> is_ok (Inl e)"
  by (simp_all add: is_ok_def)

lemma is_ok_iff: "is_ok r \<longleftrightarrow> (\<exists>x. r = Inr x)"
  by (cases r) simp_all

lemma then_do_simps [simp]: "then_do (Inl e) f = Inl e" "then_do (Inr x) f = f x"
  by (simp_all add: then_do_def)

lemma then_do_Inr_iff: "then_do r f = Inr y \<longleftrightarrow> (\<exists>x. r = Inr x \<and> f x = Inr y)"
  by (cases r) simp_all

lemma check_that_Inr [simp]: "check_that b e = Inr u \<longleftrightarrow> b"
  by (simp add: check_that_def)

section \<open>Truthiness\<close>

text \<open>A nullable string as a condition: null and the empty string are both false.\<close>

definition truthy :: "string option \<Rightarrow> bool" where
  "truthy v = (case v of None \<Rightarrow> False | Some s \<Rightarrow> s \<noteq> [])"

lemma truthy_simps [simp]: "\<not> truthy None" "truthy (Some s) \<longleftrightarrow> s \<noteq> []"
  by (simp_all add: truthy_def)

section \<open>Strings\<close>

definition startsWith :: "string \<Rightarrow> string \<Rightarrow> bool" where
  "startsWith s p = (take (length p) s = p)"

definition endsWith :: "string \<Rightarrow> string \<Rightarrow> bool" where
  "endsWith s p = (length p \<le> length s \<and> drop (length s - length p) s = p)"

text \<open>\<open>s.split(c)\<close> for a one-character separator: never empty.\<close>

fun split_on :: "char \<Rightarrow> string \<Rightarrow> string list" where
  "split_on c [] = [[]]"
| "split_on c (x # xs) =
     (if x = c then [] # split_on c xs
      else (case split_on c xs of [] \<Rightarrow> [[x]] | y # ys \<Rightarrow> (x # y) # ys))"

fun join_with :: "string \<Rightarrow> string list \<Rightarrow> string" where
  "join_with sep [] = []"
| "join_with sep [x] = x"
| "join_with sep (x # y # ys) = x @ sep @ join_with sep (y # ys)"

text \<open>\<open>s.replace(p, r)\<close> with a string pattern: the first occurrence only.\<close>

fun replace_first :: "string \<Rightarrow> string \<Rightarrow> string \<Rightarrow> string" where
  "replace_first p r [] = (if p = [] then r else [])"
| "replace_first p r (x # xs) =
     (if startsWith (x # xs) p then r @ drop (length p) (x # xs)
      else x # replace_first p r xs)"

text \<open>The text before the first, and after the last, occurrence of a character.\<close>

definition before_first :: "char \<Rightarrow> string \<Rightarrow> string" where
  "before_first c s = takeWhile (\<lambda>x. x \<noteq> c) s"

definition before_last :: "char \<Rightarrow> string \<Rightarrow> string" where
  "before_last c s = rev (tl (dropWhile (\<lambda>x. x \<noteq> c) (rev s)))"

definition after_last :: "char \<Rightarrow> string \<Rightarrow> string" where
  "after_last c s = rev (takeWhile (\<lambda>x. x \<noteq> c) (rev s))"

lemma startsWith_iff: "startsWith s p \<longleftrightarrow> (\<exists>t. s = p @ t)"
  by (metis append_eq_conv_conj append_take_drop_id startsWith_def)

lemma startsWith_append [simp, js_str]: "startsWith (p @ t) p"
  by (simp add: startsWith_def)

lemma startsWith_Nil [simp]: "startsWith s []"
  by (simp add: startsWith_def)

lemma startsWith_Cons [simp]: "startsWith (x # s) (y # p) \<longleftrightarrow> x = y \<and> startsWith s p"
  by (auto simp: startsWith_def)

lemma startsWith_Nil_Cons [simp]: "\<not> startsWith [] (y # p)"
  by (simp add: startsWith_def)

lemma endsWith_iff: "endsWith s p \<longleftrightarrow> (\<exists>t. s = t @ p)"
proof
  assume "endsWith s p"
  then have "s = take (length s - length p) s @ p"
    by (metis append_take_drop_id endsWith_def)
  then show "\<exists>t. s = t @ p" by blast
qed (auto simp: endsWith_def)

lemma endsWith_append [simp, js_str]: "endsWith (t @ p) p"
  by (auto simp: endsWith_iff)

lemma split_on_neq_Nil [simp]: "split_on c s \<noteq> []"
  by (induction s) (auto split: list.splits)

lemma split_on_no_sep: "c \<notin> set s \<Longrightarrow> split_on c s = [s]"
  by (induction s) auto

lemma split_on_append_sep [js_str]:
  "c \<notin> set s \<Longrightarrow> split_on c (s @ c # t) = s # split_on c t"
  by (induction s) auto

lemma split_on_parts_no_sep: "p \<in> set (split_on c s) \<Longrightarrow> c \<notin> set p"
proof (induction s arbitrary: p)
  case (Cons x s)
  show ?case
  proof (cases "x = c")
    case True
    with Cons show ?thesis by auto
  next
    case False
    obtain y ys where "split_on c s = y # ys" by (cases "split_on c s") auto
    with Cons False show ?thesis by auto
  qed
qed simp

lemma join_with_Cons: "ys \<noteq> [] \<Longrightarrow> join_with sep (x # ys) = x @ sep @ join_with sep ys"
  by (cases ys) auto

lemma join_split [simp, js_str]: "join_with [c] (split_on c s) = s"
proof (induction s)
  case (Cons x s)
  obtain y ys where yys: "split_on c s = y # ys" by (cases "split_on c s") auto
  then show ?case using Cons by (cases ys) (auto simp: join_with_Cons)
qed simp

lemma split_join [js_str]:
  assumes "xs \<noteq> []" and "\<And>x. x \<in> set xs \<Longrightarrow> c \<notin> set x"
  shows "split_on c (join_with [c] xs) = xs"
  using assms
proof (induction xs)
  case (Cons x xs)
  show ?case
  proof (cases "xs = []")
    case True
    with Cons.prems show ?thesis by (simp add: split_on_no_sep)
  next
    case False
    with Cons show ?thesis by (simp add: join_with_Cons split_on_append_sep)
  qed
qed simp

lemma replace_first_at [js_str]:
  assumes "p \<noteq> []" and "\<And>i. i < length a \<Longrightarrow> \<not> startsWith (drop i (a @ p @ b)) p"
  shows "replace_first p r (a @ p @ b) = a @ r @ b"
  using assms(2)
proof (induction a)
  case Nil
  from \<open>p \<noteq> []\<close> obtain x p' where "p = x # p'" by (cases p) auto
  then show ?case by (simp add: startsWith_def)
next
  case (Cons x a)
  have "\<not> startsWith (x # a @ p @ b) p" using Cons.prems[of 0] by simp
  moreover have "\<not> startsWith (drop i (a @ p @ b)) p" if "i < length a" for i
    using Cons.prems[of "Suc i"] that by simp
  ultimately show ?case using Cons.IH by simp
qed

lemma after_last_append [js_str]: "c \<notin> set t \<Longrightarrow> after_last c (s @ c # t) = t"
  by (simp add: after_last_def) (subst takeWhile_append2, auto)

lemma before_last_append [js_str]: "c \<notin> set t \<Longrightarrow> before_last c (s @ c # t) = s"
  by (simp add: before_last_def) (subst dropWhile_append2, auto)

lemma before_after_last:
  assumes "c \<in> set s"
  shows "s = before_last c s @ c # after_last c s"
proof -
  obtain u v where "s = u @ c # v" and "c \<notin> set v"
    using split_list_last[OF assms] by blast
  then show ?thesis by (simp add: after_last_append before_last_append)
qed

end
