(* ===== verification/Js_Data.thy ===== *)
theory Js_Data
  imports Prelude "HOL-Library.Multiset"
begin

text \<open>
  The containers and numbers of the sources: \<open>Map\<close> in insertion order with the interface its
  clients rely on (locale \<open>ordered_map\<close>), \<open>Set\<close> built from an array, the stable \<open>Array.sort\<close>
  with a comparator, decimal printing, characters of the regular expressions, and JSON values.
\<close>

section \<open>Maps in insertion order\<close>

type_synonym ('k, 'v) jsmap = "('k \<times> 'v) list"

definition m_get :: "('k, 'v) jsmap \<Rightarrow> 'k \<Rightarrow> 'v option" where
  "m_get m k = map_of m k"

fun m_set :: "('k, 'v) jsmap \<Rightarrow> 'k \<Rightarrow> 'v \<Rightarrow> ('k, 'v) jsmap" where
  "m_set [] k v = [(k, v)]"
| "m_set ((k', v') # m) k v = (if k' = k then (k, v) # m else (k', v') # m_set m k v)"

definition m_del :: "('k, 'v) jsmap \<Rightarrow> 'k \<Rightarrow> ('k, 'v) jsmap" where
  "m_del m k = filter (\<lambda>e. fst e \<noteq> k) m"

definition m_wf :: "('k, 'v) jsmap \<Rightarrow> bool" where
  "m_wf m = distinct (map fst m)"

text \<open>\<open>new Map(entries)\<close>: a later entry replaces the value, not the place, of an earlier one.\<close>

definition m_of :: "('k \<times> 'v) list \<Rightarrow> ('k, 'v) jsmap" where
  "m_of es = fold (\<lambda>e m. m_set m (fst e) (snd e)) es []"

text \<open>\<open>push\<close> of \<^verbatim>\<open>acl.ts\<close> and \<open>groupBy\<close> of \<^verbatim>\<open>engine.ts\<close> append to a key's list.\<close>

definition m_push :: "('k, 'v list) jsmap \<Rightarrow> 'k \<Rightarrow> 'v \<Rightarrow> ('k, 'v list) jsmap" where
  "m_push m k v = m_set m k (case m_get m k of None \<Rightarrow> [v] | Some vs \<Rightarrow> vs @ [v])"

definition m_list :: "('k, 'v list) jsmap \<Rightarrow> 'k \<Rightarrow> 'v list" where
  "m_list m k = (case m_get m k of None \<Rightarrow> [] | Some vs \<Rightarrow> vs)"

lemma length_filter_neq:
  "distinct xs \<Longrightarrow> k \<in> set xs \<Longrightarrow> length (filter (\<lambda>x. x \<noteq> k) xs) = length xs - 1"
proof (induction xs)
  case (Cons x xs)
  show ?case
  proof (cases "x = k")
    case True
    with Cons.prems have "filter (\<lambda>x. x \<noteq> k) xs = xs" by (auto intro: filter_True)
    with True show ?thesis by simp
  next
    case False
    with Cons have "length (filter (\<lambda>x. x \<noteq> k) xs) = length xs - 1" "xs \<noteq> []" by auto
    with False show ?thesis by (cases xs) auto
  qed
qed simp

lemma find_snoc:
  "find P (ys @ [x]) = (case find P ys of None \<Rightarrow> if P x then Some x else None | Some z \<Rightarrow> Some z)"
  by (induction ys) auto

lemma find_filter: "find P xs = Some x \<Longrightarrow> Q x \<Longrightarrow> find P (filter Q xs) = Some x"
  by (induction xs) (auto split: if_splits)

lemma find_mem: "find P xs = Some x \<Longrightarrow> x \<in> set xs \<and> P x"
  by (induction xs) (auto split: if_splits)

text \<open>What a client of an ordered map relies on.\<close>

locale ordered_map =
  fixes empty :: "'m"
    and get :: "'m \<Rightarrow> 'k \<Rightarrow> 'v option"
    and put :: "'m \<Rightarrow> 'k \<Rightarrow> 'v \<Rightarrow> 'm"
    and del :: "'m \<Rightarrow> 'k \<Rightarrow> 'm"
    and keys :: "'m \<Rightarrow> 'k list"
    and invar :: "'m \<Rightarrow> bool"
  assumes get_empty: "get empty k = None"
    and get_put: "get (put m k v) k' = (if k' = k then Some v else get m k')"
    and get_del: "get (del m k) k' = (if k' = k then None else get m k')"
    and keys_empty: "keys empty = []"
    and keys_put: "keys (put m k v) = (if k \<in> set (keys m) then keys m else keys m @ [k])"
    and keys_del: "keys (del m k) = filter (\<lambda>x. x \<noteq> k) (keys m)"
    and keys_get: "k \<in> set (keys m) \<longleftrightarrow> get m k \<noteq> None"
    and invar_keys: "invar m \<longleftrightarrow> distinct (keys m)"
begin

lemma invar_empty: "invar empty"
  by (simp add: invar_keys keys_empty)

lemma invar_put: "invar m \<Longrightarrow> invar (put m k v)"
  by (simp add: invar_keys keys_put)

lemma invar_del: "invar m \<Longrightarrow> invar (del m k)"
  by (simp add: invar_keys keys_del)

lemma size_put: "length (keys (put m k v)) = length (keys m) + (if get m k = None then 1 else 0)"
  using keys_get[of k m] by (simp add: keys_put)

lemma size_del:
  assumes "invar m"
  shows "length (keys (del m k)) = length (keys m) - (if get m k = None then 0 else 1)"
proof (cases "get m k = None")
  case True
  then have "k \<notin> set (keys m)" by (simp add: keys_get)
  then have "filter (\<lambda>x. x \<noteq> k) (keys m) = keys m" by (auto intro: filter_True)
  with True show ?thesis by (simp add: keys_del)
next
  case False
  then have k: "k \<in> set (keys m)" by (simp add: keys_get)
  from assms have d: "distinct (keys m)" by (simp add: invar_keys)
  from length_filter_neq[OF d k] False show ?thesis by (auto simp: keys_del)
qed

lemma fold_put_get:
  "get (fold (\<lambda>x m. put m (f x) (g x)) xs m) k
     = (case find (\<lambda>x. f x = k) (rev xs) of None \<Rightarrow> get m k | Some x \<Rightarrow> Some (g x))"
proof (induction xs arbitrary: m)
  case (Cons x xs)
  show ?case by (simp add: Cons find_snoc get_put split: option.splits)
qed simp

end

lemma m_get_set [simp, js_map]: "m_get (m_set m k v) k' = (if k' = k then Some v else m_get m k')"
  by (induction m k v rule: m_set.induct) (auto simp: m_get_def)

lemma m_get_Nil [simp, js_map]: "m_get [] k = None"
  by (simp add: m_get_def)

lemma m_get_Cons [js_map]: "m_get ((k, v) # m) k' = (if k' = k then Some v else m_get m k')"
  by (simp add: m_get_def)

lemma m_get_del [simp, js_map]: "m_get (m_del m k) k' = (if k' = k then None else m_get m k')"
  by (induction m) (auto simp: m_get_def m_del_def)

lemma keys_m_set [js_map]:
  "map fst (m_set m k v) = (if k \<in> fst ` set m then map fst m else map fst m @ [k])"
  by (induction m k v rule: m_set.induct) auto

lemma keys_m_del [js_map]: "map fst (m_del m k) = filter (\<lambda>x. x \<noteq> k) (map fst m)"
  by (induction m) (auto simp: m_del_def)

lemma m_get_None_iff: "m_get m k = None \<longleftrightarrow> k \<notin> fst ` set m"
  by (simp add: m_get_def map_of_eq_None_iff)

interpretation jm: ordered_map "[]" m_get m_set m_del "map fst" m_wf
  by unfold_locales (auto simp: keys_m_set keys_m_del m_get_None_iff m_wf_def)

lemma m_get_of:
  "m_get (m_of es) k = map_option snd (find (\<lambda>e. fst e = k) (rev es))"
  unfolding m_of_def using jm.fold_put_get[of fst snd es "[]" k]
  by (simp split: option.splits)

lemma m_get_push [simp, js_map]:
  "m_get (m_push m k v) k' = (if k' = k then Some (m_list m k @ [v]) else m_get m k')"
  by (simp add: m_push_def m_list_def split: option.splits)

lemma m_list_Nil [simp]: "m_list [] k = []"
  by (simp add: m_list_def)

lemma m_list_push [simp, js_map]:
  "m_list (m_push m k v) k' = (if k' = k then m_list m k @ [v] else m_list m k')"
  by (simp add: m_list_def)

lemma m_list_fold_push [js_map]:
  "m_list (fold (\<lambda>x m. m_push m (f x) (g x)) xs m) k
     = m_list m k @ map g (filter (\<lambda>x. f x = k) xs)"
  by (induction xs arbitrary: m) auto

section \<open>Sets and sorting\<close>

text \<open>\<open>[...new Set(xs)]\<close>: the first occurrence of every element, in order.\<close>

definition uniq :: "'a list \<Rightarrow> 'a list" where
  "uniq xs = rev (remdups (rev xs))"

lemma set_uniq [simp]: "set (uniq xs) = set xs"
  by (simp add: uniq_def)

lemma distinct_uniq [simp]: "distinct (uniq xs)"
  by (simp add: uniq_def)

text \<open>The stable \<open>Array.sort\<close> with a comparator: \<open>x\<close> stays before \<open>y\<close> when \<open>cmp x y \<le> 0\<close>.\<close>

fun insert_by :: "('a \<Rightarrow> 'a \<Rightarrow> rat) \<Rightarrow> 'a \<Rightarrow> 'a list \<Rightarrow> 'a list" where
  "insert_by cmp x [] = [x]"
| "insert_by cmp x (y # ys) = (if cmp x y \<le> 0 then x # y # ys else y # insert_by cmp x ys)"

definition sort_by :: "('a \<Rightarrow> 'a \<Rightarrow> rat) \<Rightarrow> 'a list \<Rightarrow> 'a list" where
  "sort_by cmp xs = foldr (insert_by cmp) xs []"

lemma set_insert_by [simp]: "set (insert_by cmp x ys) = insert x (set ys)"
  by (induction ys) auto

lemma length_insert_by [simp]: "length (insert_by cmp x ys) = Suc (length ys)"
  by (induction ys) auto

lemma distinct_insert_by [simp]: "distinct (insert_by cmp x ys) \<longleftrightarrow> x \<notin> set ys \<and> distinct ys"
  by (induction ys) auto

lemma set_sort_by [simp]: "set (sort_by cmp xs) = set xs"
  unfolding sort_by_def by (induction xs) auto

lemma length_sort_by [simp]: "length (sort_by cmp xs) = length xs"
  unfolding sort_by_def by (induction xs) auto

lemma distinct_sort_by [simp]: "distinct (sort_by cmp xs) = distinct xs"
  unfolding sort_by_def
proof (induction xs)
  case (Cons x xs)
  have "set (foldr (insert_by cmp) xs []) = set xs" using set_sort_by[of cmp xs] by (simp add: sort_by_def)
  with Cons show ?case by simp
qed simp

lemma sort_by_Nil_iff [simp]: "sort_by cmp xs = [] \<longleftrightarrow> xs = []"
  by (metis length_0_conv length_sort_by)

lemma map_insert_by_mset: "mset (insert_by cmp x ys) = add_mset x (mset ys)"
  by (induction ys) auto

lemma mset_sort_by [simp]: "mset (sort_by cmp xs) = mset xs"
  unfolding sort_by_def by (induction xs) (auto simp: map_insert_by_mset)

text \<open>A comparator that orders: what \<open>Array.sort\<close> asks of its argument on the elements it sorts.\<close>

definition orders_on :: "'a set \<Rightarrow> ('a \<Rightarrow> 'a \<Rightarrow> rat) \<Rightarrow> bool" where
  "orders_on A cmp \<longleftrightarrow>
     (\<forall>x\<in>A. \<forall>y\<in>A. cmp x y \<le> 0 \<or> cmp y x \<le> 0) \<and>
     (\<forall>x\<in>A. \<forall>y\<in>A. \<forall>z\<in>A. cmp x y \<le> 0 \<longrightarrow> cmp y z \<le> 0 \<longrightarrow> cmp x z \<le> 0)"

lemma sorted_insert_by:
  assumes "orders_on A cmp" and "x \<in> A" and "set ys \<subseteq> A"
    and "sorted_wrt (\<lambda>a b. cmp a b \<le> 0) ys"
  shows "sorted_wrt (\<lambda>a b. cmp a b \<le> 0) (insert_by cmp x ys)"
  using assms(3,4)
proof (induction ys)
  case (Cons y ys)
  then have y: "y \<in> A" "set ys \<subseteq> A" by auto
  show ?case
  proof (cases "cmp x y \<le> 0")
    case True
    have "cmp x z \<le> 0" if "z \<in> set ys" for z
    proof -
      from that Cons.prems y have "cmp y z \<le> 0" and "z \<in> A" by auto
      with True assms(1,2) y show ?thesis unfolding orders_on_def by blast
    qed
    with True Cons.prems show ?thesis by simp
  next
    case False
    with assms(1,2) y have "cmp y x \<le> 0" unfolding orders_on_def by blast
    with False Cons show ?thesis by auto
  qed
qed simp

lemma sorted_sort_by:
  assumes "orders_on (set xs) cmp"
  shows "sorted_wrt (\<lambda>a b. cmp a b \<le> 0) (sort_by cmp xs)"
proof -
  have "sorted_wrt (\<lambda>a b. cmp a b \<le> 0) (sort_by cmp ys)" if "set ys \<subseteq> set xs" for ys
    using that
  proof (induction ys)
    case (Cons y ys)
    then have "set (sort_by cmp ys) \<subseteq> set xs" "y \<in> set xs" by auto
    with Cons assms show ?case
      using sorted_insert_by[of "set xs" cmp y "sort_by cmp ys"] by (simp add: sort_by_def)
  qed (simp add: sort_by_def)
  then show ?thesis by simp
qed

lemma hd_sort_by_least:
  assumes "orders_on (set xs) cmp" and "x \<in> set xs"
  shows "cmp (hd (sort_by cmp xs)) x \<le> 0"
proof -
  obtain y ys where y: "sort_by cmp xs = y # ys"
    using assms(2) by (metis list.exhaust set_sort_by empty_iff list.set(1))
  with sorted_sort_by[OF assms(1)] have least: "z \<in> set ys \<Longrightarrow> cmp y z \<le> 0" for z by simp
  have "x = y \<or> x \<in> set ys" using assms(2) y by (metis set_ConsD set_sort_by)
  moreover have "cmp y y \<le> 0"
    using assms y unfolding orders_on_def by (metis list.set_intros(1) set_sort_by)
  ultimately show ?thesis using least y by auto
qed

section \<open>Numbers in decimal\<close>

definition digit_char :: "nat \<Rightarrow> char" where
  "digit_char d = char_of (48 + d)"

fun show_nat :: "nat \<Rightarrow> string" where
  "show_nat n = (if n < 10 then [digit_char n] else show_nat (n div 10) @ [digit_char (n mod 10)])"

declare show_nat.simps [simp del]

definition show_int :: "int \<Rightarrow> string" where
  "show_int i = (if i < 0 then ''-'' @ show_nat (nat (- i)) else show_nat (nat i))"

text \<open>\<open>x.toFixed(1)\<close>: the nearest tenth, halves away from the smaller.\<close>

definition toFixed1 :: "rat \<Rightarrow> string" where
  "toFixed1 x =
     (let n = \<lfloor>\<bar>x\<bar> * 10 + 1 / 2\<rfloor>
      in (if x < 0 then ''-'' else []) @ show_int (n div 10) @ ''.'' @ show_int (n mod 10))"

text \<open>\<open>Math.round\<close>: halves go up.\<close>

definition js_round :: "rat \<Rightarrow> int" where
  "js_round x = \<lfloor>x + 1 / 2\<rfloor>"

lemma js_round_int [simp]: "js_round (of_int n) = n"
  unfolding js_round_def by (rule floor_unique) simp_all

section \<open>Characters of the regular expressions\<close>

definition cc :: "char \<Rightarrow> nat" where
  "cc c = of_char c"

definition is_digit :: "char \<Rightarrow> bool" where
  "is_digit c \<longleftrightarrow> 48 \<le> cc c \<and> cc c \<le> 57"

definition is_upper :: "char \<Rightarrow> bool" where
  "is_upper c \<longleftrightarrow> 65 \<le> cc c \<and> cc c \<le> 90"

definition is_lower :: "char \<Rightarrow> bool" where
  "is_lower c \<longleftrightarrow> 97 \<le> cc c \<and> cc c \<le> 122"

definition is_alnum :: "char \<Rightarrow> bool" where
  "is_alnum c \<longleftrightarrow> is_digit c \<or> is_upper c \<or> is_lower c"

definition to_lower :: "char \<Rightarrow> char" where
  "to_lower c = (if is_upper c then char_of (cc c + 32) else c)"

definition hex_digit :: "char \<Rightarrow> bool" where
  "hex_digit c \<longleftrightarrow> is_digit c \<or> (97 \<le> cc (to_lower c) \<and> cc (to_lower c) \<le> 102)"

section \<open>JSON\<close>

datatype json =
    JNull
  | JBool bool
  | JNum rat
  | JStr string
  | JArr "json list"
  | JObj "(string \<times> json) list"

end
