(* ===== verification/Db.thy ===== *)
theory Db
  imports Js_Data
begin

text \<open>
  The control plane's PostgreSQL tables (\<^verbatim>\<open>incuscloud/server/src/db/schema.ts\<close>): a record per
  table with the table's columns, and the database as the record of its tables. A nullable
  column is an \<open>option\<close>, a timestamp its milliseconds, a \<open>jsonb\<close> column its typed content. A
  table is the list of its rows in insertion order; the keys and constraints the code relies
  on are predicates (\<open>db_wf\<close>). Foreign keys with their cascades are not modelled: no modelled
  operation deletes a referenced row.
\<close>

section \<open>Typed columns\<close>

text \<open>A tenant's quotas; unset is unlimited. Whole numbers, as the API accepts them.\<close>

record quotas =
  q_instances :: "int option"
  q_cpu :: "int option"
  q_memory :: "int option"
  q_disk :: "int option"
  q_maxInstanceCpu :: "int option"
  q_maxInstanceMemory :: "int option"
  q_maxInstanceDisk :: "int option"
  q_snapshots :: "int option"
  q_backups :: "int option"
  q_backupGiB :: "int option"
  q_kubernetes :: "int option"

record user_quotas =
  uq_instances :: "int option"
  uq_cpu :: "int option"
  uq_memory :: "int option"
  uq_backups :: "int option"

datatype lease_action = Stop | Delete

record lease_policy =
  lp_days :: int
  lp_action :: lease_action
  lp_extendDays :: int
  lp_maxExtensions :: int

text \<open>What a project uses (\<^verbatim>\<open>tenants/quota.ts\<close> \<open>Usage\<close>) and may use (\<open>Limits\<close>).\<close>

record usage =
  u_instances :: int
  u_cpu :: int
  u_memory :: int
  u_disk :: int

record limits =
  l_instances :: "int option"
  l_cpu :: "int option"
  l_memory :: "int option"
  l_disk :: "int option"

text \<open>Placement hints of an instance (\<^verbatim>\<open>balancing/engine.ts\<close> \<open>Hints\<close>).\<close>

record hints =
  h_affinity :: "string option"
  h_antiAffinity :: "string option"
  h_pin :: "string list option"
  h_balance :: "bool option"

section \<open>Tables\<close>

record cluster_row =
  cl_id :: string
  cl_name :: string
  cl_url :: string
  cl_addresses :: "string list"
  cl_fingerprint :: string
  cl_serverCert :: string
  cl_clientCert :: string
  cl_clientKeyEnc :: string
  cl_status :: string
  cl_statusMessage :: string
  cl_labels :: "(string, string) jsmap"
  cl_fgaStoreId :: "string option"
  cl_createdAt :: int
  cl_updatedAt :: int
  cl_lastSeenAt :: "int option"
  cl_reconciledAt :: "int option"
  cl_grantsScannedAt :: "int option"
  cl_reconcileRequestedAt :: "int option"
  cl_reconcileGeneration :: int
  cl_reconciledGeneration :: int
  cl_inventoryAt :: "int option"
  cl_inventoryError :: string

text \<open>Leader election between workers.\<close>

record lease_row =
  le_name :: string
  le_holder :: string
  le_expiresAt :: int

record user_row =
  us_id :: string
  us_email :: string
  us_name :: string
  us_passwordHash :: "string option"
  us_disabled :: bool
  us_createdAt :: int
  us_lastLoginAt :: "int option"

record platform_role_row =
  pr_userId :: string
  pr_role :: string

record tenant_row =
  te_id :: string
  te_slug :: string
  te_name :: string
  te_quotas :: quotas
  te_leasePolicy :: "lease_policy option"
  te_createdAt :: int

record instance_lease_row =
  il_clusterId :: string
  il_project :: string
  il_name :: string
  il_tenantId :: string
  il_expiresAt :: "int option"
  il_extensions :: int
  il_actedAt :: "int option"
  il_createdAt :: int

record user_quota_row =
  uqr_tenantId :: string
  uqr_userId :: string
  uqr_quotas :: user_quotas

record tenant_member_row =
  tm_tenantId :: string
  tm_userId :: string
  tm_role :: string
  tm_createdAt :: int

record service_account_row =
  sa_id :: string
  sa_name :: string
  sa_tenantId :: "string option"
  sa_clientId :: string
  sa_createdBy :: "string option"
  sa_platformRole :: "string option"
  sa_disabled :: bool
  sa_createdAt :: int

record group_row =
  gr_id :: string
  gr_name :: string
  gr_description :: string
  gr_createdAt :: int

record group_member_row =
  gm_groupId :: string
  gm_userId :: "string option"
  gm_serviceAccountId :: "string option"
  gm_providerId :: "string option"
  gm_createdAt :: int

record acl_entry_row =
  ae_id :: string
  ae_path :: string
  ae_userId :: "string option"
  ae_serviceAccountId :: "string option"
  ae_groupId :: "string option"
  ae_tenantGroupId :: "string option"
  ae_role :: string
  ae_propagate :: bool
  ae_createdBy :: "string option"
  ae_createdAt :: int

text \<open>\<open>source\<close> of an owner: the column's check constraint allows these three.\<close>

datatype owner_source = Incuscloud | Event | Backfill

record instance_owner_row =
  io_clusterId :: string
  io_project :: string
  io_name :: string
  io_userId :: "string option"
  io_serviceAccountId :: "string option"
  io_source :: owner_source
  io_createdAt :: int

record placement_row =
  pl_tenantId :: string
  pl_clusterId :: string
  pl_project :: string
  pl_status :: string
  pl_statusMessage :: string
  pl_usage :: "usage option"
  pl_limits :: "limits option"
  pl_createdAt :: int

record cluster_member_row =
  cm_clusterId :: string
  cm_name :: string
  cm_url :: string
  cm_status :: string
  cm_roles :: "string list"
  cm_groups :: "string list"
  cm_architecture :: string
  cm_cpuThreads :: int
  cm_memoryTotal :: int
  cm_memoryUsed :: int
  cm_load1 :: "rat option"
  cm_uptimeS :: "int option"
  cm_updatedAt :: int

record instance_row =
  in_id :: string
  in_clusterId :: string
  in_project :: string
  in_name :: string
  in_type :: string
  in_status :: string
  in_location :: string
  in_description :: string
  in_architecture :: string
  in_createdAtIncus :: "int option"
  in_imageOs :: string
  in_imageRelease :: string
  in_limitsCpu :: string
  in_limitsMemory :: string
  in_cpuNs :: "int option"
  in_memoryUsed :: "int option"
  in_memoryTotal :: "int option"
  in_diskUsed :: "int option"
  in_netRx :: "int option"
  in_netTx :: "int option"
  in_cpuCores :: "rat option"
  in_netRxBps :: "rat option"
  in_netTxBps :: "rat option"
  in_addresses :: "string list"
  in_hints :: hints
  in_snapshots :: int
  in_search :: string
  in_seenAt :: int

datatype job_state = Queued | Running | Succeeded | Failed | Cancelled

record job_progress =
  jp_stage :: string
  jp_percent :: "int option"
  jp_message :: "string option"

record job_row =
  jo_id :: string
  jo_type :: string
  jo_state :: job_state
  jo_progress :: job_progress
  jo_payload :: "(string, json) jsmap"
  jo_result :: "(string, json) jsmap option"
  jo_error :: string
  jo_tenantId :: "string option"
  jo_clusterIds :: "string list"
  jo_instanceKey :: "string option"
  jo_actorType :: string
  jo_actorId :: string
  jo_cancelRequested :: bool
  jo_holder :: "string option"
  jo_heartbeatAt :: "int option"
  jo_createdAt :: int
  jo_startedAt :: "int option"
  jo_finishedAt :: "int option"

datatype backup_state = BCreating | BReady | BFailed

record backup_row =
  ba_id :: string
  ba_tenantId :: "string option"
  ba_policyId :: "string option"
  ba_targetId :: string
  ba_objectKey :: string
  ba_clusterId :: "string option"
  ba_project :: string
  ba_instanceName :: string
  ba_instanceType :: string
  ba_instanceOnly :: bool
  ba_sizeBytes :: "int option"
  ba_state :: backup_state
  ba_error :: string
  ba_jobId :: "string option"
  ba_transport :: string
  ba_createdBy :: string
  ba_createdAt :: int
  ba_completedAt :: "int option"

text \<open>Of a Kubernetes cluster, the columns the permissions and the quotas read.\<close>

record k8s_cluster_row =
  kc_id :: string
  kc_tenantId :: string
  kc_clusterId :: string
  kc_name :: string
  kc_createdBy :: string

section \<open>The database\<close>

record db =
  db_clusters :: "cluster_row list"
  db_leases :: "lease_row list"
  db_users :: "user_row list"
  db_platformRoles :: "platform_role_row list"
  db_tenants :: "tenant_row list"
  db_instanceLeases :: "instance_lease_row list"
  db_userQuotas :: "user_quota_row list"
  db_tenantMembers :: "tenant_member_row list"
  db_serviceAccounts :: "service_account_row list"
  db_groups :: "group_row list"
  db_groupMembers :: "group_member_row list"
  db_aclEntries :: "acl_entry_row list"
  db_instanceOwners :: "instance_owner_row list"
  db_placements :: "placement_row list"
  db_clusterMembers :: "cluster_member_row list"
  db_instances :: "instance_row list"
  db_jobs :: "job_row list"
  db_backups :: "backup_row list"
  db_k8sClusters :: "k8s_cluster_row list"

definition empty_db :: db where
  "empty_db = \<lparr>db_clusters = [], db_leases = [], db_users = [], db_platformRoles = [],
     db_tenants = [], db_instanceLeases = [], db_userQuotas = [], db_tenantMembers = [],
     db_serviceAccounts = [], db_groups = [], db_groupMembers = [], db_aclEntries = [],
     db_instanceOwners = [], db_placements = [], db_clusterMembers = [], db_instances = [],
     db_jobs = [], db_backups = [], db_k8sClusters = []\<rparr>"

section \<open>Operations on a table with a primary key\<close>

text \<open>
  What the queries do to a table whose primary key is \<open>key\<close>: select by key, delete by key,
  \<open>insert \<dots> on conflict do update set \<dots> where guard\<close> (\<open>on conflict do nothing\<close> is the guard
  that never holds), and an update of the key columns themselves, which PostgreSQL refuses
  when another row already has the new key.
\<close>

definition t_lookup :: "('r \<Rightarrow> 'k) \<Rightarrow> 'r list \<Rightarrow> 'k \<Rightarrow> 'r option" where
  "t_lookup key rows k = find (\<lambda>r. key r = k) rows"

definition t_remove :: "('r \<Rightarrow> 'k) \<Rightarrow> 'r list \<Rightarrow> 'k \<Rightarrow> 'r list" where
  "t_remove key rows k = filter (\<lambda>r. key r \<noteq> k) rows"

definition t_upsert :: "('r \<Rightarrow> 'k) \<Rightarrow> 'r list \<Rightarrow> 'r \<Rightarrow> ('r \<Rightarrow> 'r) \<Rightarrow> ('r \<Rightarrow> bool) \<Rightarrow> 'r list" where
  "t_upsert key rows row upd guard =
     (if \<exists>r\<in>set rows. key r = key row
      then map (\<lambda>r. if key r = key row \<and> guard r then upd r else r) rows
      else rows @ [row])"

definition t_update :: "('r \<Rightarrow> bool) \<Rightarrow> ('r \<Rightarrow> 'r) \<Rightarrow> 'r list \<Rightarrow> 'r list" where
  "t_update sel upd rows = map (\<lambda>r. if sel r then upd r else r) rows"

definition t_rekey :: "('r \<Rightarrow> 'k) \<Rightarrow> 'r list \<Rightarrow> 'k \<Rightarrow> 'k \<Rightarrow> ('r \<Rightarrow> 'r) \<Rightarrow> 'r list result" where
  "t_rekey key rows from to upd =
     (if from \<noteq> to \<and> (\<exists>r\<in>set rows. key r = from) \<and> (\<exists>r\<in>set rows. key r = to)
      then Inl UniqueViolation
      else Inr (map (\<lambda>r. if key r = from then upd r else r) rows))"

definition t_wf :: "('r \<Rightarrow> 'k) \<Rightarrow> 'r list \<Rightarrow> bool" where
  "t_wf key rows = distinct (map key rows)"

lemma t_lookup_None: "t_lookup key rows k = None \<longleftrightarrow> (\<forall>r\<in>set rows. key r \<noteq> k)"
  by (auto simp: t_lookup_def find_None_iff)

lemma t_lookup_SomeD: "t_lookup key rows k = Some r \<Longrightarrow> r \<in> set rows \<and> key r = k"
  by (auto simp: t_lookup_def find_Some_iff)

lemma t_lookup_Some_iff:
  "t_wf key rows \<Longrightarrow> t_lookup key rows k = Some r \<longleftrightarrow> r \<in> set rows \<and> key r = k"
  by (induction rows) (auto simp: t_lookup_def t_wf_def)

lemma t_lookup_append:
  "t_lookup key (xs @ ys) k = (case t_lookup key xs k of None \<Rightarrow> t_lookup key ys k | Some r \<Rightarrow> Some r)"
  by (induction xs) (auto simp: t_lookup_def)

lemma t_lookup_map_same:
  "(\<And>r. key (f r) = key r) \<Longrightarrow> t_lookup key (map f rows) k = map_option f (t_lookup key rows k)"
  by (induction rows) (auto simp: t_lookup_def)

lemma t_lookup_remove:
  "t_lookup key (t_remove key rows k) k' = (if k' = k then None else t_lookup key rows k')"
  by (induction rows) (auto simp: t_lookup_def t_remove_def)

lemma t_lookup_upsert:
  assumes "\<And>r. key (upd r) = key r"
  shows "t_lookup key (t_upsert key rows row upd guard) k' =
     (if k' = key row
      then Some (case t_lookup key rows k' of None \<Rightarrow> row | Some r \<Rightarrow> if guard r then upd r else r)
      else t_lookup key rows k')"
proof (cases "\<exists>r\<in>set rows. key r = key row")
  case True
  let ?f = "\<lambda>r. if key r = key row \<and> guard r then upd r else r"
  have "t_lookup key (map ?f rows) k' = map_option ?f (t_lookup key rows k')"
    by (rule t_lookup_map_same) (simp add: assms)
  moreover have "t_lookup key rows (key row) \<noteq> None" using True by (auto simp: t_lookup_None)
  ultimately show ?thesis using True
    by (cases "t_lookup key rows k'") (auto simp: t_upsert_def dest: t_lookup_SomeD)
next
  case False
  then have "t_lookup key rows (key row) = None" by (simp add: t_lookup_None)
  then show ?thesis using False
    by (auto simp: t_upsert_def t_lookup_append split: option.splits) (auto simp: t_lookup_def)
qed

lemma t_wf_remove: "t_wf key rows \<Longrightarrow> t_wf key (t_remove key rows k)"
  unfolding t_wf_def t_remove_def by (rule distinct_map_filter)

lemma t_wf_upsert:
  assumes "\<And>r. key (upd r) = key r" and "t_wf key rows"
  shows "t_wf key (t_upsert key rows row upd guard)"
proof -
  have "map key (map (\<lambda>r. if key r = key row \<and> guard r then upd r else r) rows) = map key rows"
    using assms(1) by auto
  with assms(2) show ?thesis by (auto simp: t_wf_def t_upsert_def simp del: map_map map_eq_conv)
qed

lemma t_lookup_map: "t_lookup key (map f rows) k = map_option f (find (\<lambda>r. key (f r) = k) rows)"
  by (induction rows) (auto simp: t_lookup_def)

lemma find_False [simp]: "find (\<lambda>_. False) xs = None"
  by (simp add: find_None_iff)

lemma t_lookup_rekey:
  assumes "t_rekey key rows from to upd = Inr rows'" and "from \<noteq> to"
    and "\<And>r. key r = from \<Longrightarrow> key (upd r) = to"
  shows "t_lookup key rows' k =
    (if k = from then None
     else if k = to \<and> t_lookup key rows from \<noteq> None then map_option upd (t_lookup key rows from)
     else t_lookup key rows k)"
proof -
  let ?f = "\<lambda>r. if key r = from then upd r else r"
  have rows': "rows' = map ?f rows" and free: "(\<exists>r\<in>set rows. key r = from) \<Longrightarrow> \<forall>r\<in>set rows. key r \<noteq> to"
    using assms(1,2) by (auto simp: t_rekey_def split: if_splits)
  have key: "key (?f r) = k \<longleftrightarrow> (if key r = from then k = to else key r = k)" for r using assms(3) by auto
  have found: "map_option ?f (find (\<lambda>r. key (?f r) = k) rows) =
    (if k = from then None else if k = to \<and> t_lookup key rows from \<noteq> None then map_option upd (t_lookup key rows from)
     else t_lookup key rows k)"
    using free unfolding key t_lookup_def
  proof (induction rows)
    case (Cons x xs)
    show ?case
    proof (cases "\<exists>r\<in>set xs. key r = from")
      case True
      with Cons show ?thesis using assms(2) by auto
    next
      case False
      then have "find (\<lambda>r. key r = from) xs = None" by (simp add: find_None_iff)
      with Cons assms(2) show ?thesis by auto
    qed
  qed simp
  show ?thesis unfolding rows' t_lookup_map by (rule found)
qed

text \<open>
  The contract of such a table towards the components that keep their state in it: every
  operation changes the row of its own key only, and the key stays unique.
\<close>

locale keyed_table =
  fixes key :: "'r \<Rightarrow> 'k"
    and lookup :: "'r list \<Rightarrow> 'k \<Rightarrow> 'r option"
    and remove :: "'r list \<Rightarrow> 'k \<Rightarrow> 'r list"
    and upsert :: "'r list \<Rightarrow> 'r \<Rightarrow> ('r \<Rightarrow> 'r) \<Rightarrow> ('r \<Rightarrow> bool) \<Rightarrow> 'r list"
    and wf :: "'r list \<Rightarrow> bool"
  assumes lookup_remove: "lookup (remove rows k) k' = (if k' = k then None else lookup rows k')"
    and lookup_upsert: "(\<And>r. key (upd r) = key r) \<Longrightarrow>
      lookup (upsert rows row upd guard) k' =
        (if k' = key row
         then Some (case lookup rows k' of None \<Rightarrow> row | Some r \<Rightarrow> if guard r then upd r else r)
         else lookup rows k')"
    and lookup_key: "lookup rows k = Some r \<Longrightarrow> key r = k"
    and wf_remove: "wf rows \<Longrightarrow> wf (remove rows k)"
    and wf_upsert: "(\<And>r. key (upd r) = key r) \<Longrightarrow> wf rows \<Longrightarrow> wf (upsert rows row upd guard)"
begin

lemma replace_lookup:
  assumes "\<And>r. key (upd r) = key r"
  shows "lookup (upsert (remove rows (key row)) row upd guard) k' =
    (if k' = key row then Some row else lookup rows k')"
  by (simp add: lookup_upsert[OF assms] lookup_remove)

lemma upsert_guard_false:
  assumes "\<And>r. key (upd r) = key r" and "lookup rows (key row) = Some r" and "\<not> guard r"
  shows "lookup (upsert rows row upd guard) k' = lookup rows k'"
  using assms by (simp add: lookup_upsert[OF assms(1)])

lemma upsert_no_loss:
  assumes "\<And>r. key (upd r) = key r" and "lookup rows k \<noteq> None"
  shows "lookup (upsert rows row upd guard) k \<noteq> None"
  using assms(2) by (simp add: lookup_upsert[OF assms(1)])

end

lemma keyed_table_ops: "keyed_table key (t_lookup key) (t_remove key) (t_upsert key) (t_wf key)"
  by unfold_locales
    (auto simp: t_lookup_remove t_lookup_upsert t_wf_remove t_wf_upsert dest: t_lookup_SomeD)

section \<open>Keys of the tables\<close>

text \<open>\<open>InstanceKey\<close> of \<^verbatim>\<open>acl/owners.ts\<close>: the primary key of an instance's owner and lease.\<close>

record instance_key =
  ik_clusterId :: string
  ik_project :: string
  ik_name :: string

definition owner_key :: "instance_owner_row \<Rightarrow> instance_key" where
  "owner_key r = \<lparr>ik_clusterId = io_clusterId r, ik_project = io_project r, ik_name = io_name r\<rparr>"

definition lease_key :: "instance_lease_row \<Rightarrow> instance_key" where
  "lease_key r = \<lparr>ik_clusterId = il_clusterId r, ik_project = il_project r, ik_name = il_name r\<rparr>"

interpretation owners_tbl: keyed_table owner_key "t_lookup owner_key" "t_remove owner_key"
    "t_upsert owner_key" "t_wf owner_key"
  by (rule keyed_table_ops)

interpretation leases_tbl: keyed_table lease_key "t_lookup lease_key" "t_remove lease_key"
    "t_upsert lease_key" "t_wf lease_key"
  by (rule keyed_table_ops)

interpretation locks_tbl: keyed_table le_name "t_lookup le_name" "t_remove le_name"
    "t_upsert le_name" "t_wf le_name"
  by (rule keyed_table_ops)

section \<open>Sample rows\<close>

text \<open>A cluster \<open>c\<close> and its instances in the project \<open>p\<close>, for the concrete instances of the properties.\<close>

definition a_cluster :: cluster_row where
  "a_cluster = \<lparr>cl_id = ''C1'', cl_name = ''c'', cl_url = [], cl_addresses = [], cl_fingerprint = [],
     cl_serverCert = [], cl_clientCert = [], cl_clientKeyEnc = [], cl_status = ''online'', cl_statusMessage = [],
     cl_labels = [], cl_fgaStoreId = None, cl_createdAt = 0, cl_updatedAt = 0, cl_lastSeenAt = None,
     cl_reconciledAt = None, cl_grantsScannedAt = None, cl_reconcileRequestedAt = None,
     cl_reconcileGeneration = 0, cl_reconciledGeneration = 0, cl_inventoryAt = None, cl_inventoryError = []\<rparr>"

definition an_instance :: "string \<Rightarrow> instance_row" where
  "an_instance n = \<lparr>in_id = n, in_clusterId = ''C1'', in_project = ''p'', in_name = n, in_type = ''container'',
     in_status = ''Running'', in_location = ''n1'', in_description = [], in_architecture = [], in_createdAtIncus = None,
     in_imageOs = [], in_imageRelease = [], in_limitsCpu = [], in_limitsMemory = [], in_cpuNs = None,
     in_memoryUsed = None, in_memoryTotal = None, in_diskUsed = None, in_netRx = None, in_netTx = None,
     in_cpuCores = None, in_netRxBps = None, in_netTxBps = None, in_addresses = [],
     in_hints = \<lparr>h_affinity = None, h_antiAffinity = None, h_pin = None, h_balance = None\<rparr>,
     in_snapshots = 0, in_search = [], in_seenAt = 0\<rparr>"

end
