(* ===== verification/Catalog.thy ===== *)
theory Catalog
  imports Js_Data "HOL-Library.Char_ord" "HOL-Library.List_Lexorder"
begin

text \<open>
  \<^verbatim>\<open>acl/catalog.ts\<close>: the privileges and the built-in roles. A privilege is its string
  \<open><object>.<action>\<close>; a role's privileges are computed from the list of all privileges by the
  prefixes and suffixes the source uses.
\<close>

type_synonym privilege = string

definition PRIVILEGES :: "privilege list" where
  "PRIVILEGES = [
    ''instance.view'', ''instance.console'', ''instance.exec'', ''instance.files'', ''instance.power'', ''instance.configure'',
    ''instance.snapshot'', ''instance.create'', ''instance.delete'', ''instance.migrate'', ''instance.relocate'',
    ''placement.choose'',
    ''storage.view'', ''storage.allocate'', ''storage.pools'',
    ''network.view'', ''network.use'', ''network.manage'',
    ''image.view'', ''image.manage'',
    ''project.view'', ''project.configure'',
    ''backup.view'', ''backup.create'', ''backup.restore'', ''backup.delete'', ''backup.schedule'',
    ''replication.view'', ''replication.manage'',
    ''k8s.view'', ''k8s.kubeconfig'', ''k8s.provision'', ''k8s.delete'',
    ''node.view'', ''node.maintain'', ''node.provision'',
    ''cluster.view'', ''cluster.configure'',
    ''tenant.view'', ''tenant.manage'', ''tenant.members'', ''tenant.quota'',
    ''acl.view'', ''acl.manage'',
    ''platform.view'', ''platform.users'', ''platform.settings'', ''platform.audit'']"

datatype role_id =
    Administrator | Operator | ClusterOwner | GroupOwner | UnrestrictedUser | User
  | TenantAdmin | Auditor | NoAccess

definition ROLE_IDS :: "(string \<times> role_id) list" where
  "ROLE_IDS = [
    (''administrator'', Administrator), (''operator'', Operator), (''cluster-owner'', ClusterOwner),
    (''group-owner'', GroupOwner), (''unrestricted-user'', UnrestrictedUser), (''user'', User),
    (''tenant-admin'', TenantAdmin), (''auditor'', Auditor), (''no-access'', NoAccess)]"

record role =
  role_name :: string
  role_privileges :: "privilege set"
  role_ownedOnly :: "privilege set option"

text \<open>\<open>of(prefix)\<close>: the privileges of one object.\<close>

definition of_object :: "string \<Rightarrow> privilege list" where
  "of_object pre = filter (\<lambda>p. startsWith p (pre @ ''.'')) PRIVILEGES"

definition VIEWS :: "privilege list" where
  "VIEWS = filter (\<lambda>p. endsWith p ''.view'') PRIVILEGES"

definition WORKLOAD :: "privilege list" where
  "WORKLOAD = of_object ''instance'' @ [''placement.choose'', ''storage.view'', ''storage.allocate'']
     @ of_object ''network'' @ of_object ''image'' @ of_object ''project'' @ of_object ''backup''
     @ of_object ''replication'' @ of_object ''k8s''"

fun ROLES :: "role_id \<Rightarrow> role" where
  "ROLES Administrator = \<lparr>role_name = ''Administrator'', role_privileges = set PRIVILEGES, role_ownedOnly = None\<rparr>"
| "ROLES Operator = \<lparr>role_name = ''Operator'',
     role_privileges = set (filter (\<lambda>p. p \<notin> set [''acl.manage'', ''platform.users'', ''platform.settings'']) PRIVILEGES),
     role_ownedOnly = None\<rparr>"
| "ROLES ClusterOwner = \<lparr>role_name = ''Cluster owner'',
     role_privileges = set (WORKLOAD @ [''storage.pools''] @ of_object ''node'' @ of_object ''cluster'' @ of_object ''acl''),
     role_ownedOnly = None\<rparr>"
| "ROLES GroupOwner = \<lparr>role_name = ''Group owner'',
     role_privileges = set (WORKLOAD @ [''node.view'', ''node.maintain'', ''cluster.view''] @ of_object ''acl''),
     role_ownedOnly = None\<rparr>"
| "ROLES UnrestrictedUser = \<lparr>role_name = ''Unrestricted user'',
     role_privileges = set (WORKLOAD @ [''cluster.view'', ''tenant.view'']), role_ownedOnly = None\<rparr>"
| "ROLES User = \<lparr>role_name = ''User'',
     role_privileges = set [''instance.create'', ''storage.view'', ''storage.allocate'', ''network.view'', ''network.use'',
       ''image.view'', ''project.view'', ''k8s.provision'', ''cluster.view'', ''tenant.view''],
     role_ownedOnly = Some (set (of_object ''instance'' @ of_object ''backup'' @ of_object ''k8s''))\<rparr>"
| "ROLES TenantAdmin = \<lparr>role_name = ''Tenant admin'',
     role_privileges = set (WORKLOAD @ of_object ''tenant'' @ of_object ''acl'' @ [''cluster.view'']),
     role_ownedOnly = None\<rparr>"
| "ROLES Auditor = \<lparr>role_name = ''Auditor'', role_privileges = set (VIEWS @ [''platform.audit'']), role_ownedOnly = None\<rparr>"
| "ROLES NoAccess = \<lparr>role_name = ''No access'', role_privileges = {}, role_ownedOnly = None\<rparr>"

text \<open>A stored role name as a \<open>RoleId\<close>; \<open>isRoleId\<close> says whether it is one.\<close>

definition role_of :: "string \<Rightarrow> role_id option" where
  "role_of s = map_of ROLE_IDS s"

definition isRoleId :: "string \<Rightarrow> bool" where
  "isRoleId s = (s \<in> set (map fst ROLE_IDS))"

definition owned_only :: "role_id \<Rightarrow> privilege set" where
  "owned_only r = (case role_ownedOnly (ROLES r) of None \<Rightarrow> {} | Some ps \<Rightarrow> ps)"

section \<open>Facts\<close>

lemma isRoleId_iff: "isRoleId s \<longleftrightarrow> (\<exists>r. role_of s = Some r)"
  by (auto simp: isRoleId_def role_of_def ROLE_IDS_def)

lemma set_of_object: "set (of_object x) \<subseteq> set PRIVILEGES"
  by (auto simp: of_object_def)

lemma set_WORKLOAD: "set WORKLOAD \<subseteq> set PRIVILEGES"
proof -
  have "set [''placement.choose'', ''storage.view'', ''storage.allocate''] \<subseteq> set PRIVILEGES"
    by (simp add: PRIVILEGES_def)
  then show ?thesis using set_of_object by (auto simp: WORKLOAD_def)
qed

text \<open>Every role is made of known privileges, so Administrator holds whatever any role gives.\<close>

lemma role_privileges_known: "role_privileges (ROLES r) \<subseteq> set PRIVILEGES"
proof -
  have lits: "set [''storage.pools'', ''node.view'', ''node.maintain'', ''cluster.view'', ''tenant.view'',
    ''instance.create'', ''storage.view'', ''storage.allocate'', ''network.view'', ''network.use'',
    ''image.view'', ''project.view'', ''k8s.provision'', ''platform.audit''] \<subseteq> set PRIVILEGES"
    by (simp add: PRIVILEGES_def)
  show ?thesis
    using lits set_of_object set_WORKLOAD by (cases r) (auto simp: VIEWS_def)
qed

lemma owned_only_known: "owned_only r \<subseteq> set PRIVILEGES"
  using set_of_object by (cases r) (auto simp: owned_only_def)

end
