(* ===== verification/Resolve.thy ===== *)
theory Resolve
  imports Catalog
begin

text \<open>
  \<^verbatim>\<open>acl/resolve.ts\<close>: what a subject's entries give it along a chain of paths, most specific
  first. The loop over the chain is recursion on it, with the flag \<open>first\<close> for index 0.
  \<open>resolve_iff\<close> states it without the loop: the first level that has an entry decides, alone.
\<close>

datatype entry_source = SrcAcl | SrcPlatformRole | SrcTenantMembership | SrcServiceAccount

record entry =
  en_id :: string
  en_path :: string
  en_subject :: string
  en_role :: role_id
  en_propagate :: bool
  en_source :: entry_source

record resolution =
  privileges :: "privilege set"
  decidedBy :: "entry list"

abbreviation no_resolution :: resolution where
  "no_resolution \<equiv> \<lparr>privileges = {}, decidedBy = []\<rparr>"

text \<open>The entries of one level that count: for one of the keys and, above the path itself, propagating.\<close>

definition level_entries :: "string list \<Rightarrow> (string, entry list) jsmap \<Rightarrow> bool \<Rightarrow> string \<Rightarrow> entry list" where
  "level_entries subjects byPath first path =
     filter (\<lambda>e. en_subject e \<in> set subjects \<and> (first \<or> en_propagate e)) (m_list byPath path)"

text \<open>Among them the subject's own (its first key) beat its groups'.\<close>

definition own_first :: "string list \<Rightarrow> entry list \<Rightarrow> entry list" where
  "own_first subjects here =
     (let own = filter (\<lambda>e. subjects \<noteq> [] \<and> en_subject e = hd subjects) here
      in if own \<noteq> [] then own else here)"

definition entry_gives :: "bool \<Rightarrow> entry \<Rightarrow> privilege set" where
  "entry_gives owned e =
     role_privileges (ROLES (en_role e)) \<union> (if owned then owned_only (en_role e) else {})"

definition combined :: "bool \<Rightarrow> entry list \<Rightarrow> privilege set" where
  "combined owned here =
     (if list_ex (\<lambda>e. en_role e = NoAccess) here then {} else \<Union> (set (map (entry_gives owned) here)))"

fun resolve_from :: "string list \<Rightarrow> (string, entry list) jsmap \<Rightarrow> bool \<Rightarrow> bool \<Rightarrow> string list \<Rightarrow> resolution" where
  "resolve_from subjects byPath owned first [] = no_resolution"
| "resolve_from subjects byPath owned first (path # rest) =
     (let here = level_entries subjects byPath first path in
      if here = [] then resolve_from subjects byPath owned False rest
      else let deciding = own_first subjects here in
        \<lparr>privileges = combined owned deciding, decidedBy = deciding\<rparr>)"

definition resolve :: "string list \<Rightarrow> (string, entry list) jsmap \<Rightarrow> string list \<Rightarrow> bool \<Rightarrow> resolution" where
  "resolve subjects byPath ch owned = resolve_from subjects byPath owned True ch"

section \<open>Facts\<close>

lemma own_first_subset: "set (own_first subjects here) \<subseteq> set here"
  by (auto simp: own_first_def Let_def)

lemma own_first_nonempty: "own_first subjects here = [] \<longleftrightarrow> here = []"
  by (auto simp: own_first_def Let_def)

lemma own_first_own:
  assumes "e \<in> set here" and "en_subject e = hd subjects" and "subjects \<noteq> []"
  shows "set (own_first subjects here) = {x \<in> set here. en_subject x = hd subjects}"
  using assms by (auto simp: own_first_def Let_def filter_empty_conv)

lemma entry_gives_known: "entry_gives owned e \<subseteq> set PRIVILEGES"
  using role_privileges_known owned_only_known by (auto simp: entry_gives_def)

lemma entry_gives_owned_mono: "entry_gives False e \<subseteq> entry_gives True e"
  by (auto simp: entry_gives_def)

lemma combined_iff:
  "p \<in> combined owned here \<longleftrightarrow>
     (\<forall>e\<in>set here. en_role e \<noteq> NoAccess) \<and> (\<exists>e\<in>set here. p \<in> entry_gives owned e)"
  by (auto simp: combined_def list_ex_iff)

lemma combined_known: "combined owned here \<subseteq> set PRIVILEGES"
  by (auto simp: combined_iff dest: subsetD[OF entry_gives_known])

lemma combined_owned_mono: "combined False here \<subseteq> combined True here"
  by (fastforce simp: combined_iff dest: subsetD[OF entry_gives_owned_mono])

lemma resolve_from_empty_level:
  "level_entries subjects byPath first path = [] \<Longrightarrow>
   resolve_from subjects byPath owned first (path # rest) = resolve_from subjects byPath owned False rest"
  by simp

lemma resolve_from_level:
  "level_entries subjects byPath first path \<noteq> [] \<Longrightarrow>
   resolve_from subjects byPath owned first (path # rest) =
     \<lparr>privileges = combined owned (own_first subjects (level_entries subjects byPath first path)),
      decidedBy = own_first subjects (level_entries subjects byPath first path)\<rparr>"
  by (simp add: Let_def)

text \<open>No entry on any level: nothing is decided, nothing is held; and conversely.\<close>

lemma resolve_from_undecided:
  "decidedBy (resolve_from subjects byPath owned first ch) = [] \<longleftrightarrow>
     (\<forall>i<length ch. level_entries subjects byPath (first \<and> i = 0) (ch ! i) = [])"
proof (induction ch arbitrary: first)
  case (Cons path rest)
  show ?case
  proof (cases "level_entries subjects byPath first path = []")
    case True
    have "(\<forall>i<length (path # rest). level_entries subjects byPath (first \<and> i = 0) ((path # rest) ! i) = [])
      \<longleftrightarrow> (\<forall>i<length rest. level_entries subjects byPath False (rest ! i) = [])"
      using True by (auto simp: less_Suc_eq_0_disj)
    then show ?thesis using True Cons.IH[of False] by (simp add: resolve_from_empty_level)
  next
    case False
    then show ?thesis by (auto simp: Let_def own_first_nonempty)
  qed
qed simp

text \<open>The first level that has a counting entry decides; the levels above it do not matter.\<close>

lemma resolve_from_at:
  assumes "i < length ch" and "\<And>j. j < i \<Longrightarrow> level_entries subjects byPath (first \<and> j = 0) (ch ! j) = []"
    and "level_entries subjects byPath (first \<and> i = 0) (ch ! i) \<noteq> []"
  shows "resolve_from subjects byPath owned first ch =
    (let deciding = own_first subjects (level_entries subjects byPath (first \<and> i = 0) (ch ! i))
     in \<lparr>privileges = combined owned deciding, decidedBy = deciding\<rparr>)"
  using assms
proof (induction ch arbitrary: i first)
  case (Cons path rest)
  show ?case
  proof (cases i)
    case 0
    with Cons.prems(3) show ?thesis by (simp add: Let_def)
  next
    case (Suc k)
    have "level_entries subjects byPath first path = []" using Cons.prems(2)[of 0] Suc by simp
    moreover have "resolve_from subjects byPath owned False rest =
      (let deciding = own_first subjects (level_entries subjects byPath (False \<and> k = 0) (rest ! k))
       in \<lparr>privileges = combined owned deciding, decidedBy = deciding\<rparr>)"
    proof (rule Cons.IH)
      show "level_entries subjects byPath (False \<and> j = 0) (rest ! j) = []" if "j < k" for j
        using Cons.prems(2)[of "Suc j"] Suc that by simp
    qed (use Cons.prems Suc in auto)
    ultimately show ?thesis using Suc by (simp add: Let_def)
  qed
qed simp

lemma resolve_from_cases:
  obtains "decidedBy (resolve_from subjects byPath owned first ch) = []"
      and "resolve_from subjects byPath owned first ch = no_resolution"
      and "\<And>i. i < length ch \<Longrightarrow> level_entries subjects byPath (first \<and> i = 0) (ch ! i) = []"
  | i where "i < length ch" and "\<And>j. j < i \<Longrightarrow> level_entries subjects byPath (first \<and> j = 0) (ch ! j) = []"
      and "level_entries subjects byPath (first \<and> i = 0) (ch ! i) \<noteq> []"
proof (cases "\<forall>i<length ch. level_entries subjects byPath (first \<and> i = 0) (ch ! i) = []")
  case True
  then have "resolve_from subjects byPath owned first ch = no_resolution"
  proof (induction ch arbitrary: first)
    case (Cons path rest)
    have "level_entries subjects byPath first path = []" using Cons.prems by (auto dest: spec[of _ 0])
    moreover have "\<forall>i<length rest. level_entries subjects byPath (False \<and> i = 0) (rest ! i) = []"
      using Cons.prems by auto
    ultimately show ?case using Cons.IH[of False] by simp
  qed simp
  with True that(1) show ?thesis by auto
next
  case False
  let ?P = "\<lambda>i. i < length ch \<and> level_entries subjects byPath (first \<and> i = 0) (ch ! i) \<noteq> []"
  from False obtain k where "?P k" by blast
  then have "?P (LEAST i. ?P i)" by (rule LeastI)
  moreover have "\<And>j. j < (LEAST i. ?P i) \<Longrightarrow> \<not> ?P j" by (rule not_less_Least)
  ultimately show ?thesis using that(2)[of "LEAST i. ?P i"] by (meson less_trans)
qed

lemma resolve_from_owned_mono:
  "privileges (resolve_from subjects byPath False first ch) \<subseteq> privileges (resolve_from subjects byPath True first ch)"
  by (induction ch arbitrary: first) (auto simp: Let_def dest: subsetD[OF combined_owned_mono])

lemma decided_same_owned:
  "decidedBy (resolve_from subjects byPath owned first ch) = decidedBy (resolve_from subjects byPath owned' first ch)"
  by (induction ch arbitrary: first) (auto simp: Let_def)

section \<open>Properties\<close>

text \<open>
  C1: What the entries along a chain of paths give, without the loop: a privilege is held
  exactly when there is a first level with an entry that counts for the subject or its groups
  (above the path itself only propagating ones), and among that level's deciding entries (the
  subject's own, or its groups' if it has none) none says no access and one gives the
  privilege, by its role or, for what the subject owns, by the role's rights on owned objects.
\<close>

theorem resolve_iff:
  "p \<in> privileges (resolve subjects byPath ch owned) \<longleftrightarrow>
     (\<exists>i<length ch. (\<forall>j<i. level_entries subjects byPath (j = 0) (ch ! j) = []) \<and>
        (let deciding = own_first subjects (level_entries subjects byPath (i = 0) (ch ! i)) in
         (\<forall>e\<in>set deciding. en_role e \<noteq> NoAccess) \<and> (\<exists>e\<in>set deciding. p \<in> entry_gives owned e)))"
proof (cases rule: resolve_from_cases[of subjects byPath owned True ch])
  case 1
  then have "own_first subjects (level_entries subjects byPath (i = 0) (ch ! i)) = []" if "i < length ch" for i
    using that by (simp add: own_first_nonempty)
  with 1(2) show ?thesis by (auto simp: resolve_def Let_def)
next
  case (2 k)
  have at: "resolve subjects byPath ch owned =
      (let deciding = own_first subjects (level_entries subjects byPath (k = 0) (ch ! k))
       in \<lparr>privileges = combined owned deciding, decidedBy = deciding\<rparr>)"
    unfolding resolve_def using resolve_from_at[of k ch subjects byPath True owned] 2 by simp
  have only: "i = k" if "i < length ch" "\<forall>j<i. level_entries subjects byPath (j = 0) (ch ! j) = []"
    "\<exists>e\<in>set (own_first subjects (level_entries subjects byPath (i = 0) (ch ! i))). p \<in> entry_gives owned e" for i
  proof (rule linorder_cases[of i k])
    assume "i < k"
    then have "level_entries subjects byPath (i = 0) (ch ! i) = []" using 2(2)[of i] by simp
    then show ?thesis using that(3) by (simp add: own_first_def)
  next
    assume "k < i"
    then show ?thesis using that(2) 2(3) by auto
  qed
  let ?D = "\<lambda>i. own_first subjects (level_entries subjects byPath (i = 0) (ch ! i))"
  let ?Q = "\<lambda>i. (\<forall>e\<in>set (?D i). en_role e \<noteq> NoAccess) \<and> (\<exists>e\<in>set (?D i). p \<in> entry_gives owned e)"
  have "p \<in> privileges (resolve subjects byPath ch owned) \<longleftrightarrow> ?Q k"
    unfolding at Let_def by (simp only: resolution.select_convs combined_iff)
  moreover have "\<forall>j<k. level_entries subjects byPath (j = 0) (ch ! j) = []" using 2(2) by simp
  ultimately show ?thesis unfolding Let_def using only 2(1) by blast
qed

definition audit_entry :: entry where
  "audit_entry = \<lparr>en_id = ''e'', en_path = ''/'', en_subject = ''user:u'', en_role = Auditor, en_propagate = True, en_source = SrcAcl\<rparr>"

lemma audit_level:
  "level_entries [''user:u''] [(''/'', [audit_entry])] own ''/'' = [audit_entry]"
  "own_first [''user:u''] [audit_entry] = [audit_entry]"
  "own_first [''user:u''] [] = []"
  by (simp_all add: level_entries_def own_first_def m_list_def m_get_def audit_entry_def)

lemma audit_above:
  "level_entries [''user:u''] [(''/'', [audit_entry])] own ''/clusters/c'' = []"
  by (simp add: level_entries_def m_list_def m_get_def)

lemma audit_gives:
  "en_role audit_entry \<noteq> NoAccess"
  "''instance.view'' \<in> entry_gives False audit_entry"
  "''instance.power'' \<notin> entry_gives False audit_entry"
  by (simp_all add: entry_gives_def audit_entry_def VIEWS_def PRIVILEGES_def endsWith_def)

theorem resolve_iff_witness:
  "''instance.view'' \<in> privileges (resolve [''user:u''] [(''/'', [audit_entry])] [''/clusters/c'', ''/''] False)
   \<and> ''instance.power'' \<notin> privileges (resolve [''user:u''] [(''/'', [audit_entry])] [''/clusters/c'', ''/''] False)"
  unfolding resolve_iff
  by (simp add: Let_def less_Suc_eq audit_above audit_level audit_gives ex_disj_distrib conj_disj_distribL
      conj_disj_distribR)

end
