(* ===== verification/Paths.thy ===== *)
theory Paths
  imports Js_Data
begin

text \<open>
  \<^verbatim>\<open>acl/paths.ts\<close>: the paths permission entries are put on, their parser and printer, and the
  chain of paths whose entries can decide for one. The two are inverse (\<open>parse_format\<close>), and a
  chain starts at its own path, ends at the root and never repeats a level.
\<close>

datatype acl_path =
    PRoot
  | PPlatform
  | PCluster string
  | PGroup string string
  | PProject string string
  | PInstance string string string
  | PTenant string
  | PKubernetes string string

section \<open>Names\<close>

text \<open>\<open>NAME\<close>: a letter or digit, then at most 62 letters, digits, dots, underscores or dashes.\<close>

definition name_char :: "char \<Rightarrow> bool" where
  "name_char c \<longleftrightarrow> is_alnum c \<or> c \<in> set ''._-''"

definition is_name :: "string \<Rightarrow> bool" where
  "is_name s = (case s of [] \<Rightarrow> False
     | c # cs \<Rightarrow> is_alnum c \<and> length cs \<le> 62 \<and> (\<forall>x\<in>set cs. name_char x))"

section \<open>Parsing and printing\<close>

definition parsePath :: "string \<Rightarrow> acl_path option" where
  "parsePath s =
    (if s = ''/'' then Some PRoot
     else if s = ''/platform'' then Some PPlatform
     else if \<not> startsWith s ''/'' then None
     else
       let parts = split_on CHR ''/'' (drop 1 s); n = length parts; a = parts ! 0 in
       if list_ex (\<lambda>(i, x). i mod 2 = 1 \<and> \<not> is_name x) (enumerate 0 parts) then None
       else if a = ''clusters'' \<and> n = 2 then Some (PCluster (parts ! 1))
       else if a = ''clusters'' \<and> n = 4 \<and> parts ! 2 = ''groups'' then Some (PGroup (parts ! 1) (parts ! 3))
       else if a = ''clusters'' \<and> n = 4 \<and> parts ! 2 = ''projects'' then Some (PProject (parts ! 1) (parts ! 3))
       else if a = ''clusters'' \<and> n = 6 \<and> parts ! 2 = ''projects'' \<and> parts ! 4 = ''instances''
         then Some (PInstance (parts ! 1) (parts ! 3) (parts ! 5))
       else if a = ''tenants'' \<and> n = 2 then Some (PTenant (parts ! 1))
       else if a = ''tenants'' \<and> n = 4 \<and> parts ! 2 = ''kubernetes'' then Some (PKubernetes (parts ! 1) (parts ! 3))
       else None)"

fun formatPath :: "acl_path \<Rightarrow> string" where
  "formatPath PRoot = ''/''"
| "formatPath PPlatform = ''/platform''"
| "formatPath (PCluster c) = ''/clusters/'' @ c"
| "formatPath (PGroup c g) = ''/clusters/'' @ c @ ''/groups/'' @ g"
| "formatPath (PProject c p) = ''/clusters/'' @ c @ ''/projects/'' @ p"
| "formatPath (PInstance c p i) = ''/clusters/'' @ c @ ''/projects/'' @ p @ ''/instances/'' @ i"
| "formatPath (PTenant t) = ''/tenants/'' @ t"
| "formatPath (PKubernetes t n) = ''/tenants/'' @ t @ ''/kubernetes/'' @ n"

section \<open>The chain of deciding paths\<close>

fun chain_depth :: "acl_path \<Rightarrow> nat" where
  "chain_depth (PInstance c p i) = 2"
| "chain_depth (PProject c p) = 1"
| "chain_depth (PGroup c g) = 1"
| "chain_depth (PKubernetes t n) = 1"
| "chain_depth _ = 0"

function chain :: "acl_path \<Rightarrow> (string \<Rightarrow> string \<Rightarrow> string option) \<Rightarrow> string list" where
  "chain PRoot tenantOf = [''/'']"
| "chain PPlatform tenantOf = [formatPath PPlatform, ''/'']"
| "chain (PTenant t) tenantOf = [formatPath (PTenant t), ''/'']"
| "chain (PCluster c) tenantOf = [formatPath (PCluster c), ''/'']"
| "chain (PGroup c g) tenantOf = formatPath (PGroup c g) # chain (PCluster c) tenantOf"
| "chain (PKubernetes t n) tenantOf = formatPath (PKubernetes t n) # chain (PTenant t) tenantOf"
| "chain (PProject c p) tenantOf =
     formatPath (PProject c p)
     # (if truthy (tenantOf c p) then [''/tenants/'' @ the (tenantOf c p)] else [])
     @ chain (PCluster c) tenantOf"
| "chain (PInstance c p i) tenantOf = formatPath (PInstance c p i) # chain (PProject c p) tenantOf"
  by pat_completeness auto
termination
  by (relation "measure (\<lambda>(p, _). chain_depth p)") auto

section \<open>Well-formed paths\<close>

fun path_wf :: "acl_path \<Rightarrow> bool" where
  "path_wf PRoot = True"
| "path_wf PPlatform = True"
| "path_wf (PCluster c) = is_name c"
| "path_wf (PGroup c g) = (is_name c \<and> is_name g)"
| "path_wf (PProject c p) = (is_name c \<and> is_name p)"
| "path_wf (PInstance c p i) = (is_name c \<and> is_name p \<and> is_name i)"
| "path_wf (PTenant t) = is_name t"
| "path_wf (PKubernetes t n) = (is_name t \<and> is_name n)"

lemma name_no_slash: "is_name s \<Longrightarrow> CHR ''/'' \<notin> set s"
  by (auto simp: is_name_def name_char_def is_alnum_def is_digit_def is_upper_def is_lower_def
        cc_def split: list.splits)

lemma name_nonempty: "is_name s \<Longrightarrow> s \<noteq> []"
  by (auto simp: is_name_def)

lemma split_slash_join:
  "xs \<noteq> [] \<Longrightarrow> \<forall>x\<in>set xs. CHR ''/'' \<notin> set x \<Longrightarrow> split_on CHR ''/'' (join_with ''/'' xs) = xs"
  by (rule split_join) auto

text \<open>The segments of each printed path.\<close>

fun path_parts :: "acl_path \<Rightarrow> string list" where
  "path_parts PRoot = [[]]"
| "path_parts PPlatform = [''platform'']"
| "path_parts (PCluster c) = [''clusters'', c]"
| "path_parts (PGroup c g) = [''clusters'', c, ''groups'', g]"
| "path_parts (PProject c p) = [''clusters'', c, ''projects'', p]"
| "path_parts (PInstance c p i) = [''clusters'', c, ''projects'', p, ''instances'', i]"
| "path_parts (PTenant t) = [''tenants'', t]"
| "path_parts (PKubernetes t n) = [''tenants'', t, ''kubernetes'', n]"

lemma format_parts: "formatPath p = ''/'' @ join_with ''/'' (path_parts p)"
  by (cases p) simp_all

lemma split_format:
  assumes "path_wf p"
  shows "split_on CHR ''/'' (drop 1 (formatPath p)) = path_parts p"
proof -
  have "drop 1 (formatPath p) = join_with ''/'' (path_parts p)" by (simp add: format_parts)
  moreover have "split_on CHR ''/'' (join_with ''/'' (path_parts p)) = path_parts p"
    by (rule split_slash_join) (use assms name_no_slash in \<open>cases p; auto\<close>)+
  ultimately show ?thesis by simp
qed

lemma formatPath_inj:
  assumes "formatPath p = formatPath q" and "path_wf p" and "path_wf q"
  shows "p = q"
proof -
  have "path_parts p = path_parts q"
    using assms split_format[of p] split_format[of q] by simp
  then show ?thesis using assms(2,3) name_nonempty by (cases p; cases q) auto
qed

lemma parse_format:
  assumes "path_wf p"
  shows "parsePath (formatPath p) = Some p"
proof (cases "p = PRoot \<or> p = PPlatform")
  case True
  then show ?thesis by (auto simp: parsePath_def)
next
  case False
  have s: "split_on CHR ''/'' (drop 1 (formatPath p)) = path_parts p" by (rule split_format[OF assms])
  have ne: "formatPath p \<noteq> ''/''" "formatPath p \<noteq> ''/platform''"
    using False assms by (cases p; auto)+
  have st: "startsWith (formatPath p) ''/''" by (simp add: format_parts)
  have odd: "\<not> list_ex (\<lambda>(i, x). i mod 2 = 1 \<and> \<not> is_name x) (enumerate 0 (path_parts p))"
    using False assms by (cases p) auto
  show ?thesis
    unfolding parsePath_def s Let_def using ne st odd False by (cases p) simp_all
qed

lemma length_split_2: "length xs = 2 \<Longrightarrow> xs = [xs ! 0, xs ! 1]"
  by (auto simp: numeral_eq_Suc length_Suc_conv)

lemma length_split_4: "length xs = 4 \<Longrightarrow> xs = [xs ! 0, xs ! 1, xs ! 2, xs ! 3]"
  by (auto simp: numeral_eq_Suc length_Suc_conv)

lemma length_split_6: "length xs = 6 \<Longrightarrow> xs = [xs ! 0, xs ! 1, xs ! 2, xs ! 3, xs ! 4, xs ! 5]"
  by (auto simp: numeral_eq_Suc length_Suc_conv)

lemma parse_sound:
  assumes "parsePath s = Some p"
  shows "formatPath p = s \<and> path_wf p"
proof (cases "s = ''/'' \<or> s = ''/platform''")
  case True
  with assms show ?thesis by (auto simp: parsePath_def)
next
  case False
  define parts where "parts = split_on CHR ''/'' (drop 1 s)"
  have st: "startsWith s ''/''" using assms False by (auto simp: parsePath_def split: if_splits)
  then have s: "s = ''/'' @ join_with ''/'' parts"
    unfolding parts_def by (cases s) auto
  have odd: "\<not> list_ex (\<lambda>(i, x). i mod 2 = 1 \<and> \<not> is_name x) (enumerate 0 parts)"
  proof
    assume "list_ex (\<lambda>(i, x). i mod 2 = 1 \<and> \<not> is_name x) (enumerate 0 parts)"
    then have "parsePath s = None" using False st by (simp add: parsePath_def parts_def Let_def)
    with assms show False by simp
  qed
  have ok: "i < length parts \<Longrightarrow> i mod 2 = 1 \<Longrightarrow> is_name (parts ! i)" for i
    using odd by (auto simp: list_ex_iff in_set_enumerate_eq)
  have "parts = path_parts p \<and> p \<noteq> PRoot \<and> p \<noteq> PPlatform"
    using assms False st length_split_2[of parts] length_split_4[of parts] length_split_6[of parts]
    unfolding parsePath_def parts_def[symmetric] by (auto simp: Let_def split: if_splits)
  with s ok show ?thesis
    using ok[of 1] ok[of 3] ok[of 5] by (cases p) (auto simp: format_parts)
qed

section \<open>Facts on chains\<close>

lemma chain_nonempty [simp]: "chain p t \<noteq> []"
  by (cases p) simp_all

lemma hd_chain: "hd (chain p t) = formatPath p"
  by (cases p) simp_all

lemma chain_Cons: "chain p t = formatPath p # tl (chain p t)"
  by (cases p) simp_all

lemma last_chain: "last (chain p t) = ''/''"
  by (cases p) simp_all

text \<open>The chain as paths rather than strings.\<close>

fun chain_paths :: "acl_path \<Rightarrow> (string \<Rightarrow> string \<Rightarrow> string option) \<Rightarrow> acl_path list" where
  "chain_paths PRoot t = [PRoot]"
| "chain_paths PPlatform t = [PPlatform, PRoot]"
| "chain_paths (PTenant x) t = [PTenant x, PRoot]"
| "chain_paths (PCluster c) t = [PCluster c, PRoot]"
| "chain_paths (PGroup c g) t = [PGroup c g, PCluster c, PRoot]"
| "chain_paths (PKubernetes x n) t = [PKubernetes x n, PTenant x, PRoot]"
| "chain_paths (PProject c p) t =
     PProject c p # (if truthy (t c p) then [PTenant (the (t c p))] else []) @ [PCluster c, PRoot]"
| "chain_paths (PInstance c p i) t =
     PInstance c p i # PProject c p # (if truthy (t c p) then [PTenant (the (t c p))] else []) @ [PCluster c, PRoot]"

lemma chain_formats: "chain p t = map formatPath (chain_paths p t)"
  by (cases p) simp_all

lemma distinct_chain_paths: "distinct (chain_paths p t)"
  by (cases p) simp_all

section \<open>Properties\<close>

text \<open>
  Parsing and printing permission paths are inverse to each other: a string parses to a
  path exactly when the path is made of valid names and prints to that string. So every
  accepted string has one reading and no two accepted strings name the same object.
\<close>

theorem parse_iff_format: "parsePath s = Some p \<longleftrightarrow> path_wf p \<and> formatPath p = s"
  using parse_sound parse_format by blast

text \<open>
  The chain of paths that decide for a path starts at the path itself, ends at the root,
  repeats no level, and each of its levels is again a valid path, when the tenants' slugs
  are valid names.
\<close>

theorem chain_levels:
  assumes "path_wf p" and "\<And>c pr t. tenantOf c pr = Some t \<Longrightarrow> is_name t"
  shows "hd (chain p tenantOf) = formatPath p \<and> last (chain p tenantOf) = ''/'' \<and>
    distinct (chain p tenantOf) \<and> (\<forall>x\<in>set (chain p tenantOf). parsePath x \<noteq> None)"
proof -
  have c: "chain p tenantOf = map formatPath (chain_paths p tenantOf)" by (rule chain_formats)
  have wf: "path_wf q" if "q \<in> set (chain_paths p tenantOf)" for q
    using that assms by (cases p) (auto simp: truthy_def split: option.splits if_splits)
  then have "inj_on formatPath (set (chain_paths p tenantOf))" using formatPath_inj by (auto simp: inj_on_def)
  then have "distinct (chain p tenantOf)" unfolding c by (simp add: distinct_map distinct_chain_paths)
  moreover have "parsePath x \<noteq> None" if "x \<in> set (chain p tenantOf)" for x
    using that wf parse_format unfolding c by fastforce
  ultimately show ?thesis using hd_chain last_chain by blast
qed

theorem chain_levels_witness:
  "distinct (chain (PInstance ''c'' ''p'' ''web'') (\<lambda>_ _. Some ''t''))"
proof -
  have "path_wf (PInstance ''c'' ''p'' ''web'')" "is_name ''t''" by code_simp+
  with chain_levels[of "PInstance ''c'' ''p'' ''web''" "\<lambda>_ _. Some ''t''"] show ?thesis by blast
qed

end
