(* ===== verification/Acl.thy ===== *)
theory Acl
  imports Db Resolve Paths
begin

text \<open>
  \<^verbatim>\<open>acl/acl.ts\<close>: the snapshot of the permission tables (\<open>load\<close>), the decision on a path
  (\<open>decide\<close>), and the questions the API asks of it (\<open>can\<close>, \<open>canOnInstance\<close>, \<open>instanceScope\<close>,
  \<open>reach\<close>, \<open>explain\<close>, \<open>sees\<close>), with the snapshot's cache (\<open>acl_snapshot\<close>, \<open>invalidate\<close>). The
  rows of a query without an order are taken in table order.
\<close>

section \<open>Callers\<close>

datatype principal_kind = KUser | KService

text \<open>\<open>Principal\<close> of \<^verbatim>\<open>auth/principal.ts\<close>.\<close>

record principal =
  p_kind :: principal_kind
  p_id :: string
  p_email :: "string option"
  p_name :: string
  p_token :: string
  p_platformRole :: "string option"
  p_tenantId :: "string option"

definition subjectOf :: "principal \<Rightarrow> string" where
  "subjectOf p = (if p_kind p = KService then ''service'' else ''user'') @ '':'' @ p_id p"

section \<open>The snapshot\<close>

fun PLATFORM_ROLE :: "string \<Rightarrow> role_id option" where
  "PLATFORM_ROLE s = map_of [(''admin'', Administrator), (''operator'', Operator), (''viewer'', Auditor)] s"

fun TENANT_ROLE :: "string \<Rightarrow> role_id option" where
  "TENANT_ROLE s = map_of [(''owner'', TenantAdmin), (''admin'', TenantAdmin),
     (''member'', UnrestrictedUser), (''viewer'', Auditor)] s"

record lookup_ids =
  lk_tenantSlugs :: "(string, string) jsmap"
  lk_clusterNames :: "(string, string) jsmap"
  lk_serviceAccounts :: "string set"
  lk_owners :: "string set"

record snapshot =
  sn_at :: int
  sn_entries :: "entry list"
  sn_byPath :: "(string, entry list) jsmap"
  sn_bySubject :: "(string, entry list) jsmap"
  sn_disabled :: "string set"
  sn_tenantOf :: "(string, string) jsmap"
  sn_projectsOf :: "(string, string list) jsmap"
  sn_ids :: lookup_ids
  sn_owners :: "(string, string) jsmap"
  sn_projects :: "string list"
  sn_groupsOf :: "(string, string list) jsmap"
  sn_locatedIn :: "(string, string list) jsmap"
  sn_onGroup :: "(string, string list) jsmap"

text \<open>An explicit entry's subject key.\<close>

definition entrySubject :: "acl_entry_row \<Rightarrow> string" where
  "entrySubject e =
     (if truthy (ae_userId e) then ''user:'' @ the (ae_userId e)
      else if truthy (ae_serviceAccountId e) then ''service:'' @ the (ae_serviceAccountId e)
      else if truthy (ae_groupId e) then ''group:'' @ the (ae_groupId e)
      else ''tenant:'' @ (case ae_tenantGroupId e of None \<Rightarrow> ''null'' | Some t \<Rightarrow> t))"

definition project_path :: "string \<Rightarrow> string \<Rightarrow> string" where
  "project_path cluster project = ''/clusters/'' @ cluster @ ''/projects/'' @ project"

definition instance_path :: "string \<Rightarrow> string \<Rightarrow> string \<Rightarrow> string" where
  "instance_path cluster project name = ''/clusters/'' @ cluster @ ''/projects/'' @ project @ ''/instances/'' @ name"

text \<open>The joined rows of \<open>load\<close>'s queries.\<close>

definition member_rows :: "db \<Rightarrow> (tenant_member_row \<times> string) list" where
  "member_rows d = [(m, te_slug t). m \<leftarrow> db_tenantMembers d, t \<leftarrow> db_tenants d, te_id t = tm_tenantId m]"

definition account_slug :: "db \<Rightarrow> service_account_row \<Rightarrow> string option" where
  "account_slug d a = (case sa_tenantId a of None \<Rightarrow> None
     | Some i \<Rightarrow> map_option te_slug (t_lookup te_id (db_tenants d) i))"

definition place_rows :: "db \<Rightarrow> (string \<times> string \<times> string) list" where
  "place_rows d = [(cl_name c, pl_project p, te_slug t).
     p \<leftarrow> db_placements d, c \<leftarrow> db_clusters d, cl_id c = pl_clusterId p, t \<leftarrow> db_tenants d, te_id t = pl_tenantId p]"

definition owned_rows :: "db \<Rightarrow> (string \<times> instance_owner_row) list" where
  "owned_rows d = [(cl_name c, o'). o' \<leftarrow> db_instanceOwners d, c \<leftarrow> db_clusters d, cl_id c = io_clusterId o']"

definition k8s_rows :: "db \<Rightarrow> (string \<times> k8s_cluster_row) list" where
  "k8s_rows d = [(te_slug t, k). k \<leftarrow> db_k8sClusters d, t \<leftarrow> db_tenants d, te_id t = kc_tenantId k]"

definition located_rows :: "db \<Rightarrow> (string \<times> instance_row) list" where
  "located_rows d = [(cl_name c, i). i \<leftarrow> db_instances d, c \<leftarrow> db_clusters d, cl_id c = in_clusterId i]"

text \<open>The entries: the table's own, and today's platform roles, memberships and service accounts read as entries.\<close>

definition explicit_entries :: "db \<Rightarrow> entry list" where
  "explicit_entries d =
     [\<lparr>en_id = ae_id e, en_path = ae_path e, en_subject = entrySubject e, en_role = the (role_of (ae_role e)),
       en_propagate = ae_propagate e, en_source = SrcAcl\<rparr>. e \<leftarrow> db_aclEntries d, isRoleId (ae_role e)]"

definition role_entries :: "db \<Rightarrow> entry list" where
  "role_entries d =
     [\<lparr>en_id = ''platform-role:'' @ pr_userId r, en_path = ''/'', en_subject = ''user:'' @ pr_userId r,
       en_role = the (PLATFORM_ROLE (pr_role r)), en_propagate = True, en_source = SrcPlatformRole\<rparr>.
       r \<leftarrow> db_platformRoles d, PLATFORM_ROLE (pr_role r) \<noteq> None]"

definition member_entries :: "db \<Rightarrow> entry list" where
  "member_entries d =
     [\<lparr>en_id = ''tenant-membership:'' @ tm_tenantId m @ '':'' @ tm_userId m, en_path = ''/tenants/'' @ slug,
       en_subject = ''user:'' @ tm_userId m, en_role = the (TENANT_ROLE (tm_role m)), en_propagate = True,
       en_source = SrcTenantMembership\<rparr>. (m, slug) \<leftarrow> member_rows d, TENANT_ROLE (tm_role m) \<noteq> None]"

definition account_entries :: "db \<Rightarrow> service_account_row \<Rightarrow> entry list" where
  "account_entries d a =
    (if truthy (account_slug d a)
     then [\<lparr>en_id = ''service-account:'' @ sa_id a, en_path = ''/tenants/'' @ the (account_slug d a),
            en_subject = ''service:'' @ sa_id a, en_role = UnrestrictedUser, en_propagate = True,
            en_source = SrcServiceAccount\<rparr>]
     else if \<not> truthy (sa_tenantId a) \<and> truthy (sa_platformRole a) \<and> PLATFORM_ROLE (the (sa_platformRole a)) \<noteq> None
     then [\<lparr>en_id = ''service-account:'' @ sa_id a, en_path = ''/'', en_subject = ''service:'' @ sa_id a,
            en_role = the (PLATFORM_ROLE (the (sa_platformRole a))), en_propagate = True,
            en_source = SrcServiceAccount\<rparr>]
     else [])"

definition load_entries :: "db \<Rightarrow> entry list" where
  "load_entries d = explicit_entries d @ role_entries d @ member_entries d
     @ concat (map (account_entries d) (db_serviceAccounts d))"

definition load_ids :: "db \<Rightarrow> lookup_ids" where
  "load_ids d = \<lparr>
     lk_tenantSlugs = m_of (map (\<lambda>t. (te_id t, te_slug t)) (db_tenants d)),
     lk_clusterNames = m_of (map (\<lambda>c. (cl_id c, cl_name c)) (db_clusters d)),
     lk_serviceAccounts = set (map sa_id (db_serviceAccounts d)),
     lk_owners = set (map (\<lambda>(m, slug). tm_tenantId m @ '':'' @ tm_userId m)
       (filter (\<lambda>(m, slug). tm_role m = ''owner'') (member_rows d)))\<rparr>"

definition set_owner :: "string \<times> instance_owner_row \<Rightarrow> (string, string) jsmap \<Rightarrow> (string, string) jsmap" where
  "set_owner o' m =
    (let path = instance_path (fst o') (io_project (snd o')) (io_name (snd o')) in
     if truthy (io_userId (snd o')) then m_set m path (''user:'' @ the (io_userId (snd o')))
     else if truthy (io_serviceAccountId (snd o')) then m_set m path (''service:'' @ the (io_serviceAccountId (snd o')))
     else m)"

definition load_owners :: "db \<Rightarrow> (string, string) jsmap" where
  "load_owners d =
     fold (\<lambda>k m. m_set m (''/tenants/'' @ fst k @ ''/kubernetes/'' @ kc_name (snd k)) (kc_createdBy (snd k))) (k8s_rows d)
      (fold set_owner (owned_rows d) [])"

definition load_groupsOf :: "db \<Rightarrow> (string, string list) jsmap" where
  "load_groupsOf d =
     fold (\<lambda>a m. if truthy (sa_tenantId a) then m_push m (''service:'' @ sa_id a) (''tenant:'' @ the (sa_tenantId a)) else m)
       (db_serviceAccounts d)
      (fold (\<lambda>(r, slug) m. m_push m (''user:'' @ tm_userId r) (''tenant:'' @ tm_tenantId r)) (member_rows d)
        (fold (\<lambda>g m. m_push m
            (if truthy (gm_userId g) then ''user:'' @ the (gm_userId g)
             else ''service:'' @ (case gm_serviceAccountId g of None \<Rightarrow> ''null'' | Some a \<Rightarrow> a))
            (''group:'' @ gm_groupId g)) (db_groupMembers d) []))"

text \<open>The Incus cluster groups of each member, and the group paths an instance sits under.\<close>

definition load_groupsAt :: "db \<Rightarrow> (string, string list) jsmap" where
  "load_groupsAt d = m_of [(cl_name c @ ''/'' @ cm_name m, if cm_groups m \<noteq> [] then cm_groups m else [''default'']).
     m \<leftarrow> db_clusterMembers d, c \<leftarrow> db_clusters d, cl_id c = cm_clusterId m]"

definition group_paths :: "(string, string list) jsmap \<Rightarrow> string \<Rightarrow> instance_row \<Rightarrow> string list" where
  "group_paths groupsAt cluster i =
     map (\<lambda>g. ''/clusters/'' @ cluster @ ''/groups/'' @ g) (m_list groupsAt (cluster @ ''/'' @ in_location i))"

definition load_located :: "db \<Rightarrow> (string, string list) jsmap \<times> (string, string list) jsmap" where
  "load_located d =
     fold (\<lambda>(cluster, i) (locatedIn, onGroup).
       let path = instance_path cluster (in_project i) (in_name i);
           gs = group_paths (load_groupsAt d) cluster i in
       if gs = [] then (locatedIn, onGroup)
       else (m_set locatedIn path gs, fold (\<lambda>g m. m_push m g path) gs onGroup))
     (located_rows d) ([], [])"

definition load :: "int \<Rightarrow> db \<Rightarrow> snapshot" where
  "load now d = (let entries = load_entries d; places = place_rows d in \<lparr>
     sn_at = now,
     sn_entries = entries,
     sn_byPath = fold (\<lambda>e m. m_push m (en_path e) e) entries [],
     sn_bySubject = fold (\<lambda>e m. m_push m (en_subject e) e) entries [],
     sn_disabled = set (map (\<lambda>u. ''user:'' @ us_id u) (filter us_disabled (db_users d))
       @ map (\<lambda>a. ''service:'' @ sa_id a) (filter sa_disabled (db_serviceAccounts d))),
     sn_tenantOf = fold (\<lambda>(c, p, slug) m. m_set m (c @ ''/'' @ p) slug) places [],
     sn_projectsOf = fold (\<lambda>(c, p, slug) m. m_push m slug (project_path c p)) places [],
     sn_ids = load_ids d,
     sn_owners = load_owners d,
     sn_projects = uniq (map (\<lambda>(c, p, slug). project_path c p) places
       @ map (\<lambda>(c, i). project_path c (in_project i)) (located_rows d)),
     sn_groupsOf = load_groupsOf d,
     sn_locatedIn = fst (load_located d),
     sn_onGroup = snd (load_located d)\<rparr>)"

section \<open>Decisions\<close>

definition keysOf :: "snapshot \<Rightarrow> string \<Rightarrow> string list" where
  "keysOf s subject = subject # m_list (sn_groupsOf s) subject"

definition chain_of :: "snapshot \<Rightarrow> acl_path \<Rightarrow> string list" where
  "chain_of s p = chain p (\<lambda>c pr. m_get (sn_tenantOf s) (c @ ''/'' @ pr))"

definition is_instance :: "acl_path \<Rightarrow> bool" where
  "is_instance p = (case p of PInstance c pr i \<Rightarrow> True | _ \<Rightarrow> False)"

text \<open>Adds the entries of a side not listed yet.\<close>

definition add_entries :: "entry list \<Rightarrow> entry list \<Rightarrow> entry list" where
  "add_entries acc es = fold (\<lambda>e acc. if e \<in> set acc then acc else acc @ [e]) es acc"

definition decide :: "snapshot \<Rightarrow> string \<Rightarrow> string \<Rightarrow> string option \<Rightarrow> resolution" where
  "decide s subject path owner =
    (case parsePath path of
       None \<Rightarrow> no_resolution
     | Some parsed \<Rightarrow>
         if subject \<in> sn_disabled s then no_resolution
         else
           let owned = ((case owner of Some o' \<Rightarrow> Some o' | None \<Rightarrow> m_get (sn_owners s) path) = Some subject);
               keys = keysOf s subject;
               full = chain_of s parsed;
               sides = (if is_instance parsed then m_list (sn_locatedIn s) path else []) in
           if sides = [] then resolve keys (sn_byPath s) full owned
           else
             let own = resolve keys (sn_byPath s) [path] owned in
             if decidedBy own \<noteq> [] then own
             else
               let results = resolve keys (sn_byPath s) full owned
                     # map (\<lambda>g. resolve keys (sn_byPath s) [path, g] owned) sides in
               \<lparr>privileges = \<Union> (set (map privileges results)),
                decidedBy = fold (\<lambda>r acc. add_entries acc (decidedBy r)) results []\<rparr>)"

section \<open>Questions\<close>

definition acl_privileges :: "snapshot \<Rightarrow> principal \<Rightarrow> string \<Rightarrow> string option \<Rightarrow> privilege set" where
  "acl_privileges s p path owner = privileges (decide s (subjectOf p) path owner)"

definition can :: "snapshot \<Rightarrow> principal \<Rightarrow> privilege \<Rightarrow> string \<Rightarrow> string option \<Rightarrow> bool" where
  "can s p privilege path owner \<longleftrightarrow> privilege \<in> acl_privileges s p path owner"

text \<open>\<open>instancePath\<close>: null for a cluster IncusCloud does not know.\<close>

definition instancePath :: "snapshot \<Rightarrow> string \<Rightarrow> string \<Rightarrow> string \<Rightarrow> string option" where
  "instancePath s clusterId project name =
     (let cluster = m_get (lk_clusterNames (sn_ids s)) clusterId
      in if truthy cluster then Some (instance_path (the cluster) project name) else None)"

record instance_ref =
  ir_clusterId :: "string option"
  ir_project :: string
  ir_name :: string
  ir_tenantId :: "string option"
  ir_createdBy :: "string option"

definition canOnInstance :: "snapshot \<Rightarrow> principal \<Rightarrow> privilege \<Rightarrow> instance_ref \<Rightarrow> bool" where
  "canOnInstance s p privilege row =
    (let slug = (if truthy (ir_tenantId row) then m_get (lk_tenantSlugs (sn_ids s)) (the (ir_tenantId row)) else None);
         placed = (if truthy (ir_clusterId row)
           then instancePath s (the (ir_clusterId row)) (ir_project row) (ir_name row) else None);
         path = (case placed of Some x \<Rightarrow> x
           | None \<Rightarrow> if truthy slug then ''/tenants/'' @ the slug else ''/'');
         mine = (ir_createdBy row = Some (subjectOf p)) in
     can s p privilege path None \<or> (mine \<and> can s p privilege path (Some (subjectOf p))))"

record instance_scope =
  is_projects :: "string list"
  is_exclude :: "string list"
  is_include :: "string list"

text \<open>\<open><cluster>/<project>[/<name>]\<close>, cut out of a path.\<close>

definition scope_key :: "string \<Rightarrow> string" where
  "scope_key path = replace_first ''/instances/'' ''/'' (replace_first ''/projects/'' ''/'' (drop (length ''/clusters/'') path))"

text \<open>
  Single instances: those with entries of the subject or its groups, those on the cluster
  groups it has entries on, and those it owns.
\<close>

definition singled_by :: "snapshot \<Rightarrow> entry \<Rightarrow> string list" where
  "singled_by s e =
    (case parsePath (en_path e) of
       Some (PInstance c pr i) \<Rightarrow> [en_path e]
     | Some (PGroup c g) \<Rightarrow> m_list (sn_onGroup s) (en_path e)
     | _ \<Rightarrow> [])"

definition single_instances :: "snapshot \<Rightarrow> string \<Rightarrow> string list" where
  "single_instances s subject = uniq (
     concat (map (\<lambda>k. concat (map (singled_by s) (m_list (sn_bySubject s) k))) (keysOf s subject))
     @ map fst (filter (\<lambda>(path, owner). owner = subject \<and> startsWith path ''/clusters/'') (sn_owners s)))"

definition scope_projects :: "snapshot \<Rightarrow> string \<Rightarrow> privilege \<Rightarrow> string list" where
  "scope_projects s subject privilege =
     map scope_key (filter (\<lambda>path. privilege \<in> privileges (decide s subject path None)) (sn_projects s))"

definition instanceScope :: "snapshot \<Rightarrow> principal \<Rightarrow> privilege \<Rightarrow> instance_scope" where
  "instanceScope s p privilege =
    (let subject = subjectOf p;
         projects = scope_projects s subject privilege;
         has = (\<lambda>path. privilege \<in> privileges (decide s subject path None));
         covered = (\<lambda>path. before_last CHR ''/'' (scope_key path) \<in> set projects);
         singles = single_instances s subject in
     \<lparr>is_projects = projects,
      is_exclude = map scope_key (filter (\<lambda>path. \<not> has path \<and> covered path) singles),
      is_include = map scope_key (filter (\<lambda>path. has path \<and> \<not> covered path) singles)\<rparr>)"

definition reach :: "snapshot \<Rightarrow> string \<Rightarrow> string \<Rightarrow> privilege set" where
  "reach s subject path =
    (case parsePath path of None \<Rightarrow> {}
     | Some parsed \<Rightarrow> \<Union> (set (map (\<lambda>x. privileges (decide s subject x None)) (chain_of s parsed))))"

definition explain :: "snapshot \<Rightarrow> string \<Rightarrow> string \<Rightarrow> privilege list \<times> entry list" where
  "explain s subject path =
    (let r = decide s subject path None in (sorted_list_of_set (privileges r), decidedBy r))"

text \<open>The slug of a path that is exactly \<open>/tenants/<slug>\<close>.\<close>

definition tenant_only :: "string \<Rightarrow> string option" where
  "tenant_only path =
    (let rest = drop (length ''/tenants/'') path in
     if startsWith path ''/tenants/'' \<and> rest \<noteq> [] \<and> CHR ''/'' \<notin> set rest then Some rest else None)"

definition sees_candidates :: "snapshot \<Rightarrow> string \<Rightarrow> string \<Rightarrow> string list" where
  "sees_candidates s subject path =
    (let below = (\<lambda>x. path = ''/'' \<or> startsWith x (path @ ''/'')) in
     uniq (concat (map (\<lambda>e.
       filter below ([en_path e]
         @ (case tenant_only (en_path e) of None \<Rightarrow> [] | Some t \<Rightarrow> m_list (sn_projectsOf s) t)
         @ m_list (sn_onGroup s) (en_path e)))
       (concat (map (\<lambda>k. m_list (sn_bySubject s) k) (keysOf s subject))))))"

definition sees :: "snapshot \<Rightarrow> principal \<Rightarrow> string \<Rightarrow> bool" where
  "sees s p path =
    (let subject = subjectOf p in
     privileges (decide s subject path None) \<noteq> {} \<or>
     list_ex (\<lambda>x. privileges (decide s subject x None) \<noteq> {}) (sees_candidates s subject path))"

section \<open>The cache\<close>

text \<open>
  The class keeps one snapshot and reloads it once it is \<open>ttl\<close> old; \<open>invalidate\<close> drops it. A
  load that fails (the database's answer is an error) is not kept.
\<close>

definition invalidate :: "snapshot option \<Rightarrow> snapshot option" where
  "invalidate cur = None"

definition acl_snapshot :: "int \<Rightarrow> int \<Rightarrow> db result \<Rightarrow> snapshot option \<Rightarrow> snapshot result \<times> snapshot option" where
  "acl_snapshot ttl now d cur =
    (let reload = (case d of Inl e \<Rightarrow> (Inl e, None) | Inr x \<Rightarrow> (Inr (load now x), Some (load now x))) in
     case cur of
       Some s \<Rightarrow> if now - sn_at s < ttl then (Inr s, Some s) else reload
     | None \<Rightarrow> reload)"

section \<open>Properties of decisions\<close>

text \<open>
  A disabled user or service account holds nothing anywhere, whatever its entries, groups
  and possessions; and nothing is held on a string that is not a permission path.
\<close>

theorem disabled_holds_nothing:
  assumes "subject \<in> sn_disabled s \<or> parsePath path = None"
  shows "privileges (decide s subject path owner) = {} \<and> decidedBy (decide s subject path owner) = []"
  using assms by (auto simp: decide_def split: option.splits)

theorem disabled_holds_nothing_witness:
  "privileges (decide (load 0 empty_db) ''user:u'' ''no path'' None) = {}"
proof -
  have "parsePath ''no path'' = None" by code_simp
  then show ?thesis using disabled_holds_nothing by blast
qed

text \<open>
  On an instance that sits in cluster groups, a decision is the entry on the instance itself
  where there is one; otherwise it is the union of what its project side gives and of what
  each cluster group of its server gives.
\<close>

theorem decide_with_groups:
  assumes "parsePath path = Some (PInstance c pr i)" and "subject \<notin> sn_disabled s"
    and "m_list (sn_locatedIn s) path \<noteq> []"
    and "owned \<longleftrightarrow> (case owner of Some x \<Rightarrow> Some x | None \<Rightarrow> m_get (sn_owners s) path) = Some subject"
  shows "privileges (decide s subject path owner) =
    (if level_entries (keysOf s subject) (sn_byPath s) True path \<noteq> []
     then combined owned (own_first (keysOf s subject) (level_entries (keysOf s subject) (sn_byPath s) True path))
     else privileges (resolve (keysOf s subject) (sn_byPath s) (chain_of s (PInstance c pr i)) owned)
       \<union> (\<Union>g\<in>set (m_list (sn_locatedIn s) path). privileges (resolve (keysOf s subject) (sn_byPath s) [path, g] owned)))"
proof -
  let ?here = "level_entries (keysOf s subject) (sn_byPath s) True path"
  have own: "resolve (keysOf s subject) (sn_byPath s) [path] owned =
    (if ?here = [] then no_resolution
     else \<lparr>privileges = combined owned (own_first (keysOf s subject) ?here), decidedBy = own_first (keysOf s subject) ?here\<rparr>)"
    by (simp add: resolve_def Let_def)
  show ?thesis
    using assms own own_first_nonempty[of "keysOf s subject" ?here]
    by (simp add: decide_def is_instance_def Let_def)
qed

definition grouped_vm :: string where
  "grouped_vm = ''/clusters/c/projects/p/instances/i''"

definition grouped_snapshot :: snapshot where
  "grouped_snapshot = (load 0 empty_db)\<lparr>
     sn_byPath := [(''/clusters/c/groups/g'', [\<lparr>en_id = ''e'', en_path = ''/clusters/c/groups/g'', en_subject = ''user:u'',
       en_role = Auditor, en_propagate = True, en_source = SrcAcl\<rparr>])],
     sn_disabled := {}, sn_owners := [], sn_groupsOf := [], sn_tenantOf := [],
     sn_locatedIn := [(grouped_vm, [''/clusters/c/groups/g''])]\<rparr>"

theorem decide_with_groups_witness:
  "privileges (decide grouped_snapshot ''user:u'' grouped_vm None) = role_privileges (ROLES Auditor)"
proof -
  have h: "parsePath grouped_vm = Some (PInstance ''c'' ''p'' ''i'')" unfolding grouped_vm_def by code_simp
  have h2: "''user:u'' \<notin> sn_disabled grouped_snapshot" "m_list (sn_locatedIn grouped_snapshot) grouped_vm \<noteq> []"
    by (simp_all add: grouped_snapshot_def m_list_def m_get_def)
  have h3: "False \<longleftrightarrow> (case None of Some x \<Rightarrow> Some x | None \<Rightarrow> m_get (sn_owners grouped_snapshot) grouped_vm) = Some ''user:u''"
    by (simp add: grouped_snapshot_def)
  show ?thesis
    unfolding decide_with_groups[OF h h2 h3]
    by (simp add: grouped_snapshot_def grouped_vm_def keysOf_def level_entries_def m_list_def m_get_def resolve_def Let_def
      own_first_def combined_def entry_gives_def chain_of_def)
qed

text \<open>
  The cached permissions are at most \<open>ttl\<close> old whenever they are used, are those of the
  database when there is no cache, and after \<open>invalidate\<close> the next question reads the database;
  a failed read fails the question and leaves nothing cached.
\<close>

theorem snapshot_fresh:
  assumes "\<And>s. cur = Some s \<Longrightarrow> \<exists>t d0. s = load t d0"
  shows "(acl_snapshot ttl now d cur = (Inr s, c) \<longrightarrow> now - sn_at s < ttl \<or> (\<exists>x. d = Inr x \<and> s = load now x)) \<and>
    acl_snapshot ttl now (Inr x) (invalidate cur) = (Inr (load now x), Some (load now x)) \<and>
    acl_snapshot ttl now (Inl e) (invalidate cur) = (Inl e, None)"
  by (auto simp: acl_snapshot_def invalidate_def Let_def split: option.splits sum.splits if_splits)

theorem snapshot_fresh_witness:
  "acl_snapshot 5000 7 (Inr empty_db) (invalidate (Some (load 0 empty_db))) = (Inr (load 7 empty_db), Some (load 7 empty_db))"
  using snapshot_fresh[of "Some (load 0 empty_db)" 5000 7 "Inr empty_db" "load 7 empty_db" None empty_db UniqueViolation] by blast

end
