(* ===== verification/Acl_Scope.thy ===== *)
theory Acl_Scope
  imports Acl
begin

text \<open>
  What holds of a loaded snapshot (\<open>snap_ok\<close>, by \<open>load_ok\<close>), and the instance lists:
  \<open>visibility\<close> of \<^verbatim>\<open>api/fleet.ts\<close> turns \<open>instanceScope\<close> into the condition the SQL queries
  filter by; the facts here relate that condition to the decision on the instance itself.
\<close>

section \<open>The lists' filter\<close>

text \<open>
  \<open>visibility\<close>: a row is listed when its project is in scope and it is not excluded, or when it
  is included by itself. A scope with neither part lists nothing.
\<close>

definition visibility :: "instance_scope \<Rightarrow> string \<Rightarrow> string \<Rightarrow> string \<Rightarrow> bool" where
  "visibility sc cluster project name =
    (let one = cluster @ ''/'' @ project @ ''/'' @ name;
         whole = (is_projects sc \<noteq> [] \<and> cluster @ ''/'' @ project \<in> set (is_projects sc)
           \<and> (is_exclude sc = [] \<or> one \<notin> set (is_exclude sc)));
         single = (is_include sc \<noteq> [] \<and> one \<in> set (is_include sc))
     in whole \<or> single)"

section \<open>Keys of well-formed paths\<close>

lemma project_path_format: "project_path c p = formatPath (PProject c p)"
  by (simp add: project_path_def)

lemma instance_path_format: "instance_path c p n = formatPath (PInstance c p n)"
  by (simp add: instance_path_def)

lemma parse_project_path: "is_name c \<Longrightarrow> is_name p \<Longrightarrow> parsePath (project_path c p) = Some (PProject c p)"
  by (simp add: project_path_format parse_format del: formatPath.simps)

lemma parse_instance_path:
  "is_name c \<Longrightarrow> is_name p \<Longrightarrow> is_name n \<Longrightarrow> parsePath (instance_path c p n) = Some (PInstance c p n)"
  by (simp add: instance_path_format parse_format del: formatPath.simps)

lemma no_slash_no_start:
  assumes "CHR ''/'' \<notin> set a" and "i < length a" and "p = CHR ''/'' # p'"
  shows "\<not> startsWith (drop i (a @ b)) p"
proof -
  have "drop i (a @ b) = a ! i # drop (Suc i) (a @ b)"
    using assms(2) by (simp add: Cons_nth_drop_Suc[symmetric])
  moreover have "a ! i \<noteq> CHR ''/''" using assms(1,2) by (metis nth_mem)
  ultimately show ?thesis using assms(3) by simp
qed

lemma replace_segment:
  assumes "CHR ''/'' \<notin> set c" and "p = CHR ''/'' # p'"
  shows "replace_first p r (c @ p @ b) = c @ r @ b"
proof (rule replace_first_at)
  show "\<not> startsWith (drop i (c @ p @ b)) p" if "i < length c" for i
    using assms(1) that assms(2) by (rule no_slash_no_start)
qed (use assms(2) in simp)

lemma replace_absent:
  assumes "p \<noteq> []" and "\<And>i. i < length s \<Longrightarrow> \<not> startsWith (drop i s) p"
  shows "replace_first p r s = s"
  using assms(2)
proof (induction s)
  case (Cons x s)
  have "\<not> startsWith (x # s) p" using Cons.prems[of 0] by simp
  moreover have "\<not> startsWith (drop i s) p" if "i < length s" for i
    using Cons.prems[of "Suc i"] that by simp
  ultimately show ?case using Cons.IH by simp
qed (use assms(1) in simp)

text \<open>In \<open><cluster>/<project>\<close> the only slash is followed by no further one.\<close>

lemma one_slash_no_start:
  assumes "CHR ''/'' \<notin> set c" and "CHR ''/'' \<notin> set q" and "i < length (c @ CHR ''/'' # q)"
    and "p = CHR ''/'' # p'" and "CHR ''/'' \<in> set p'"
  shows "\<not> startsWith (drop i (c @ CHR ''/'' # q)) p"
proof
  assume "startsWith (drop i (c @ CHR ''/'' # q)) p"
  then obtain t where t: "drop i (c @ CHR ''/'' # q) = CHR ''/'' # p' @ t"
    using assms(4) by (auto simp: startsWith_iff)
  show False
  proof (cases "i < length c")
    case True
    with assms(1,4) \<open>startsWith _ p\<close> no_slash_no_start[of c i p p'] show False by simp
  next
    case False
    then obtain j where "drop i (c @ CHR ''/'' # q) = drop j (CHR ''/'' # q)" by simp
    with t have "p' @ t = drop j q \<or> CHR ''/'' # p' @ t = drop (j - 1) q" by (cases j) auto
    then have "CHR ''/'' \<in> set q"
    proof
      assume "p' @ t = drop j q"
      with assms(5) have "CHR ''/'' \<in> set (drop j q)" by (metis UnI1 set_append)
      then show ?thesis by (rule in_set_dropD)
    next
      assume "CHR ''/'' # p' @ t = drop (j - 1) q"
      then have "CHR ''/'' \<in> set (drop (j - 1) q)" by (metis list.set_intros(1))
      then show ?thesis by (rule in_set_dropD)
    qed
    with assms(2) show False by contradiction
  qed
qed

lemma first_segment:
  assumes "CHR ''/'' \<notin> set a" and "CHR ''/'' \<notin> set b" and "a @ CHR ''/'' # u = b @ CHR ''/'' # v"
  shows "a = b"
proof -
  have "split_on CHR ''/'' (a @ CHR ''/'' # u) = split_on CHR ''/'' (b @ CHR ''/'' # v)"
    using assms(3) by simp
  with assms(1,2) show ?thesis by (simp add: split_on_append_sep)
qed

lemma replace_instances:
  assumes "CHR ''/'' \<notin> set c" and "CHR ''/'' \<notin> set p"
  shows "replace_first ''/instances/'' ''/'' (c @ ''/'' @ p @ ''/instances/'' @ n) = c @ ''/'' @ p @ ''/'' @ n"
proof (cases "p = ''instances''")
  case True
  with replace_segment[OF assms(1), of "''/instances/''" "''instances/''" "''/''" "''instances/'' @ n"]
  show ?thesis by simp
next
  case False
  have "replace_first ''/instances/'' ''/'' ((c @ ''/'' @ p) @ ''/instances/'' @ n) = (c @ ''/'' @ p) @ ''/'' @ n"
  proof (rule replace_first_at)
    fix i assume i: "i < length (c @ ''/'' @ p)"
    let ?s = "(c @ ''/'' @ p) @ ''/instances/'' @ n"
    from i have "i < length c \<or> i = length c \<or> (\<exists>j<length p. i = length c + 1 + j)"
      by (auto intro: exI[of _ "i - length c - 1"])
    then consider "i < length c" | "i = length c" | j where "j < length p" "i = length c + 1 + j"
      by blast
    then show "\<not> startsWith (drop i ?s) ''/instances/''"
    proof cases
      case 1
      with no_slash_no_start[OF assms(1) 1, of "''/instances/''" "''instances/''" "''/'' @ p @ ''/instances/'' @ n"]
      show ?thesis by simp
    next
      case 2
      show ?thesis
      proof
        assume "startsWith (drop i ?s) ''/instances/''"
        then have "startsWith (p @ CHR ''/'' # ''instances/'' @ n) (''instances/'')" using 2 by simp
        then obtain t where "p @ CHR ''/'' # ''instances/'' @ n = ''instances'' @ CHR ''/'' # t"
          by (auto simp: startsWith_iff)
        from assms(2) _ this have "p = ''instances''" by (rule first_segment) simp
        with False show False by contradiction
      qed
    next
      case 3
      with no_slash_no_start[OF assms(2) 3(1), of "''/instances/''" "''instances/''" "''/instances/'' @ n"]
      show ?thesis by simp
    qed
  qed simp
  then show ?thesis by simp
qed

lemma scope_key_instance:
  assumes "is_name c" and "is_name p"
  shows "scope_key (instance_path c p n) = c @ ''/'' @ p @ ''/'' @ n"
proof -
  have "drop (length ''/clusters/'') (instance_path c p n) = c @ ''/projects/'' @ p @ ''/instances/'' @ n"
    by (simp add: instance_path_def)
  moreover have "replace_first ''/projects/'' ''/'' (c @ ''/projects/'' @ p @ ''/instances/'' @ n)
      = c @ ''/'' @ p @ ''/instances/'' @ n"
    by (rule replace_segment[OF name_no_slash[OF assms(1)]]) simp
  ultimately show ?thesis
    by (simp only: scope_key_def replace_instances[OF name_no_slash[OF assms(1)] name_no_slash[OF assms(2)]])
qed

lemma scope_key_project:
  assumes "is_name c" and "is_name p"
  shows "scope_key (project_path c p) = c @ ''/'' @ p"
proof -
  have "drop (length ''/clusters/'') (project_path c p) = c @ ''/projects/'' @ p @ []"
    by (simp add: project_path_def)
  moreover have "replace_first ''/projects/'' ''/'' (c @ ''/projects/'' @ p @ []) = c @ ''/'' @ p @ []"
    by (rule replace_segment[OF name_no_slash[OF assms(1)]]) simp
  moreover have "replace_first ''/instances/'' ''/'' (c @ CHR ''/'' # p) = c @ CHR ''/'' # p"
  proof (rule replace_absent)
    show "\<not> startsWith (drop i (c @ CHR ''/'' # p)) ''/instances/''" if "i < length (c @ CHR ''/'' # p)" for i
      by (rule one_slash_no_start[OF name_no_slash[OF assms(1)] name_no_slash[OF assms(2)] that,
            where p' = "''instances/''"]) simp_all
  qed simp
  ultimately show ?thesis by (simp add: scope_key_def)
qed

lemma key_before_last: "is_name n \<Longrightarrow> before_last CHR ''/'' (c @ ''/'' @ p @ ''/'' @ n) = c @ ''/'' @ p"
  using before_last_append[of "CHR ''/''" n "c @ ''/'' @ p"] name_no_slash[of n] by simp

lemma scope_key_inj:
  assumes "is_name c" "is_name p" "is_name n" "is_name c'" "is_name p'" "is_name n'"
    and "c @ ''/'' @ p @ ''/'' @ n = c' @ ''/'' @ p' @ ''/'' @ n'"
  shows "c = c' \<and> p = p' \<and> n = n'"
proof -
  have c: "c = c'" using assms name_no_slash by (intro first_segment[of c c' "p @ ''/'' @ n" "p' @ ''/'' @ n'"]) auto
  with assms(7) have "p @ CHR ''/'' # n = p' @ CHR ''/'' # n'" by simp
  moreover from this have "p = p'" using assms name_no_slash by (intro first_segment[of p p' n n']) auto
  ultimately show ?thesis using c by simp
qed

lemma project_key_inj:
  assumes "is_name c" "is_name c'" and "c @ ''/'' @ p = c' @ ''/'' @ p'"
  shows "c = c' \<and> p = p'"
proof -
  have "c = c'" using assms name_no_slash by (intro first_segment[of c c' p p']) auto
  with assms(3) show ?thesis by simp
qed

section \<open>Consistent snapshots\<close>

text \<open>
  What \<open>load\<close> establishes: both indexes hold exactly the entries, the instances' two
  directions of cluster-group membership agree, and the paths it builds parse as what they are.
\<close>

definition is_instance_path :: "string \<Rightarrow> bool" where
  "is_instance_path x = (\<exists>c p n. is_name c \<and> is_name p \<and> is_name n \<and> x = instance_path c p n)"

definition is_project_path :: "string \<Rightarrow> bool" where
  "is_project_path x = (\<exists>c p. is_name c \<and> is_name p \<and> x = project_path c p)"

definition is_group_path :: "string \<Rightarrow> bool" where
  "is_group_path x = (\<exists>c g. is_name c \<and> is_name g \<and> x = formatPath (PGroup c g))"

definition indexed :: "snapshot \<Rightarrow> bool" where
  "indexed s \<longleftrightarrow>
     (\<forall>x. m_list (sn_byPath s) x = filter (\<lambda>e. en_path e = x) (sn_entries s)) \<and>
     (\<forall>k. m_list (sn_bySubject s) k = filter (\<lambda>e. en_subject e = k) (sn_entries s))"

definition snap_ok :: "snapshot \<Rightarrow> bool" where
  "snap_ok s \<longleftrightarrow> indexed s \<and>
     (\<forall>x g. g \<in> set (m_list (sn_locatedIn s) x) \<longrightarrow> x \<in> set (m_list (sn_onGroup s) g) \<and> is_group_path g) \<and>
     (\<forall>x g. x \<in> set (m_list (sn_onGroup s) g) \<longrightarrow> is_instance_path x) \<and>
     (\<forall>x o'. (x, o') \<in> set (sn_owners s) \<longrightarrow> is_instance_path x \<or> startsWith x ''/tenants/'') \<and>
     (\<forall>x\<in>set (sn_projects s). is_project_path x)"

lemma parse_is_instance_path: "is_instance_path x \<longleftrightarrow> (\<exists>c p n. parsePath x = Some (PInstance c p n))"
proof
  assume "is_instance_path x"
  then show "\<exists>c p n. parsePath x = Some (PInstance c p n)"
    by (auto simp: is_instance_path_def parse_instance_path)
next
  assume "\<exists>c p n. parsePath x = Some (PInstance c p n)"
  then obtain c p n where x: "parsePath x = Some (PInstance c p n)" by blast
  from parse_sound[OF x] show "is_instance_path x"
    by (auto simp: is_instance_path_def instance_path_format simp del: formatPath.simps)
qed

lemma parse_is_group_path: "is_group_path g \<Longrightarrow> \<exists>c h. parsePath g = Some (PGroup c h)"
  by (auto simp: is_group_path_def parse_format simp del: formatPath.simps)

lemma set_singled_by:
  "x \<in> set (singled_by s e) \<longleftrightarrow> en_path e = x \<and> is_instance_path x \<or>
     x \<in> set (m_list (sn_onGroup s) (en_path e)) \<and> (\<exists>c g. parsePath (en_path e) = Some (PGroup c g))"
proof (cases "parsePath (en_path e)")
  case None
  then show ?thesis by (auto simp: singled_by_def parse_is_instance_path)
next
  case (Some q)
  then show ?thesis by (cases q) (auto simp: singled_by_def parse_is_instance_path)
qed

lemma in_singles_iff:
  assumes "snap_ok s"
  shows "x \<in> set (single_instances s subject) \<longleftrightarrow>
    (\<exists>e\<in>set (sn_entries s). en_subject e \<in> set (keysOf s subject) \<and>
       (en_path e = x \<and> is_instance_path x \<or>
        x \<in> set (m_list (sn_onGroup s) (en_path e)) \<and> (\<exists>c g. parsePath (en_path e) = Some (PGroup c g)))) \<or>
    (x, subject) \<in> set (sn_owners s) \<and> startsWith x ''/clusters/''"
proof -
  have idx: "m_list (sn_bySubject s) k = filter (\<lambda>e. en_subject e = k) (sn_entries s)" for k
    using assms by (simp add: snap_ok_def indexed_def)
  have owned: "x \<in> set (map fst (filter (\<lambda>(path, owner). owner = subject \<and> startsWith path ''/clusters/'') (sn_owners s)))
      \<longleftrightarrow> (x, subject) \<in> set (sn_owners s) \<and> startsWith x ''/clusters/''"
    by force
  show ?thesis
    unfolding single_instances_def set_uniq set_append Un_iff owned
    by (simp add: idx set_singled_by) blast
qed

lemma chain_of_instance: "chain_of s (PInstance c p n) = instance_path c p n # chain_of s (PProject c p)"
  by (simp add: chain_of_def instance_path_def)

lemma chain_of_project: "chain_of s (PProject c p) = project_path c p # tl (chain_of s (PProject c p))"
  by (simp add: chain_of_def project_path_def)

lemma owner_entry: "m_get m k = Some v \<Longrightarrow> (k, v) \<in> set m"
  by (simp add: m_get_def map_of_SomeD)

lemma project_not_owned:
  assumes "snap_ok s" and "is_name c" and "is_name p"
  shows "m_get (sn_owners s) (project_path c p) = None"
proof (rule ccontr)
  assume "m_get (sn_owners s) (project_path c p) \<noteq> None"
  then obtain v where "(project_path c p, v) \<in> set (sn_owners s)" using owner_entry by fastforce
  with assms(1) have "is_instance_path (project_path c p) \<or> startsWith (project_path c p) ''/tenants/''"
    unfolding snap_ok_def by blast
  moreover have "\<not> startsWith (project_path c p) ''/tenants/''" by (simp add: project_path_def)
  ultimately show False
    using assms(2,3) by (auto simp: parse_is_instance_path parse_project_path)
qed

text \<open>An instance that is not singled out has no entry of the subject on it, on its groups, and is not the subject's.\<close>

lemma unsingled:
  assumes "snap_ok s" and "is_instance_path x" and "x \<notin> set (single_instances s subject)"
  shows "level_entries (keysOf s subject) (sn_byPath s) f x = []"
    and "g \<in> set (m_list (sn_locatedIn s) x) \<Longrightarrow> level_entries (keysOf s subject) (sn_byPath s) f g = []"
    and "m_get (sn_owners s) x \<noteq> Some subject"
proof -
  have idx: "m_list (sn_byPath s) y = filter (\<lambda>e. en_path e = y) (sn_entries s)" for y
    using assms(1) by (simp add: snap_ok_def indexed_def)
  have no: "\<not> (en_path e = x)" if "e \<in> set (sn_entries s)" "en_subject e \<in> set (keysOf s subject)" for e
    using that assms in_singles_iff[OF assms(1), of x subject] by blast
  then show "level_entries (keysOf s subject) (sn_byPath s) f x = []"
    by (auto simp: level_entries_def idx filter_empty_conv)
  show "level_entries (keysOf s subject) (sn_byPath s) f g = []" if g: "g \<in> set (m_list (sn_locatedIn s) x)"
  proof -
    from assms(1) g have "x \<in> set (m_list (sn_onGroup s) g)" and "is_group_path g"
      by (auto simp: snap_ok_def)
    with assms(3) in_singles_iff[OF assms(1), of x subject] parse_is_group_path[of g]
    have "e \<in> set (sn_entries s) \<Longrightarrow> en_subject e \<in> set (keysOf s subject) \<Longrightarrow> en_path e \<noteq> g" for e
      by blast
    then show ?thesis by (auto simp: level_entries_def idx filter_empty_conv)
  qed
  have "startsWith x ''/clusters/''" using assms(2) by (auto simp: is_instance_path_def instance_path_def)
  then show "m_get (sn_owners s) x \<noteq> Some subject"
    using assms(3) in_singles_iff[OF assms(1), of x subject] owner_entry[of "sn_owners s" x subject] by blast
qed

text \<open>The subject's entries on a project all propagate.\<close>

definition project_entries_propagate :: "snapshot \<Rightarrow> string \<Rightarrow> string \<Rightarrow> bool" where
  "project_entries_propagate s subject x =
     (\<forall>e\<in>set (sn_entries s). en_path e = x \<longrightarrow> en_subject e \<in> set (keysOf s subject) \<longrightarrow> en_propagate e)"

lemma decide_like_project:
  assumes ok: "snap_ok s" and names: "is_name c" "is_name p" "is_name n"
    and uns: "instance_path c p n \<notin> set (single_instances s subject)"
    and prg: "project_entries_propagate s subject (project_path c p)"
  shows "privileges (decide s subject (instance_path c p n) None) = privileges (decide s subject (project_path c p) None)"
proof (cases "subject \<in> sn_disabled s")
  case True
  then show ?thesis using names by (simp add: decide_def parse_instance_path parse_project_path)
next
  case False
  let ?x = "instance_path c p n" and ?k = "keysOf s subject" and ?b = "sn_byPath s"
  have inst: "is_instance_path ?x" using names by (auto simp: is_instance_path_def)
  note u = unsingled[OF ok inst uns]
  have idx: "m_list ?b y = filter (\<lambda>e. en_path e = y) (sn_entries s)" for y
    using ok by (simp add: snap_ok_def indexed_def)
  have lvl: "level_entries ?k ?b False (project_path c p) = level_entries ?k ?b True (project_path c p)"
    using prg by (auto simp: level_entries_def idx project_entries_propagate_def intro!: filter_cong)
  obtain rest where rest: "chain_of s (PProject c p) = project_path c p # rest"
    using chain_of_project by blast
  have full: "resolve ?k ?b (chain_of s (PInstance c p n)) False = resolve ?k ?b (chain_of s (PProject c p)) False"
    by (simp add: resolve_def chain_of_instance u(1) rest lvl)
  have proj: "privileges (decide s subject (project_path c p) None) = privileges (resolve ?k ?b (chain_of s (PProject c p)) False)"
    using names False project_not_owned[OF ok names(1,2)]
    by (simp add: decide_def parse_project_path is_instance_def)
  have own: "resolve ?k ?b [?x] False = no_resolution" by (simp add: resolve_def u(1))
  have side: "resolve ?k ?b [?x, g] False = no_resolution" if "g \<in> set (m_list (sn_locatedIn s) ?x)" for g
    using u(1) u(2)[OF that] by (simp add: resolve_def)
  have "privileges (decide s subject ?x None) = privileges (resolve ?k ?b (chain_of s (PInstance c p n)) False)"
    using names False u(3) own side
    by (auto simp: decide_def parse_instance_path is_instance_def Let_def)
  then show ?thesis using proj full by simp
qed

lemma scope_project_iff:
  assumes ok: "snap_ok s" and "is_name c" and "is_name p"
  shows "c @ ''/'' @ p \<in> set (scope_projects s subject privilege) \<longleftrightarrow>
    project_path c p \<in> set (sn_projects s) \<and> privilege \<in> privileges (decide s subject (project_path c p) None)"
    (is "?l \<longleftrightarrow> ?r")
proof
  assume ?l
  then obtain x where x: "x \<in> set (sn_projects s)" "privilege \<in> privileges (decide s subject x None)"
    and key: "c @ ''/'' @ p = scope_key x"
    by (auto simp: scope_projects_def)
  from ok x(1) obtain c' p' where n: "is_name c'" "is_name p'" "x = project_path c' p'"
    by (auto simp: snap_ok_def is_project_path_def)
  with key have "c @ ''/'' @ p = c' @ ''/'' @ p'" by (simp add: scope_key_project)
  with assms(2) n(1) have "c = c' \<and> p = p'" by (rule project_key_inj)
  with x n show ?r by simp
next
  assume ?r
  moreover have "scope_key (project_path c p) = c @ ''/'' @ p" by (rule scope_key_project[OF assms(2,3)])
  ultimately show ?l by (force simp: scope_projects_def)
qed

lemma singles_are_instances:
  assumes "snap_ok s" and "x \<in> set (single_instances s subject)"
  shows "is_instance_path x"
proof -
  have "is_instance_path x" if "(x, subject) \<in> set (sn_owners s)" "startsWith x ''/clusters/''"
  proof -
    have "\<not> startsWith x ''/tenants/''"
      using that(2) by (auto simp: startsWith_iff)
    with assms(1) that(1) show ?thesis by (auto simp: snap_ok_def)
  qed
  with assms show ?thesis by (auto simp: in_singles_iff snap_ok_def)
qed

text \<open>The key of an instance in a list of keys of instance paths.\<close>

lemma key_among:
  assumes "\<And>x. x \<in> set xs \<Longrightarrow> is_instance_path x" and "is_name c" "is_name p" "is_name n"
  shows "c @ ''/'' @ p @ ''/'' @ n \<in> set (map scope_key xs) \<longleftrightarrow> instance_path c p n \<in> set xs"
proof
  assume "c @ ''/'' @ p @ ''/'' @ n \<in> set (map scope_key xs)"
  then obtain x where x: "x \<in> set xs" "c @ ''/'' @ p @ ''/'' @ n = scope_key x" by auto
  from assms(1)[OF x(1)] obtain c' p' n' where n': "is_name c'" "is_name p'" "is_name n'" "x = instance_path c' p' n'"
    by (auto simp: is_instance_path_def)
  with x(2) have "c @ ''/'' @ p @ ''/'' @ n = c' @ ''/'' @ p' @ ''/'' @ n'" by (simp add: scope_key_instance)
  from scope_key_inj[OF assms(2-4) n'(1-3) this] x(1) n'(4) show "instance_path c p n \<in> set xs" by simp
next
  assume "instance_path c p n \<in> set xs"
  then have "scope_key (instance_path c p n) \<in> set (map scope_key xs)" by simp
  then show "c @ ''/'' @ p @ ''/'' @ n \<in> set (map scope_key xs)" using assms(2,3) by (simp add: scope_key_instance)
qed

lemma visibility_decides:
  assumes ok: "snap_ok s" and names: "is_name c" "is_name p" "is_name n"
    and known: "project_path c p \<in> set (sn_projects s)"
    and prg: "project_entries_propagate s (subjectOf pr) (project_path c p)"
  shows "visibility (instanceScope s pr privilege) c p n \<longleftrightarrow> can s pr privilege (instance_path c p n) None"
proof -
  let ?x = "instance_path c p n" and ?sub = "subjectOf pr"
  let ?has = "\<lambda>y. privilege \<in> privileges (decide s ?sub y None)"
  let ?cov = "\<lambda>y. before_last CHR ''/'' (scope_key y) \<in> set (scope_projects s ?sub privilege)"
  let ?sing = "single_instances s ?sub"
  have inst: "y \<in> set ?sing \<Longrightarrow> is_instance_path y" for y using singles_are_instances[OF ok] by blast
  have cov: "?cov ?x \<longleftrightarrow> ?has (project_path c p)"
    using scope_project_iff[OF ok names(1,2)] known names
    by (simp add: scope_key_instance key_before_last del: append_assoc append.simps)
  have proj: "c @ ''/'' @ p \<in> set (scope_projects s ?sub privilege) \<longleftrightarrow> ?has (project_path c p)"
    using scope_project_iff[OF ok names(1,2)] known by simp
  have exc: "c @ ''/'' @ p @ ''/'' @ n \<in> set (is_exclude (instanceScope s pr privilege)) \<longleftrightarrow>
      ?x \<in> set ?sing \<and> \<not> ?has ?x \<and> ?has (project_path c p)"
    using key_among[of "filter (\<lambda>y. \<not> ?has y \<and> ?cov y) ?sing" c p n] inst names cov
    by (simp add: instanceScope_def Let_def)
  have inc: "c @ ''/'' @ p @ ''/'' @ n \<in> set (is_include (instanceScope s pr privilege)) \<longleftrightarrow>
      ?x \<in> set ?sing \<and> ?has ?x \<and> \<not> ?has (project_path c p)"
    using key_among[of "filter (\<lambda>y. ?has y \<and> \<not> ?cov y) ?sing" c p n] inst names cov
    by (simp add: instanceScope_def Let_def)
  have alike: "?x \<notin> set ?sing \<Longrightarrow> ?has ?x = ?has (project_path c p)"
    using decide_like_project[OF ok names _ prg] by simp
  have ps: "is_projects (instanceScope s pr privilege) = scope_projects s ?sub privilege"
    by (simp add: instanceScope_def Let_def)
  have empty: "k \<notin> set xs \<or> xs \<noteq> []" for k :: string and xs by auto
  have "visibility (instanceScope s pr privilege) c p n \<longleftrightarrow>
     (?has (project_path c p) \<and> \<not> (?x \<in> set ?sing \<and> \<not> ?has ?x \<and> ?has (project_path c p))) \<or>
     (?x \<in> set ?sing \<and> ?has ?x \<and> \<not> ?has (project_path c p))"
    unfolding visibility_def Let_def ps proj exc[symmetric] inc[symmetric]
    using empty[of "c @ ''/'' @ p"] empty[of "c @ ''/'' @ p @ ''/'' @ n"] proj by blast
  also have "\<dots> \<longleftrightarrow> ?has ?x" using alike by blast
  finally show ?thesis by (simp add: can_def acl_privileges_def)
qed

section \<open>What a loaded snapshot satisfies\<close>

text \<open>The names the tables hold are names the paths can carry (Incus's own naming rules).\<close>

definition db_names :: "db \<Rightarrow> bool" where
  "db_names d \<longleftrightarrow>
     (\<forall>c\<in>set (db_clusters d). is_name (cl_name c)) \<and>
     (\<forall>p\<in>set (db_placements d). is_name (pl_project p)) \<and>
     (\<forall>o'\<in>set (db_instanceOwners d). is_name (io_project o') \<and> is_name (io_name o')) \<and>
     (\<forall>i\<in>set (db_instances d). is_name (in_project i) \<and> is_name (in_name i)) \<and>
     (\<forall>m\<in>set (db_clusterMembers d). \<forall>g\<in>set (cm_groups m). is_name g)"

lemma m_get_of_mem: "m_get (m_of es) k = Some v \<Longrightarrow> (k, v) \<in> set es"
  by (auto simp: m_get_of dest!: find_mem)

lemma default_is_name: "is_name ''default''"
  by code_simp

lemma group_path_names:
  assumes "db_names d" and "is_name c" and "g \<in> set (group_paths (load_groupsAt d) c i)"
  shows "is_group_path g"
proof -
  obtain h where h: "h \<in> set (m_list (load_groupsAt d) (c @ ''/'' @ in_location i))"
    and g: "g = formatPath (PGroup c h)"
    using assms(3) by (auto simp: group_paths_def)
  from h obtain hs where "m_get (load_groupsAt d) (c @ ''/'' @ in_location i) = Some hs" and "h \<in> set hs"
    by (cases "m_get (load_groupsAt d) (c @ ''/'' @ in_location i)") (simp_all add: m_list_def)
  then obtain m where "m \<in> set (db_clusterMembers d)" and "h \<in> set (if cm_groups m \<noteq> [] then cm_groups m else [''default''])"
    unfolding load_groupsAt_def by (fastforce dest: m_get_of_mem)
  then have "is_name h" using assms(1) default_is_name by (auto simp: db_names_def split: if_splits)
  with assms(2) g show ?thesis by (auto simp: is_group_path_def)
qed

definition located_ok :: "(string, string list) jsmap \<times> (string, string list) jsmap \<Rightarrow> bool" where
  "located_ok lo \<longleftrightarrow>
     (\<forall>x g. g \<in> set (m_list (fst lo) x) \<longrightarrow> x \<in> set (m_list (snd lo) g) \<and> is_group_path g) \<and>
     (\<forall>x g. x \<in> set (m_list (snd lo) g) \<longrightarrow> is_instance_path x)"

lemma m_list_set: "m_list (m_set m k v) k' = (if k' = k then v else m_list m k')"
  by (simp add: m_list_def)

lemma located_step:
  assumes "located_ok (l, o')" and "is_instance_path x" and "\<forall>g\<in>set gs. is_group_path g"
  shows "located_ok (m_set l x gs, fold (\<lambda>g m. m_push m g x) gs o')"
proof -
  have "m_list (fold (\<lambda>g m. m_push m g x) gs o') k = m_list o' k @ map (\<lambda>_. x) (filter (\<lambda>g. g = k) gs)" for k
    by (rule m_list_fold_push[of "\<lambda>g. g" "\<lambda>_. x"])
  with assms show ?thesis by (auto simp: located_ok_def m_list_set)
qed

lemma load_located_ok:
  assumes "db_names d"
  shows "located_ok (load_located d)"
proof -
  have "located_ok (fold (\<lambda>(cluster, i) (locatedIn, onGroup).
       let path = instance_path cluster (in_project i) (in_name i);
           gs = group_paths (load_groupsAt d) cluster i in
       if gs = [] then (locatedIn, onGroup)
       else (m_set locatedIn path gs, fold (\<lambda>g m. m_push m g path) gs onGroup)) rows lo)"
    if "located_ok lo" and "set rows \<subseteq> set (located_rows d)" for rows lo
    using that
  proof (induction rows arbitrary: lo)
    case (Cons r rows)
    obtain c i where r: "r = (c, i)" by (cases r)
    obtain l o' where lo: "lo = (l, o')" by (cases lo)
    have "r \<in> set (located_rows d)" using Cons.prems(2) by simp
    then have names: "is_name c" "is_name (in_project i)" "is_name (in_name i)"
      using assms r by (auto simp: located_rows_def db_names_def)
    then have "is_instance_path (instance_path c (in_project i) (in_name i))" by (auto simp: is_instance_path_def)
    moreover have "\<forall>g\<in>set (group_paths (load_groupsAt d) c i). is_group_path g"
      using group_path_names[OF assms names(1)] by blast
    ultimately show ?case
      using Cons located_step[of l o'] unfolding r lo by (auto simp: Let_def)
  qed simp
  moreover have "located_ok ([], [])" by (simp add: located_ok_def)
  ultimately show ?thesis by (simp add: load_located_def)
qed

lemma m_set_mem: "(x, w) \<in> set (m_set m k v) \<Longrightarrow> (x, w) \<in> set m \<or> x = k \<and> w = v"
  by (induction m k v rule: m_set.induct) (auto split: if_splits)

lemma fold_owners_keys:
  assumes "\<And>r x w m. r \<in> set rows \<Longrightarrow> (x, w) \<in> set (step r m) \<Longrightarrow> (x, w) \<in> set m \<or> P x"
    and "(x, w) \<in> set (fold step rows m)"
  shows "(x, w) \<in> set m \<or> P x"
  using assms
proof (induction rows arbitrary: m)
  case (Cons r rows)
  have "(x, w) \<in> set (step r m) \<or> P x"
    using Cons.IH[of "step r m"] Cons.prems(1)[OF list.set_intros(2)] Cons.prems(2) by simp
  with Cons.prems(1)[of r x w m] show ?case by auto
qed simp

lemma load_owners_paths:
  assumes "db_names d" and "(x, w) \<in> set (load_owners d)"
  shows "is_instance_path x \<or> startsWith x ''/tenants/''"
proof -
  have "(x, w) \<in> set (fold set_owner (owned_rows d) []) \<or> startsWith x ''/tenants/''"
    using assms(2) unfolding load_owners_def
    by (rule fold_owners_keys[rotated]) (auto dest!: m_set_mem)
  moreover have "(x, w) \<in> set [] \<or> is_instance_path x" if "(x, w) \<in> set (fold set_owner (owned_rows d) [])"
    using that
  proof (rule fold_owners_keys[rotated])
    fix r y v m
    assume r: "r \<in> set (owned_rows d)" and m: "(y, v) \<in> set (set_owner r m)"
    have "is_name (fst r)" "is_name (io_project (snd r))" "is_name (io_name (snd r))"
      using r assms(1) by (auto simp: owned_rows_def db_names_def)
    then have "is_instance_path (instance_path (fst r) (io_project (snd r)) (io_name (snd r)))"
      by (auto simp: is_instance_path_def)
    with m show "(y, v) \<in> set m \<or> is_instance_path y"
      by (auto simp: set_owner_def Let_def dest!: m_set_mem split: if_splits)
  qed
  ultimately show ?thesis by auto
qed

lemma load_ok:
  assumes "db_names d"
  shows "snap_ok (load now d)"
proof -
  have "indexed (load now d)"
    by (simp add: indexed_def load_def Let_def m_list_fold_push[where g = "\<lambda>e. e"])
  moreover have "is_project_path x" if "x \<in> set (sn_projects (load now d))" for x
  proof -
    have names: "\<forall>(c, p, t)\<in>set (place_rows d). is_project_path (project_path c p)"
      "\<forall>(c, i)\<in>set (located_rows d). is_project_path (project_path c (in_project i))"
      using assms unfolding place_rows_def located_rows_def db_names_def is_project_path_def by (auto, blast+)
    have "x \<in> (\<lambda>(c, p, t). project_path c p) ` set (place_rows d) \<union> (\<lambda>(c, i). project_path c (in_project i)) ` set (located_rows d)"
      using that by (simp add: load_def Let_def)
    with names show ?thesis by fast
  qed
  ultimately show ?thesis
    using load_located_ok[OF assms] load_owners_paths[OF assms]
    by (auto simp: snap_ok_def located_ok_def load_def Let_def)
qed

section \<open>A small deployment\<close>

text \<open>
  One cluster \<open>c\<close> with the member \<open>n1\<close>, the instances \<open>web\<close> and \<open>db\<close> in its project \<open>p\<close>, and
  the permission entries given. The concrete instances of the properties are stated on it.
\<close>

definition user_entry :: "string \<Rightarrow> string \<Rightarrow> string \<Rightarrow> bool \<Rightarrow> acl_entry_row" where
  "user_entry user path r propagate = \<lparr>ae_id = user @ path, ae_path = path, ae_userId = Some user,
     ae_serviceAccountId = None, ae_groupId = None, ae_tenantGroupId = None, ae_role = r,
     ae_propagate = propagate, ae_createdBy = None, ae_createdAt = 0\<rparr>"

definition a_user :: "string \<Rightarrow> principal" where
  "a_user i = \<lparr>p_kind = KUser, p_id = i, p_email = None, p_name = i, p_token = [], p_platformRole = None,
     p_tenantId = None\<rparr>"

definition small_db :: "acl_entry_row list \<Rightarrow> db" where
  "small_db es = empty_db\<lparr>db_clusters := [a_cluster], db_instances := [an_instance ''web'', an_instance ''db''],
     db_aclEntries := es\<rparr>"

lemmas small_defs = a_cluster_def an_instance_def user_entry_def a_user_def small_db_def

section \<open>The lists against the decisions\<close>

text \<open>
  C2: On a snapshot loaded from tables whose names are valid, the instance lists of the API
  show exactly the instances the caller holds the privilege on, for every caller whose own
  and groups' entries on the instance's project all propagate: the SQL filter built by
  \<open>instanceScope\<close> and \<open>visibility\<close> agrees with \<open>decide\<close> on each row, including instances with
  entries of their own, instances on a cluster group with entries, and owned ones.
\<close>

theorem listed_iff_can:
  assumes "db_names d" and "(c, i) \<in> set (located_rows d)"
    and "project_entries_propagate (load now d) (subjectOf pr) (project_path c (in_project i))"
  shows "visibility (instanceScope (load now d) pr privilege) c (in_project i) (in_name i) \<longleftrightarrow>
    can (load now d) pr privilege (instance_path c (in_project i) (in_name i)) None"
proof (rule visibility_decides)
  show "project_path c (in_project i) \<in> set (sn_projects (load now d))"
    using assms(2) by (force simp: load_def Let_def)
qed (use assms load_ok in \<open>auto simp: located_rows_def db_names_def\<close>)

text \<open>An operator of the project whose access to \<open>db\<close> is taken away sees \<open>web\<close> only.\<close>

definition scoped_db :: db where
  "scoped_db = small_db [user_entry ''u'' ''/clusters/c/projects/p'' ''auditor'' True,
     user_entry ''u'' ''/clusters/c/projects/p/instances/db'' ''no-access'' True]"

theorem listed_iff_can_witness:
  "visibility (instanceScope (load 0 scoped_db) (a_user ''u'') ''instance.view'') ''c'' ''p'' ''web''
   \<and> can (load 0 scoped_db) (a_user ''u'') ''instance.view'' (instance_path ''c'' ''p'' ''web'') None
   \<and> \<not> visibility (instanceScope (load 0 scoped_db) (a_user ''u'') ''instance.view'') ''c'' ''p'' ''db''"
proof -
  have names: "db_names scoped_db" by code_simp
  have rows: "(''c'', an_instance ''web'') \<in> set (located_rows scoped_db)"
    "(''c'', an_instance ''db'') \<in> set (located_rows scoped_db)" by code_simp+
  have prg: "project_entries_propagate (load 0 scoped_db) (subjectOf (a_user ''u'')) (project_path ''c'' ''p'')"
    by code_simp
  have may: "can (load 0 scoped_db) (a_user ''u'') ''instance.view'' (instance_path ''c'' ''p'' ''web'') None"
    "\<not> can (load 0 scoped_db) (a_user ''u'') ''instance.view'' (instance_path ''c'' ''p'' ''db'') None"
    by code_simp+
  have at: "in_project (an_instance n) = ''p''" "in_name (an_instance n) = n" for n
    by (simp_all add: an_instance_def)
  from may listed_iff_can[OF names rows(1), of 0 "a_user ''u''" "''instance.view''"]
    listed_iff_can[OF names rows(2), of 0 "a_user ''u''" "''instance.view''"] prg
  show ?thesis unfolding at by blast
qed

text \<open>
  Without that condition the lists and the decision differ in both directions. With an
  entry on the project that does not propagate, an auditor's lists show \<open>web\<close> although
  \<open>instance.view\<close> on it is refused; and an auditor of the cluster with such an entry of
  \<open>no-access\<close> on the project may open \<open>web\<close> although no list shows it.
\<close>

theorem lists_ignore_propagation:
  "visibility (instanceScope (load 0 (small_db [user_entry ''u'' ''/clusters/c/projects/p'' ''auditor'' False]))
      (a_user ''u'') ''instance.view'') ''c'' ''p'' ''web''
   \<and> \<not> can (load 0 (small_db [user_entry ''u'' ''/clusters/c/projects/p'' ''auditor'' False]))
      (a_user ''u'') ''instance.view'' (instance_path ''c'' ''p'' ''web'') None
   \<and> \<not> visibility (instanceScope (load 0 (small_db [user_entry ''u'' ''/clusters/c'' ''auditor'' True,
        user_entry ''u'' ''/clusters/c/projects/p'' ''no-access'' False]))
      (a_user ''u'') ''instance.view'') ''c'' ''p'' ''web''
   \<and> can (load 0 (small_db [user_entry ''u'' ''/clusters/c'' ''auditor'' True,
        user_entry ''u'' ''/clusters/c/projects/p'' ''no-access'' False]))
      (a_user ''u'') ''instance.view'' (instance_path ''c'' ''p'' ''web'') None"
proof (intro conjI)
qed code_simp+

end
