(* ===== verification/Jobs.thy ===== *)
theory Jobs
  imports Db "HOL-Library.Char_ord" "HOL-Library.List_Lexorder"
begin

text \<open>
  Work done in the background: the leases by which the worker replicas elect a leader
  (\<^verbatim>\<open>reconcile/lease.ts\<close>), the queue (\<^verbatim>\<open>jobs/queue.ts\<close>), the job runner (\<^verbatim>\<open>jobs/runner.ts\<close>), the
  requests for reconciliation (\<^verbatim>\<open>reconcile/requests.ts\<close>) and the reconciler's pass
  (\<^verbatim>\<open>reconcile/worker.ts\<close>). \<open>job_step\<close> is one atomic statement of the API or of a runner against
  the database, so that its reachable states cover every interleaving of replicas.
\<close>

section \<open>Leader leases\<close>

definition lease_expiry :: "int \<Rightarrow> rat \<Rightarrow> int" where
  "lease_expiry now ttlMs = now + max 1 (js_round ttlMs)"

definition acquireLease :: "int \<Rightarrow> db \<Rightarrow> string \<Rightarrow> string \<Rightarrow> rat \<Rightarrow> db \<times> bool" where
  "acquireLease now d name holder ttlMs =
    (let free = (\<lambda>r. le_holder r = holder \<or> le_expiresAt r < now);
         row = \<lparr>le_name = name, le_holder = holder, le_expiresAt = lease_expiry now ttlMs\<rparr>
     in (d\<lparr>db_leases := t_upsert le_name (db_leases d) row
             (\<lambda>r. r\<lparr>le_holder := holder, le_expiresAt := lease_expiry now ttlMs\<rparr>) free\<rparr>,
         case t_lookup le_name (db_leases d) name of None \<Rightarrow> True | Some r \<Rightarrow> free r))"

definition releaseLease :: "db \<Rightarrow> string \<Rightarrow> string \<Rightarrow> db" where
  "releaseLease d name holder =
     d\<lparr>db_leases := filter (\<lambda>r. \<not> (le_name r = name \<and> le_holder r = holder)) (db_leases d)\<rparr>"

section \<open>The queue\<close>

record new_job =
  nj_type :: string
  nj_payload :: "(string, json) jsmap"
  nj_actorType :: string
  nj_actorId :: string
  nj_tenantId :: "string option"
  nj_clusterIds :: "string list option"
  nj_instanceKey :: "string option"

definition active_job :: "job_row \<Rightarrow> bool" where
  "active_job j \<longleftrightarrow> jo_state j = Queued \<or> jo_state j = Running"

text \<open>
  \<open>enqueueJob\<close>: \<open>i\<close> is the identifier the database generates. The table's primary key and its
  partial unique index \<open>jobs_active_instance\<close> (null keys are distinct) refuse the insert.
\<close>

definition job_conflict :: "job_row list \<Rightarrow> job_row \<Rightarrow> bool" where
  "job_conflict rows j \<longleftrightarrow>
     (\<exists>r\<in>set rows. jo_id r = jo_id j \<or>
        (jo_instanceKey j \<noteq> None \<and> jo_instanceKey r = jo_instanceKey j \<and> active_job r))"

definition new_row :: "int \<Rightarrow> string \<Rightarrow> new_job \<Rightarrow> job_row" where
  "new_row now i j = \<lparr>jo_id = i, jo_type = nj_type j, jo_state = Queued,
     jo_progress = \<lparr>jp_stage = ''queued'', jp_percent = None, jp_message = None\<rparr>,
     jo_payload = nj_payload j, jo_result = None, jo_error = [], jo_tenantId = nj_tenantId j,
     jo_clusterIds = (case nj_clusterIds j of None \<Rightarrow> [] | Some xs \<Rightarrow> xs),
     jo_instanceKey = nj_instanceKey j, jo_actorType = nj_actorType j, jo_actorId = nj_actorId j,
     jo_cancelRequested = False, jo_holder = None, jo_heartbeatAt = None, jo_createdAt = now,
     jo_startedAt = None, jo_finishedAt = None\<rparr>"

definition enqueueJob :: "int \<Rightarrow> string \<Rightarrow> db \<Rightarrow> new_job \<Rightarrow> (db \<times> job_row) result" where
  "enqueueJob now i d j =
    (let row = new_row now i j in
     if job_conflict (db_jobs d) row then Inl (ApiError 409 ''busy'' ''Another job is already working on this instance'')
     else Inr (d\<lparr>db_jobs := db_jobs d @ [row]\<rparr>, row))"

section \<open>The runner\<close>

record runner =
  ru_holder :: string
  ru_concurrency :: nat
  ru_leaseMs :: int
  ru_heartbeatMs :: "int option"
  ru_active :: "string list"
  ru_stopped :: bool

definition INTERRUPTED :: string where
  "INTERRUPTED = ''interrupted: the worker running it stopped''"

definition staleMs :: "runner \<Rightarrow> int" where
  "staleMs r = 3 * max (ru_leaseMs r) (case ru_heartbeatMs r of None \<Rightarrow> 0 | Some h \<Rightarrow> h)"

text \<open>Running jobs of other holders (a null holder or heartbeat compares as unknown) without a recent heartbeat.\<close>

definition interrupted_job :: "int \<Rightarrow> runner \<Rightarrow> job_row \<Rightarrow> bool" where
  "interrupted_job now r j \<longleftrightarrow> jo_state j = Running
     \<and> (case jo_holder j of None \<Rightarrow> False | Some h \<Rightarrow> h \<noteq> ru_holder r)
     \<and> (case jo_heartbeatAt j of None \<Rightarrow> False | Some h \<Rightarrow> h < now - staleMs r)"

definition fail_interrupted :: "int \<Rightarrow> runner \<Rightarrow> db \<Rightarrow> db" where
  "fail_interrupted now r d = d\<lparr>db_jobs := t_update (interrupted_job now r)
     (\<lambda>j. j\<lparr>jo_state := Failed, jo_error := INTERRUPTED, jo_finishedAt := Some now\<rparr>) (db_jobs d)\<rparr>"

definition next_queued :: "db \<Rightarrow> job_row option" where
  "next_queued d = (case sort_key jo_createdAt (filter (\<lambda>j. jo_state j = Queued) (db_jobs d)) of
     [] \<Rightarrow> None | j # _ \<Rightarrow> Some j)"

definition claim :: "int \<Rightarrow> string \<Rightarrow> string \<Rightarrow> db \<Rightarrow> db \<times> job_row option" where
  "claim now holder i d =
    (let sel = (\<lambda>j. jo_id j = i \<and> jo_state j = Queued);
         upd = (\<lambda>j. j\<lparr>jo_state := Running, jo_holder := Some holder, jo_startedAt := Some now, jo_heartbeatAt := Some now\<rparr>)
     in (d\<lparr>db_jobs := t_update sel upd (db_jobs d)\<rparr>, map_option upd (find sel (db_jobs d))))"

text \<open>\<open>launch\<close>: the job joins the map of running ones, until its promise settles (\<open>settled\<close>).\<close>

definition launch :: "runner \<Rightarrow> job_row \<Rightarrow> runner" where
  "launch r j = r\<lparr>ru_active := if jo_id j \<in> set (ru_active r) then ru_active r else ru_active r @ [jo_id j]\<rparr>"

definition settled :: "runner \<Rightarrow> string \<Rightarrow> runner" where
  "settled r i = r\<lparr>ru_active := filter (\<lambda>x. x \<noteq> i) (ru_active r)\<rparr>"

definition queued_count :: "db \<Rightarrow> nat" where
  "queued_count d = length (filter (\<lambda>j. jo_state j = Queued) (db_jobs d))"

lemma count_update_less:
  assumes "x \<in> set xs" and "P x" and "sel x" and "\<And>y. sel y \<Longrightarrow> \<not> P (upd y)"
  shows "length (filter P (t_update sel upd xs)) < length (filter P xs)"
proof -
  have le: "length (filter P (t_update sel upd ys)) \<le> length (filter P ys)" for ys
    using assms(4) by (induction ys) (auto simp: t_update_def)
  obtain as bs where xs: "xs = as @ x # bs" using assms(1) by (auto dest: split_list)
  show ?thesis
    using le[of as] le[of bs] assms(2-4) by (simp add: xs t_update_def)
qed

lemma next_queuedD:
  assumes "next_queued d = Some j"
  shows "j \<in> set (db_jobs d)" and "jo_state j = Queued"
proof -
  from assms have "j \<in> set (sort_key jo_createdAt (filter (\<lambda>j. jo_state j = Queued) (db_jobs d)))"
    by (auto simp: next_queued_def split: list.splits simp del: set_sort)
  then show "j \<in> set (db_jobs d)" and "jo_state j = Queued" by auto
qed

lemma claim_next_less:
  assumes "next_queued d = Some j"
  shows "queued_count (fst (claim now holder (jo_id j) d)) < queued_count d"
  unfolding queued_count_def claim_def Let_def
  using count_update_less[OF next_queuedD(1)[OF assms], of "\<lambda>j. jo_state j = Queued"] next_queuedD(2)[OF assms]
  by simp

function tick_loop :: "int \<Rightarrow> db \<Rightarrow> runner \<Rightarrow> db \<times> runner" where
  "tick_loop now d r =
    (if ru_stopped r \<or> \<not> length (ru_active r) < ru_concurrency r then (d, r)
     else case next_queued d of
       None \<Rightarrow> (d, r)
     | Some j \<Rightarrow>
         (case claim now (ru_holder r) (jo_id j) d of
            (d', Some job) \<Rightarrow> tick_loop now d' (launch r job)
          | (d', None) \<Rightarrow> tick_loop now d' r))"
  by pat_completeness auto
termination
  by (relation "measure (\<lambda>(now, d, r). queued_count d)") (auto, (metis claim_next_less fst_conv)+)

declare tick_loop.simps [simp del]

text \<open>\<open>tick\<close>: \<open>beforeTick\<close> is the scheduler's effect on the database; what it throws is only logged.\<close>

definition tick :: "(db \<Rightarrow> db) \<Rightarrow> int \<Rightarrow> db \<Rightarrow> runner \<Rightarrow> db \<times> runner" where
  "tick beforeTick now d r =
    (case acquireLease now d ''jobs'' (ru_holder r) (of_int (ru_leaseMs r)) of
       (d1, False) \<Rightarrow> (d1, r)
     | (d1, True) \<Rightarrow> tick_loop now (beforeTick (fail_interrupted now r d1)) r)"

text \<open>What a handler ends with: its result, or the message it throws.\<close>

datatype outcome = Returned "(string, json) jsmap option" | Threw string

definition set_job :: "string \<Rightarrow> (job_row \<Rightarrow> job_row) \<Rightarrow> db \<Rightarrow> db" where
  "set_job i f d = d\<lparr>db_jobs := t_update (\<lambda>j. jo_id j = i) f (db_jobs d)\<rparr>"

definition finish :: "int \<Rightarrow> string \<Rightarrow> (job_row \<Rightarrow> job_row) \<Rightarrow> db \<Rightarrow> db" where
  "finish now i f d = set_job i (\<lambda>j. (f j)\<lparr>jo_finishedAt := Some now\<rparr>) d"

definition run_end :: "int \<Rightarrow> (string \<Rightarrow> bool) \<Rightarrow> bool \<Rightarrow> bool \<Rightarrow> outcome \<Rightarrow> job_row \<Rightarrow> db \<Rightarrow> db" where
  "run_end now known stopped aborted out job d =
    (if \<not> known (jo_type job)
     then finish now (jo_id job) (\<lambda>j. j\<lparr>jo_state := Failed, jo_error := ''No handler for job type '' @ jo_type job\<rparr>) d
     else case out of
       Returned res \<Rightarrow> finish now (jo_id job)
         (\<lambda>j. j\<lparr>jo_state := Succeeded, jo_result := Some (case res of None \<Rightarrow> [] | Some x \<Rightarrow> x)\<rparr>) d
     | Threw msg \<Rightarrow>
         if stopped then finish now (jo_id job) (\<lambda>j. j\<lparr>jo_state := Failed, jo_error := INTERRUPTED\<rparr>) d
         else if aborted then finish now (jo_id job) (\<lambda>j. j\<lparr>jo_state := Cancelled, jo_error := []\<rparr>) d
         else finish now (jo_id job) (\<lambda>j. j\<lparr>jo_state := Failed, jo_error := take 2000 msg\<rparr>) d)"

text \<open>The heartbeat: its timestamp, and whether a cancel is asked for.\<close>

definition heartbeat :: "int \<Rightarrow> string \<Rightarrow> db \<Rightarrow> db \<times> bool" where
  "heartbeat now i d = (set_job i (\<lambda>j. j\<lparr>jo_heartbeatAt := Some now\<rparr>) d,
     (case find (\<lambda>j. jo_id j = i) (db_jobs d) of None \<Rightarrow> False | Some j \<Rightarrow> jo_cancelRequested j))"

definition set_progress :: "string \<Rightarrow> job_progress \<Rightarrow> db \<Rightarrow> db" where
  "set_progress i p d = set_job i (\<lambda>j. j\<lparr>jo_progress := p\<rparr>) d"

definition clientFor :: "db \<Rightarrow> string \<Rightarrow> cluster_row result" where
  "clientFor d clusterId = (case t_lookup cl_id (db_clusters d) clusterId of
     None \<Rightarrow> Inl (ApiError 404 ''not_found'' ''Cluster not found'') | Some c \<Rightarrow> Inr c)"

text \<open>
  \<open>stop\<close>: nothing is taken any more and every running job is aborted; once all have settled, the
  lease is given up.
\<close>

definition runner_stop :: "runner \<Rightarrow> runner" where
  "runner_stop r = r\<lparr>ru_stopped := True\<rparr>"

definition runner_stopped :: "runner \<Rightarrow> db \<Rightarrow> db" where
  "runner_stopped r d = releaseLease d ''jobs'' (ru_holder r)"

text \<open>The cancel request of \<^verbatim>\<open>api/jobs.ts\<close>: a queued job is cancelled now, a running one is asked to stop.\<close>

definition cancel_queued :: "int \<Rightarrow> string \<Rightarrow> db \<Rightarrow> db \<times> bool" where
  "cancel_queued now i d =
    (let sel = (\<lambda>j. jo_id j = i \<and> jo_state j = Queued)
     in (d\<lparr>db_jobs := t_update sel (\<lambda>j. j\<lparr>jo_state := Cancelled, jo_cancelRequested := True, jo_finishedAt := Some now\<rparr>) (db_jobs d)\<rparr>,
         list_ex sel (db_jobs d)))"

definition cancel_running :: "string \<Rightarrow> db \<Rightarrow> db \<times> bool" where
  "cancel_running i d =
    (let sel = (\<lambda>j. jo_id j = i \<and> jo_state j = Running)
     in (d\<lparr>db_jobs := t_update sel (\<lambda>j. j\<lparr>jo_cancelRequested := True\<rparr>) (db_jobs d)\<rparr>, list_ex sel (db_jobs d)))"

definition cancel_job :: "int \<Rightarrow> string \<Rightarrow> db \<Rightarrow> db result" where
  "cancel_job now i d =
    (case cancel_queued now i d of
       (d1, True) \<Rightarrow> Inr d1
     | (d1, False) \<Rightarrow>
         (case cancel_running i d1 of
            (d2, True) \<Rightarrow> Inr d2
          | (d2, False) \<Rightarrow> Inl (ApiError 409 ''finished'' ''The job has already finished'')))"

section \<open>Requests to reconcile\<close>

datatype reconcile_target = Clusters "string list" | AllClusters | OfTenant string

definition ask :: "int \<Rightarrow> cluster_row \<Rightarrow> cluster_row" where
  "ask now c = c\<lparr>cl_reconcileRequestedAt := Some now, cl_reconcileGeneration := cl_reconcileGeneration c + 1\<rparr>"

definition requestReconcile :: "int \<Rightarrow> db \<Rightarrow> reconcile_target \<Rightarrow> db" where
  "requestReconcile now d target =
    (case target of
       AllClusters \<Rightarrow> d\<lparr>db_clusters := map (ask now) (db_clusters d)\<rparr>
     | Clusters ids \<Rightarrow>
         if ids = [] then d else d\<lparr>db_clusters := t_update (\<lambda>c. cl_id c \<in> set ids) (ask now) (db_clusters d)\<rparr>
     | OfTenant t \<Rightarrow>
         d\<lparr>db_clusters := t_update (\<lambda>c. cl_id c \<in> pl_clusterId ` set (filter (\<lambda>p. pl_tenantId p = t) (db_placements d)))
             (ask now) (db_clusters d)\<rparr>)"

section \<open>The reconciler's pass\<close>

definition due :: "int \<Rightarrow> cluster_row \<Rightarrow> bool" where
  "due staleBefore c \<longleftrightarrow> cl_status c \<noteq> ''disabled'' \<and>
     (cl_reconcileGeneration c > cl_reconciledGeneration c \<or> cl_reconciledAt c = None
      \<or> (case cl_reconciledAt c of None \<Rightarrow> False | Some t \<Rightarrow> t < staleBefore))"

definition mark_reconciled :: "string \<Rightarrow> int \<Rightarrow> db \<Rightarrow> db" where
  "mark_reconciled i generation d = d\<lparr>db_clusters := t_update (\<lambda>c. cl_id c = i)
     (\<lambda>c. c\<lparr>cl_reconciledGeneration := generation,
            cl_reconcileRequestedAt := if cl_reconcileGeneration c = generation then None else cl_reconcileRequestedAt c\<rparr>)
     (db_clusters d)\<rparr>"

text \<open>
  \<open>Worker.tick\<close>: \<open>reconcile\<close> is the effect of visiting a cluster (its errors are logged), \<open>clock\<close>
  gives the time of each lease renewal, and \<open>stopped\<close> says whether the worker was stopped
  before the \<open>n\<close>-th visit. The clusters are visited in the order of their names (C collation).
  The result tells which were visited.
\<close>

fun visit_all :: "(string \<Rightarrow> db \<Rightarrow> db) \<Rightarrow> (nat \<Rightarrow> int) \<Rightarrow> (nat \<Rightarrow> bool) \<Rightarrow> string \<Rightarrow> rat \<Rightarrow> nat
    \<Rightarrow> cluster_row list \<Rightarrow> db \<Rightarrow> db \<times> string list \<times> bool" where
  "visit_all reconcile clock stopped holder leaseMs n [] d = (d, [], True)"
| "visit_all reconcile clock stopped holder leaseMs n (c # cs) d =
     (if stopped n then (d, [], False)
      else case acquireLease (clock n) d ''reconciler'' holder leaseMs of
        (d1, False) \<Rightarrow> (d1, [], False)
      | (d1, True) \<Rightarrow>
          (let d2 = mark_reconciled (cl_id c) (cl_reconcileGeneration c) (reconcile (cl_id c) d1)
           in case visit_all reconcile clock stopped holder leaseMs (Suc n) cs d2 of
                (d3, visited, all) \<Rightarrow> (d3, cl_id c # visited, all)))"

definition drop_disabled :: "db \<Rightarrow> db" where
  "drop_disabled d = d\<lparr>db_clusters := t_update (\<lambda>c. cl_status c = ''disabled'' \<and> cl_reconcileRequestedAt c \<noteq> None)
     (\<lambda>c. c\<lparr>cl_reconcileRequestedAt := None, cl_reconciledGeneration := cl_reconcileGeneration c\<rparr>) (db_clusters d)\<rparr>"

definition worker_tick :: "(string \<Rightarrow> db \<Rightarrow> db) \<Rightarrow> (nat \<Rightarrow> int) \<Rightarrow> (nat \<Rightarrow> bool) \<Rightarrow> string \<Rightarrow> rat \<Rightarrow> int
    \<Rightarrow> db \<Rightarrow> db \<times> string list" where
  "worker_tick reconcile clock stopped holder leaseMs intervalMs d =
    (case acquireLease (clock 0) d ''reconciler'' holder leaseMs of
       (d1, False) \<Rightarrow> (d1, [])
     | (d1, True) \<Rightarrow>
         let dues = sort_key cl_name (filter (due (clock 0 - intervalMs)) (db_clusters d1)) in
         case visit_all reconcile clock stopped holder leaseMs 1 dues d1 of
           (d2, visited, all) \<Rightarrow> (if all then drop_disabled d2 else d2, visited))"

section \<open>Interleavings\<close>

text \<open>
  One statement against the database by the API or by one of the runners, in any order: the
  claim of a job is not atomic with the choice of it, so the claimed identifier is arbitrary.
\<close>

inductive job_step :: "(string \<Rightarrow> bool) \<Rightarrow> db \<times> runner list \<Rightarrow> db \<times> runner list \<Rightarrow> bool" for known where
  Enqueue: "enqueueJob now i d j = Inr (d', row) \<Longrightarrow> job_step known (d, rs) (d', rs)"
| Interrupt: "k < length rs \<Longrightarrow> job_step known (d, rs) (fail_interrupted now (rs ! k) d, rs)"
| Claim: "k < length rs \<Longrightarrow> \<not> ru_stopped (rs ! k) \<Longrightarrow> length (ru_active (rs ! k)) < ru_concurrency (rs ! k) \<Longrightarrow>
    claim now (ru_holder (rs ! k)) i d = (d', Some job) \<Longrightarrow>
    job_step known (d, rs) (d', rs[k := launch (rs ! k) job])"
| Beat: "k < length rs \<Longrightarrow> i \<in> set (ru_active (rs ! k)) \<Longrightarrow> job_step known (d, rs) (fst (heartbeat now i d), rs)"
| Progress: "k < length rs \<Longrightarrow> i \<in> set (ru_active (rs ! k)) \<Longrightarrow> job_step known (d, rs) (set_progress i p d, rs)"
| End: "k < length rs \<Longrightarrow> jo_id job \<in> set (ru_active (rs ! k)) \<Longrightarrow>
    job_step known (d, rs) (run_end now known (ru_stopped (rs ! k)) aborted out job d, rs[k := settled (rs ! k) (jo_id job)])"
| CancelQueued: "job_step known (d, rs) (fst (cancel_queued now i d), rs)"
| CancelRunning: "job_step known (d, rs) (fst (cancel_running i d), rs)"
| Halt: "k < length rs \<Longrightarrow> job_step known (d, rs) (d, rs[k := runner_stop (rs ! k)])"
| Release: "k < length rs \<Longrightarrow> ru_stopped (rs ! k) \<Longrightarrow> ru_active (rs ! k) = [] \<Longrightarrow>
    job_step known (d, rs) (runner_stopped (rs ! k) d, rs)"

inductive_cases job_stepE: "job_step known st st'"

text \<open>What a statement may do to a row: keep its identity, and never go back in its life.\<close>

definition evolves :: "job_row \<Rightarrow> job_row \<Rightarrow> bool" where
  "evolves j j' \<longleftrightarrow> jo_id j' = jo_id j \<and> jo_instanceKey j' = jo_instanceKey j \<and>
     (active_job j' \<longrightarrow> active_job j) \<and> (jo_state j' = Queued \<longrightarrow> jo_state j = Queued) \<and>
     (jo_state j' = Running \<longrightarrow>
        (jo_state j = Running \<and> jo_holder j' = jo_holder j \<and> jo_startedAt j' = jo_startedAt j)
        \<or> (jo_holder j' \<noteq> None \<and> jo_startedAt j' \<noteq> None))"

definition jobs_inv :: "job_row list \<Rightarrow> bool" where
  "jobs_inv js \<longleftrightarrow> distinct (map jo_id js) \<and>
     (\<forall>j1\<in>set js. \<forall>j2\<in>set js. active_job j1 \<longrightarrow> active_job j2 \<longrightarrow>
        jo_instanceKey j1 \<noteq> None \<longrightarrow> jo_instanceKey j1 = jo_instanceKey j2 \<longrightarrow> jo_id j1 = jo_id j2) \<and>
     (\<forall>j\<in>set js. jo_state j = Running \<longrightarrow> jo_holder j \<noteq> None \<and> jo_startedAt j \<noteq> None)"

definition started :: "job_row list \<Rightarrow> string \<Rightarrow> bool" where
  "started js i \<longleftrightarrow> (\<exists>j\<in>set js. jo_id j = i \<and> jo_state j \<noteq> Queued)"

definition runners_inv :: "job_row list \<Rightarrow> runner list \<Rightarrow> bool" where
  "runners_inv js rs \<longleftrightarrow>
     (\<forall>k<length rs. distinct (ru_active (rs ! k)) \<and> length (ru_active (rs ! k)) \<le> ru_concurrency (rs ! k) \<and>
        (\<forall>i\<in>set (ru_active (rs ! k)). started js i)) \<and>
     (\<forall>k<length rs. \<forall>l<length rs. k \<noteq> l \<longrightarrow> set (ru_active (rs ! k)) \<inter> set (ru_active (rs ! l)) = {})"

definition job_inv :: "db \<times> runner list \<Rightarrow> bool" where
  "job_inv st \<longleftrightarrow> jobs_inv (db_jobs (fst st)) \<and> runners_inv (db_jobs (fst st)) (snd st)"

lemma evolves_refl [simp]: "evolves j j"
  by (simp add: evolves_def)

lemma map_evolves:
  assumes "\<And>j. evolves j (f j)"
  shows "jobs_inv js \<Longrightarrow> jobs_inv (map f js)"
    and "started js i \<Longrightarrow> started (map f js) i"
    and "runners_inv js rs \<Longrightarrow> runners_inv (map f js) rs"
proof -
  have ids: "map jo_id (map f js) = map jo_id js" using assms by (auto simp: evolves_def)
  have e: "jo_id (f j) = jo_id j" "jo_instanceKey (f j) = jo_instanceKey j" "active_job (f j) \<Longrightarrow> active_job j"
    "jo_state (f j) = Queued \<Longrightarrow> jo_state j = Queued"
    "jo_state (f j) = Running \<Longrightarrow> (jo_state j = Running \<and> jo_holder (f j) = jo_holder j \<and> jo_startedAt (f j) = jo_startedAt j)
        \<or> (jo_holder (f j) \<noteq> None \<and> jo_startedAt (f j) \<noteq> None)" for j
    using assms[of j] unfolding evolves_def by blast+
  show "jobs_inv js \<Longrightarrow> jobs_inv (map f js)"
    unfolding jobs_inv_def ids using e(5) by (auto simp: e(1,2) dest!: e(3)) fastforce+
  have st: "started js i \<Longrightarrow> started (map f js) i" for i
    unfolding started_def using e(1,4) by fastforce
  then show "started js i \<Longrightarrow> started (map f js) i" .
  show "runners_inv js rs \<Longrightarrow> runners_inv (map f js) rs"
    unfolding runners_inv_def using st by blast
qed

lemma job_inv_update:
  assumes "job_inv (d, rs)" and "\<And>j. sel j \<Longrightarrow> evolves j (upd j)"
  shows "job_inv (d\<lparr>db_jobs := t_update sel upd (db_jobs d)\<rparr>, rs)"
proof -
  have ev: "evolves j (if sel j then upd j else j)" for j using assms(2) by simp
  show ?thesis
    using assms(1) map_evolves(1,3)[where f = "\<lambda>j. if sel j then upd j else j", OF ev]
    by (simp add: job_inv_def t_update_def)
qed

lemma job_inv_set_job: "job_inv (d, rs) \<Longrightarrow> (\<And>j. evolves j (f j)) \<Longrightarrow> job_inv (set_job i f d, rs)"
  unfolding set_job_def by (rule job_inv_update)

lemma runners_inv_settled:
  assumes "runners_inv js rs"
  shows "runners_inv js (rs[k := settled (rs ! k) i])"
proof (cases "k < length rs")
  case True
  have len: "length (filter (\<lambda>x. x \<noteq> i) (ru_active (rs ! k))) \<le> ru_concurrency (rs ! k)"
    by (rule order_trans[OF length_filter_le]) (use assms True in \<open>simp add: runners_inv_def\<close>)
  show ?thesis
    using assms True len by (fastforce simp: runners_inv_def settled_def nth_list_update)
next
  case False
  with assms show ?thesis by (simp add: list_update_beyond)
qed

lemma started_unique:
  "jobs_inv js \<Longrightarrow> started js i \<Longrightarrow> j \<in> set js \<Longrightarrow> jo_id j = i \<Longrightarrow> jo_state j \<noteq> Queued"
  by (auto simp: jobs_inv_def started_def distinct_map dest: inj_onD)

lemma claimD:
  assumes "claim now holder i d = (d', Some job)"
  obtains j where "j \<in> set (db_jobs d)" "jo_id j = i" "jo_state j = Queued" "jo_id job = i"
    "d' = d\<lparr>db_jobs := t_update (\<lambda>j. jo_id j = i \<and> jo_state j = Queued)
       (\<lambda>j. j\<lparr>jo_state := Running, jo_holder := Some holder, jo_startedAt := Some now, jo_heartbeatAt := Some now\<rparr>) (db_jobs d)\<rparr>"
  using assms by (auto simp: claim_def Let_def dest!: find_mem)

lemma job_inv_claim:
  assumes inv: "job_inv (d, rs)" and k: "k < length rs" and room: "length (ru_active (rs ! k)) < ru_concurrency (rs ! k)"
    and cl: "claim now holder i d = (d', Some job)"
  shows "job_inv (d', rs[k := launch (rs ! k) job])"
proof -
  from cl obtain j where j: "j \<in> set (db_jobs d)" "jo_id j = i" "jo_state j = Queued" "jo_id job = i"
    and d': "d' = d\<lparr>db_jobs := t_update (\<lambda>j. jo_id j = i \<and> jo_state j = Queued)
       (\<lambda>j. j\<lparr>jo_state := Running, jo_holder := Some holder, jo_startedAt := Some now, jo_heartbeatAt := Some now\<rparr>) (db_jobs d)\<rparr>"
    by (rule claimD)
  have inv': "job_inv (d', rs)" unfolding d' using inv
    by (rule job_inv_update) (auto simp: evolves_def active_job_def)
  have fresh: "i \<notin> set (ru_active (rs ! l))" if "l < length rs" for l
    using inv that started_unique[of "db_jobs d" i j] j by (auto simp: job_inv_def runners_inv_def)
  have st: "started (db_jobs d') i"
    using j(1-3) unfolding started_def d' t_update_def by (intro bexI[of _ "job_row.jo_state_update (\<lambda>_. Running) (j\<lparr>jo_holder := Some holder, jo_startedAt := Some now, jo_heartbeatAt := Some now\<rparr>)"]) (force simp: image_iff)+
  show ?thesis
    using inv' fresh st k room j(4)
    by (auto simp: job_inv_def runners_inv_def launch_def nth_list_update)
qed

lemma job_inv_enqueue:
  assumes "job_inv (d, rs)" and "enqueueJob now i d j = Inr (d', row)"
  shows "job_inv (d', rs)"
proof -
  have new: "\<not> job_conflict (db_jobs d) row" "d' = d\<lparr>db_jobs := db_jobs d @ [row]\<rparr>" "row = new_row now i j"
    using assms(2) by (auto simp: enqueueJob_def Let_def split: if_splits)
  have q: "jo_state row = Queued" by (simp add: new(3) new_row_def)
  have old: "jobs_inv (db_jobs d)" using assms(1) by (simp add: job_inv_def)
  have free: "jo_id r \<noteq> jo_id row" "jo_instanceKey row \<noteq> None \<Longrightarrow> active_job r \<Longrightarrow> jo_instanceKey r \<noteq> jo_instanceKey row"
    if "r \<in> set (db_jobs d)" for r
    using new(1) that by (auto simp: job_conflict_def)
  have "jobs_inv (db_jobs d @ [row])"
    unfolding jobs_inv_def
  proof (intro conjI ballI impI)
    have "jo_id row \<notin> jo_id ` set (db_jobs d)" using free(1) by force
    then show "distinct (map jo_id (db_jobs d @ [row]))" using old by (simp add: jobs_inv_def)
  next
    fix j1 j2 assume j: "j1 \<in> set (db_jobs d @ [row])" "j2 \<in> set (db_jobs d @ [row])" "active_job j1" "active_job j2"
      "jo_instanceKey j1 \<noteq> None" "jo_instanceKey j1 = jo_instanceKey j2"
    have pair: "x \<in> set (db_jobs d) \<Longrightarrow> y \<in> set (db_jobs d) \<Longrightarrow> active_job x \<Longrightarrow> active_job y \<Longrightarrow>
        jo_instanceKey x \<noteq> None \<Longrightarrow> jo_instanceKey x = jo_instanceKey y \<Longrightarrow> jo_id x = jo_id y" for x y
      using old unfolding jobs_inv_def by blast
    from j(1,2) consider "j1 \<in> set (db_jobs d)" "j2 \<in> set (db_jobs d)" | "j1 = row" "j2 = row"
      | "j1 \<in> set (db_jobs d)" "j2 = row" | "j1 = row" "j2 \<in> set (db_jobs d)" by auto
    then show "jo_id j1 = jo_id j2"
    proof cases
      case 1
      then show ?thesis using j pair by blast
    next
      case 3
      then show ?thesis using j free(2)[of j1] by simp
    next
      case 4
      then show ?thesis using j free(2)[of j2] by simp
    qed simp
  next
    fix j1 assume "j1 \<in> set (db_jobs d @ [row])" "jo_state j1 = Running"
    then show "jo_holder j1 \<noteq> None" and "jo_startedAt j1 \<noteq> None" using old q by (auto simp: jobs_inv_def)
  qed
  moreover have "runners_inv (db_jobs d @ [row]) rs"
    using assms(1) by (auto simp: job_inv_def runners_inv_def started_def)
  ultimately show ?thesis by (simp add: job_inv_def new(2))
qed

lemma run_end_evolves:
  obtains f where "run_end now known stopped aborted out job d = set_job (jo_id job) f d"
    and "\<And>j. evolves j (f j)" and "\<And>j. \<not> active_job (f j)"
  by (cases "known (jo_type job)"; cases out; cases stopped; cases aborted)
    (auto simp: run_end_def finish_def evolves_def active_job_def)

lemma job_inv_step:
  assumes "job_step known st st'" and "job_inv st"
  shows "job_inv st'"
  using assms
proof (cases rule: job_step.cases)
  case (Enqueue now i d j d' row rs)
  with assms(2) show ?thesis using job_inv_enqueue by blast
next
  case (Interrupt k rs d now)
  with assms(2) show ?thesis
    unfolding fail_interrupted_def by (auto intro!: job_inv_update simp: evolves_def active_job_def)
next
  case (Claim k rs now i d d' job)
  with assms(2) show ?thesis using job_inv_claim by blast
next
  case (Beat k rs i d now)
  with assms(2) show ?thesis by (auto simp: heartbeat_def evolves_def active_job_def intro!: job_inv_set_job)
next
  case (Progress k rs i d p)
  with assms(2) show ?thesis by (auto simp: set_progress_def evolves_def active_job_def intro!: job_inv_set_job)
next
  case (End k rs job d now aborted out)
  obtain f where f: "run_end now known (ru_stopped (rs ! k)) aborted out job d = set_job (jo_id job) f d"
    "\<And>j. evolves j (f j)" using run_end_evolves by blast
  then have "job_inv (set_job (jo_id job) f d, rs)" using assms(2) End(1) by (auto intro: job_inv_set_job)
  then show ?thesis unfolding End(2) f(1) by (simp add: job_inv_def runners_inv_settled)
next
  case (CancelQueued d rs now i)
  with assms(2) show ?thesis
    by (auto simp: cancel_queued_def Let_def evolves_def active_job_def intro!: job_inv_update)
next
  case (CancelRunning d rs i)
  with assms(2) show ?thesis
    by (auto simp: cancel_running_def Let_def evolves_def active_job_def intro!: job_inv_update)
next
  case (Halt k rs d)
  with assms(2) show ?thesis
    by (auto simp: job_inv_def runners_inv_def runner_stop_def nth_list_update)
next
  case (Release k rs d)
  with assms(2) show ?thesis by (simp add: job_inv_def runner_stopped_def releaseLease_def)
qed

lemma job_inv_steps: "(job_step known)\<^sup>*\<^sup>* st st' \<Longrightarrow> job_inv st \<Longrightarrow> job_inv st'"
  by (induction rule: rtranclp_induct) (auto intro: job_inv_step)

text \<open>No statement removes a job or puts a started one back into the queue.\<close>

lemma started_update:
  assumes "started js i" and "\<And>j. sel j \<Longrightarrow> evolves j (upd j)"
  shows "started (t_update sel upd js) i"
proof -
  have ev: "evolves j (if sel j then upd j else j)" for j using assms(2) by simp
  show ?thesis
    using assms(1) map_evolves(2)[where f = "\<lambda>j. if sel j then upd j else j", OF ev] by (simp add: t_update_def)
qed

lemma started_step:
  assumes "job_step known st st'" and "started (db_jobs (fst st)) i"
  shows "started (db_jobs (fst st')) i"
  using assms
proof (cases rule: job_step.cases)
  case (Enqueue now i' d j d' row rs)
  with assms(2) show ?thesis
    by (auto simp: enqueueJob_def Let_def started_def split: if_splits)
next
  case (Claim k rs now i' d d' job)
  with assms(2) show ?thesis
    by (auto elim!: claimD intro!: started_update simp: evolves_def active_job_def)
next
  case (End k rs job d now aborted out)
  obtain f where f: "run_end now known (ru_stopped (rs ! k)) aborted out job d = set_job (jo_id job) f d"
    "\<And>j. evolves j (f j)" using run_end_evolves by blast
  with End assms(2) show ?thesis by (auto simp: set_job_def intro!: started_update)
next
  case (Release k rs d)
  with assms(2) show ?thesis by (simp add: runner_stopped_def releaseLease_def)
qed (use assms(2) in \<open>auto intro!: started_update
      simp: fail_interrupted_def heartbeat_def set_progress_def set_job_def cancel_queued_def cancel_running_def
        Let_def evolves_def active_job_def\<close>)

lemma started_steps: "(job_step known)\<^sup>*\<^sup>* st st' \<Longrightarrow> started (db_jobs (fst st)) i \<Longrightarrow> started (db_jobs (fst st')) i"
  by (induction rule: rtranclp_induct) (auto intro: started_step)

section \<open>Properties of the queue\<close>

definition fresh_runner :: "string \<Rightarrow> nat \<Rightarrow> runner" where
  "fresh_runner h n = \<lparr>ru_holder = h, ru_concurrency = n, ru_leaseMs = 60000, ru_heartbeatMs = None,
     ru_active = [], ru_stopped = False\<rparr>"

lemma job_inv_init: "db_jobs d = [] \<Longrightarrow> \<forall>r\<in>set rs. ru_active r = [] \<Longrightarrow> job_inv (d, rs)"
  by (simp add: job_inv_def jobs_inv_def runners_inv_def)

text \<open>
  C5: Whatever order the API and any number of runners act in, starting from an empty queue:
  an instance never has two active jobs, a running job always names its holder, no runner
  works on more jobs than its concurrency, and no job is worked on by two runners.
\<close>

theorem queue_safe:
  assumes "(job_step known)\<^sup>*\<^sup>* (d0, rs0) (d, rs)" and "db_jobs d0 = []" and "\<forall>r\<in>set rs0. ru_active r = []"
  shows "(\<forall>j1\<in>set (db_jobs d). \<forall>j2\<in>set (db_jobs d). active_job j1 \<longrightarrow> active_job j2 \<longrightarrow>
       jo_instanceKey j1 \<noteq> None \<longrightarrow> jo_instanceKey j1 = jo_instanceKey j2 \<longrightarrow> j1 = j2) \<and>
     (\<forall>j\<in>set (db_jobs d). jo_state j = Running \<longrightarrow> jo_holder j \<noteq> None \<and> jo_startedAt j \<noteq> None) \<and>
     (\<forall>k<length rs. length (ru_active (rs ! k)) \<le> ru_concurrency (rs ! k)) \<and>
     (\<forall>k<length rs. \<forall>l<length rs. k \<noteq> l \<longrightarrow> set (ru_active (rs ! k)) \<inter> set (ru_active (rs ! l)) = {})"
proof -
  have "job_inv (d, rs)" using job_inv_steps[OF assms(1)] job_inv_init assms(2,3) by blast
  then have js: "jobs_inv (db_jobs d)" and rs: "runners_inv (db_jobs d) rs" by (simp_all add: job_inv_def)
  have same: "j1 \<in> set (db_jobs d) \<Longrightarrow> j2 \<in> set (db_jobs d) \<Longrightarrow> jo_id j1 = jo_id j2 \<Longrightarrow> j1 = j2" for j1 j2
    using js by (auto simp: jobs_inv_def distinct_map dest: inj_onD)
  show ?thesis
    using js rs same unfolding jobs_inv_def runners_inv_def by blast
qed

text \<open>Two jobs for one instance: the second is refused, and the first is worked on by one runner.\<close>

definition a_job :: new_job where
  "a_job = \<lparr>nj_type = ''lease'', nj_payload = [], nj_actorType = ''system'', nj_actorId = ''leases'',
     nj_tenantId = None, nj_clusterIds = None, nj_instanceKey = Some ''C1/p/web''\<rparr>"

definition claimed_db :: db where
  "claimed_db = fst (claim 5 ''w1'' ''j1'' (empty_db\<lparr>db_jobs := [new_row 0 ''j1'' a_job]\<rparr>))"

lemma claimed_reachable:
  "(job_step (\<lambda>_. True))\<^sup>*\<^sup>* (empty_db, [fresh_runner ''w1'' 2, fresh_runner ''w2'' 2])
     (claimed_db, [(fresh_runner ''w1'' 2)\<lparr>ru_active := [''j1'']\<rparr>, fresh_runner ''w2'' 2])"
proof -
  let ?rs = "[fresh_runner ''w1'' 2, fresh_runner ''w2'' 2]" and ?d1 = "empty_db\<lparr>db_jobs := [new_row 0 ''j1'' a_job]\<rparr>"
  have enq: "job_step (\<lambda>_. True) (empty_db, ?rs) (?d1, ?rs)"
    by (rule Enqueue[of 0 "''j1''" _ a_job _ "new_row 0 ''j1'' a_job"])
      (simp add: enqueueJob_def job_conflict_def empty_db_def Let_def)
  have run: "?rs[0 := launch (?rs ! 0) (the (snd (claim 5 ''w1'' ''j1'' ?d1)))]
      = [(fresh_runner ''w1'' 2)\<lparr>ru_active := [''j1'']\<rparr>, fresh_runner ''w2'' 2]"
    by (simp add: launch_def claim_def new_row_def fresh_runner_def)
  have "job_step (\<lambda>_. True) (?d1, ?rs)
      (claimed_db, ?rs[0 := launch (?rs ! 0) (the (snd (claim 5 ''w1'' ''j1'' ?d1)))])"
    by (rule Claim[where now = 5 and i = "''j1''"]) (simp_all add: fresh_runner_def claimed_db_def claim_def new_row_def)
  with enq show ?thesis
    unfolding run by (intro converse_rtranclp_into_rtranclp[of "job_step (\<lambda>_. True)", OF enq] r_into_rtranclp[of "job_step (\<lambda>_. True)"])
qed

theorem queue_safe_witness:
  "enqueueJob 6 ''j2'' claimed_db a_job = Inl (ApiError 409 ''busy'' ''Another job is already working on this instance'')
   \<and> set (ru_active ((fresh_runner ''w1'' 2)\<lparr>ru_active := [''j1'']\<rparr>)) \<inter> set (ru_active (fresh_runner ''w2'' 2)) = {}"
proof -
  have "enqueueJob 6 ''j2'' claimed_db a_job = Inl (ApiError 409 ''busy'' ''Another job is already working on this instance'')"
    by (simp add: enqueueJob_def claimed_db_def claim_def new_row_def job_conflict_def t_update_def active_job_def a_job_def Let_def)
  moreover have "db_jobs empty_db = []" by (simp add: empty_db_def)
  ultimately show ?thesis
    using queue_safe[OF claimed_reachable] by (fastforce simp: fresh_runner_def)
qed

text \<open>
  A job is taken once: after a runner has taken it, no claim of it by any runner succeeds
  any more, whatever happens in between.
\<close>

theorem claimed_once:
  assumes "job_inv (d, rs)" and "k < length rs" and "length (ru_active (rs ! k)) < ru_concurrency (rs ! k)"
    and "claim now (ru_holder (rs ! k)) i d = (d', Some job)"
    and "(job_step known)\<^sup>*\<^sup>* (d', rs[k := launch (rs ! k) job]) (d'', rs'')"
  shows "snd (claim now' holder' i d'') = None"
proof -
  let ?up = "\<lambda>j. j\<lparr>jo_state := Running, jo_holder := Some (ru_holder (rs ! k)), jo_startedAt := Some now, jo_heartbeatAt := Some now\<rparr>"
  obtain j where j: "j \<in> set (db_jobs d)" "jo_id j = i" "jo_state j = Queued"
    and d': "d' = d\<lparr>db_jobs := t_update (\<lambda>j. jo_id j = i \<and> jo_state j = Queued) ?up (db_jobs d)\<rparr>"
    using assms(4) by (rule claimD)
  then have "started (db_jobs d') i"
    unfolding started_def d' t_update_def by (intro bexI[of _ "?up j"]) (force simp: image_iff)+
  then have "started (db_jobs d'') i" using started_steps[OF assms(5)] by simp
  moreover have "job_inv (d'', rs'')"
    using job_inv_steps[OF assms(5)] job_inv_claim[OF assms(1-4)] by simp
  ultimately have "\<forall>j\<in>set (db_jobs d''). jo_id j = i \<longrightarrow> jo_state j \<noteq> Queued"
    using started_unique by (auto simp: job_inv_def)
  then show ?thesis by (auto simp: claim_def Let_def find_None_iff)
qed

theorem claimed_once_witness:
  "snd (claim 9 ''w2'' ''j1'' (fst (cancel_running ''j1'' claimed_db))) = None"
proof -
  let ?d = "empty_db\<lparr>db_jobs := [new_row 0 ''j1'' a_job]\<rparr>" and ?rs = "[fresh_runner ''w1'' 2]"
  have inv: "job_inv (?d, ?rs)"
    by (simp add: job_inv_def jobs_inv_def runners_inv_def new_row_def fresh_runner_def)
  have cl: "claim 5 (ru_holder (?rs ! 0)) ''j1'' ?d = (claimed_db, snd (claim 5 ''w1'' ''j1'' ?d))"
    by (simp add: claimed_db_def fresh_runner_def)
  obtain job where job: "snd (claim 5 ''w1'' ''j1'' ?d) = Some job" by (auto simp: claim_def new_row_def)
  have "(job_step (\<lambda>_. True))\<^sup>*\<^sup>* (claimed_db, ?rs[0 := launch (?rs ! 0) job])
      (fst (cancel_running ''j1'' claimed_db), ?rs[0 := launch (?rs ! 0) job])"
    by (rule r_into_rtranclp) (rule CancelRunning)
  from claimed_once[OF inv _ _ _ this, of 5 "''j1''" 9 "''w2''"] cl job show ?thesis
    by (simp add: fresh_runner_def)
qed

section \<open>Properties of a runner's pass\<close>

lemma claim_next_Some:
  assumes "next_queued d = Some j"
  obtains job where "snd (claim now h (jo_id j) d) = Some job"
  using next_queuedD[OF assms] by (cases "snd (claim now h (jo_id j) d)") (auto simp: claim_def Let_def find_None_iff)

text \<open>
  A pass that is not stopped leaves either the runner full or the queue empty, and takes
  the runner over its concurrency in no case.
\<close>

theorem pass_fills:
  assumes "tick_loop now d r = (d', r')" and "\<not> ru_stopped r" and "length (ru_active r) \<le> ru_concurrency r"
  shows "length (ru_active r') \<le> ru_concurrency r' \<and> (length (ru_active r') = ru_concurrency r' \<or> next_queued d' = None)"
  using assms
proof (induction "queued_count d" arbitrary: d r rule: less_induct)
  case 1: less
  show ?case
  proof (cases "length (ru_active r) < ru_concurrency r")
    case False
    with 1 show ?thesis by (simp add: tick_loop.simps[of now d r])
  next
    case room: True
    show ?thesis
    proof (cases "next_queued d")
      case None
      with 1 room show ?thesis by (auto simp: tick_loop.simps[of now d r])
    next
      case (Some j)
      obtain job where job: "snd (claim now (ru_holder r) (jo_id j) d) = Some job"
        using Some by (rule claim_next_Some)
      obtain d1 where cl: "claim now (ru_holder r) (jo_id j) d = (d1, Some job)"
        using job by (cases "claim now (ru_holder r) (jo_id j) d") simp
      have "tick_loop now d1 (launch r job) = (d', r')"
        using 1(2,3) room Some cl by (simp add: tick_loop.simps[of now d r])
      moreover have "\<not> ru_stopped (launch r job)" "length (ru_active (launch r job)) \<le> ru_concurrency (launch r job)"
        using 1(3) room by (auto simp: launch_def)
      moreover have "queued_count d1 < queued_count d" using claim_next_less[OF Some, of now "ru_holder r"] cl by simp
      ultimately show ?thesis using 1(1)[of d1 "launch r job"] by simp
    qed
  qed
qed

definition two_jobs :: db where
  "two_jobs = empty_db\<lparr>db_jobs := [new_row 1 ''j1'' a_job, new_row 0 ''j2'' (a_job\<lparr>nj_instanceKey := None\<rparr>)]\<rparr>"

theorem pass_fills_witness:
  "length (ru_active (snd (tick_loop 5 two_jobs (fresh_runner ''w1'' 1)))) = 1"
proof -
  have "next_queued (fst (tick_loop 5 two_jobs (fresh_runner ''w1'' 1))) \<noteq> None" by code_simp
  moreover have "ru_concurrency (snd (tick_loop 5 two_jobs (fresh_runner ''w1'' 1))) = 1" by code_simp
  ultimately show ?thesis
    using pass_fills[of 5 two_jobs "fresh_runner ''w1'' 1", OF surjective_pairing] by (auto simp: fresh_runner_def)
qed

section \<open>Properties of the leader lease\<close>

text \<open>What the replicas do with a lease, each at a time of the database's clock.\<close>

datatype lease_op = Acquire string rat | Release_lease string

fun op_holder :: "lease_op \<Rightarrow> string" where
  "op_holder (Acquire h t) = h"
| "op_holder (Release_lease h) = h"

fun lease_run :: "string \<Rightarrow> (int \<times> lease_op) list \<Rightarrow> db \<Rightarrow> db \<times> bool list" where
  "lease_run name [] d = (d, [])"
| "lease_run name ((now, Acquire h t) # ops) d =
     (let (d1, ok) = acquireLease now d name h t; (d2, oks) = lease_run name ops d1 in (d2, ok # oks))"
| "lease_run name ((now, Release_lease h) # ops) d = lease_run name ops (releaseLease d name h)"

abbreviation lock_at :: "db \<Rightarrow> string \<Rightarrow> lease_row option" where
  "lock_at d name \<equiv> t_lookup le_name (db_leases d) name"

lemma lock_at_acquire:
  "lock_at (fst (acquireLease now d name h t)) n =
    (if n = name then Some (case lock_at d name of
        None \<Rightarrow> \<lparr>le_name = name, le_holder = h, le_expiresAt = lease_expiry now t\<rparr>
      | Some r \<Rightarrow> if le_holder r = h \<or> le_expiresAt r < now
          then r\<lparr>le_holder := h, le_expiresAt := lease_expiry now t\<rparr> else r)
     else lock_at d n)"
  unfolding acquireLease_def Let_def by (simp add: locks_tbl.lookup_upsert cong: option.case_cong)

abbreviation held_by :: "string \<Rightarrow> string \<Rightarrow> db \<Rightarrow> bool" where
  "held_by name holder d \<equiv> \<exists>r. lock_at d name = Some r \<and> le_holder r = holder"

text \<open>Who holds a lease renews it and holds it then; who acquires it holds it.\<close>

lemma held_again: "held_by name holder d \<Longrightarrow> snd (acquireLease t d name holder leaseMs)"
  by (auto simp: acquireLease_def)

lemma held_still: "held_by name holder d \<Longrightarrow> held_by name holder (fst (acquireLease t d name holder leaseMs))"
  by (auto simp: lock_at_acquire)

lemma held_acquired: "snd (acquireLease t d name holder leaseMs) \<Longrightarrow> held_by name holder (fst (acquireLease t d name holder leaseMs))"
  using lock_at_acquire[of t d name holder leaseMs name] by (auto simp: acquireLease_def Let_def split: option.splits)

lemma lock_at_release_other:
  assumes "lock_at d name = Some r" and "le_holder r \<noteq> h"
  shows "lock_at (releaseLease d name h) name = Some r"
  using assms by (simp add: releaseLease_def t_lookup_def find_filter)

text \<open>
  C28: Once a replica has a lease it alone is the leader until the lease's end: whatever the
  other replicas do up to then, none of them is told it holds the lease, and it can renew it.
\<close>

theorem lease_exclusive:
  assumes "acquireLease t0 d0 name h ttl = (d1, True)"
    and "\<forall>(t, op)\<in>set ops. op_holder op \<noteq> h \<and> t \<le> t0 + max 1 (js_round ttl)"
    and "lease_run name ops d1 = (d2, oks)"
  shows "True \<notin> set oks \<and> snd (acquireLease t1 d2 name h ttl')"
proof -
  have "\<exists>r. lock_at d1 name = Some r \<and> le_holder r = h \<and> le_expiresAt r = lease_expiry t0 ttl"
    using assms(1) lock_at_acquire[of t0 d0 name h ttl name]
    by (auto simp: acquireLease_def Let_def split: option.splits)
  then obtain r where r: "lock_at d1 name = Some r" "le_holder r = h" "le_expiresAt r = lease_expiry t0 ttl" by blast
  have "True \<notin> set oks \<and> lock_at d2 name = Some r"
    using assms(2,3) r(1)
  proof (induction ops arbitrary: d1 oks)
    case (Cons x ops)
    obtain t op where x: "x = (t, op)" by (cases x)
    show ?case
    proof (cases op)
      case (Acquire h' t')
      obtain d' oks' where run: "lease_run name ops (fst (acquireLease t d1 name h' t')) = (d', oks')" by force
      have busy: "h' \<noteq> h" "\<not> le_expiresAt r < t" using Cons.prems(1) x Acquire r(3) by (auto simp: lease_expiry_def)
      have "lock_at (fst (acquireLease t d1 name h' t')) name = Some r" "\<not> snd (acquireLease t d1 name h' t')"
        using busy r(2) Cons.prems(3) by (simp add: lock_at_acquire) (use busy r(2) Cons.prems(3) in \<open>simp add: acquireLease_def\<close>)
      moreover have "d2 = d'" "oks = snd (acquireLease t d1 name h' t') # oks'"
        using Cons.prems(2) run unfolding x Acquire by (auto simp: case_prod_unfold Let_def)
      ultimately show ?thesis
        using Cons.IH[of "fst (acquireLease t d1 name h' t')" oks'] Cons.prems(1) run by auto
    next
      case (Release_lease h')
      have "lock_at (releaseLease d1 name h') name = Some r"
        using Cons.prems(1,3) x Release_lease r(2) by (intro lock_at_release_other) auto
      then show ?thesis using Cons x Release_lease by auto
    qed
  qed simp
  then show ?thesis using r(2) by (simp add: acquireLease_def)
qed

theorem lease_exclusive_witness:
  "snd (lease_run ''jobs'' [(10, Acquire ''w2'' 60000), (20, Release_lease ''w2''), (60000, Acquire ''w3'' 1)]
     (fst (acquireLease 0 empty_db ''jobs'' ''w1'' 60000))) = [False, False]"
proof -
  let ?ops = "[(10::int, Acquire ''w2'' 60000), (20, Release_lease ''w2''), (60000, Acquire ''w3'' 1)]"
  let ?d = "fst (acquireLease 0 empty_db ''jobs'' ''w1'' 60000)"
  have ok: "acquireLease 0 empty_db ''jobs'' ''w1'' 60000 = (?d, True)"
    by (simp add: acquireLease_def empty_db_def t_lookup_def Let_def)
  have "js_round 60000 = 60000" using js_round_int[of 60000] by simp
  then have "\<forall>(t, op)\<in>set ?ops. op_holder op \<noteq> ''w1'' \<and> t \<le> 0 + max 1 (js_round 60000)" by simp
  from lease_exclusive[OF ok this, of "fst (lease_run ''jobs'' ?ops ?d)" "snd (lease_run ''jobs'' ?ops ?d)"]
  have "True \<notin> set (snd (lease_run ''jobs'' ?ops ?d))" by simp
  moreover have "length (snd (lease_run ''jobs'' ?ops ?d)) = 2" by (simp add: case_prod_unfold Let_def)
  ultimately show ?thesis
    by (cases "snd (lease_run ''jobs'' ?ops ?d)"; cases "tl (snd (lease_run ''jobs'' ?ops ?d))") auto
qed

section \<open>Properties of the reconciler\<close>

definition targets :: "db \<Rightarrow> reconcile_target \<Rightarrow> string \<Rightarrow> bool" where
  "targets d target i = (case target of AllClusters \<Rightarrow> True | Clusters ids \<Rightarrow> i \<in> set ids
     | OfTenant t \<Rightarrow> (\<exists>p\<in>set (db_placements d). pl_tenantId p = t \<and> pl_clusterId p = i))"

lemma request_asks:
  assumes "c \<in> set (db_clusters d)" and "targets d target (cl_id c)"
  shows "ask now c \<in> set (db_clusters (requestReconcile now d target))"
  using assms by (cases target) (force simp: targets_def requestReconcile_def t_update_def)+

text \<open>
  A request for reconciliation made while the reconciler is at work on the cluster is not
  lost: after the pass has recorded the generation it started with, the cluster is still due
  and its request still stands.
\<close>

theorem request_survives_visit:
  assumes "c \<in> set (db_clusters d)" and "cl_status c \<noteq> ''disabled''" and "targets d target (cl_id c)"
    and "generation \<le> cl_reconcileGeneration c"
  shows "\<exists>c'\<in>set (db_clusters (mark_reconciled (cl_id c) generation (requestReconcile now d target))).
    cl_id c' = cl_id c \<and> due staleBefore c' \<and> cl_reconcileRequestedAt c' = Some now"
proof -
  let ?f = "\<lambda>c'. c'\<lparr>cl_reconciledGeneration := generation,
            cl_reconcileRequestedAt := if cl_reconcileGeneration c' = generation then None else cl_reconcileRequestedAt c'\<rparr>"
  have "(if cl_id (ask now c) = cl_id c then ?f (ask now c) else ask now c)
      \<in> set (db_clusters (mark_reconciled (cl_id c) generation (requestReconcile now d target)))"
    using imageI[OF request_asks[OF assms(1,3), of now], of "\<lambda>x. if cl_id x = cl_id c then ?f x else x"]
    unfolding mark_reconciled_def t_update_def by simp
  then have "?f (ask now c) \<in> set (db_clusters (mark_reconciled (cl_id c) generation (requestReconcile now d target)))"
    by (simp add: ask_def)
  then show ?thesis
    by (rule bexI[rotated]) (use assms(2,4) in \<open>simp add: ask_def due_def\<close>)
qed

lemma acquire_clusters [simp]: "db_clusters (fst (acquireLease now d name h t)) = db_clusters d"
  by (simp add: acquireLease_def Let_def)

theorem request_survives_visit_witness:
  "\<exists>c'\<in>set (db_clusters (mark_reconciled ''C1'' 0 (requestReconcile 7 (empty_db\<lparr>db_clusters := [a_cluster]\<rparr>) AllClusters))).
     cl_id c' = ''C1'' \<and> due 0 c' \<and> cl_reconcileRequestedAt c' = Some 7"
  using request_survives_visit[of a_cluster "empty_db\<lparr>db_clusters := [a_cluster]\<rparr>" AllClusters 0 7 0]
  by (simp add: a_cluster_def targets_def)

text \<open>
  A pass of the reconciler that is not stopped visits every cluster that is due at its
  start, in order, provided no other replica takes the leader lease meanwhile.
\<close>

theorem pass_visits_all_due:
  assumes "snd (acquireLease (clock 0) d ''reconciler'' holder leaseMs)"
    and "\<And>n. \<not> stopped n" and "\<And>i d'. db_leases (reconcile i d') = db_leases d'"
  shows "snd (worker_tick reconcile clock stopped holder leaseMs intervalMs d)
    = map cl_id (sort_key cl_name (filter (due (clock 0 - intervalMs)) (db_clusters d)))"
proof -
  have all: "held_by ''reconciler'' holder d' \<Longrightarrow> fst (snd (visit_all reconcile clock stopped holder leaseMs n cs d')) = map cl_id cs" for n cs d'
  proof (induction cs arbitrary: n d')
    case (Cons c cs)
    let ?a = "acquireLease (clock n) d' ''reconciler'' holder leaseMs"
    let ?d2 = "mark_reconciled (cl_id c) (cl_reconcileGeneration c) (reconcile (cl_id c) (fst ?a))"
    have "db_leases ?d2 = db_leases (fst ?a)" by (simp add: mark_reconciled_def assms(3))
    then have "held_by ''reconciler'' holder ?d2" using held_still[OF Cons.prems, of "clock n"] by simp
    moreover have "snd ?a" by (rule held_again[OF Cons.prems])
    ultimately show ?case
      using Cons.IH[of ?d2 "Suc n"] assms(2) by (simp add: case_prod_unfold Let_def split: bool.splits)
  qed simp
  from all[OF held_acquired[OF assms(1)]] show ?thesis
    using assms(1) by (auto simp: worker_tick_def case_prod_unfold Let_def acquireLease_def split: bool.splits)
qed

theorem pass_visits_all_due_witness:
  "snd (worker_tick (\<lambda>i d. d) (\<lambda>n. int n) (\<lambda>n. False) ''w1'' 30000 60000 (empty_db\<lparr>db_clusters := [a_cluster]\<rparr>)) = [''C1'']"
proof -
  let ?d = "empty_db\<lparr>db_clusters := [a_cluster]\<rparr>"
  have "snd (acquireLease (int 0) ?d ''reconciler'' ''w1'' 30000)"
    by (simp add: acquireLease_def empty_db_def t_lookup_def)
  then show ?thesis
    using pass_visits_all_due[of int ?d "''w1''" 30000 "\<lambda>n. False" "\<lambda>i d. d" 60000]
    by (simp add: due_def a_cluster_def)
qed

end
