(* ===== verification/Owners.thy ===== *)
theory Owners
  imports Db Paths "HOL-Library.Char_ord" "HOL-Library.List_Lexorder"
begin

text \<open>
  \<^verbatim>\<open>acl/owners.ts\<close> and \<^verbatim>\<open>acl/entries.ts\<close>: who an instance belongs to, and the permission
  entries on paths that move or go away. Every operation takes the database and returns the
  changed one; \<open>now\<close> is the clock it reads. A better source of an owner is never overwritten by
  a worse one (\<open>record_rank_mono\<close>), and the backfill gives every unclaimed instance of a tenant
  to the tenant's first owner without touching a claimed one.
\<close>

section \<open>Owners\<close>

fun RANK :: "owner_source \<Rightarrow> nat" where
  "RANK Backfill = 0"
| "RANK Event = 1"
| "RANK Incuscloud = 2"

text \<open>The columns of a subject \<open>user:<id>\<close> or \<open>service:<id>\<close>.\<close>

definition owner_columns :: "string \<Rightarrow> string option \<times> string option" where
  "owner_columns subject =
    (let parts = split_on CHR '':'' subject;
         ident = (if length parts > 1 then Some (parts ! 1) else None)
     in if parts ! 0 = ''service'' then (None, ident) else (ident, None))"

definition recordOwner :: "int \<Rightarrow> db \<Rightarrow> instance_key \<Rightarrow> string \<Rightarrow> owner_source \<Rightarrow> db" where
  "recordOwner now d k subject source =
    (let cols = owner_columns subject;
         row = \<lparr>io_clusterId = ik_clusterId k, io_project = ik_project k, io_name = ik_name k,
           io_userId = fst cols, io_serviceAccountId = snd cols, io_source = source, io_createdAt = now\<rparr> in
     d\<lparr>db_instanceOwners := t_upsert owner_key (db_instanceOwners d) row
         (\<lambda>r. r\<lparr>io_userId := io_userId row, io_serviceAccountId := io_serviceAccountId row,
                io_source := source, io_createdAt := now\<rparr>)
         (\<lambda>r. source \<noteq> Backfill \<and> RANK (io_source r) \<le> RANK source)\<rparr>)"

definition renameOwned :: "db \<Rightarrow> instance_key \<Rightarrow> instance_key \<Rightarrow> db result" where
  "renameOwned d from to =
     map_sum id (\<lambda>rows. d\<lparr>db_instanceOwners := rows\<rparr>)
       (t_rekey owner_key (db_instanceOwners d) from to
         (\<lambda>r. r\<lparr>io_clusterId := ik_clusterId to, io_project := ik_project to, io_name := ik_name to\<rparr>))"

definition forgetOwned :: "db \<Rightarrow> instance_key \<Rightarrow> db" where
  "forgetOwned d k = d\<lparr>db_instanceOwners := t_remove owner_key (db_instanceOwners d) k\<rparr>"

definition ownerOf :: "db \<Rightarrow> instance_key \<Rightarrow> string option" where
  "ownerOf d k =
    (case t_lookup owner_key (db_instanceOwners d) k of
       None \<Rightarrow> None
     | Some r \<Rightarrow>
         if truthy (io_userId r) then Some (''user:'' @ the (io_userId r))
         else if truthy (io_serviceAccountId r) then Some (''service:'' @ the (io_serviceAccountId r))
         else None)"

text \<open>
  \<open>backfillOwners\<close>: the cluster's instances in tenant projects that have no owner row, each given
  to its tenant's first owner; \<open>firstOwner\<close> remembers the answer per tenant, an answer of
  null too.
\<close>

definition orphans :: "db \<Rightarrow> string \<Rightarrow> (instance_key \<times> string) list" where
  "orphans d clusterId =
     [(\<lparr>ik_clusterId = clusterId, ik_project = in_project i, ik_name = in_name i\<rparr>, pl_tenantId p).
       i \<leftarrow> db_instances d, in_clusterId i = clusterId,
       p \<leftarrow> db_placements d, pl_clusterId p = in_clusterId i \<and> pl_project p = in_project i,
       t_lookup owner_key (db_instanceOwners d)
         \<lparr>ik_clusterId = in_clusterId i, ik_project = in_project i, ik_name = in_name i\<rparr> = None]"

definition first_owner :: "db \<Rightarrow> string \<Rightarrow> string option" where
  "first_owner d tenantId =
    (case sort_key tm_createdAt (sort_key tm_userId
        (filter (\<lambda>m. tm_tenantId m = tenantId \<and> tm_role m = ''owner'') (db_tenantMembers d))) of
       [] \<Rightarrow> None
     | m # _ \<Rightarrow> Some (tm_userId m))"

definition backfill_step :: "int \<Rightarrow> instance_key \<times> string \<Rightarrow> db \<times> nat \<times> (string, string option) jsmap
    \<Rightarrow> db \<times> nat \<times> (string, string option) jsmap" where
  "backfill_step now o' st =
    (case st of (d, n, firstOwner) \<Rightarrow>
     let firstOwner' = (case m_get firstOwner (snd o') of
           None \<Rightarrow> m_set firstOwner (snd o') (first_owner d (snd o')) | Some _ \<Rightarrow> firstOwner);
         owner = the (m_get firstOwner' (snd o')) in
     if \<not> truthy owner then (d, n, firstOwner')
     else (recordOwner now d (fst o') (''user:'' @ the owner) Backfill, n + 1, firstOwner'))"

definition backfillOwners :: "int \<Rightarrow> db \<Rightarrow> string \<Rightarrow> db \<times> nat" where
  "backfillOwners now d clusterId =
     (case fold (backfill_step now) (orphans d clusterId) (d, 0, []) of (d', n, _) \<Rightarrow> (d', n))"

definition actorOf :: "string option \<Rightarrow> string option \<Rightarrow> string option" where
  "actorOf actorType actorId =
     (if (actorType = Some ''user'' \<or> actorType = Some ''service'') \<and> truthy actorId
      then Some (the actorType @ '':'' @ the actorId) else None)"

definition carryOwner :: "int \<Rightarrow> db \<Rightarrow> instance_key \<Rightarrow> instance_key \<Rightarrow> bool \<Rightarrow> db" where
  "carryOwner now d from to move =
    (case t_lookup owner_key (db_instanceOwners d) from of
       None \<Rightarrow> d
     | Some r \<Rightarrow>
         let rows = t_remove owner_key (db_instanceOwners d) to
               @ [\<lparr>io_clusterId = ik_clusterId to, io_project = ik_project to, io_name = ik_name to,
                   io_userId = io_userId r, io_serviceAccountId = io_serviceAccountId r,
                   io_source = Incuscloud, io_createdAt = now\<rparr>]
         in d\<lparr>db_instanceOwners := if move then t_remove owner_key rows from else rows\<rparr>)"

section \<open>Entries of objects that move or go away\<close>

definition entriesUnder :: "string \<Rightarrow> acl_entry_row \<Rightarrow> bool" where
  "entriesUnder path e \<longleftrightarrow> ae_path e = path \<or> startsWith (ae_path e) (path @ ''/'')"

text \<open>
  \<open>moveEntries\<close>. The table has a unique index on the path, subject and role of an entry
  (\<^verbatim>\<open>db/schema.ts\<close> \<open>aclEntries\<close>, nulls not distinct); a move onto an existing entry is refused.
\<close>

definition entry_key :: "acl_entry_row \<Rightarrow> string \<times> string option \<times> string option \<times> string option \<times> string option \<times> string" where
  "entry_key e = (ae_path e, ae_userId e, ae_serviceAccountId e, ae_groupId e, ae_tenantGroupId e, ae_role e)"

definition moveEntries :: "db \<Rightarrow> string \<Rightarrow> string \<Rightarrow> db result" where
  "moveEntries d from to =
    (let rows = t_update (entriesUnder from) (\<lambda>e. e\<lparr>ae_path := to @ drop (length from) (ae_path e)\<rparr>) (db_aclEntries d)
     in if distinct (map entry_key rows) then Inr (d\<lparr>db_aclEntries := rows\<rparr>) else Inl UniqueViolation)"

definition deleteEntriesUnder :: "db \<Rightarrow> string \<Rightarrow> db" where
  "deleteEntriesUnder d path = d\<lparr>db_aclEntries := filter (\<lambda>e. \<not> entriesUnder path e) (db_aclEntries d)\<rparr>"

text \<open>SQL's \<open>like '%/instances/%'\<close>: the text occurs somewhere.\<close>

definition contains :: "string \<Rightarrow> string \<Rightarrow> bool" where
  "contains s t = list_ex (\<lambda>i. startsWith (drop i s) t) [0..<Suc (length s)]"

definition sweepInstanceEntries :: "db \<Rightarrow> string \<Rightarrow> string \<Rightarrow> db \<times> nat" where
  "sweepInstanceEntries d clusterId clusterName =
    (let pre = ''/clusters/'' @ clusterName @ ''/projects/'';
         rows = filter (\<lambda>e. startsWith (ae_path e) pre \<and> contains (ae_path e) ''/instances/'') (db_aclEntries d);
         present = map (\<lambda>i. pre @ in_project i @ ''/instances/'' @ in_name i)
           (filter (\<lambda>i. in_clusterId i = clusterId) (db_instances d));
         gone = map ae_id (filter (\<lambda>e. ae_path e \<notin> set present) rows)
     in (d\<lparr>db_aclEntries := filter (\<lambda>e. ae_id e \<notin> set gone) (db_aclEntries d)\<rparr>, length gone))"

section \<open>Facts\<close>

abbreviation owner_at :: "db \<Rightarrow> instance_key \<Rightarrow> instance_owner_row option" where
  "owner_at d k \<equiv> t_lookup owner_key (db_instanceOwners d) k"

lemma instance_key_eq: "\<lparr>ik_clusterId = ik_clusterId k, ik_project = ik_project k, ik_name = ik_name k\<rparr> = k"
  by simp

lemma owner_at_record:
  "owner_at (recordOwner now d k subject source) k' =
    (if k' = k then
       Some (case owner_at d k of
         None \<Rightarrow> \<lparr>io_clusterId = ik_clusterId k, io_project = ik_project k, io_name = ik_name k,
           io_userId = fst (owner_columns subject), io_serviceAccountId = snd (owner_columns subject),
           io_source = source, io_createdAt = now\<rparr>
       | Some r \<Rightarrow> if source \<noteq> Backfill \<and> RANK (io_source r) \<le> RANK source
           then r\<lparr>io_userId := fst (owner_columns subject), io_serviceAccountId := snd (owner_columns subject),
                  io_source := source, io_createdAt := now\<rparr>
           else r)
     else owner_at d k')"
  unfolding recordOwner_def Let_def
  by (simp add: owners_tbl.lookup_upsert owner_key_def cong: option.case_cong)

lemma record_only_owners: "db_tenantMembers (recordOwner now d k s src) = db_tenantMembers d"
  by (simp add: recordOwner_def Let_def)

lemma first_owner_record: "first_owner (recordOwner now d k s src) t = first_owner d t"
  by (simp add: first_owner_def record_only_owners)

lemma owner_columns_user: "CHR '':'' \<notin> set u \<Longrightarrow> owner_columns (''user:'' @ u) = (Some u, None)"
  using split_on_append_sep[of "CHR '':''" "''user''" u] split_on_no_sep[of "CHR '':''" u]
  by (simp add: owner_columns_def)

lemma owner_columns_service: "CHR '':'' \<notin> set u \<Longrightarrow> owner_columns (''service:'' @ u) = (None, Some u)"
  using split_on_append_sep[of "CHR '':''" "''service''" u] split_on_no_sep[of "CHR '':''" u]
  by (simp add: owner_columns_def)

text \<open>The table's key stays unique under every operation.\<close>

abbreviation owners_wf :: "db \<Rightarrow> bool" where
  "owners_wf d \<equiv> t_wf owner_key (db_instanceOwners d)"

lemma owners_wf_record: "owners_wf d \<Longrightarrow> owners_wf (recordOwner now d k s src)"
  unfolding recordOwner_def Let_def by (simp add: owners_tbl.wf_upsert owner_key_def)

lemma owners_wf_forget: "owners_wf d \<Longrightarrow> owners_wf (forgetOwned d k)"
  by (simp add: forgetOwned_def owners_tbl.wf_remove)

lemma owner_at_forget: "owner_at (forgetOwned d k) k' = (if k' = k then None else owner_at d k')"
  by (simp add: forgetOwned_def owners_tbl.lookup_remove)

section \<open>Properties of owners\<close>

text \<open>A series of records, each with its time.\<close>

definition record_all :: "(int \<times> instance_key \<times> string \<times> owner_source) list \<Rightarrow> db \<Rightarrow> db" where
  "record_all rs d = fold (\<lambda>(now, k, subject, source) d. recordOwner now d k subject source) rs d"

text \<open>
  Owners are recorded by rank: through any series of records an owner's source never gets
  worse, and an owner stays as it is while only worse sources (or the backfill) speak.
\<close>

theorem record_rank_mono:
  assumes "owner_at d k = Some r"
  shows "\<exists>r'. owner_at (record_all rs d) k = Some r' \<and> RANK (io_source r) \<le> RANK (io_source r') \<and>
    ((\<forall>(now, k', subject, source)\<in>set rs. k' = k \<longrightarrow> source = Backfill \<or> RANK source < RANK (io_source r)) \<longrightarrow> r' = r)"
  using assms
proof (induction rs arbitrary: d r)
  case (Cons x rs)
  obtain now k' subject source where x: "x = (now, k', subject, source)" by (cases x)
  let ?d = "recordOwner now d k' subject source"
  define r1 where "r1 = (if k = k' \<and> source \<noteq> Backfill \<and> RANK (io_source r) \<le> RANK source
    then r\<lparr>io_userId := fst (owner_columns subject), io_serviceAccountId := snd (owner_columns subject),
           io_source := source, io_createdAt := now\<rparr> else r)"
  have r1: "owner_at ?d k = Some r1" "RANK (io_source r) \<le> RANK (io_source r1)"
    "k' = k \<longrightarrow> source = Backfill \<or> RANK source < RANK (io_source r) \<Longrightarrow> r1 = r"
    using Cons.prems by (auto simp: owner_at_record r1_def)
  have all: "record_all ((now, k', subject, source) # rs) d = record_all rs ?d" by (simp add: record_all_def)
  from Cons.IH[OF r1(1)] obtain r' where "owner_at (record_all rs ?d) k = Some r'"
    "RANK (io_source r1) \<le> RANK (io_source r')"
    "(\<forall>(now, k', subject, source)\<in>set rs. k' = k \<longrightarrow> source = Backfill \<or> RANK source < RANK (io_source r1)) \<longrightarrow> r' = r1"
    by blast
  then show ?case unfolding x all using r1(2,3) by (intro exI[of _ r']) auto
qed (simp add: record_all_def)

definition web_key :: instance_key where
  "web_key = \<lparr>ik_clusterId = ''C1'', ik_project = ''p'', ik_name = ''web''\<rparr>"

theorem record_rank_mono_witness:
  "\<exists>r'. owner_at (record_all [(2, web_key, ''user:e'', Event), (3, web_key, ''user:b'', Backfill)]
      (recordOwner 1 empty_db web_key ''user:a'' Incuscloud)) web_key = Some r' \<and> io_userId r' = Some ''a''"
proof -
  let ?d = "recordOwner 1 empty_db web_key ''user:a'' Incuscloud"
  let ?r = "\<lparr>io_clusterId = ''C1'', io_project = ''p'', io_name = ''web'', io_userId = Some ''a'',
     io_serviceAccountId = None, io_source = Incuscloud, io_createdAt = 1\<rparr>"
  have "owner_at ?d web_key = Some ?r"
    using owner_columns_user[of "''a''"] by (simp add: owner_at_record) (simp add: web_key_def empty_db_def t_lookup_def)
  from record_rank_mono[OF this, of "[(2, web_key, ''user:e'', Event), (3, web_key, ''user:b'', Backfill)]"]
  show ?thesis by auto
qed

text \<open>
  An owner recorded for an unowned instance is the one read back, for users and service
  accounts alike, and nobody else's owner changes.
\<close>

theorem record_then_owner:
  assumes "owner_at d k = None" and "CHR '':'' \<notin> set i" and "i \<noteq> []" and "kind \<in> {''user'', ''service''}"
  shows "ownerOf (recordOwner now d k (kind @ '':'' @ i) source) k' =
    (if k' = k then Some (kind @ '':'' @ i) else ownerOf d k')"
  using assms owner_columns_user[of i] owner_columns_service[of i]
  by (auto simp: ownerOf_def owner_at_record)

theorem record_then_owner_witness:
  "ownerOf (recordOwner 1 empty_db web_key ''service:a'' Event) web_key = Some ''service:a''"
  using record_then_owner[of empty_db web_key "''a''" "''service''" 1 Event web_key]
  by (simp add: empty_db_def t_lookup_def)

subsection \<open>The backfill\<close>

lemma first_owner_member:
  assumes "first_owner d t = Some u"
  shows "\<exists>m\<in>set (db_tenantMembers d). tm_userId m = u \<and> tm_tenantId m = t"
proof -
  obtain m ms where u: "u = tm_userId m"
    and m: "sort_key tm_createdAt (sort_key tm_userId
      (filter (\<lambda>m. tm_tenantId m = t \<and> tm_role m = ''owner'') (db_tenantMembers d))) = m # ms"
    using assms by (auto simp: first_owner_def split: list.splits)
  have "m \<in> set (sort_key tm_createdAt (sort_key tm_userId
      (filter (\<lambda>m. tm_tenantId m = t \<and> tm_role m = ''owner'') (db_tenantMembers d))))" unfolding m by simp
  with u show ?thesis by auto
qed

definition backfill_ok :: "db \<Rightarrow> db \<times> nat \<times> (string, string option) jsmap \<Rightarrow> bool" where
  "backfill_ok d0 st \<longleftrightarrow> db_tenantMembers (fst st) = db_tenantMembers d0 \<and>
     (\<forall>t w. m_get (snd (snd st)) t = Some w \<longrightarrow> w = first_owner d0 t)"

lemma first_owner_cong: "db_tenantMembers d = db_tenantMembers d0 \<Longrightarrow> first_owner d t = first_owner d0 t"
  by (simp add: first_owner_def)

lemma backfill_step_simp:
  assumes "backfill_ok d0 (d, n, m)"
  obtains m' where "backfill_step now (k, t) (d, n, m) =
      (if truthy (first_owner d0 t)
       then (recordOwner now d k (''user:'' @ the (first_owner d0 t)) Backfill, n + 1, m') else (d, n, m'))"
    and "backfill_ok d0 (backfill_step now (k, t) (d, n, m))"
proof -
  define m' where "m' = (case m_get m t of None \<Rightarrow> m_set m t (first_owner d t) | Some _ \<Rightarrow> m)"
  have fo: "first_owner d t = first_owner d0 t" using assms by (intro first_owner_cong) (simp add: backfill_ok_def)
  have get: "m_get m' t = Some (first_owner d0 t)"
    using assms fo by (auto simp: m'_def backfill_ok_def split: option.splits)
  have ok: "m_get m' t' = Some w \<Longrightarrow> w = first_owner d0 t'" for t' w
    using assms fo by (auto simp: m'_def backfill_ok_def split: option.splits if_splits)
  have st: "backfill_step now (k, t) (d, n, m) =
      (if truthy (first_owner d0 t)
       then (recordOwner now d k (''user:'' @ the (first_owner d0 t)) Backfill, n + 1, m') else (d, n, m'))"
    using get unfolding backfill_step_def prod.case snd_conv fst_conv Let_def m'_def[symmetric] by simp
  moreover have "backfill_ok d0 (backfill_step now (k, t) (d, n, m))"
    unfolding st using assms ok by (auto simp: backfill_ok_def record_only_owners)
  ultimately show thesis by (rule that)
qed

text \<open>The row the backfill writes, and the first of the listed orphans at a key whose tenant has an owner.\<close>

definition backfilled :: "int \<Rightarrow> instance_key \<Rightarrow> string \<Rightarrow> instance_owner_row" where
  "backfilled now k u = \<lparr>io_clusterId = ik_clusterId k, io_project = ik_project k, io_name = ik_name k,
     io_userId = fst (owner_columns (''user:'' @ u)), io_serviceAccountId = snd (owner_columns (''user:'' @ u)),
     io_source = Backfill, io_createdAt = now\<rparr>"

definition claimable :: "db \<Rightarrow> (instance_key \<times> string) list \<Rightarrow> instance_key \<Rightarrow> (instance_key \<times> string) option" where
  "claimable d os k = find (\<lambda>o'. fst o' = k \<and> truthy (first_owner d (snd o'))) os"

lemma backfill_fold:
  assumes "backfill_ok d0 (d, n, m)" and "fold (backfill_step now) os (d, n, m) = (d', n', m')"
  shows "owner_at d' k = (case owner_at d k of Some r \<Rightarrow> Some r
      | None \<Rightarrow> map_option (\<lambda>o'. backfilled now k (the (first_owner d0 (snd o')))) (claimable d0 os k))
    \<and> n' = n + length (filter (\<lambda>o'. truthy (first_owner d0 (snd o'))) os)"
  using assms
proof (induction os arbitrary: d n m)
  case (Cons x os)
  obtain kx tx where x: "x = (kx, tx)" by (cases x)
  obtain mx where st: "backfill_step now (kx, tx) (d, n, m) =
      (if truthy (first_owner d0 tx)
       then (recordOwner now d kx (''user:'' @ the (first_owner d0 tx)) Backfill, n + 1, mx) else (d, n, mx))"
    and ok: "backfill_ok d0 (backfill_step now (kx, tx) (d, n, m))"
    by (rule backfill_step_simp[OF Cons.prems(1)])
  define d1 where "d1 = (if truthy (first_owner d0 tx) then recordOwner now d kx (''user:'' @ the (first_owner d0 tx)) Backfill else d)"
  define n1 where "n1 = (if truthy (first_owner d0 tx) then n + 1 else n)"
  have st1: "backfill_step now (kx, tx) (d, n, m) = (d1, n1, mx)" using st by (simp add: d1_def n1_def)
  have run: "fold (backfill_step now) os (d1, n1, mx) = (d', n', m')" using Cons.prems(2) st1 x by simp
  have "owner_at d1 k = (if k = kx \<and> truthy (first_owner d0 tx) \<and> owner_at d k = None
      then Some (backfilled now k (the (first_owner d0 tx))) else owner_at d k)"
    by (auto simp: d1_def owner_at_record backfilled_def split: option.splits)
  with Cons.IH[OF ok[unfolded st1] run] show ?case
    by (auto simp: x n1_def claimable_def split: option.splits)
qed (auto simp: claimable_def split: option.splits)

lemma claimable_distinct:
  assumes "distinct (map fst os)"
  shows "claimable d os k = (case map_of os k of None \<Rightarrow> None
      | Some t \<Rightarrow> if truthy (first_owner d t) then Some (k, t) else None)"
  using assms
proof (induction os)
  case (Cons x os)
  have "x \<notin> set os \<and> fst x \<notin> fst ` set os" using Cons.prems by auto
  then have "\<not> (\<exists>y\<in>set os. fst y = fst x \<and> truthy (first_owner d (snd y)))" by (metis image_eqI)
  then have "claimable d os (fst x) = None" by (auto simp: claimable_def find_None_iff)
  then have "fst x = k \<Longrightarrow> claimable d (x # os) k = (if truthy (first_owner d (snd x)) then Some x else None)"
    by (auto simp: claimable_def)
  moreover have "fst x \<noteq> k \<Longrightarrow> claimable d (x # os) k = claimable d os k" by (simp add: claimable_def)
  ultimately show ?case using Cons by (cases x) auto
qed (simp add: claimable_def)

text \<open>
  The backfill claims nothing that is claimed: after it every instance keeps the owner it
  had, and every unowned instance of the cluster in a project of exactly one tenant belongs to
  that tenant's first owner, if the tenant has one; the others stay unowned.
\<close>

theorem backfill_fills_gaps:
  assumes "backfillOwners now d clusterId = (d', n)" and "distinct (map fst (orphans d clusterId))"
    and "\<forall>m\<in>set (db_tenantMembers d). tm_userId m \<noteq> [] \<and> CHR '':'' \<notin> set (tm_userId m)"
  shows "ownerOf d' k =
    (case owner_at d k of
       Some r \<Rightarrow> ownerOf d k
     | None \<Rightarrow> (case map_of (orphans d clusterId) k of None \<Rightarrow> None
         | Some t \<Rightarrow> map_option (\<lambda>u. ''user:'' @ u) (first_owner d t)))"
proof -
  let ?os = "orphans d clusterId"
  obtain m where run: "fold (backfill_step now) ?os (d, 0, []) = (d', n, m)"
    using assms(1) by (auto simp: backfillOwners_def split: prod.splits)
  have "backfill_ok d (d, 0, [])" by (simp add: backfill_ok_def)
  note after = backfill_fold[OF this run, of k]
  have name: "first_owner d t = Some u \<Longrightarrow> u \<noteq> [] \<and> CHR '':'' \<notin> set u" for t u
    using assms(3) first_owner_member[of d t u] by blast
  show ?thesis
    using after name claimable_distinct[OF assms(2), of d k] owner_columns_user
    by (auto simp: ownerOf_def backfilled_def truthy_def split: option.splits)
qed

definition a_tenant :: tenant_row where
  "a_tenant = \<lparr>te_id = ''T1'', te_slug = ''t'', te_name = ''T'',
     te_quotas = \<lparr>q_instances = None, q_cpu = None, q_memory = None, q_disk = None, q_maxInstanceCpu = None,
       q_maxInstanceMemory = None, q_maxInstanceDisk = None, q_snapshots = None, q_backups = None,
       q_backupGiB = None, q_kubernetes = None\<rparr>,
     te_leasePolicy = None, te_createdAt = 0\<rparr>"

definition a_placement :: placement_row where
  "a_placement = \<lparr>pl_tenantId = ''T1'', pl_clusterId = ''C1'', pl_project = ''p'', pl_status = ''ready'',
     pl_statusMessage = [], pl_usage = None, pl_limits = None, pl_createdAt = 0\<rparr>"

definition a_member :: "string \<Rightarrow> string \<Rightarrow> int \<Rightarrow> tenant_member_row" where
  "a_member u r t = \<lparr>tm_tenantId = ''T1'', tm_userId = u, tm_role = r, tm_createdAt = t\<rparr>"

definition tenant_db :: db where
  "tenant_db = empty_db\<lparr>db_clusters := [a_cluster], db_tenants := [a_tenant], db_placements := [a_placement],
     db_tenantMembers := [a_member ''v'' ''owner'' 2, a_member ''u'' ''owner'' 1, a_member ''w'' ''member'' 0],
     db_instances := [an_instance ''web'']\<rparr>"

theorem backfill_fills_gaps_witness: "ownerOf (fst (backfillOwners 9 tenant_db ''C1'')) web_key = Some ''user:u''"
proof -
  have "distinct (map fst (orphans tenant_db ''C1''))" by code_simp
  moreover have "\<forall>m\<in>set (db_tenantMembers tenant_db). tm_userId m \<noteq> [] \<and> CHR '':'' \<notin> set (tm_userId m)" by code_simp
  moreover have "owner_at tenant_db web_key = None" by code_simp
  moreover have "map_of (orphans tenant_db ''C1'') web_key = Some ''T1''" by code_simp
  moreover have "first_owner tenant_db ''T1'' = Some ''u''" by code_simp
  ultimately show ?thesis
    using backfill_fills_gaps[of 9 tenant_db "''C1''" _ _ web_key, OF surjective_pairing] by simp
qed

text \<open>
  A moved or replicated instance's owner goes with it: carrying gives the target the
  owner of the source as IncusCloud's own record, whatever the target had; a move forgets the
  source; the other instances keep theirs; and an unowned source changes nothing.
\<close>

theorem carry_owner:
  assumes "from \<noteq> to"
  shows "ownerOf (carryOwner now d from to move) k =
    (if owner_at d from = None then ownerOf d k
     else if k = to then ownerOf d from
     else if k = from \<and> move then None
     else ownerOf d k)"
proof (cases "owner_at d from")
  case None
  then show ?thesis by (simp add: carryOwner_def)
next
  case (Some r)
  define new where "new = \<lparr>io_clusterId = ik_clusterId to, io_project = ik_project to, io_name = ik_name to,
    io_userId = io_userId r, io_serviceAccountId = io_serviceAccountId r, io_source = Incuscloud, io_createdAt = now\<rparr>"
  have key: "owner_key new = to" by (simp add: new_def owner_key_def)
  have one: "t_lookup owner_key [new] k' = (if k' = to then Some new else None)" for k'
    using key by (auto simp: t_lookup_def)
  have rows: "t_lookup owner_key (t_remove owner_key (db_instanceOwners d) to @ [new]) k'
      = (if k' = to then Some new else owner_at d k')" for k'
    by (simp add: t_lookup_append owners_tbl.lookup_remove one split: option.splits)
  have "owner_at (carryOwner now d from to move) k =
      (if k = to then Some new else if k = from \<and> move then None else owner_at d k)"
    using Some assms rows by (simp add: carryOwner_def new_def[symmetric] owners_tbl.lookup_remove Let_def)
  then show ?thesis using Some by (simp add: ownerOf_def new_def)
qed

theorem carry_owner_witness:
  "ownerOf (carryOwner 2 (recordOwner 1 empty_db web_key ''user:a'' Event) web_key (web_key\<lparr>ik_name := ''new''\<rparr>) True)
     (web_key\<lparr>ik_name := ''new''\<rparr>) = Some ''user:a''"
proof -
  have "web_key \<noteq> web_key\<lparr>ik_name := ''new''\<rparr>" by (simp add: web_key_def)
  moreover have "owner_at (recordOwner 1 empty_db web_key ''user:a'' Event) web_key \<noteq> None" by code_simp
  moreover have "ownerOf (recordOwner 1 empty_db web_key ''user:a'' Event) web_key = Some ''user:a''" by code_simp
  ultimately show ?thesis
    using carry_owner[of web_key "web_key\<lparr>ik_name := ''new''\<rparr>" 2 "recordOwner 1 empty_db web_key ''user:a'' Event" True
        "web_key\<lparr>ik_name := ''new''\<rparr>"]
    by (simp del: not_None_eq)
qed

end
