(* ===== verification/Leases.thy ===== *)
theory Leases
  imports Jobs Owners
begin

text \<open>
  \<^verbatim>\<open>leases/leases.ts\<close>: a tenant's policy gives each of its instances a time to live. The scheduler
  hands leases out and queues a job for every lease that has ended, holders of the right
  extend a lease a limited number of times, and the job stops or deletes the instance unless
  the lease was extended meanwhile. Incus itself, and the fleet's cluster client, are the
  parameter \<open>incus\<close>.
\<close>

definition DAY_MS :: int where
  "DAY_MS = 86400000"

section \<open>Leases\<close>

definition leaseOf :: "db \<Rightarrow> instance_key \<Rightarrow> instance_lease_row option" where
  "leaseOf d k = t_lookup lease_key (db_instanceLeases d) k"

definition renameLease :: "db \<Rightarrow> instance_key \<Rightarrow> instance_key \<Rightarrow> db result" where
  "renameLease d from to =
     map_sum id (\<lambda>rows. d\<lparr>db_instanceLeases := rows\<rparr>)
       (t_rekey lease_key (db_instanceLeases d) from to
         (\<lambda>r. r\<lparr>il_clusterId := ik_clusterId to, il_project := ik_project to, il_name := ik_name to\<rparr>))"

definition forgetLease :: "db \<Rightarrow> instance_key \<Rightarrow> db" where
  "forgetLease d k = d\<lparr>db_instanceLeases := t_remove lease_key (db_instanceLeases d) k\<rparr>"

text \<open>\<open>putLease\<close>: the lease of a moved instance, when it stays in its tenant's projects.\<close>

definition putLease :: "db \<Rightarrow> instance_key \<Rightarrow> instance_lease_row \<Rightarrow> db" where
  "putLease d to lease =
    (let placed = find (\<lambda>p. pl_clusterId p = ik_clusterId to \<and> pl_project p = ik_project to) (db_placements d) in
     if map_option pl_tenantId placed \<noteq> Some (il_tenantId lease) then d
     else d\<lparr>db_instanceLeases := t_remove lease_key (db_instanceLeases d) to
       @ [lease\<lparr>il_clusterId := ik_clusterId to, il_project := ik_project to, il_name := ik_name to\<rparr>]\<rparr>)"

record lease_view =
  lv_expiresAt :: "int option"
  lv_extensions :: int
  lv_maxExtensions :: int
  lv_extendDays :: int
  lv_action :: lease_action
  lv_actedAt :: "int option"

definition leaseView :: "instance_lease_row option \<Rightarrow> lease_policy option \<Rightarrow> lease_view option" where
  "leaseView lease policy =
    (case (lease, policy) of
       (Some l, Some p) \<Rightarrow> Some \<lparr>lv_expiresAt = il_expiresAt l, lv_extensions = il_extensions l,
         lv_maxExtensions = lp_maxExtensions p, lv_extendDays = lp_extendDays p, lv_action = lp_action p,
         lv_actedAt = il_actedAt l\<rparr>
     | _ \<Rightarrow> None)"

text \<open>
  \<open>extendLease\<close> reads the lease and checks it (\<open>extend_check\<close>), then writes it if the number of
  extensions is still the one it read (\<open>extend_write\<close>); another request may come between.
\<close>

definition extend_check :: "db \<Rightarrow> instance_key \<Rightarrow> lease_policy \<Rightarrow> instance_lease_row result" where
  "extend_check d k policy =
    (case leaseOf d k of
       None \<Rightarrow> Inl (ApiError 404 ''not_found'' ''This instance has no lease'')
     | Some lease \<Rightarrow>
         if il_expiresAt lease = None then Inl (ApiError 409 ''conflict'' ''This instance's lease never ends'')
         else if il_extensions lease \<ge> lp_maxExtensions policy
         then Inl (ApiError 409 ''conflict'' (''No extensions left: the tenant allows ''
           @ (if lp_maxExtensions policy = 1 then ''one'' else show_int (lp_maxExtensions policy))))
         else Inr lease)"

definition extended :: "int \<Rightarrow> lease_policy \<Rightarrow> instance_lease_row \<Rightarrow> instance_lease_row \<Rightarrow> instance_lease_row" where
  "extended now policy lease r = r\<lparr>
     il_expiresAt := Some (max now (the (il_expiresAt lease)) + lp_extendDays policy * DAY_MS),
     il_extensions := il_extensions lease + 1, il_actedAt := None\<rparr>"

definition extend_write :: "int \<Rightarrow> db \<Rightarrow> instance_key \<Rightarrow> lease_policy \<Rightarrow> instance_lease_row \<Rightarrow> (db \<times> instance_lease_row) result" where
  "extend_write now d k policy lease =
    (let sel = (\<lambda>r. lease_key r = k \<and> il_extensions r = il_extensions lease) in
     case find sel (db_instanceLeases d) of
       None \<Rightarrow> Inl (ApiError 409 ''conflict'' ''The lease changed meanwhile; try again'')
     | Some r \<Rightarrow> Inr (d\<lparr>db_instanceLeases := t_update sel (extended now policy lease) (db_instanceLeases d)\<rparr>,
         extended now policy lease r))"

definition extendLease :: "int \<Rightarrow> db \<Rightarrow> instance_key \<Rightarrow> lease_policy \<Rightarrow> (db \<times> instance_lease_row) result" where
  "extendLease now d k policy = then_do (extend_check d k policy) (extend_write now d k policy)"

text \<open>\<open>setLease\<close>: the number of extensions of a new row is the column's default, 0.\<close>

definition setLease :: "int \<Rightarrow> db \<Rightarrow> instance_key \<Rightarrow> string \<Rightarrow> int option \<Rightarrow> db" where
  "setLease now d k tenantId expiresAt =
    d\<lparr>db_instanceLeases := t_upsert lease_key (db_instanceLeases d)
       \<lparr>il_clusterId = ik_clusterId k, il_project = ik_project k, il_name = ik_name k, il_tenantId = tenantId,
        il_expiresAt = expiresAt, il_extensions = 0, il_actedAt = None, il_createdAt = now\<rparr>
       (\<lambda>r. r\<lparr>il_tenantId := tenantId, il_expiresAt := expiresAt, il_actedAt := None\<rparr>) (\<lambda>r. True)\<rparr>"

definition dropTenantLeases :: "db \<Rightarrow> string \<Rightarrow> db" where
  "dropTenantLeases d tenantId = d\<lparr>db_instanceLeases := filter (\<lambda>l. il_tenantId l \<noteq> tenantId) (db_instanceLeases d)\<rparr>"

section \<open>The scheduler\<close>

definition key_of_instance :: "instance_row \<Rightarrow> instance_key" where
  "key_of_instance i = \<lparr>ik_clusterId = in_clusterId i, ik_project = in_project i, ik_name = in_name i\<rparr>"

definition unleased :: "db \<Rightarrow> (instance_key \<times> string \<times> lease_policy) list" where
  "unleased d =
     [(key_of_instance i, te_id t, the (te_leasePolicy t)).
       i \<leftarrow> db_instances d,
       p \<leftarrow> db_placements d, pl_clusterId p = in_clusterId i \<and> pl_project p = in_project i,
       t \<leftarrow> db_tenants d, te_id t = pl_tenantId p \<and> te_leasePolicy t \<noteq> None,
       leaseOf d (key_of_instance i) = None]"

definition hand_out :: "int \<Rightarrow> instance_key \<times> string \<times> lease_policy \<Rightarrow> db \<Rightarrow> db" where
  "hand_out now u d =
    (case u of (k, tenantId, policy) \<Rightarrow>
     d\<lparr>db_instanceLeases := t_upsert lease_key (db_instanceLeases d)
        \<lparr>il_clusterId = ik_clusterId k, il_project = ik_project k, il_name = ik_name k, il_tenantId = tenantId,
         il_expiresAt = Some (now + lp_days policy * DAY_MS), il_extensions = 0, il_actedAt = None, il_createdAt = now\<rparr>
        (\<lambda>r. r) (\<lambda>r. False)\<rparr>)"

definition ended :: "int \<Rightarrow> db \<Rightarrow> (instance_lease_row \<times> lease_policy \<times> string) list" where
  "ended now d =
     [(l, the (te_leasePolicy t), in_status i).
       l \<leftarrow> db_instanceLeases d,
       t \<leftarrow> db_tenants d, te_id t = il_tenantId l \<and> te_leasePolicy t \<noteq> None,
       i \<leftarrow> db_instances d, key_of_instance i = lease_key l,
       (case il_expiresAt l of None \<Rightarrow> False | Some e \<Rightarrow> e < now)
         \<and> (case il_actedAt l of None \<Rightarrow> True | Some a \<Rightarrow> a < in_seenAt i)]"

record lease_payload =
  lpay_clusterId :: string
  lpay_project :: string
  lpay_name :: string
  lpay_action :: lease_action

definition action_name :: "lease_action \<Rightarrow> string" where
  "action_name a = (case a of Stop \<Rightarrow> ''stop'' | Delete \<Rightarrow> ''delete'')"

definition lease_job :: "instance_lease_row \<Rightarrow> lease_action \<Rightarrow> new_job" where
  "lease_job l action = \<lparr>nj_type = ''lease'',
     nj_payload = [(''clusterId'', JStr (il_clusterId l)), (''project'', JStr (il_project l)),
       (''name'', JStr (il_name l)), (''action'', JStr (action_name action))],
     nj_actorType = ''system'', nj_actorId = ''leases'', nj_tenantId = Some (il_tenantId l),
     nj_clusterIds = Some [il_clusterId l],
     nj_instanceKey = Some (il_clusterId l @ ''/'' @ il_project l @ ''/'' @ il_name l)\<rparr>"

text \<open>One ended lease; \<open>gen\<close> is the identifier the database generates for the job.\<close>

definition act_on :: "(db \<Rightarrow> string) \<Rightarrow> int \<Rightarrow> instance_lease_row \<times> lease_policy \<times> string \<Rightarrow> db \<Rightarrow> db" where
  "act_on gen now e d =
    (case e of (l, policy, status) \<Rightarrow>
     if lp_action policy = Stop \<and> status \<noteq> ''Running'' then d
     else (case enqueueJob now (gen d) d (lease_job l (lp_action policy)) of
       Inl err \<Rightarrow> d
     | Inr (d', job) \<Rightarrow>
         d'\<lparr>db_instanceLeases := t_update (\<lambda>r. lease_key r = lease_key l) (\<lambda>r. r\<lparr>il_actedAt := Some now\<rparr>) (db_instanceLeases d')\<rparr>))"

definition scheduleLeases :: "(db \<Rightarrow> string) \<Rightarrow> int \<Rightarrow> db \<Rightarrow> db" where
  "scheduleLeases gen now d =
    (let d1 = fold (hand_out now) (unleased d) d
     in fold (act_on gen now) (ended now d1) d1)"

section \<open>The job\<close>

text \<open>
  A cluster's Incus, with its state \<open>'w\<close>: the status of an instance (None for one it does not
  have), and the requests to stop and to delete one.
\<close>

record 'w incus =
  ic_status :: "'w \<Rightarrow> string \<Rightarrow> string \<Rightarrow> string option result"
  ic_stop :: "'w \<Rightarrow> string \<Rightarrow> string \<Rightarrow> 'w result"
  ic_delete :: "'w \<Rightarrow> string \<Rightarrow> string \<Rightarrow> 'w result"

text \<open>\<open>setState\<close> to stop: content when Incus answers that it already is stopped.\<close>

definition set_stopped :: "'w incus \<Rightarrow> 'w \<Rightarrow> string \<Rightarrow> string \<Rightarrow> 'w result" where
  "set_stopped ic w project name =
    (case ic_stop ic w project name of
       Inr w' \<Rightarrow> Inr w'
     | Inl e \<Rightarrow> if contains (error_message e) ''The instance is already stopped'' then Inr w else Inl e)"

definition refreshInventory :: "db \<Rightarrow> string list \<Rightarrow> db" where
  "refreshInventory d ids = d\<lparr>db_clusters := t_update (\<lambda>c. cl_id c \<in> set ids) (\<lambda>c. c\<lparr>cl_inventoryAt := None\<rparr>) (db_clusters d)\<rparr>"

datatype lease_outcome = Skipped string | Acted lease_action int

text \<open>The handler: what is done stays done when a later step fails.\<close>

definition lease_act :: "'w incus \<Rightarrow> int \<Rightarrow> string \<Rightarrow> lease_payload \<Rightarrow> instance_key \<Rightarrow> int \<Rightarrow> db \<Rightarrow> 'w
    \<Rightarrow> db \<times> 'w \<times> lease_outcome result" where
  "lease_act ic now job p k expiresAt d w =
    (if lpay_action p = Delete then
       (let d1 = set_progress job \<lparr>jp_stage = ''deleting'', jp_percent = None, jp_message = None\<rparr> d in
        case ic_delete ic w (lpay_project p) (lpay_name p) of
          Inl e \<Rightarrow> (d1, w, Inl e)
        | Inr w1 \<Rightarrow> (refreshInventory (forgetLease d1 k) [lpay_clusterId p], w1, Inr (Acted Delete expiresAt)))
     else
       (refreshInventory (d\<lparr>db_instanceLeases := t_update (\<lambda>r. lease_key r = k) (\<lambda>r. r\<lparr>il_actedAt := Some now\<rparr>)
          (db_instanceLeases d)\<rparr>) [lpay_clusterId p], w, Inr (Acted (lpay_action p) expiresAt)))"

definition leaseHandler :: "'w incus \<Rightarrow> int \<Rightarrow> string \<Rightarrow> lease_payload \<Rightarrow> db \<Rightarrow> 'w \<Rightarrow> db \<times> 'w \<times> lease_outcome result" where
  "leaseHandler ic now job p d w =
    (let k = \<lparr>ik_clusterId = lpay_clusterId p, ik_project = lpay_project p, ik_name = lpay_name p\<rparr> in
     case (case leaseOf d k of None \<Rightarrow> None | Some l \<Rightarrow> il_expiresAt l) of
       None \<Rightarrow> (d, w, Inr (Skipped ''the lease was extended or removed''))
     | Some expiresAt \<Rightarrow>
         if expiresAt > now then (d, w, Inr (Skipped ''the lease was extended or removed''))
         else (case clientFor d (lpay_clusterId p) of
           Inl e \<Rightarrow> (d, w, Inl e)
         | Inr c \<Rightarrow>
             (case ic_status ic w (lpay_project p) (lpay_name p) of
                Inl e \<Rightarrow> (d, w, Inl e)
              | Inr None \<Rightarrow> (forgetLease d k, w, Inr (Skipped ''the instance is gone''))
              | Inr (Some status) \<Rightarrow>
                  if status = ''Running'' then
                    (let d1 = set_progress job \<lparr>jp_stage = ''stopping'', jp_percent = None, jp_message = None\<rparr> d in
                     case set_stopped ic w (lpay_project p) (lpay_name p) of
                       Inl e \<Rightarrow> (d1, w, Inl e)
                     | Inr w1 \<Rightarrow> lease_act ic now job p k expiresAt d1 w1)
                  else lease_act ic now job p k expiresAt d w)))"

definition tenantLeases :: "db \<Rightarrow> string \<Rightarrow> (instance_lease_row \<times> string option \<times> string option) list" where
  "tenantLeases d tenantId =
    (let rows = [(l, map_option in_id i, map_option in_status i).
           l \<leftarrow> db_instanceLeases d, il_tenantId l = tenantId,
           i \<leftarrow> (case filter (\<lambda>i. key_of_instance i = lease_key l) (db_instances d) of [] \<Rightarrow> [None] | is \<Rightarrow> map Some is)];
         named = sort_key (\<lambda>x. il_name (fst x)) rows;
         ending = filter (\<lambda>x. il_expiresAt (fst x) \<noteq> None) named
     in sort_key (\<lambda>x. the (il_expiresAt (fst x))) ending @ filter (\<lambda>x. il_expiresAt (fst x) = None) named)"

section \<open>Facts\<close>

lemma leaseOf_update:
  assumes "\<And>r. lease_key (upd r) = lease_key r"
  shows "leaseOf (d\<lparr>db_instanceLeases := t_update sel upd (db_instanceLeases d)\<rparr>) k
    = map_option (\<lambda>r. if sel r then upd r else r) (leaseOf d k)"
  unfolding leaseOf_def t_update_def using assms
  by (simp add: t_lookup_map_same[where f = "\<lambda>r. if sel r then upd r else r"])

lemma leaseOf_key: "leaseOf d k = Some l \<Longrightarrow> lease_key l = k"
  by (auto simp: leaseOf_def dest: t_lookup_SomeD)

lemma lease_key_simps [simp]:
  "lease_key (extended now p l r) = lease_key r" "lease_key (r\<lparr>il_actedAt := a\<rparr>) = lease_key r"
  by (simp_all add: extended_def lease_key_def)

lemma extendD:
  assumes "extendLease now d k p = Inr (d', r)"
  obtains l where "leaseOf d k = Some l" "il_expiresAt l \<noteq> None" "il_extensions l < lp_maxExtensions p"
    "d' = d\<lparr>db_instanceLeases := t_update (\<lambda>x. lease_key x = k \<and> il_extensions x = il_extensions l)
       (extended now p l) (db_instanceLeases d)\<rparr>"
  using assms
  by (auto simp: extendLease_def then_do_Inr_iff extend_check_def extend_write_def Let_def split: option.splits if_splits)

lemma leaseOf_extended:
  assumes "extendLease now d k p = Inr (d', r)"
  obtains l where "leaseOf d k = Some l" "il_expiresAt l \<noteq> None" "il_extensions l < lp_maxExtensions p"
    "\<forall>k'. leaseOf d' k' = (if k' = k then Some (extended now p l l) else leaseOf d k')"
proof -
  obtain l where l: "leaseOf d k = Some l" "il_expiresAt l \<noteq> None" "il_extensions l < lp_maxExtensions p"
    and d': "d' = d\<lparr>db_instanceLeases := t_update (\<lambda>x. lease_key x = k \<and> il_extensions x = il_extensions l)
       (extended now p l) (db_instanceLeases d)\<rparr>"
    using assms by (rule extendD)
  have "leaseOf d' k' = (if k' = k then Some (extended now p l l) else leaseOf d k')" for k'
    unfolding d' by (subst leaseOf_update) (simp, cases "leaseOf d k'", use l(1) leaseOf_key in \<open>auto dest: leaseOf_key\<close>)
  then have "\<forall>k'. leaseOf d' k' = (if k' = k then Some (extended now p l l) else leaseOf d k')" by blast
  with l show thesis by (rule that)
qed

section \<open>Properties of extensions\<close>

text \<open>Attempts to extend leases, each at its time; those refused change nothing.\<close>

definition extend_all :: "lease_policy \<Rightarrow> (int \<times> instance_key) list \<Rightarrow> db \<Rightarrow> db" where
  "extend_all p ops d = fold (\<lambda>(now, k) d. case extendLease now d k p of Inl e \<Rightarrow> d | Inr (d', r) \<Rightarrow> d') ops d"

text \<open>
  However often and whenever a lease is extended, it is never extended more often than the
  policy allows, never ends earlier than before, and never loses its end.
\<close>

theorem extensions_bounded:
  assumes "leaseOf d k = Some l" and "il_expiresAt l = Some e" and "il_extensions l \<le> lp_maxExtensions p"
    and "0 \<le> lp_extendDays p"
  shows "\<exists>l' e'. leaseOf (extend_all p ops d) k = Some l' \<and> il_expiresAt l' = Some e' \<and> e \<le> e' \<and>
    il_extensions l \<le> il_extensions l' \<and> il_extensions l' \<le> lp_maxExtensions p"
  using assms(1-3)
proof (induction ops arbitrary: d l e)
  case (Cons x ops)
  obtain now kx where x: "x = (now, kx)" by (cases x)
  show ?case
  proof (cases "extendLease now d kx p")
    case (Inl err)
    with Cons x show ?thesis by (simp add: extend_all_def)
  next
    case (Inr dr)
    obtain d1 r where dr: "extendLease now d kx p = Inr (d1, r)" using Inr by (cases dr) simp
    obtain lx where lx: "leaseOf d kx = Some lx" "il_expiresAt lx \<noteq> None" "il_extensions lx < lp_maxExtensions p"
      and d1: "\<forall>k'. leaseOf d1 k' = (if k' = kx then Some (extended now p lx lx) else leaseOf d k')"
      using dr by (rule leaseOf_extended)
    have step: "extend_all p (x # ops) d = extend_all p ops d1" by (simp add: extend_all_def x dr)
    show ?thesis
    proof (cases "kx = k")
      case False
      with Cons d1 show ?thesis unfolding step by simp
    next
      case True
      with lx Cons.prems have l: "lx = l" by simp
      let ?e = "max now e + lp_extendDays p * DAY_MS"
      have "leaseOf d1 k = Some (extended now p l l)" "il_expiresAt (extended now p l l) = Some ?e"
        "il_extensions (extended now p l l) = il_extensions l + 1"
        using d1 True l Cons.prems(2) by (simp_all add: extended_def)
      moreover have "e \<le> ?e" using assms(4) by (simp add: DAY_MS_def)
      ultimately show ?thesis
        using Cons.IH[of d1 "extended now p l l" ?e] lx(3) l unfolding step by fastforce
    qed
  qed
qed (simp add: extend_all_def)

definition a_policy :: lease_policy where
  "a_policy = \<lparr>lp_days = 30, lp_action = Stop, lp_extendDays = 7, lp_maxExtensions = 1\<rparr>"

definition leased_db :: db where
  "leased_db = setLease 0 (tenant_db\<lparr>db_tenants := [a_tenant\<lparr>te_leasePolicy := Some a_policy\<rparr>]\<rparr>) web_key ''T1'' (Some 1000)"

theorem extensions_bounded_witness:
  "\<exists>l'. leaseOf (extend_all a_policy [(5, web_key), (6, web_key)] leased_db) web_key = Some l' \<and> il_extensions l' \<le> 1"
proof -
  obtain l where "leaseOf leased_db web_key = Some l" "il_expiresAt l = Some 1000" "il_extensions l = 0"
    by (simp add: leaseOf_def leased_db_def setLease_def leases_tbl.lookup_upsert lease_key_def web_key_def
        tenant_db_def empty_db_def t_lookup_def t_upsert_def)
  with extensions_bounded[of leased_db web_key l 1000 a_policy "[(5, web_key), (6, web_key)]"]
  show ?thesis by (auto simp: a_policy_def)
qed

text \<open>
  Of two requests that read the same lease before either wrote, only the first extends it;
  the second is refused as a conflict.
\<close>

theorem extend_no_double:
  assumes "extend_check d k p = Inr l" and "extend_write t1 d k p l = Inr (d1, r1)"
  shows "extend_write t2 d1 k p' l = Inl (ApiError 409 ''conflict'' ''The lease changed meanwhile; try again'')"
proof -
  have d1: "db_instanceLeases d1 = t_update (\<lambda>r. lease_key r = k \<and> il_extensions r = il_extensions l)
      (extended t1 p l) (db_instanceLeases d)"
    using assms(2) by (auto simp: extend_write_def Let_def split: option.splits)
  have "find (\<lambda>r. lease_key r = k \<and> il_extensions r = il_extensions l) (db_instanceLeases d1) = None"
    unfolding d1 find_None_iff t_update_def set_map
  proof
    let ?sel = "\<lambda>r. lease_key r = k \<and> il_extensions r = il_extensions l"
    assume "\<exists>x. x \<in> (\<lambda>r. if ?sel r then extended t1 p l r else r) ` set (db_instanceLeases d) \<and> ?sel x"
    then obtain y where "?sel (if ?sel y then extended t1 p l y else y)" by blast
    then show False by (cases "?sel y") (auto simp: extended_def)
  qed
  then show ?thesis by (simp add: extend_write_def)
qed

theorem extend_no_double_witness:
  "\<exists>l d1 r1. extend_check leased_db web_key a_policy = Inr l \<and> extend_write 1 leased_db web_key a_policy l = Inr (d1, r1)
     \<and> extend_write 2 d1 web_key a_policy l = Inl (ApiError 409 ''conflict'' ''The lease changed meanwhile; try again'')"
proof -
  obtain l where l: "extend_check leased_db web_key a_policy = Inr l"
    by (simp add: extend_check_def leaseOf_def leased_db_def setLease_def lease_key_def web_key_def
        tenant_db_def empty_db_def t_lookup_def t_upsert_def a_policy_def)
  then have "leaseOf leased_db web_key = Some l" by (auto simp: extend_check_def split: option.splits if_splits)
  then have "find (\<lambda>r. lease_key r = web_key \<and> il_extensions r = il_extensions l) (db_instanceLeases leased_db) \<noteq> None"
    by (auto simp: leaseOf_def find_None_iff dest: t_lookup_SomeD)
  then obtain d1 r1 where "extend_write 1 leased_db web_key a_policy l = Inr (d1, r1)"
    by (auto simp: extend_write_def)
  with l extend_no_double[OF l this] show ?thesis by blast
qed

section \<open>Properties of the scheduler\<close>

lemma leaseOf_hand_out:
  "leaseOf (hand_out now (k, t, p) d) k' =
    (if k' = k \<and> leaseOf d k = None
     then Some \<lparr>il_clusterId = ik_clusterId k, il_project = ik_project k, il_name = ik_name k, il_tenantId = t,
        il_expiresAt = Some (now + lp_days p * DAY_MS), il_extensions = 0, il_actedAt = None, il_createdAt = now\<rparr>
     else leaseOf d k')"
  unfolding leaseOf_def hand_out_def
  by (cases k) (auto simp: leases_tbl.lookup_upsert lease_key_def split: option.splits)

lemma hand_out_jobs [simp]: "db_jobs (hand_out now u d) = db_jobs d"
  by (simp add: hand_out_def split: prod.splits)

lemma hand_out_keeps: "leaseOf d k = Some l \<Longrightarrow> leaseOf (hand_out now u d) k = Some l"
  by (cases u) (auto simp: leaseOf_hand_out)

lemma fold_hand_out:
  "leaseOf d k = Some l \<Longrightarrow> leaseOf (fold (hand_out now) us d) k = Some l"
  "(k, t, p) \<in> set us \<Longrightarrow> leaseOf d k = None \<Longrightarrow>
     \<exists>l p'. leaseOf (fold (hand_out now) us d) k = Some l \<and> (k, il_tenantId l, p') \<in> set us \<and>
       il_expiresAt l = Some (now + lp_days p' * DAY_MS) \<and> il_extensions l = 0"
  "db_jobs (fold (hand_out now) us d) = db_jobs d"
proof -
  show keep: "leaseOf d k = Some l \<Longrightarrow> leaseOf (fold (hand_out now) us d) k = Some l" for d k l us
    by (induction us arbitrary: d) (auto simp: hand_out_keeps)
  show "db_jobs (fold (hand_out now) us d) = db_jobs d" by (induction us arbitrary: d) auto
  show "(k, t, p) \<in> set us \<Longrightarrow> leaseOf d k = None \<Longrightarrow>
     \<exists>l p'. leaseOf (fold (hand_out now) us d) k = Some l \<and> (k, il_tenantId l, p') \<in> set us \<and>
       il_expiresAt l = Some (now + lp_days p' * DAY_MS) \<and> il_extensions l = 0"
  proof (induction us arbitrary: d)
    case (Cons u us)
    obtain ku tu pu where u: "u = (ku, tu, pu)" by (cases u)
    show ?case
    proof (cases "ku = k")
      case True
      with Cons.prems(2) obtain l where l: "leaseOf (hand_out now u d) k = Some l" "il_tenantId l = tu"
        "il_expiresAt l = Some (now + lp_days pu * DAY_MS)" "il_extensions l = 0"
        by (simp add: u leaseOf_hand_out)
      have "(k, il_tenantId l, pu) \<in> set (u # us)" using True l(2) u by simp
      with keep[OF l(1), of us] l(3,4) show ?thesis by auto
    next
      case False
      then have "leaseOf (hand_out now u d) k = None" "(k, t, p) \<in> set us"
        using Cons.prems by (auto simp: u leaseOf_hand_out)
      from Cons.IH[OF this(2,1)] show ?thesis by auto
    qed
  qed simp
qed

lemma act_on_lease:
  "leaseOf d k = Some l \<Longrightarrow> \<exists>a. leaseOf (act_on gen now e d) k = Some (l\<lparr>il_actedAt := a\<rparr>)"
proof -
  assume l: "leaseOf d k = Some l"
  obtain le p st where e: "e = (le, p, st)" by (cases e)
  have self: "l = l\<lparr>il_actedAt := il_actedAt l\<rparr>" by simp
  show ?thesis
  proof (cases "lp_action p = Stop \<and> st \<noteq> ''Running''")
    case True
    then have "act_on gen now e d = d" by (auto simp: act_on_def e)
    then show ?thesis using l self by metis
  next
    case False
    show ?thesis
    proof (cases "enqueueJob now (gen d) d (lease_job le (lp_action p))")
      case (Inl x)
      then have "act_on gen now e d = d" using False by (auto simp: act_on_def e)
      then show ?thesis using l self by metis
    next
      case (Inr dj)
      obtain d' j where dj: "dj = (d', j)" by (cases dj)
      have "db_instanceLeases d' = db_instanceLeases d"
        using Inr dj by (auto simp: enqueueJob_def Let_def split: if_splits)
      then have "leaseOf d' k = Some l" using l by (simp add: leaseOf_def)
      then have "leaseOf (act_on gen now e d) k = Some (if lease_key l = lease_key le then l\<lparr>il_actedAt := Some now\<rparr> else l)"
        using False Inr dj by (auto simp: act_on_def e leaseOf_update)
      then show ?thesis
        using exI[of "\<lambda>a. leaseOf (act_on gen now e d) k = Some (l\<lparr>il_actedAt := a\<rparr>)" "Some now"]
          exI[of "\<lambda>a. leaseOf (act_on gen now e d) k = Some (l\<lparr>il_actedAt := a\<rparr>)" "il_actedAt l"]
        by (cases "lease_key l = lease_key le") simp_all
    qed
  qed
qed

lemma fold_act_on_lease:
  "leaseOf d k = Some l \<Longrightarrow> \<exists>a. leaseOf (fold (act_on gen now) es d) k = Some (l\<lparr>il_actedAt := a\<rparr>)"
proof (induction es arbitrary: d l)
  case Nil
  have "l = l\<lparr>il_actedAt := il_actedAt l\<rparr>" by simp
  with Nil show ?case by (metis fold_Nil id_apply)
next
  case (Cons e es)
  from act_on_lease[OF Cons.prems] obtain a where "leaseOf (act_on gen now e d) k = Some (l\<lparr>il_actedAt := a\<rparr>)" by blast
  from Cons.IH[OF this] show ?case by simp
qed

text \<open>
  The scheduler gives every instance of a tenant with a policy a lease that ends the
  policy's number of days from now and has no extensions yet, and leaves every lease that
  exists with its tenant, its end and its extensions.
\<close>

theorem schedule_hands_out:
  shows "(\<forall>(k, t, p)\<in>set (unleased d). \<exists>l p'. leaseOf (scheduleLeases gen now d) k = Some l \<and>
      (k, il_tenantId l, p') \<in> set (unleased d) \<and>
      il_expiresAt l = Some (now + lp_days p' * DAY_MS) \<and> il_extensions l = 0) \<and>
    (\<forall>k l. leaseOf d k = Some l \<longrightarrow> (\<exists>a. leaseOf (scheduleLeases gen now d) k = Some (l\<lparr>il_actedAt := a\<rparr>)))"
proof -
  define d1 where "d1 = fold (hand_out now) (unleased d) d"
  have s: "scheduleLeases gen now d = fold (act_on gen now) (ended now d1) d1"
    by (simp add: scheduleLeases_def d1_def Let_def)
  have new: "\<exists>l p'. leaseOf (scheduleLeases gen now d) k = Some l \<and> (k, il_tenantId l, p') \<in> set (unleased d) \<and>
      il_expiresAt l = Some (now + lp_days p' * DAY_MS) \<and> il_extensions l = 0"
    if u: "(k, t, p) \<in> set (unleased d)" for k t p
  proof -
    have "leaseOf d k = None" using u by (auto simp: unleased_def split: if_splits)
    from fold_hand_out(2)[OF u this, of now] obtain l p' where l: "leaseOf d1 k = Some l" "(k, il_tenantId l, p') \<in> set (unleased d)"
      "il_expiresAt l = Some (now + lp_days p' * DAY_MS)" "il_extensions l = 0" unfolding d1_def by blast
    from fold_act_on_lease[OF l(1), of gen now "ended now d1"] obtain a where
      "leaseOf (scheduleLeases gen now d) k = Some (l\<lparr>il_actedAt := a\<rparr>)" unfolding s by blast
    with l(2-4) show ?thesis by (intro exI[of _ "l\<lparr>il_actedAt := a\<rparr>"] exI[of _ p']) simp
  qed
  have old: "\<exists>a. leaseOf (scheduleLeases gen now d) k = Some (l\<lparr>il_actedAt := a\<rparr>)" if "leaseOf d k = Some l" for k l
    using fold_act_on_lease[OF fold_hand_out(1)[OF that, of now "unleased d"]] unfolding s d1_def by blast
  from new old show ?thesis by blast
qed

theorem schedule_hands_out_witness:
  "\<exists>l. leaseOf (scheduleLeases (\<lambda>_. ''j'') 5 (tenant_db\<lparr>db_tenants := [a_tenant\<lparr>te_leasePolicy := Some a_policy\<rparr>]\<rparr>)) web_key = Some l
     \<and> il_expiresAt l = Some (5 + 30 * DAY_MS)"
proof -
  let ?d = "tenant_db\<lparr>db_tenants := [a_tenant\<lparr>te_leasePolicy := Some a_policy\<rparr>]\<rparr>"
  have u: "unleased ?d = [(web_key, ''T1'', a_policy)]" by code_simp
  from schedule_hands_out[of ?d "\<lambda>_. ''j''" 5] u show ?thesis
    by (auto simp: a_policy_def)
qed

lemma act_on_jobs:
  assumes "j \<in> set (db_jobs (act_on gen now (l, p, st) d))" and "j \<notin> set (db_jobs d)"
  shows "j = new_row now (gen d) (lease_job l (lp_action p)) \<and> (lp_action p = Stop \<longrightarrow> st = ''Running'')"
  using assms
  by (auto simp: act_on_def enqueueJob_def Let_def split: if_splits sum.splits)

text \<open>
  The scheduler queues nothing but what is due: every job it adds is the policy's action
  on the instance of a lease that has ended, and a stop is queued only for an instance that
  the inventory has seen running.
\<close>

theorem schedule_only_ended:
  assumes "j \<in> set (db_jobs (scheduleLeases gen now d))" and "j \<notin> set (db_jobs d)"
  shows "\<exists>l p st i. (l, p, st) \<in> set (ended now (fold (hand_out now) (unleased d) d)) \<and>
    j = new_row now i (lease_job l (lp_action p)) \<and> (\<exists>e. il_expiresAt l = Some e \<and> e < now) \<and>
    (lp_action p = Stop \<longrightarrow> st = ''Running'')"
proof -
  define d1 where "d1 = fold (hand_out now) (unleased d) d"
  have "\<exists>x\<in>set es. \<exists>i. j = new_row now i (lease_job (fst x) (lp_action (fst (snd x)))) \<and>
      (lp_action (fst (snd x)) = Stop \<longrightarrow> snd (snd x) = ''Running'')"
    if "j \<in> set (db_jobs (fold (act_on gen now) es d2))" "j \<notin> set (db_jobs d2)" for es d2
    using that
  proof (induction es arbitrary: d2)
    case (Cons e es)
    show ?case
    proof (cases "j \<in> set (db_jobs (act_on gen now e d2))")
      case True
      with act_on_jobs[of j gen now "fst e" "fst (snd e)" "snd (snd e)" d2] Cons.prems show ?thesis by auto
    next
      case False
      with Cons show ?thesis by auto
    qed
  qed simp
  from this[of "ended now d1" d1] assms fold_hand_out(3)[of now "unleased d" d]
  obtain l p st i where x: "(l, p, st) \<in> set (ended now d1)" "j = new_row now i (lease_job l (lp_action p))"
    "lp_action p = Stop \<longrightarrow> st = ''Running''"
    by (auto simp: scheduleLeases_def d1_def Let_def)
  moreover have "\<exists>e. il_expiresAt l = Some e \<and> e < now"
    using x(1) by (auto simp: ended_def split: if_splits option.splits)
  ultimately show ?thesis unfolding d1_def by blast
qed

theorem schedule_only_ended_witness:
  "\<exists>l p st i. (l, p, st) \<in> set (ended 2000 (fold (hand_out 2000) (unleased leased_db) leased_db)) \<and>
    new_row 2000 ''j'' (lease_job (hd (db_instanceLeases leased_db)) Stop) = new_row 2000 i (lease_job l (lp_action p)) \<and>
    (\<exists>e. il_expiresAt l = Some e \<and> e < 2000)"
proof -
  let ?row = "new_row 2000 ''j'' (lease_job (hd (db_instanceLeases leased_db)) Stop)"
  have "db_jobs (scheduleLeases (\<lambda>_. ''j'') 2000 leased_db) = [?row]" by code_simp
  then have new: "?row \<in> set (db_jobs (scheduleLeases (\<lambda>_. ''j'') 2000 leased_db))" by simp
  have "?row \<notin> set (db_jobs leased_db)" by (simp add: leased_db_def setLease_def tenant_db_def empty_db_def)
  from schedule_only_ended[OF new this] show ?thesis by blast
qed

section \<open>Properties of the job\<close>

text \<open>
  The job acts on nothing whose lease has not ended: if the lease is gone, has no end or
  was extended past now, it changes neither the database nor the cluster; and whatever
  happens, a policy of stopping never deletes: what the cluster would do on a delete does not
  matter.
\<close>

theorem lease_job_safe:
  assumes "lpay_action p = Stop \<or>
      (\<forall>l e. leaseOf d \<lparr>ik_clusterId = lpay_clusterId p, ik_project = lpay_project p, ik_name = lpay_name p\<rparr> = Some l \<longrightarrow>
         il_expiresAt l = Some e \<longrightarrow> now < e)"
  shows "leaseHandler ic now job p d w = leaseHandler (ic\<lparr>ic_delete := f\<rparr>) now job p d w \<and>
    ((\<forall>l e. leaseOf d \<lparr>ik_clusterId = lpay_clusterId p, ik_project = lpay_project p, ik_name = lpay_name p\<rparr> = Some l \<longrightarrow>
         il_expiresAt l = Some e \<longrightarrow> now < e)
       \<longrightarrow> leaseHandler ic now job p d w = (d, w, Inr (Skipped ''the lease was extended or removed'')))"
  using assms
  by (auto simp: leaseHandler_def lease_act_def set_stopped_def Let_def
      split: option.splits sum.splits failure.splits)

definition one_incus :: "bool incus" where
  "one_incus = \<lparr>ic_status = (\<lambda>w p n. Inr (if w then Some ''Running'' else None)), ic_stop = (\<lambda>w p n. Inr w),
     ic_delete = (\<lambda>w p n. Inr False)\<rparr>"

theorem lease_job_safe_witness:
  "leaseHandler one_incus 500 ''j'' \<lparr>lpay_clusterId = ''C1'', lpay_project = ''p'', lpay_name = ''web'', lpay_action = Delete\<rparr> leased_db True
     = (leased_db, True, Inr (Skipped ''the lease was extended or removed''))"
proof -
  have "leaseOf leased_db web_key = Some \<lparr>il_clusterId = ''C1'', il_project = ''p'', il_name = ''web'', il_tenantId = ''T1'',
      il_expiresAt = Some 1000, il_extensions = 0, il_actedAt = None, il_createdAt = 0\<rparr>"
    by (simp add: leaseOf_def leased_db_def setLease_def lease_key_def web_key_def tenant_db_def empty_db_def
        t_lookup_def t_upsert_def)
  with lease_job_safe[of "\<lparr>lpay_clusterId = ''C1'', lpay_project = ''p'', lpay_name = ''web'', lpay_action = Delete\<rparr>"
      leased_db 500 one_incus "''j''" True]
  show ?thesis by (simp add: web_key_def)
qed

text \<open>
  When the lease of a deleting policy has ended and Incus carries out the requests, the job
  ends with the instance deleted in the state after the stop, if it was running, and with its
  lease forgotten.
\<close>

theorem lease_job_deletes:
  assumes "leaseOf d k = Some l" and "il_expiresAt l = Some e" and "e \<le> now" and "lpay_action p = Delete"
    and "k = \<lparr>ik_clusterId = lpay_clusterId p, ik_project = lpay_project p, ik_name = lpay_name p\<rparr>"
    and "clientFor d (lpay_clusterId p) = Inr c"
    and "ic_status ic w (lpay_project p) (lpay_name p) = Inr (Some status)"
    and "status = ''Running'' \<Longrightarrow> ic_stop ic w (lpay_project p) (lpay_name p) = Inr w1"
    and "status \<noteq> ''Running'' \<Longrightarrow> w1 = w"
    and "ic_delete ic w1 (lpay_project p) (lpay_name p) = Inr w2"
  shows "\<exists>d'. leaseHandler ic now job p d w = (d', w2, Inr (Acted Delete e)) \<and> leaseOf d' k = None"
proof -
  have gone: "leaseOf (refreshInventory (forgetLease d0 k) ids) k = None" for d0 ids
    by (simp add: leaseOf_def refreshInventory_def forgetLease_def leases_tbl.lookup_remove)
  have act: "\<exists>d'. lease_act ic now job p k e d0 w1 = (d', w2, Inr (Acted Delete e)) \<and> leaseOf d' k = None" for d0
    using assms(4,10) gone by (simp add: lease_act_def Let_def)
  show ?thesis
    using assms(1-3,5-9) act by (cases "status = ''Running''") (simp_all add: leaseHandler_def set_stopped_def Let_def)
qed

theorem lease_job_deletes_witness:
  "\<exists>d'. leaseHandler one_incus 2000 ''j'' \<lparr>lpay_clusterId = ''C1'', lpay_project = ''p'', lpay_name = ''web'', lpay_action = Delete\<rparr> leased_db True
     = (d', False, Inr (Acted Delete 1000)) \<and> leaseOf d' web_key = None"
proof (rule lease_job_deletes[where c = a_cluster and status = "''Running''"
      and l = "\<lparr>il_clusterId = ''C1'', il_project = ''p'', il_name = ''web'', il_tenantId = ''T1'',
      il_expiresAt = Some 1000, il_extensions = 0, il_actedAt = None, il_createdAt = 0\<rparr>"])
qed (simp_all add: leaseOf_def leased_db_def setLease_def lease_key_def web_key_def tenant_db_def empty_db_def
        t_lookup_def t_upsert_def clientFor_def a_cluster_def one_incus_def)

end
