(* ===== verification/Lifecycle.thy ===== *)
theory Lifecycle
  imports Leases Acl
begin

text \<open>
  \<^verbatim>\<open>acl/lifecycle.ts\<close>: what a cluster's lifecycle events do to the owners, leases and permission
  entries of its instances, and the bookkeeping of the event streams. A rename that meets a
  row of the new name is refused by the database after what precedes it has been written, so
  the result carries the database and the outcome.
\<close>

section \<open>Events\<close>

record requestor =
  rq_username :: "string option"
  rq_protocol :: "string option"

record lifecycle_meta =
  lm_action :: "string option"
  lm_name :: "string option"
  lm_project :: "string option"
  lm_oldName :: "string option"
  lm_requestor :: "requestor option"

record lifecycle_event =
  ev_type :: "string option"
  ev_metadata :: "lifecycle_meta option"

text \<open>\<open>UUID\<close>, and \<open>isUuid\<close> of \<^verbatim>\<open>api/common.ts\<close>: groups of 8, 4, 4, 4 and 12 hexadecimal digits.\<close>

definition isUuid :: "string \<Rightarrow> bool" where
  "isUuid s = (let parts = split_on CHR ''-'' s
     in map length parts = [8, 4, 4, 4, 12] \<and> list_all (list_all hex_digit) parts)"

text \<open>
  The value of a \<open>uuid\<close> column for such a text: the database compares and returns identifiers in lower
  case, whatever case a request wrote them in. The identifiers in tokens and events are those
  IncusCloud handed out, as the database returned them.
\<close>

definition uuid_of :: "string \<Rightarrow> string" where
  "uuid_of s = map to_lower s"

definition event_path :: "db \<Rightarrow> string \<Rightarrow> string \<Rightarrow> (string \<Rightarrow> string) option" where
  "event_path d clusterId project =
     map_option (\<lambda>c. instance_path (cl_name c) project) (t_lookup cl_id (db_clusters d) clusterId)"

definition event_subject :: "db \<Rightarrow> requestor option \<Rightarrow> string option" where
  "event_subject d r =
    (case r of None \<Rightarrow> None
     | Some q \<Rightarrow>
         if rq_protocol q \<noteq> Some ''oidc'' \<or> \<not> truthy (rq_username q) then None
         else let name = the (rq_username q) in
           if isUuid name \<and> t_lookup us_id (db_users d) name \<noteq> None then Some (''user:'' @ name)
           else map_option (\<lambda>a. ''service:'' @ sa_id a) (find (\<lambda>a. sa_clientId a = name) (db_serviceAccounts d)))"

definition on_created :: "int \<Rightarrow> db \<Rightarrow> instance_key \<Rightarrow> requestor option \<Rightarrow> db \<times> bool result" where
  "on_created now d key r =
    (case event_subject d r of
       None \<Rightarrow> (d, Inr False)
     | Some subject \<Rightarrow> (recordOwner now d key subject Event, Inr True))"

definition on_renamed :: "db \<Rightarrow> instance_key \<Rightarrow> string \<Rightarrow> db \<times> bool result" where
  "on_renamed d key oldName =
    (let from = key\<lparr>ik_name := oldName\<rparr> in
     case renameOwned d from key of
       Inl e \<Rightarrow> (d, Inl e)
     | Inr d1 \<Rightarrow>
         (case renameLease d1 from key of
            Inl e \<Rightarrow> (d1, Inl e)
          | Inr d2 \<Rightarrow>
              (case event_path d2 (ik_clusterId key) (ik_project key) of
                 None \<Rightarrow> (d2, Inr True)
               | Some path \<Rightarrow>
                   (case moveEntries d2 (path oldName) (path (ik_name key)) of
                      Inl e \<Rightarrow> (d2, Inl e)
                    | Inr d3 \<Rightarrow> (d3, Inr True)))))"

definition on_deleted :: "db \<Rightarrow> instance_key \<Rightarrow> db \<times> bool result" where
  "on_deleted d key =
    (let d1 = forgetLease (forgetOwned d key) key in
     case event_path d1 (ik_clusterId key) (ik_project key) of
       None \<Rightarrow> (d1, Inr True)
     | Some path \<Rightarrow> (deleteEntriesUnder d1 (path (ik_name key)), Inr True))"

definition onLifecycle :: "int \<Rightarrow> db \<Rightarrow> string \<Rightarrow> lifecycle_event \<Rightarrow> db \<times> bool result" where
  "onLifecycle now d clusterId ev =
    (case ev_metadata ev of
       None \<Rightarrow> (d, Inr False)
     | Some m \<Rightarrow>
         if ev_type ev \<noteq> Some ''lifecycle'' \<or> \<not> truthy (lm_name m) \<or> \<not> truthy (lm_project m) then (d, Inr False)
         else let key = \<lparr>ik_clusterId = clusterId, ik_project = the (lm_project m), ik_name = the (lm_name m)\<rparr> in
           if lm_action m = Some ''instance-created'' then on_created now d key (lm_requestor m)
           else if lm_action m = Some ''instance-renamed'' then
             (if truthy (lm_oldName m) then on_renamed d key (the (lm_oldName m)) else (d, Inr False))
           else if lm_action m = Some ''instance-deleted'' then on_deleted d key
           else (d, Inr False))"

section \<open>Streams\<close>

text \<open>
  The class keeps one stream per enabled cluster. A stream is its number (its identity as an
  object), its backoff and whether it is connected; \<open>refresh\<close> follows the enrolled clusters,
  \<open>opened\<close> and \<open>retried\<close> are the stream's callbacks, ignored for a stream no longer kept.
\<close>

record stream =
  st_object :: nat
  st_backoff :: int
  st_connected :: bool

record streams =
  ss_streams :: "(string, stream) jsmap"
  ss_next :: nat
  ss_stopped :: bool
  ss_minBackoff :: int
  ss_maxBackoff :: int

definition open_stream :: "string \<Rightarrow> int \<Rightarrow> streams \<Rightarrow> streams" where
  "open_stream i backoff s =
    (if ss_stopped s then s
     else s\<lparr>ss_streams := m_set (ss_streams s) i \<lparr>st_object = ss_next s, st_backoff = backoff, st_connected = False\<rparr>,
            ss_next := ss_next s + 1\<rparr>)"

definition refresh_streams :: "db \<Rightarrow> streams \<Rightarrow> streams" where
  "refresh_streams d s =
    (let rows = filter (\<lambda>c. cl_status c \<noteq> ''disabled'') (db_clusters d);
         kept = s\<lparr>ss_streams := filter (\<lambda>e. fst e \<in> cl_id ` set rows) (ss_streams s)\<rparr>
     in fold (\<lambda>c s. if m_get (ss_streams s) (cl_id c) \<noteq> None then s else open_stream (cl_id c) (ss_minBackoff s) s) rows kept)"

definition opened :: "string \<Rightarrow> nat \<Rightarrow> streams \<Rightarrow> streams" where
  "opened i obj s =
    (case m_get (ss_streams s) i of
       Some x \<Rightarrow> if ss_stopped s \<or> st_object x \<noteq> obj then s
         else s\<lparr>ss_streams := m_set (ss_streams s) i (x\<lparr>st_connected := True, st_backoff := ss_minBackoff s\<rparr>)\<rparr>
     | None \<Rightarrow> s)"

definition retried :: "string \<Rightarrow> nat \<Rightarrow> streams \<Rightarrow> streams" where
  "retried i obj s =
    (case m_get (ss_streams s) i of
       Some x \<Rightarrow> if ss_stopped s \<or> st_object x \<noteq> obj then s
         else open_stream i (min (st_backoff x * 2) (ss_maxBackoff s)) s
     | None \<Rightarrow> s)"

definition stop_streams :: "streams \<Rightarrow> streams" where
  "stop_streams s = s\<lparr>ss_stopped := True, ss_streams := []\<rparr>"

section \<open>Facts\<close>

lemma event_path_cong: "db_clusters d' = db_clusters d \<Longrightarrow> event_path d' c p = event_path d c p"
  by (simp add: event_path_def)

lemma forget_only [simp]:
  "db_clusters (forgetLease (forgetOwned d k) k') = db_clusters d"
  "db_aclEntries (forgetLease (forgetOwned d k) k') = db_aclEntries d"
  "db_instanceOwners (forgetLease d k) = db_instanceOwners d"
  by (simp_all add: forgetLease_def forgetOwned_def)

definition event :: "string \<Rightarrow> string \<Rightarrow> string \<Rightarrow> string option \<Rightarrow> requestor option \<Rightarrow> lifecycle_event" where
  "event action project name old r = \<lparr>ev_type = Some ''lifecycle'',
     ev_metadata = Some \<lparr>lm_action = Some action, lm_name = Some name, lm_project = Some project, lm_oldName = old,
       lm_requestor = r\<rparr>\<rparr>"

section \<open>Properties\<close>

text \<open>
  A deleted instance leaves nothing behind that a later one of its name could inherit: its
  owner, its lease and every permission entry on it or below it are gone, and those of every
  other instance and path stay.
\<close>

theorem deleted_leaves_nothing:
  assumes "onLifecycle now d clusterId (event ''instance-deleted'' project name old r) = (d', res)"
    and "name \<noteq> []" and "project \<noteq> []" and "t_lookup cl_id (db_clusters d) clusterId = Some c"
    and "k = \<lparr>ik_clusterId = clusterId, ik_project = project, ik_name = name\<rparr>"
  shows "res = Inr True \<and>
    (\<forall>k'. ownerOf d' k' = (if k' = k then None else ownerOf d k')) \<and>
    (\<forall>k'. leaseOf d' k' = (if k' = k then None else leaseOf d k')) \<and>
    db_aclEntries d' = filter (\<lambda>e. \<not> entriesUnder (instance_path (cl_name c) project name) e) (db_aclEntries d)"
proof -
  have path: "event_path (forgetLease (forgetOwned d k) k) clusterId project = Some (instance_path (cl_name c) project)"
    using assms(4) by (simp add: event_path_def)
  have d': "d' = deleteEntriesUnder (forgetLease (forgetOwned d k) k) (instance_path (cl_name c) project name)" "res = Inr True"
    using assms(1-3) path unfolding assms(5)
    by (auto simp: onLifecycle_def event_def on_deleted_def Let_def)
  have own: "ownerOf d' k' = (if k' = k then None else ownerOf d k')" for k'
    by (simp add: d' ownerOf_def deleteEntriesUnder_def forgetLease_def forgetOwned_def owners_tbl.lookup_remove)
  have lea: "leaseOf d' k' = (if k' = k then None else leaseOf d k')" for k'
    by (simp add: d' leaseOf_def deleteEntriesUnder_def forgetLease_def forgetOwned_def leases_tbl.lookup_remove)
  show ?thesis using own lea by (simp add: d' deleteEntriesUnder_def)
qed

theorem deleted_leaves_nothing_witness:
  "leaseOf (fst (onLifecycle 5 leased_db ''C1'' (event ''instance-deleted'' ''p'' ''web'' None None))) web_key = None"
proof -
  have c: "t_lookup cl_id (db_clusters leased_db) ''C1'' = Some a_cluster"
    by (simp add: leased_db_def setLease_def tenant_db_def t_lookup_def a_cluster_def)
  have "web_key = \<lparr>ik_clusterId = ''C1'', ik_project = ''p'', ik_name = ''web''\<rparr>" by (simp add: web_key_def)
  from deleted_leaves_nothing[OF surjective_pairing _ _ c this, of 5 None None] show ?thesis by simp
qed

text \<open>
  A renamed instance keeps what it had: when nothing is recorded under the new name, its
  owner and lease are found there, the old name has neither, and every entry on or below its
  old path is on the same place below the new one.
\<close>

theorem renamed_keeps:
  assumes "onLifecycle now d clusterId (event ''instance-renamed'' project name (Some old) r) = (d', Inr b)"
    and "name \<noteq> []" and "project \<noteq> []" and "old \<noteq> []" and "old \<noteq> name"
    and "t_lookup cl_id (db_clusters d) clusterId = Some c"
    and "k = \<lparr>ik_clusterId = clusterId, ik_project = project, ik_name = name\<rparr>" and "k0 = k\<lparr>ik_name := old\<rparr>"
    and "ownerOf d k0 = Some u" and "leaseOf d k0 = Some l"
  shows "ownerOf d' k = Some u \<and> ownerOf d' k0 = None \<and> leaseOf d' k = Some (l\<lparr>il_name := name\<rparr>) \<and> leaseOf d' k0 = None \<and>
    db_aclEntries d' = map (\<lambda>e. if entriesUnder (instance_path (cl_name c) project old) e
      then e\<lparr>ae_path := instance_path (cl_name c) project name @ drop (length (instance_path (cl_name c) project old)) (ae_path e)\<rparr>
      else e) (db_aclEntries d)"
proof -
  have ne: "k0 \<noteq> k" using assms(5,7,8) by simp
  have ren: "on_renamed d k old = (d', Inr b)"
    using assms(1-4) unfolding assms(7) by (simp add: onLifecycle_def event_def Let_def)
  obtain d1 where d1: "renameOwned d k0 k = Inr d1"
    using ren assms(8) by (cases "renameOwned d k0 k") (auto simp: on_renamed_def Let_def)
  obtain d2 where d2: "renameLease d1 k0 k = Inr d2"
    using ren d1 assms(8) by (cases "renameLease d1 k0 k") (auto simp: on_renamed_def Let_def)
  obtain owners where o1: "t_rekey owner_key (db_instanceOwners d) k0 k
      (\<lambda>r. r\<lparr>io_clusterId := ik_clusterId k, io_project := ik_project k, io_name := ik_name k\<rparr>) = Inr owners"
    and d1': "d1 = d\<lparr>db_instanceOwners := owners\<rparr>"
    using d1 by (auto simp: renameOwned_def map_sum_def split: sum.splits)
  obtain leases where l1: "t_rekey lease_key (db_instanceLeases d1) k0 k
      (\<lambda>r. r\<lparr>il_clusterId := ik_clusterId k, il_project := ik_project k, il_name := ik_name k\<rparr>) = Inr leases"
    and d2': "d2 = d1\<lparr>db_instanceLeases := leases\<rparr>"
    using d2 by (auto simp: renameLease_def map_sum_def split: sum.splits)
  have path: "event_path d2 (ik_clusterId k) (ik_project k) = Some (instance_path (cl_name c) project)"
    using assms(6,7) by (simp add: d2' d1' event_path_def)
  then have mv: "moveEntries d2 (instance_path (cl_name c) project old) (instance_path (cl_name c) project name) = Inr d'"
    using ren d1 d2 assms(7,8) by (auto simp: on_renamed_def Let_def split: sum.splits)
  have same: "db_instanceOwners d' = owners" "db_instanceLeases d' = leases"
    and ents: "db_aclEntries d' = t_update (entriesUnder (instance_path (cl_name c) project old))
        (\<lambda>e. e\<lparr>ae_path := instance_path (cl_name c) project name @ drop (length (instance_path (cl_name c) project old)) (ae_path e)\<rparr>)
        (db_aclEntries d)"
    using mv by (auto simp: moveEntries_def Let_def d2' d1' split: if_splits)
  have at: "owner_at d k0 \<noteq> None" using assms(9) by (auto simp: ownerOf_def split: option.splits)
  have own: "owner_at d' k = map_option (\<lambda>r. r\<lparr>io_clusterId := ik_clusterId k, io_project := ik_project k, io_name := ik_name k\<rparr>) (owner_at d k0)"
    "owner_at d' k0 = None"
    unfolding same using t_lookup_rekey[OF o1 ne] at ne by (simp_all add: owner_key_def)
  have lea: "leaseOf d' k = map_option (\<lambda>r. r\<lparr>il_clusterId := ik_clusterId k, il_project := ik_project k, il_name := ik_name k\<rparr>) (leaseOf d k0)"
    "leaseOf d' k0 = None"
    unfolding leaseOf_def same using t_lookup_rekey[OF l1 ne] assms(10) ne by (simp_all add: lease_key_def leaseOf_def d1')
  have "lease_key l = k0" using assms(10) by (rule leaseOf_key)
  then have "l\<lparr>il_clusterId := ik_clusterId k, il_project := ik_project k, il_name := ik_name k\<rparr> = l\<lparr>il_name := name\<rparr>"
    using assms(7,8) by (cases l) (simp add: lease_key_def)
  then show ?thesis
    using own lea ents at assms(9,10) by (auto simp: ownerOf_def t_update_def split: option.splits if_splits)
qed

definition owned_db :: db where
  "owned_db = recordOwner 1 leased_db web_key ''user:u'' Event"

theorem renamed_keeps_witness:
  "ownerOf (fst (onLifecycle 5 owned_db ''C1'' (event ''instance-renamed'' ''p'' ''app'' (Some ''web'') None)))
     (web_key\<lparr>ik_name := ''app''\<rparr>) = Some ''user:u''"
proof -
  let ?r = "onLifecycle 5 owned_db ''C1'' (event ''instance-renamed'' ''p'' ''app'' (Some ''web'') None)"
  have ok: "snd ?r = Inr True" by code_simp
  then have run: "?r = (fst ?r, Inr True)" by (metis prod.collapse)
  have c: "t_lookup cl_id (db_clusters owned_db) ''C1'' = Some a_cluster" by code_simp
  have k: "web_key\<lparr>ik_name := ''app''\<rparr> = \<lparr>ik_clusterId = ''C1'', ik_project = ''p'', ik_name = ''app''\<rparr>" by (simp add: web_key_def)
  have k0: "web_key = (web_key\<lparr>ik_name := ''app''\<rparr>)\<lparr>ik_name := ''web''\<rparr>" by (simp add: web_key_def)
  have own: "ownerOf owned_db web_key = Some ''user:u''" by code_simp
  obtain l where lea: "leaseOf owned_db web_key = Some l"
    by (simp add: owned_db_def recordOwner_def leaseOf_def leased_db_def setLease_def lease_key_def web_key_def tenant_db_def
        empty_db_def t_lookup_def t_upsert_def Let_def)
  from renamed_keeps[OF run _ _ _ _ c k k0 own lea] show ?thesis by simp
qed

end
