(* ===== verification/Permissions.thy ===== *)
theory Permissions
  imports Acl_Scope Lifecycle
begin

text \<open>
  What the API asks of the permissions before it acts: the guards (\<^verbatim>\<open>authz/guards.ts\<close>), the rule
  that nobody changes what reaches someone above them (\<^verbatim>\<open>acl/outrank.ts\<close>), the rule that an
  administrator stays (\<^verbatim>\<open>acl/admins.ts\<close>), the former authorisation store's interface answered
  from the ACL (\<^verbatim>\<open>authz/acl-authz.ts\<close>), and the routes that change permission entries
  (\<^verbatim>\<open>api/acl.ts\<close>). The guards are clients of the interface \<open>authority\<close>, which the ACL provides.
\<close>

section \<open>Guards\<close>

definition forbidden :: failure where
  "forbidden = ApiError 403 ''forbidden'' ''You do not have permission to do this''"

definition notFound :: "string \<Rightarrow> failure" where
  "notFound what = ApiError 404 ''not_found'' what"

definition need_priv :: "('p \<Rightarrow> string \<Rightarrow> bool) \<Rightarrow> ('p \<Rightarrow> privilege \<Rightarrow> string \<Rightarrow> bool) \<Rightarrow> 'p \<Rightarrow> privilege \<Rightarrow> string \<Rightarrow> string \<Rightarrow> unit result" where
  "need_priv seen held p privilege path what =
     (if \<not> seen p path then Inl (notFound what)
      else if \<not> held p privilege path then Inl forbidden
      else Inr ())"

text \<open>The interface: whoever holds a privilege on a path sees it.\<close>

locale authority =
  fixes seen :: "'p \<Rightarrow> string \<Rightarrow> bool"
    and held :: "'p \<Rightarrow> privilege \<Rightarrow> string \<Rightarrow> bool"
  assumes held_seen: "held p privilege path \<Longrightarrow> seen p path"
begin

lemma need_ok_iff: "need_priv seen held p privilege path what = Inr () \<longleftrightarrow> held p privilege path"
  by (auto simp: need_priv_def dest: held_seen)

lemma need_hidden: "\<not> seen p path \<Longrightarrow> need_priv seen held p privilege path what = Inl (notFound what)"
  by (simp add: need_priv_def)

lemma need_denied_iff: "need_priv seen held p privilege path what = Inl forbidden \<longleftrightarrow> seen p path \<and> \<not> held p privilege path"
  by (auto simp: need_priv_def notFound_def forbidden_def)

end

definition needPriv :: "snapshot \<Rightarrow> principal \<Rightarrow> privilege \<Rightarrow> string \<Rightarrow> string \<Rightarrow> unit result" where
  "needPriv s = need_priv (sees s) (\<lambda>p privilege path. can s p privilege path None)"

interpretation acl_guard: authority "sees s" "\<lambda>p privilege path. can s p privilege path None" for s
  by unfold_locales (auto simp: sees_def can_def acl_privileges_def Let_def)

definition needTenant :: "db \<Rightarrow> snapshot \<Rightarrow> principal \<Rightarrow> string \<Rightarrow> privilege \<Rightarrow> string result" where
  "needTenant d s p tenantId privilege =
    (case (if isUuid tenantId then t_lookup te_id (db_tenants d) (uuid_of tenantId) else None) of
       None \<Rightarrow> Inl (notFound ''Not found'')
     | Some row \<Rightarrow>
         let path = ''/tenants/'' @ te_slug row in
         if \<not> can s p ''tenant.view'' path None then Inl (notFound ''Not found'')
         else if \<not> can s p privilege path None then Inl forbidden
         else Inr path)"

section \<open>Outranking\<close>

definition outranked :: "string \<Rightarrow> failure" where
  "outranked msg = ApiError 403 ''outranked'' msg"

definition tenant_of_path :: "string \<Rightarrow> string option" where
  "tenant_of_path path =
    (let slug = before_first CHR ''/'' (drop (length ''/tenants/'') path)
     in if startsWith path ''/tenants/'' \<and> slug \<noteq> [] then Some slug else None)"

definition tenant_owner :: "snapshot \<Rightarrow> string \<Rightarrow> string \<Rightarrow> bool" where
  "tenant_owner s slug subject =
    (case find (\<lambda>(i, x). x = slug) (lk_tenantSlugs (sn_ids s)) of
       None \<Rightarrow> False
     | Some (tenantId, _) \<Rightarrow> tenantId \<noteq> [] \<and> startsWith subject ''user:''
         \<and> tenantId @ '':'' @ drop 5 subject \<in> lk_owners (sn_ids s))"

definition needOutrank :: "snapshot \<Rightarrow> principal \<Rightarrow> string \<Rightarrow> string list \<Rightarrow> unit result" where
  "needOutrank s caller path subjects =
    (let me = subjectOf caller; mine = acl_privileges s caller path None in
     if list_ex (\<lambda>x. x \<noteq> me \<and> \<not> reach s x path \<subseteq> mine) subjects
     then Inl (outranked ''They hold rights here that you do not; ask a platform administrator'')
     else (case tenant_of_path path of
       None \<Rightarrow> Inr ()
     | Some slug \<Rightarrow>
         if list_ex (\<lambda>x. x \<noteq> me \<and> tenant_owner s slug x) subjects \<and> \<not> tenant_owner s slug me
            \<and> \<not> can s caller ''platform.users'' ''/'' None
         then Inl (outranked ''Only the tenant's owners and platform administrators change what its owners get'')
         else Inr ()))"

section \<open>Administrators\<close>

datatype admin_hold = ByRole (hold_user: string) | ByEntry (hold_user: string) string

definition admin_roles :: "db \<Rightarrow> admin_hold list" where
  "admin_roles d = [ByRole (pr_userId r). r \<leftarrow> db_platformRoles d, u \<leftarrow> db_users d,
     us_id u = pr_userId r \<and> pr_role r = ''admin'' \<and> \<not> us_disabled u]"

definition admin_entries :: "db \<Rightarrow> admin_hold list" where
  "admin_entries d = [ByEntry (us_id u) (ae_id e). e \<leftarrow> db_aclEntries d, u \<leftarrow> db_users d,
     ae_userId e = Some (us_id u) \<and> ae_path e = ''/'' \<and> ae_role e = ''administrator'' \<and> \<not> us_disabled u]"

definition fenced :: "db \<Rightarrow> string option set" where
  "fenced d = ae_userId ` set (filter (\<lambda>e. ae_path e = ''/'' \<and> ae_role e = ''no-access'') (db_aclEntries d))"

definition administrators :: "db \<Rightarrow> admin_hold list" where
  "administrators d = filter (\<lambda>h. Some (hold_user h) \<notin> fenced d) (admin_roles d @ admin_entries d)"

definition keepAnAdministrator :: "db \<Rightarrow> (admin_hold \<Rightarrow> bool) \<Rightarrow> unit result" where
  "keepAnAdministrator d lost =
    (let all = administrators d; left = map hold_user (filter (\<lambda>h. \<not> lost h) all) in
     if list_ex lost all \<and> left = [] then Inl (ApiError 409 ''last_admin'' ''This is the last platform administrator'')
     else Inr ())"

section \<open>The former authorisation store\<close>

definition who :: "snapshot \<Rightarrow> string \<Rightarrow> principal option" where
  "who s user =
    (let i = drop 5 user in
     if startsWith user ''user:'' \<and> i \<noteq> []
     then Some \<lparr>p_kind = (if i \<in> lk_serviceAccounts (sn_ids s) then KService else KUser), p_id = i, p_email = None,
       p_name = [], p_token = [], p_platformRole = None, p_tenantId = None\<rparr>
     else None)"

definition clusterPath :: "snapshot \<Rightarrow> string \<Rightarrow> string option" where
  "clusterPath s i =
    (let name = m_get (lk_clusterNames (sn_ids s)) i
     in if truthy name then Some (''/clusters/'' @ the name) else None)"

definition can_access :: "snapshot \<Rightarrow> principal \<Rightarrow> string \<Rightarrow> bool" where
  "can_access s w i = (case clusterPath s i of None \<Rightarrow> False | Some p \<Rightarrow> sees s w p)"

definition authz_check :: "snapshot \<Rightarrow> string \<Rightarrow> string \<Rightarrow> string \<Rightarrow> bool" where
  "authz_check s user relation object =
    (let parts = split_on CHR '':'' object;
         i = (if length parts > 1 then parts ! 1 else []) in
     case who s user of
       None \<Rightarrow> False
     | Some w \<Rightarrow> i \<noteq> [] \<and> parts ! 0 @ ''#'' @ relation = ''cluster#can_access'' \<and> can_access s w i)"

definition listObjects :: "snapshot \<Rightarrow> string \<Rightarrow> string \<Rightarrow> string \<Rightarrow> string list" where
  "listObjects s user relation type =
    (let ids = (if type = ''tenant'' then map fst (lk_tenantSlugs (sn_ids s))
       else if type = ''cluster'' then map fst (lk_clusterNames (sn_ids s)) else [])
     in sort (map (\<lambda>i. type @ '':'' @ i) (filter (\<lambda>i. authz_check s user relation (type @ '':'' @ i)) ids)))"

section \<open>The routes\<close>

datatype subject_type = SUser | SService | SGroup | STenant

fun type_name :: "subject_type \<Rightarrow> string" where
  "type_name SUser = ''user''"
| "type_name SService = ''service''"
| "type_name SGroup = ''group''"
| "type_name STenant = ''tenant''"

record entry_body =
  eb_path :: string
  eb_type :: subject_type
  eb_id :: string
  eb_role :: string
  eb_propagate :: bool

text \<open>Who an entry for a subject reaches.\<close>

definition reachOf :: "db \<Rightarrow> string \<Rightarrow> string list" where
  "reachOf d subject =
    (let parts = split_on CHR '':'' subject; type = parts ! 0;
         i = (if length parts > 1 then parts ! 1 else ''undefined'') in
     if \<not> isUuid i then []
     else if type = ''group'' then
       map (\<lambda>m. if truthy (gm_userId m) then ''user:'' @ the (gm_userId m)
         else ''service:'' @ (case gm_serviceAccountId m of None \<Rightarrow> ''null'' | Some a \<Rightarrow> a))
         (filter (\<lambda>m. gm_groupId m = uuid_of i) (db_groupMembers d))
     else if type = ''tenant'' then
       map (\<lambda>m. ''user:'' @ tm_userId m) (filter (\<lambda>m. tm_tenantId m = uuid_of i) (db_tenantMembers d))
       @ map (\<lambda>a. ''service:'' @ sa_id a) (filter (\<lambda>a. sa_tenantId a = Some (uuid_of i)) (db_serviceAccounts d))
     else [subject])"

definition subjectExists :: "db \<Rightarrow> subject_type \<Rightarrow> string \<Rightarrow> bool" where
  "subjectExists d type i =
    (isUuid i \<and> uuid_of i \<in> (case type of SUser \<Rightarrow> us_id ` set (db_users d) | SService \<Rightarrow> sa_id ` set (db_serviceAccounts d)
       | SGroup \<Rightarrow> gr_id ` set (db_groups d) | STenant \<Rightarrow> te_id ` set (db_tenants d)))"

text \<open>The clusters whose Incus grants an entry on a path can change.\<close>

definition k8s_of_path :: "string \<Rightarrow> (string \<times> string) option" where
  "k8s_of_path path =
    (case split_on CHR ''/'' path of
       [a, b, t, c, n] \<Rightarrow> if a = [] \<and> b = ''tenants'' \<and> c = ''kubernetes'' \<and> t \<noteq> [] \<and> n \<noteq> [] then Some (t, n) else None
     | _ \<Rightarrow> None)"

definition cluster_of_path :: "string \<Rightarrow> string option" where
  "cluster_of_path path =
    (let name = before_first CHR ''/'' (drop (length ''/clusters/'') path)
     in if startsWith path ''/clusters/'' \<and> name \<noteq> [] then Some name else None)"

definition affected :: "db \<Rightarrow> string \<Rightarrow> reconcile_target" where
  "affected d path =
    (case k8s_of_path path of
       Some (t, n) \<Rightarrow> Clusters [kc_clusterId k. k \<leftarrow> db_k8sClusters d, x \<leftarrow> db_tenants d,
         te_id x = kc_tenantId k \<and> te_slug x = t \<and> kc_name k = n]
     | None \<Rightarrow>
         if path = ''/'' \<or> startsWith path ''/tenants/'' then AllClusters
         else (case cluster_of_path path of
           None \<Rightarrow> Clusters []
         | Some name \<Rightarrow> Clusters (map cl_id (filter (\<lambda>c. cl_name c = name) (db_clusters d)))))"

definition clusterId_of :: "db \<Rightarrow> string \<Rightarrow> string option" where
  "clusterId_of d name = map_option cl_id (find (\<lambda>c. cl_name c = name) (db_clusters d))"

fun objectExists :: "db \<Rightarrow> acl_path \<Rightarrow> bool" where
  "objectExists d PRoot = True"
| "objectExists d PPlatform = False"
| "objectExists d (PCluster c) = truthy (clusterId_of d c)"
| "objectExists d (PGroup c g) =
     (truthy (clusterId_of d c) \<and>
      (g = ''default'' \<or> (\<exists>m\<in>set (db_clusterMembers d). Some (cm_clusterId m) = clusterId_of d c \<and> g \<in> set (cm_groups m))))"
| "objectExists d (PTenant t) = (\<exists>x\<in>set (db_tenants d). te_slug x = t)"
| "objectExists d (PProject c p) =
     (truthy (clusterId_of d c) \<and>
      ((\<exists>x\<in>set (db_placements d). Some (pl_clusterId x) = clusterId_of d c \<and> pl_project x = p)
       \<or> (\<exists>i\<in>set (db_instances d). Some (in_clusterId i) = clusterId_of d c \<and> in_project i = p)))"
| "objectExists d (PInstance c p n) =
     (truthy (clusterId_of d c) \<and>
      (\<exists>i\<in>set (db_instances d). Some (in_clusterId i) = clusterId_of d c \<and> in_project i = p \<and> in_name i = n))"
| "objectExists d (PKubernetes t n) =
     (\<exists>k\<in>set (db_k8sClusters d). \<exists>x\<in>set (db_tenants d). te_id x = kc_tenantId k \<and> te_slug x = t \<and> kc_name k = n)"

definition isAdministrator :: "snapshot \<Rightarrow> principal \<Rightarrow> bool" where
  "isAdministrator s p = list_ex (\<lambda>e. en_role e = Administrator) (snd (explain s (subjectOf p) ''/''))"

definition ONLY_ADMINS :: "role_id set" where
  "ONLY_ADMINS = {Administrator, ClusterOwner}"

definition needManage :: "snapshot \<Rightarrow> principal \<Rightarrow> string \<Rightarrow> role_id \<Rightarrow> unit result" where
  "needManage s p path r =
     then_do (needPriv s p ''acl.manage'' path ''Not found'')
       (\<lambda>_. check_that (r \<notin> ONLY_ADMINS \<or> isAdministrator s p) forbidden)"

definition bad :: "string \<Rightarrow> string \<Rightarrow> failure" where
  "bad code msg = ApiError 400 code msg"

definition entry_row :: "int \<Rightarrow> string \<Rightarrow> principal \<Rightarrow> entry_body \<Rightarrow> acl_entry_row" where
  "entry_row now i p b = \<lparr>ae_id = i, ae_path = eb_path b,
     ae_userId = (if eb_type b = SUser then Some (uuid_of (eb_id b)) else None),
     ae_serviceAccountId = (if eb_type b = SService then Some (uuid_of (eb_id b)) else None),
     ae_groupId = (if eb_type b = SGroup then Some (uuid_of (eb_id b)) else None),
     ae_tenantGroupId = (if eb_type b = STenant then Some (uuid_of (eb_id b)) else None),
     ae_role = eb_role b, ae_propagate = eb_propagate b,
     ae_createdBy = (if p_kind p = KUser then Some (p_id p) else None), ae_createdAt = now\<rparr>"

text \<open>The checks on a new entry, in the order of the handler.\<close>

definition entry_checks :: "snapshot \<Rightarrow> db \<Rightarrow> principal \<Rightarrow> entry_body \<Rightarrow> unit result" where
  "entry_checks s d p b =
    (case parsePath (eb_path b) of
       None \<Rightarrow> Inl (bad ''invalid_path'' ''Entries go on /, a cluster, a project, an instance, a tenant or a Kubernetes cluster for now'')
     | Some path \<Rightarrow>
         if path = PPlatform
         then Inl (bad ''invalid_path'' ''Entries go on /, a cluster, a project, an instance, a tenant or a Kubernetes cluster for now'')
         else (case role_of (eb_role b) of
           None \<Rightarrow> Inl (bad ''invalid_role'' ''Not a role that can be given yet'')
         | Some r \<Rightarrow>
             if r = UnrestrictedUser \<and> (case path of PRoot \<Rightarrow> True | PCluster c \<Rightarrow> True | _ \<Rightarrow> False)
             then Inl (bad ''invalid_role'' ''Unrestricted user goes on a cluster group, a tenant or a project: on a cluster or / it would reach every tenant's projects'')
             else if r = GroupOwner \<and> \<not> (case path of PGroup c g \<Rightarrow> True | _ \<Rightarrow> False)
             then Inl (bad ''invalid_role'' ''Group owner goes on a cluster group'')
             else if \<not> subjectExists d (eb_type b) (eb_id b)
             then Inl (bad ''invalid_subject'' ''No such user, service account, group or tenant'')
             else then_do (needManage s p (eb_path b) r) (\<lambda>_.
               then_do (needOutrank s p (eb_path b) (reachOf d (type_name (eb_type b) @ '':'' @ eb_id b))) (\<lambda>_.
               then_do (check_that (objectExists d path)
                 (bad ''invalid_path'' ''Nothing there: no such cluster, cluster group, project, instance, tenant or Kubernetes cluster'')) (\<lambda>_.
               if eb_type b = SUser \<and> eb_path b = ''/'' \<and> r = NoAccess
               then keepAnAdministrator d (\<lambda>h. hold_user h = eb_id b) else Inr ())))))"

text \<open>
  The handlers. \<open>s\<close> is the snapshot the guards read, \<open>i\<close> the identifier the database generates;
  the cached snapshot is dropped. The audit row around them is not part of the model.
\<close>

definition create_entry :: "int \<Rightarrow> string \<Rightarrow> snapshot \<Rightarrow> db \<Rightarrow> principal \<Rightarrow> entry_body \<Rightarrow> (db \<times> snapshot option) result" where
  "create_entry now i s d p b =
     then_do (entry_checks s d p b) (\<lambda>_.
       let row = entry_row now i p b in
       if \<exists>e\<in>set (db_aclEntries d). entry_key e = entry_key row \<or> ae_id e = i
       then Inl (ApiError 409 ''entry_exists'' ''This entry exists'')
       else let d1 = d\<lparr>db_aclEntries := db_aclEntries d @ [row]\<rparr>
         in Inr (requestReconcile now d1 (affected d1 (eb_path b)), invalidate (Some s)))"

fun by_entry :: "string \<Rightarrow> admin_hold \<Rightarrow> bool" where
  "by_entry x (ByRole u) = False"
| "by_entry x (ByEntry u y) = (y = x)"

definition delete_entry :: "int \<Rightarrow> string \<Rightarrow> snapshot \<Rightarrow> db \<Rightarrow> principal \<Rightarrow> (db \<times> snapshot option) result" where
  "delete_entry now i s d p =
    (case (if isUuid i then t_lookup ae_id (db_aclEntries d) (uuid_of i) else None) of
       None \<Rightarrow> Inl (notFound ''No such entry'')
     | Some row \<Rightarrow>
         (case role_of (ae_role row) of
            None \<Rightarrow> Inl (notFound ''No such entry'')
          | Some r \<Rightarrow>
              then_do (needManage s p (ae_path row) r) (\<lambda>_.
              then_do (needOutrank s p (ae_path row) (reachOf d (entrySubject row)
                @ (if truthy (ae_createdBy row) then [''user:'' @ the (ae_createdBy row)] else []))) (\<lambda>_.
              then_do (keepAnAdministrator d (by_entry (ae_id row))) (\<lambda>_.
                let d1 = d\<lparr>db_aclEntries := filter (\<lambda>e. ae_id e \<noteq> ae_id row) (db_aclEntries d)\<rparr>
                in Inr (requestReconcile now d1 (affected d1 (ae_path row)), invalidate (Some s)))))))"

text \<open>Reading: the entries below a path the caller may view, and what decides for a subject.\<close>

definition entry_names :: "db \<Rightarrow> (string, string) jsmap" where
  "entry_names d = m_of (
     map (\<lambda>u. (''user:'' @ us_id u, us_email u)) (db_users d)
     @ map (\<lambda>a. (''service:'' @ sa_id a, sa_name a)) (db_serviceAccounts d)
     @ map (\<lambda>g. (''group:'' @ gr_id g, gr_name g @ '' (group)'')) (db_groups d)
     @ map (\<lambda>t. (''tenant:'' @ te_id t, te_slug t @ ''/members'')) (db_tenants d))"

definition subject_name :: "(string, string) jsmap \<Rightarrow> entry \<Rightarrow> string" where
  "subject_name named e = (case m_get named (en_subject e) of Some n \<Rightarrow> n
     | None \<Rightarrow> (let parts = split_on CHR '':'' (en_subject e) in if length parts > 1 then parts ! 1 else []))"

definition role_name_of :: "role_id \<Rightarrow> string" where
  "role_name_of r = fst (the (find (\<lambda>(n, x). x = r) ROLE_IDS))"

definition list_entries :: "(string \<Rightarrow> string \<Rightarrow> rat) \<Rightarrow> snapshot \<Rightarrow> db \<Rightarrow> principal \<Rightarrow> string option \<Rightarrow> entry list result" where
  "list_entries lc s d p query =
    (let base = (case query of None \<Rightarrow> ''/'' | Some q \<Rightarrow> q) in
     if parsePath base = None then Inl (bad ''invalid_path'' ''Not a permissions path'')
     else let inside = (\<lambda>x. base = ''/'' \<or> x = base \<or> startsWith x (base @ ''/''));
              named = entry_names d;
              orElse = (\<lambda>a b::rat. if a \<noteq> 0 then a else b)
       in Inr (sort_by (\<lambda>a b. orElse (lc (en_path a) (en_path b))
             (orElse (lc (subject_name named a) (subject_name named b)) (lc (role_name_of (en_role a)) (role_name_of (en_role b)))))
           (filter (\<lambda>e. inside (en_path e) \<and> can s p ''acl.view'' (en_path e) None) (sn_entries s))))"

definition subject_query :: "string \<Rightarrow> bool" where
  "subject_query q =
    (let parts = split_on CHR '':'' q in
     length parts = 2 \<and> map to_lower (parts ! 0) \<in> {''user'', ''service''} \<and> length (parts ! 1) = 36
       \<and> list_all (\<lambda>c. hex_digit c \<or> c = CHR ''-'') (parts ! 1))"

definition check_access :: "snapshot \<Rightarrow> principal \<Rightarrow> string \<Rightarrow> string \<Rightarrow> (privilege list \<times> entry list) result" where
  "check_access s p subject path =
    (if \<not> subject_query subject then Inl (bad ''invalid_subject'' ''subject is user:<id> or service:<id>'')
     else if parsePath path = None then Inl (bad ''invalid_path'' ''Not a permissions path'')
     else then_do (needPriv s p ''acl.view'' path ''Not found'') (\<lambda>_. Inr (explain s subject path)))"

section \<open>Properties of the guards\<close>

text \<open>
  The guard lets a caller through exactly when it holds the privilege on the path; a caller
  that does not see the path learns nothing from it but that nothing is there, whatever the
  privilege asked for; and only callers that see it are told that it is forbidden.
\<close>

theorem needPriv_exact:
  "(needPriv s p privilege path what = Inr () \<longleftrightarrow> can s p privilege path None) \<and>
   (needPriv s p privilege path what = Inl (notFound what) \<longleftrightarrow> \<not> sees s p path) \<and>
   (needPriv s p privilege path what = Inl forbidden \<longleftrightarrow> sees s p path \<and> \<not> can s p privilege path None)"
proof -
  have "needPriv s p privilege path what = Inl (notFound what) \<longleftrightarrow> \<not> sees s p path"
    by (auto simp: needPriv_def need_priv_def notFound_def forbidden_def)
  then show ?thesis
    unfolding needPriv_def using acl_guard.need_ok_iff[of s] acl_guard.need_denied_iff[of s] by blast
qed

text \<open>
  C38: Nobody changes what reaches someone above them: when the outranking check passes, every
  subject it was asked about other than the caller holds, on the path and on every path
  above it, only privileges the caller holds on the path; and a tenant's owners are touched
  only by its owners and by user administrators.
\<close>

theorem outrank_sound:
  assumes "needOutrank s caller path subjects = Inr ()" and "x \<in> set subjects" and "x \<noteq> subjectOf caller"
    and "parsePath path = Some q" and "y \<in> set (chain_of s q)"
  shows "privileges (decide s x y None) \<subseteq> acl_privileges s caller path None \<and>
    (\<forall>slug. tenant_of_path path = Some slug \<longrightarrow> tenant_owner s slug x \<longrightarrow>
       tenant_owner s slug (subjectOf caller) \<or> can s caller ''platform.users'' ''/'' None)"
proof -
  have "reach s x path \<subseteq> acl_privileges s caller path None"
    using assms(1-3) by (auto simp: needOutrank_def Let_def list_ex_iff split: if_splits)
  moreover have "privileges (decide s x y None) \<subseteq> reach s x path"
    using assms(4,5) by (auto simp: reach_def)
  moreover have "tenant_owner s slug (subjectOf caller) \<or> can s caller ''platform.users'' ''/'' None"
    if "tenant_of_path path = Some slug" "tenant_owner s slug x" for slug
    using assms(1-3) that by (auto simp: needOutrank_def Let_def list_ex_iff split: if_splits)
  ultimately show ?thesis by blast
qed

section \<open>Properties of the routes\<close>

lemma requestReconcile_entries [simp]:
  "db_aclEntries (requestReconcile now d t) = db_aclEntries d" "db_users (requestReconcile now d t) = db_users d"
  "db_platformRoles (requestReconcile now d t) = db_platformRoles d"
  by (auto simp: requestReconcile_def split: reconcile_target.splits)

lemma entry_checksD:
  assumes "entry_checks s d p b = Inr u"
  obtains path r where "parsePath (eb_path b) = Some path" "role_of (eb_role b) = Some r"
    "needManage s p (eb_path b) r = Inr ()"
    "needOutrank s p (eb_path b) (reachOf d (type_name (eb_type b) @ '':'' @ eb_id b)) = Inr ()"
    "objectExists d path"
    "eb_type b = SUser \<and> eb_path b = ''/'' \<and> r = NoAccess \<longrightarrow> keepAnAdministrator d (\<lambda>h. hold_user h = eb_id b) = Inr ()"
proof (cases "parsePath (eb_path b)")
  case None
  with assms show thesis by (simp add: entry_checks_def)
next
  case (Some path)
  show thesis
  proof (cases "role_of (eb_role b)")
    case None
    with assms Some show thesis by (simp add: entry_checks_def split: if_splits)
  next
    case role: (Some r)
    have "needManage s p (eb_path b) r = Inr ()"
      "needOutrank s p (eb_path b) (reachOf d (type_name (eb_type b) @ '':'' @ eb_id b)) = Inr ()"
      "objectExists d path"
      "eb_type b = SUser \<and> eb_path b = ''/'' \<and> r = NoAccess \<longrightarrow> keepAnAdministrator d (\<lambda>h. hold_user h = eb_id b) = Inr ()"
      using assms Some role by (auto simp: entry_checks_def then_do_Inr_iff split: if_splits)
    with Some role show thesis by (rule that)
  qed
qed

lemma create_entryD:
  assumes "create_entry now i s d p b = Inr (d', c)"
  shows "entry_checks s d p b = Inr () \<and> db_aclEntries d' = db_aclEntries d @ [entry_row now i p b] \<and>
    db_users d' = db_users d \<and> db_platformRoles d' = db_platformRoles d \<and> c = None"
  using assms by (auto simp: create_entry_def then_do_Inr_iff Let_def invalidate_def split: if_splits)

text \<open>
  An entry is created only by someone who may manage permissions on its path, on an object
  that exists, and, for the roles reserved to administrators, only by one who is an
  administrator of the platform; the permissions cached so far are dropped.
\<close>

theorem create_entry_guarded:
  assumes "create_entry now i s d p b = Inr (d', c)"
  shows "can s p ''acl.manage'' (eb_path b) None \<and> c = None \<and>
    (\<exists>path r. parsePath (eb_path b) = Some path \<and> objectExists d path \<and> role_of (eb_role b) = Some r \<and>
       (r \<in> {Administrator, ClusterOwner} \<longrightarrow>
          (\<exists>e\<in>set (decidedBy (decide s (subjectOf p) ''/'' None)). en_role e = Administrator)))"
proof -
  obtain path r where *: "parsePath (eb_path b) = Some path" "role_of (eb_role b) = Some r"
    "needManage s p (eb_path b) r = Inr ()" "objectExists d path"
    using entry_checksD[OF create_entryD[OF assms, THEN conjunct1]] by blast
  have c: "c = None" using create_entryD[OF assms] by blast
  from *(3) have "needPriv s p ''acl.manage'' (eb_path b) ''Not found'' = Inr ()" "r \<notin> ONLY_ADMINS \<or> isAdministrator s p"
    by (auto simp: needManage_def then_do_Inr_iff)
  then show ?thesis
    using * c acl_guard.need_ok_iff[of s p "''acl.manage''" "eb_path b"]
    by (auto simp: needPriv_def ONLY_ADMINS_def isAdministrator_def explain_def Let_def list_ex_iff)
qed

lemma keep_admin:
  assumes "keepAnAdministrator d lost = Inr ()" and "h \<in> set (administrators d)"
  shows "\<exists>h'\<in>set (administrators d). \<not> lost h'"
  using assms by (auto simp: keepAnAdministrator_def Let_def list_ex_iff filter_empty_conv split: if_splits)

lemma administrators_mono:
  assumes "h \<in> set (administrators d)" and "db_users d' = db_users d" and "db_platformRoles d' = db_platformRoles d"
    and "\<And>e. e \<in> set (db_aclEntries d) \<Longrightarrow> h = ByEntry (hold_user h) (ae_id e) \<Longrightarrow> e \<in> set (db_aclEntries d')"
    and "\<And>e. e \<in> set (db_aclEntries d') \<Longrightarrow> ae_userId e = Some (hold_user h) \<Longrightarrow> ae_path e = ''/'' \<Longrightarrow>
      ae_role e = ''no-access'' \<Longrightarrow> e \<in> set (db_aclEntries d)"
  shows "h \<in> set (administrators d')"
proof -
  have "Some (hold_user h) \<notin> fenced d'" using assms(1,5) by (force simp: administrators_def fenced_def)
  moreover have "h \<in> set (admin_roles d' @ admin_entries d')"
    using assms(1-4) by (force simp: administrators_def admin_roles_def admin_entries_def)
  ultimately show ?thesis by (simp add: administrators_def)
qed

text \<open>
  C7: No change of the permission entries takes the last administrator away: if somebody is an
  administrator before an entry is created or deleted, somebody is one after it, provided the
  subject's identifier is written in lower case as the database has it.
\<close>

theorem entries_keep_an_administrator:
  assumes "administrators d \<noteq> []" "uuid_of (eb_id b) = eb_id b"
    and "create_entry now i s d p b = Inr (d', c) \<or> delete_entry now i s d p = Inr (d', c)"
  shows "administrators d' \<noteq> []"
  using assms(3)
proof
  assume cr: "create_entry now i s d p b = Inr (d', c)"
  obtain r where *: "role_of (eb_role b) = Some r"
    "eb_type b = SUser \<and> eb_path b = ''/'' \<and> r = NoAccess \<longrightarrow> keepAnAdministrator d (\<lambda>h. hold_user h = eb_id b) = Inr ()"
    using entry_checksD[OF create_entryD[OF cr, THEN conjunct1]] by blast
  have d': "db_aclEntries d' = db_aclEntries d @ [entry_row now i p b]" "db_users d' = db_users d"
    "db_platformRoles d' = db_platformRoles d"
    using create_entryD[OF cr] by blast+
  have "\<exists>h\<in>set (administrators d). \<not> (eb_type b = SUser \<and> eb_path b = ''/'' \<and> r = NoAccess \<and> hold_user h = eb_id b)"
    using keep_admin[of d "\<lambda>h. hold_user h = eb_id b" "hd (administrators d)"] *(2) list.set_sel(1)[OF assms(1)] by blast
  then obtain h where h: "h \<in> set (administrators d)" "\<not> (eb_type b = SUser \<and> eb_path b = ''/'' \<and> r = NoAccess \<and> hold_user h = eb_id b)"
    by blast
  have "eb_role b = ''no-access'' \<Longrightarrow> r = NoAccess" using *(1) by (auto simp: role_of_def ROLE_IDS_def)
  then have "h \<in> set (administrators d')"
    using h by (intro administrators_mono[OF h(1) d'(2,3)]) (auto simp: d'(1) entry_row_def assms(2) split: if_splits)
  then show ?thesis by auto
next
  assume de: "delete_entry now i s d p = Inr (d', c)"
  obtain row where lk: "(if isUuid i then t_lookup ae_id (db_aclEntries d) (uuid_of i) else None) = Some row"
    using de by (cases "if isUuid i then t_lookup ae_id (db_aclEntries d) (uuid_of i) else None") (auto simp: delete_entry_def)
  obtain r where r: "role_of (ae_role row) = Some r"
    using de lk by (cases "role_of (ae_role row)") (simp_all add: delete_entry_def)
  have row: "keepAnAdministrator d (by_entry (ae_id row)) = Inr ()"
    "db_aclEntries d' = filter (\<lambda>e. ae_id e \<noteq> ae_id row) (db_aclEntries d)" "db_users d' = db_users d"
    "db_platformRoles d' = db_platformRoles d"
    using de lk r by (auto simp: delete_entry_def then_do_Inr_iff Let_def)
  obtain h where h: "h \<in> set (administrators d)" "\<not> by_entry (ae_id row) h"
    using keep_admin[OF row(1) list.set_sel(1)[OF assms(1)]] by blast
  then have "h \<in> set (administrators d')"
    by (intro administrators_mono[OF h(1) row(3,4)]) (auto simp: row(2), metis by_entry.simps(2))
  then show ?thesis by auto
qed

text \<open>A deployment with an administrator, an ordinary user and the sample cluster.\<close>

definition root_id :: string where
  "root_id = ''00000000-0000-0000-0000-000000000001''"

definition joe_id :: string where
  "joe_id = ''00000000-0000-0000-0000-000000000002''"

definition a_user_row :: "string \<Rightarrow> user_row" where
  "a_user_row i = \<lparr>us_id = i, us_email = [], us_name = [], us_passwordHash = None, us_disabled = False,
     us_createdAt = 0, us_lastLoginAt = None\<rparr>"

definition staff_db :: db where
  "staff_db = (small_db [])\<lparr>db_users := [a_user_row root_id, a_user_row joe_id],
     db_platformRoles := [\<lparr>pr_userId = root_id, pr_role = ''admin''\<rparr>]\<rparr>"

definition joe_auditor :: entry_body where
  "joe_auditor = \<lparr>eb_path = ''/clusters/c'', eb_type = SUser, eb_id = joe_id, eb_role = ''auditor'', eb_propagate = True\<rparr>"

lemma joe_created: "is_ok (create_entry 1 ''E1'' (load 0 staff_db) staff_db (a_user root_id) joe_auditor)"
  by code_simp

theorem create_entry_guarded_witness: "can (load 0 staff_db) (a_user root_id) ''acl.manage'' ''/clusters/c'' None"
proof -
  obtain d' c where "create_entry 1 ''E1'' (load 0 staff_db) staff_db (a_user root_id) joe_auditor = Inr (d', c)"
    using joe_created by (auto simp: is_ok_iff)
  from create_entry_guarded[OF this] show ?thesis by (simp add: joe_auditor_def)
qed

theorem entries_keep_an_administrator_witness:
  "\<exists>d' c. create_entry 1 ''E1'' (load 0 staff_db) staff_db (a_user root_id) joe_auditor = Inr (d', c) \<and> administrators d' \<noteq> []"
proof -
  have "administrators staff_db \<noteq> []" by code_simp
  moreover obtain d' c where "create_entry 1 ''E1'' (load 0 staff_db) staff_db (a_user root_id) joe_auditor = Inr (d', c)"
    using joe_created by (auto simp: is_ok_iff)
  moreover have "uuid_of (eb_id joe_auditor) = eb_id joe_auditor" by code_simp
  ultimately show ?thesis using entries_keep_an_administrator[of staff_db joe_auditor] by blast
qed

text \<open>A deployment whose only administrator has a letter in their identifier.\<close>

definition ada_id :: string where
  "ada_id = ''00000000-0000-0000-0000-00000000000a''"

definition ADA_ID :: string where
  "ADA_ID = ''00000000-0000-0000-0000-00000000000A''"

definition lone_db :: db where
  "lone_db = (small_db [])\<lparr>db_users := [a_user_row ada_id],
     db_platformRoles := [\<lparr>pr_userId = ada_id, pr_role = ''admin''\<rparr>]\<rparr>"

definition fence_out :: "string \<Rightarrow> entry_body" where
  "fence_out i = \<lparr>eb_path = ''/'', eb_type = SUser, eb_id = i, eb_role = ''no-access'', eb_propagate = True\<rparr>"


theorem outrank_sound_witness:
  "privileges (decide (load 0 staff_db) (''user:'' @ joe_id) ''/'' None)
     \<subseteq> acl_privileges (load 0 staff_db) (a_user root_id) ''/clusters/c'' None"
proof -
  have ok: "needOutrank (load 0 staff_db) (a_user root_id) ''/clusters/c'' [''user:'' @ joe_id] = Inr ()" by code_simp
  have ne: "''user:'' @ joe_id \<noteq> subjectOf (a_user root_id)" by code_simp
  have pa: "parsePath ''/clusters/c'' = Some (PCluster ''c'')" by code_simp
  have root: "''/'' \<in> set (chain_of (load 0 staff_db) (PCluster ''c''))" by (simp add: chain_of_def)
  from outrank_sound[OF ok _ ne pa root] show ?thesis by simp
qed

section \<open>Administrators hold everything\<close>

lemma entrySubject_user:
  assumes "entrySubject e = ''user:'' @ u" and "u \<noteq> []"
  shows "ae_userId e = Some u"
  using assms by (auto simp: entrySubject_def split: if_splits) (cases "ae_userId e"; auto)

lemma own_root_entries:
  assumes "e \<in> set (load_entries d)" and "en_path e = ''/''" and "en_subject e = ''user:'' @ u" and "u \<noteq> []"
    and "en_role e = NoAccess"
  shows "Some u \<in> fenced d"
proof -
  have noR: "PLATFORM_ROLE r = Some x \<Longrightarrow> x \<noteq> NoAccess" for r x by (auto split: if_splits)
  from assms(1) consider "e \<in> set (explicit_entries d)" | "e \<in> set (role_entries d)" | "e \<in> set (member_entries d)"
    | a where "e \<in> set (account_entries d a)"
    by (auto simp: load_entries_def)
  then show ?thesis
  proof cases
    case 1
    then obtain a where a: "a \<in> set (db_aclEntries d)" "isRoleId (ae_role a)" "en_path e = ae_path a"
        "en_subject e = entrySubject a" "en_role e = the (role_of (ae_role a))"
      by (auto simp: explicit_entries_def)
    from a(2) obtain rr where rr: "role_of (ae_role a) = Some rr" by (auto simp: isRoleId_iff)
    with a(5) assms(5) have "role_of (ae_role a) = Some NoAccess" by simp
    then have "ae_role a = ''no-access''" by (auto simp: role_of_def ROLE_IDS_def split: if_splits)
    moreover have "ae_userId a = Some u" using a(4) assms(3,4) by (intro entrySubject_user) simp_all
    ultimately show ?thesis using a(1,3) assms(2) by (force simp: fenced_def)
  next
    case 2
    then show ?thesis using noR assms(5) by (auto simp: role_entries_def simp del: PLATFORM_ROLE.simps)
  next
    case 3
    then show ?thesis using assms(2) by (auto simp: member_entries_def)
  next
    case 4
    then show ?thesis using assms(3) by (auto simp: account_entries_def split: if_splits)
  qed
qed

lemma admin_entry:
  assumes "h \<in> set (administrators d)" and "hold_user h \<noteq> []"
  shows "\<exists>e\<in>set (load_entries d). en_path e = ''/'' \<and> en_subject e = ''user:'' @ hold_user h \<and> en_role e = Administrator"
proof -
  from assms(1) consider "h \<in> set (admin_roles d)" | "h \<in> set (admin_entries d)"
    by (auto simp: administrators_def)
  then show ?thesis
  proof cases
    case 1
    then obtain r where role: "r \<in> set (db_platformRoles d)" "pr_role r = ''admin''" "h = ByRole (pr_userId r)"
      by (auto simp: admin_roles_def)
    let ?e = "\<lparr>en_id = ''platform-role:'' @ pr_userId r, en_path = ''/'', en_subject = ''user:'' @ pr_userId r,
       en_role = the (PLATFORM_ROLE (pr_role r)), en_propagate = True, en_source = SrcPlatformRole\<rparr>"
    have "?e \<in> set (load_entries d)" 
    proof -
      have "PLATFORM_ROLE (pr_role r) \<noteq> None" using role(2) by simp
      then have "?e \<in> set (role_entries d)" using role(1) by (force simp: role_entries_def simp del: PLATFORM_ROLE.simps)
      then show ?thesis by (simp only: load_entries_def set_append Un_iff simp_thms)
    qed
    then show ?thesis using role(2,3) by (intro bexI[of _ ?e]) auto
  next
    case 2
    then obtain e and u :: user_row where ent: "e \<in> set (db_aclEntries d)" "ae_userId e = Some (us_id u)" "ae_path e = ''/''"
        "ae_role e = ''administrator''" "h = ByEntry (us_id u) (ae_id e)"
      unfolding admin_entries_def by auto
    let ?e = "\<lparr>en_id = ae_id e, en_path = ae_path e, en_subject = entrySubject e, en_role = the (role_of (ae_role e)),
       en_propagate = ae_propagate e, en_source = SrcAcl\<rparr>"
    have r: "isRoleId (ae_role e)" "role_of (ae_role e) = Some Administrator"
      using ent(4) by (auto simp: isRoleId_def role_of_def ROLE_IDS_def)
    have "?e \<in> set (load_entries d)" 
    proof -
      have "?e \<in> set (explicit_entries d)" using ent(1) r(1) by (force simp: explicit_entries_def)
      then show ?thesis by (simp only: load_entries_def set_append Un_iff simp_thms)
    qed
    moreover have "entrySubject e = ''user:'' @ us_id u" using ent(2,5) assms(2) by (simp add: entrySubject_def)
    ultimately show ?thesis using ent(3,5) r(2) by (intro bexI[of _ ?e]) auto
  qed
qed

text \<open>
  Whoever counts as an administrator really is one: every hold that \<open>administrators\<close> lists
  belongs to a user who, by the permissions loaded from the same tables, holds every privilege
  on the root. So keeping one such hold keeps somebody who can give the rights back.
\<close>

theorem administrators_hold_all:
  assumes "h \<in> set (administrators d)" and "hold_user h \<noteq> []"
    and "distinct (map us_id (db_users d))"
  shows "privileges (decide (load now d) (''user:'' @ hold_user h) ''/'' None) = set PRIVILEGES"
proof -
  let ?s = "load now d" and ?u = "''user:'' @ hold_user h"
  have ents: "sn_entries ?s = load_entries d" by (simp add: load_def Let_def)
  have idx: "m_list (sn_byPath ?s) ''/'' = filter (\<lambda>e. en_path e = ''/'') (load_entries d)"
    by (simp add: load_def Let_def m_list_fold_push[where g = "\<lambda>e. e"])
  let ?here = "level_entries (keysOf ?s ?u) (sn_byPath ?s) True ''/''"
  have here: "set ?here = {e \<in> set (load_entries d). en_path e = ''/'' \<and> en_subject e \<in> set (keysOf ?s ?u)}"
    by (auto simp: level_entries_def idx)
  obtain e where e: "e \<in> set (load_entries d)" "en_path e = ''/''" "en_subject e = ?u" "en_role e = Administrator"
    using admin_entry[OF assms(1,2)] by blast
  have in_here: "e \<in> set ?here" using e here by (simp add: keysOf_def)
  have own: "set (own_first (keysOf ?s ?u) ?here) = {x \<in> set ?here. en_subject x = ?u}"
    using own_first_own[OF in_here, of "keysOf ?s ?u"] e(3) by (simp add: keysOf_def)
  have "Some (hold_user h) \<notin> fenced d" using assms(1) by (auto simp: administrators_def)
  then have noacc: "en_role x \<noteq> NoAccess" if "x \<in> set (own_first (keysOf ?s ?u) ?here)" for x
    using that own_root_entries[of x d "hold_user h"] assms(2) own here by auto
  have "privileges (resolve (keysOf ?s ?u) (sn_byPath ?s) [''/''] owned) = set PRIVILEGES" for owned
  proof -
    have "?here \<noteq> []" using in_here by auto
    then have r: "privileges (resolve (keysOf ?s ?u) (sn_byPath ?s) [''/''] owned) = combined owned (own_first (keysOf ?s ?u) ?here)"
      by (simp add: resolve_def Let_def)
    have "e \<in> set (own_first (keysOf ?s ?u) ?here)" using own in_here e(3) by simp
    moreover have "entry_gives owned e \<supseteq> set PRIVILEGES" by (simp add: entry_gives_def e(4))
    ultimately have "set PRIVILEGES \<subseteq> combined owned (own_first (keysOf ?s ?u) ?here)"
      using noacc unfolding combined_iff subset_iff by blast
    moreover have "combined owned (own_first (keysOf ?s ?u) ?here) \<subseteq> set PRIVILEGES"
      by (rule combined_known)
    ultimately show ?thesis using r by simp
  qed
  moreover have "parsePath ''/'' = Some PRoot" by (simp add: parsePath_def)
  moreover have "?u \<notin> sn_disabled ?s"
  proof -
    obtain u where u: "u \<in> set (db_users d)" "us_id u = hold_user h" "\<not> us_disabled u"
      using assms(1) by (auto simp: administrators_def admin_roles_def admin_entries_def)
    have "v \<in> set (db_users d) \<Longrightarrow> us_id v = hold_user h \<Longrightarrow> \<not> us_disabled v" for v
      using u inj_onD[of us_id "set (db_users d)" v u] assms(3) by (auto simp: distinct_map)
    then show ?thesis by (auto simp: load_def Let_def)
  qed
  ultimately show ?thesis by (simp add: decide_def is_instance_def chain_of_def Let_def)
qed

theorem administrators_hold_all_witness:
  "privileges (decide (load 0 staff_db) (''user:'' @ root_id) ''/'' None) = set PRIVILEGES"
proof -
  have h: "ByRole root_id \<in> set (administrators staff_db)" by code_simp
  have "distinct (map us_id (db_users staff_db))" by code_simp
  with administrators_hold_all[OF h] show ?thesis by (simp add: root_id_def)
qed

end
