(* ===== verification/Session.thy ===== *)
theory Session
  imports Permissions
begin

text \<open>
  \<^verbatim>\<open>auth/principal.ts\<close> and the session half of \<^verbatim>\<open>auth/session.ts\<close>: who is calling
  (\<open>resolvePrincipal\<close>, from a bearer token or the session cookie), how a session's tokens are
  renewed under the per-session lock (\<open>freshSession\<close>), and the sign-in callback and sign-out that
  create and delete sessions. What is not the platform's own (the token verifier, Hydra's token
  endpoint, the sealing of secrets, the hash of a session id) is an argument; a clock reading is
  an argument too, one for each moment the code reads the clock. The rows written to the audit log
  are not part of the model.
\<close>

section \<open>Data\<close>

record session_row =
  se_id :: string
  se_userId :: string
  se_accessToken :: string
  se_refreshToken :: "string option"
  se_idToken :: "string option"
  se_expiresAt :: int
  se_createdAt :: int
  se_lastSeenAt :: int
  se_userAgent :: string
  se_ip :: string

record token_set =
  ts_accessToken :: string
  ts_refreshToken :: "string option"
  ts_idToken :: "string option"
  ts_expiresIn :: int

text \<open>The headers and method of a request, as \<open>resolvePrincipal\<close> reads them.\<close>

record auth_request =
  rq_method :: string
  rq_authorization :: "string option"
  rq_cookie :: "string option"
  rq_origin :: "string option"

text \<open>
  The deployment's services: \<open>deps.verify\<close> (a token's subject, or the 401 it throws),
  \<open>deps.tokens.refresh\<close> and \<open>exchange\<close> (nothing when they throw), \<open>seal\<close> and \<open>open\<close> under the
  platform's key, \<open>hashSessionId\<close>, and the origin of \<open>publicUrl\<close>.
\<close>

record auth_deps =
  ad_verify :: "string \<Rightarrow> string result"
  ad_refresh :: "string \<Rightarrow> token_set option"
  ad_exchange :: "string \<Rightarrow> string \<Rightarrow> token_set option"
  ad_seal :: "string \<Rightarrow> string"
  ad_open :: "string \<Rightarrow> string result"
  ad_hash :: "string \<Rightarrow> string"
  ad_origin :: string

definition SESSION_COOKIE :: string where
  "SESSION_COOKIE = ''ic_session''"

definition SESSION_MAX_AGE_S :: int where
  "SESSION_MAX_AGE_S = 7 * 86400"

definition REFRESH_BEFORE_MS :: int where
  "REFRESH_BEFORE_MS = 60000"

definition SAFE_METHODS :: "string set" where
  "SAFE_METHODS = {''GET'', ''HEAD'', ''OPTIONS''}"

section \<open>Headers\<close>

definition js_space :: "char \<Rightarrow> bool" where
  "js_space c \<longleftrightarrow> cc c \<in> {9, 10, 11, 12, 13, 32, 160}"

definition trim :: "string \<Rightarrow> string" where
  "trim s = rev (dropWhile js_space (rev (dropWhile js_space s)))"

text \<open>\<open>split(/;\s*/)\<close>: at each semicolon, the white space after it included.\<close>

definition cookie_parts :: "string \<Rightarrow> string list" where
  "cookie_parts h = (case split_on CHR '';'' h of [] \<Rightarrow> [] | p # ps \<Rightarrow> p # map (dropWhile js_space) ps)"

definition cookieOf :: "string option \<Rightarrow> string \<Rightarrow> string option" where
  "cookieOf header name =
    (case header of
       None \<Rightarrow> None
     | Some h \<Rightarrow> map_option (drop (length name + 1)) (find (\<lambda>c. startsWith c (name @ ''='')) (cookie_parts h)))"

definition bearer_token :: "string option \<Rightarrow> string option" where
  "bearer_token auth =
    (case auth of
       None \<Rightarrow> None
     | Some a \<Rightarrow> if startsWith (map to_lower a) ''bearer '' then Some (trim (drop 7 a)) else None)"

text \<open>Only same-origin paths: \<open>/x\<close>, never \<open>//host\<close> or a slash and a backslash.\<close>

definition safeReturnTo :: "string option \<Rightarrow> string" where
  "safeReturnTo v =
    (case v of
       Some (c # r) \<Rightarrow> if c = CHR ''/'' \<and> (r = [] \<or> (hd r \<noteq> CHR ''/'' \<and> hd r \<noteq> CHR 0x5C)) then c # r else ''/''
     | _ \<Rightarrow> ''/'')"

section \<open>Principals\<close>

definition userPrincipal :: "db \<Rightarrow> string \<Rightarrow> string \<Rightarrow> principal option" where
  "userPrincipal d userId token =
    (if \<not> isUuid userId then None
     else case t_lookup us_id (db_users d) userId of
       None \<Rightarrow> None
     | Some u \<Rightarrow>
         if us_disabled u then None
         else Some \<lparr>p_kind = KUser, p_id = us_id u, p_email = Some (us_email u), p_name = us_name u, p_token = token,
           p_platformRole = map_option pr_role (t_lookup pr_userId (db_platformRoles d) userId), p_tenantId = None\<rparr>)"

definition servicePrincipal :: "db \<Rightarrow> string \<Rightarrow> string \<Rightarrow> principal option" where
  "servicePrincipal d sub token =
    map_option (\<lambda>a. \<lparr>p_kind = KService, p_id = sa_id a, p_email = None, p_name = sa_name a, p_token = token,
        p_platformRole = None, p_tenantId = sa_tenantId a\<rparr>)
      (find (\<lambda>a. sa_clientId a = sub \<and> \<not> sa_disabled a) (db_serviceAccounts d))"

section \<open>Sessions\<close>

type_synonym sessions = "session_row list"

text \<open>
  The work under the lock, on the table as it is once the lock is held: the row it leaves the
  session with, and the refresh tokens it sent to Hydra.
\<close>

definition refreshed :: "auth_deps \<Rightarrow> int \<Rightarrow> token_set \<Rightarrow> session_row \<Rightarrow> session_row" where
  "refreshed deps now tok r = r\<lparr>se_accessToken := ts_accessToken tok,
     se_refreshToken := (if truthy (ts_refreshToken tok) then map_option (ad_seal deps) (ts_refreshToken tok) else se_refreshToken r),
     se_idToken := (case ts_idToken tok of None \<Rightarrow> se_idToken r | Some t \<Rightarrow> Some t),
     se_expiresAt := now + ts_expiresIn tok * 1000, se_lastSeenAt := now\<rparr>"

definition refresh_answer :: "auth_deps \<Rightarrow> session_row \<Rightarrow> token_set option \<times> string list" where
  "refresh_answer deps cur =
    (if \<not> truthy (se_refreshToken cur) then (None, [])
     else case ad_open deps (the (se_refreshToken cur)) of
       Inl _ \<Rightarrow> (None, [])
     | Inr t \<Rightarrow> (ad_refresh deps t, [t]))"

definition locked_refresh :: "auth_deps \<Rightarrow> int \<Rightarrow> int \<Rightarrow> sessions \<Rightarrow> string \<Rightarrow> sessions \<times> session_row option \<times> string list" where
  "locked_refresh deps now later rows i =
    (case t_lookup se_id rows i of
       None \<Rightarrow> (rows, None, [])
     | Some cur \<Rightarrow>
         if se_expiresAt cur - now > REFRESH_BEFORE_MS then (rows, Some cur, [])
         else (case refresh_answer deps cur of
             (None, sent) \<Rightarrow> (t_remove se_id rows i, None, sent)
           | (Some tok, sent) \<Rightarrow>
               (t_update (\<lambda>r. se_id r = i) (refreshed deps later tok) rows, Some (refreshed deps later tok cur), sent)))"

text \<open>
  \<open>freshSession\<close>: the first look at the clock, then, when the tokens are about to expire, the
  lock; \<open>others\<close> is what the table has become when the lock is granted.
\<close>

definition freshSession ::
  "auth_deps \<Rightarrow> int \<Rightarrow> (sessions \<Rightarrow> sessions) \<Rightarrow> int \<Rightarrow> int \<Rightarrow> sessions \<Rightarrow> string \<Rightarrow> sessions \<times> session_row option \<times> string list" where
  "freshSession deps now others locked later rows i =
    (case t_lookup se_id rows i of
       None \<Rightarrow> (rows, None, [])
     | Some row \<Rightarrow>
         if now - se_createdAt row > SESSION_MAX_AGE_S * 1000 then (t_remove se_id rows i, None, [])
         else if se_expiresAt row - now > REFRESH_BEFORE_MS then (rows, Some row, [])
         else locked_refresh deps locked later (others rows) i)"

section \<open>Who is calling\<close>

definition resolvePrincipal ::
  "auth_deps \<Rightarrow> int \<Rightarrow> (sessions \<Rightarrow> sessions) \<Rightarrow> int \<Rightarrow> int \<Rightarrow> db \<Rightarrow> sessions \<Rightarrow> auth_request \<Rightarrow> sessions \<times> principal option result" where
  "resolvePrincipal deps now others locked later d rows rq =
    (case bearer_token (rq_authorization rq) of
       Some token \<Rightarrow>
         (rows, then_do (ad_verify deps token) (\<lambda>sub.
            Inr (if isUuid sub then userPrincipal d sub token else servicePrincipal d sub token)))
     | None \<Rightarrow>
         let sid = cookieOf (rq_cookie rq) SESSION_COOKIE in
         if \<not> truthy sid then (rows, Inr None)
         else if rq_method rq \<notin> SAFE_METHODS \<and> truthy (rq_origin rq) \<and> rq_origin rq \<noteq> Some (ad_origin deps)
         then (rows, Inl (ApiError 403 ''cross_origin'' ''Cross-origin requests cannot use the session cookie''))
         else (case freshSession deps now others locked later rows (ad_hash deps (the sid)) of
             (rows', None, _) \<Rightarrow> (rows', Inr None)
           | (rows', Some row, _) \<Rightarrow> (rows', Inr (userPrincipal d (se_userId row) (se_accessToken row)))))"

definition authed :: "principal option \<Rightarrow> principal result" where
  "authed p = (case p of None \<Rightarrow> Inl (ApiError 401 ''unauthenticated'' ''Sign in first'') | Some x \<Rightarrow> Inr x)"

section \<open>Signing in and out\<close>

record pending_sign_in =
  pe_state :: string
  pe_verifier :: string
  pe_returnTo :: string

record callback_query =
  cq_state :: "string option"
  cq_error :: "string option"
  cq_errorDescription :: "string option"
  cq_code :: "string option"

text \<open>The row a sign-in inserts.\<close>

definition new_session :: "auth_deps \<Rightarrow> int \<Rightarrow> string \<Rightarrow> string \<Rightarrow> string \<Rightarrow> user_row \<Rightarrow> token_set \<Rightarrow> session_row" where
  "new_session deps now newId agent ip u tok =
     \<lparr>se_id = ad_hash deps newId, se_userId = us_id u, se_accessToken = ts_accessToken tok,
      se_refreshToken = (if truthy (ts_refreshToken tok) then map_option (ad_seal deps) (ts_refreshToken tok) else None),
      se_idToken = ts_idToken tok, se_expiresAt = now + ts_expiresIn tok * 1000, se_createdAt = now,
      se_lastSeenAt = now, se_userAgent = take 300 agent, se_ip = ip\<rparr>"

text \<open>
  \<open>/auth/callback\<close>: \<open>pending\<close> is the sealed cookie opened and parsed (nothing when that throws),
  \<open>newId\<close> the random session id; the answer is where to redirect to.
\<close>

definition callback ::
  "auth_deps \<Rightarrow> int \<Rightarrow> string \<Rightarrow> string \<Rightarrow> string \<Rightarrow> db \<Rightarrow> sessions \<Rightarrow> pending_sign_in option \<Rightarrow> callback_query \<Rightarrow> (sessions \<times> string) result" where
  "callback deps now newId agent ip d rows pending q =
    (let expired = ''This sign-in has expired. Start again.'' in
     case pending of
       None \<Rightarrow> Inl (ApiError 400 ''invalid_state'' expired)
     | Some pe \<Rightarrow>
         then_do (check_that (truthy (cq_state q) \<and> cq_state q = Some (pe_state pe)) (ApiError 400 ''invalid_state'' expired)) (\<lambda>_.
         then_do (check_that (\<not> truthy (cq_error q)) (ApiError 403 ''sign_in_failed''
           (case cq_errorDescription q of Some m \<Rightarrow> m | None \<Rightarrow> the (cq_error q)))) (\<lambda>_.
         case ad_exchange deps (case cq_code q of None \<Rightarrow> [] | Some c \<Rightarrow> c) (pe_verifier pe) of
           None \<Rightarrow> Inl (ApiError 400 ''invalid_grant'' expired)
         | Some tok \<Rightarrow>
             then_do (ad_verify deps (ts_accessToken tok)) (\<lambda>sub.
             then_do (check_that (isUuid sub) (ApiError 403 ''sign_in_failed'' ''This sign-in did not identify an IncusCloud user'')) (\<lambda>_.
             case (case t_lookup us_id (db_users d) sub of Some u \<Rightarrow> if us_disabled u then None else Some u | None \<Rightarrow> None) of
               None \<Rightarrow> Inl (ApiError 403 ''account_disabled'' ''This account is disabled'')
             | Some u \<Rightarrow>
                 let row = new_session deps now newId agent ip u tok
                 in if t_lookup se_id rows (se_id row) \<noteq> None then Inl UniqueViolation
                    else Inr (rows @ [row], pe_returnTo pe))))))"

definition logout :: "auth_deps \<Rightarrow> sessions \<Rightarrow> auth_request \<Rightarrow> (sessions \<times> string option) result" where
  "logout deps rows rq =
    (if truthy (rq_origin rq) \<and> rq_origin rq \<noteq> Some (ad_origin deps)
     then Inl (ApiError 403 ''cross_origin'' ''Sign out from IncusCloud's own pages'')
     else case cookieOf (rq_cookie rq) SESSION_COOKIE of
       None \<Rightarrow> Inr (rows, None)
     | Some i \<Rightarrow>
         if i = [] then Inr (rows, None)
         else Inr (t_remove se_id rows (ad_hash deps i),
           Option.bind (t_lookup se_id rows (ad_hash deps i)) se_idToken))"

section \<open>The life of a session\<close>

text \<open>
  Everything that writes the session with the hash \<open>i\<close> or beside it, in any order and at any
  time: a request that finds it too old, a renewal under the lock, a sign-out, and sign-ins, which
  make other sessions (their ids are fresh random tokens).
\<close>

inductive session_step :: "auth_deps \<Rightarrow> string \<Rightarrow> sessions \<Rightarrow> sessions \<Rightarrow> bool" for deps i where
  look: "freshSession deps now (\<lambda>_. rows) locked later rows j = (rows', out, sent) \<Longrightarrow> session_step deps i rows rows'"
| renew: "locked_refresh deps now later rows j = (rows', out, sent) \<Longrightarrow> session_step deps i rows rows'"
| sign_out: "logout deps rows rq = Inr (rows', tok) \<Longrightarrow> session_step deps i rows rows'"
| sign_in: "callback deps now newId agent ip d rows pending q = Inr (rows', dest) \<Longrightarrow> ad_hash deps newId \<noteq> i
    \<Longrightarrow> session_step deps i rows rows'"

inductive session_run :: "auth_deps \<Rightarrow> string \<Rightarrow> sessions \<Rightarrow> sessions \<Rightarrow> bool" for deps i where
  stop: "session_run deps i rows rows"
| more: "session_step deps i rows mid \<Longrightarrow> session_run deps i mid rows' \<Longrightarrow> session_run deps i rows rows'"

text \<open>The second table has the session only as a later version of the first table's.\<close>

definition same_session :: "session_row \<Rightarrow> session_row \<Rightarrow> bool" where
  "same_session r r' \<longleftrightarrow> se_id r' = se_id r \<and> se_createdAt r' = se_createdAt r \<and> se_userId r' = se_userId r"

definition keeps_session :: "string \<Rightarrow> sessions \<Rightarrow> sessions \<Rightarrow> bool" where
  "keeps_session i rows rows' \<longleftrightarrow>
     (\<forall>r'. t_lookup se_id rows' i = Some r' \<longrightarrow> (\<exists>r. t_lookup se_id rows i = Some r \<and> same_session r r'))"

lemma keeps_refl [simp]: "keeps_session i rows rows"
  by (simp add: keeps_session_def same_session_def)

lemma keeps_trans: "keeps_session i a b \<Longrightarrow> keeps_session i b c \<Longrightarrow> keeps_session i a c"
  by (fastforce simp: keeps_session_def same_session_def)

lemma refreshed_simps [simp]:
  "se_id (refreshed deps now tok r) = se_id r"
  "se_createdAt (refreshed deps now tok r) = se_createdAt r"
  "se_userId (refreshed deps now tok r) = se_userId r"
  "se_expiresAt (refreshed deps now tok r) = now + ts_expiresIn tok * 1000"
  by (simp_all add: refreshed_def)

lemma lookup_refreshed:
  "t_lookup se_id (t_update (\<lambda>r. se_id r = j) (refreshed deps now tok) rows) i =
     map_option (\<lambda>r. if i = j then refreshed deps now tok r else r) (t_lookup se_id rows i)"
  by (induction rows) (auto simp: t_lookup_def t_update_def)

lemma keeps_update [simp]: "keeps_session i rows (t_update (\<lambda>r. se_id r = j) (refreshed deps now tok) rows)"
  by (auto simp: keeps_session_def lookup_refreshed same_session_def split: if_splits)

lemma keeps_remove [simp]: "keeps_session i rows (t_remove se_id rows j)"
  by (auto simp: keeps_session_def t_lookup_remove same_session_def split: if_splits)

lemma keeps_locked: "locked_refresh deps now later rows j = (rows', out, sent) \<Longrightarrow> keeps_session i rows rows'"
  by (auto simp: locked_refresh_def split: option.splits if_splits prod.splits)

lemma keeps_fresh:
  "freshSession deps now others locked later rows j = (rows', out, sent) \<Longrightarrow> keeps_session i rows (others rows)
   \<Longrightarrow> keeps_session i rows rows'"
  by (auto simp: freshSession_def intro: keeps_trans keeps_locked split: option.splits if_splits)

lemma keeps_logout: "logout deps rows rq = Inr (rows', tok) \<Longrightarrow> keeps_session i rows rows'"
  by (auto simp: logout_def split: option.splits if_splits)

lemma callbackD:
  assumes "callback deps now newId agent ip d rows pending q = Inr (rows', dest)"
  shows "\<exists>pe tok u. pending = Some pe \<and> cq_state q = Some (pe_state pe) \<and> \<not> truthy (cq_error q) \<and>
    ad_exchange deps (case cq_code q of None \<Rightarrow> [] | Some c \<Rightarrow> c) (pe_verifier pe) = Some tok \<and>
    ad_verify deps (ts_accessToken tok) = Inr (us_id u) \<and> u \<in> set (db_users d) \<and> \<not> us_disabled u \<and>
    rows' = rows @ [new_session deps now newId agent ip u tok] \<and> dest = pe_returnTo pe"
proof -
  obtain pe where pe: "pending = Some pe" using assms by (cases pending) (auto simp: callback_def)
  note a = assms[unfolded callback_def Let_def pe option.case then_do_Inr_iff check_that_Inr]
  obtain tok where tok: "ad_exchange deps (case cq_code q of None \<Rightarrow> [] | Some c \<Rightarrow> c) (pe_verifier pe) = Some tok"
    using a by (cases "ad_exchange deps (case cq_code q of None \<Rightarrow> [] | Some c \<Rightarrow> c) (pe_verifier pe)") auto
  from a obtain sub where sub: "ad_verify deps (ts_accessToken tok) = Inr sub"
    unfolding tok option.case then_do_Inr_iff by blast
  obtain u where u: "t_lookup us_id (db_users d) sub = Some u" "\<not> us_disabled u"
    using a unfolding tok option.case then_do_Inr_iff sub by (auto split: option.splits if_splits)
  have "rows' = rows @ [new_session deps now newId agent ip u tok]" "dest = pe_returnTo pe"
    using a unfolding tok option.case then_do_Inr_iff sub by (auto simp: u split: if_splits)
  then show ?thesis using a pe tok sub t_lookup_SomeD[OF u(1)] u(2) by blast
qed

lemma keeps_callback:
  assumes "callback deps now newId agent ip d rows pending q = Inr (rows', dest)" "ad_hash deps newId \<noteq> i"
  shows "keeps_session i rows rows'"
proof -
  obtain u tok where "rows' = rows @ [new_session deps now newId agent ip u tok]"
    using callbackD[OF assms(1)] by blast
  then have "t_lookup se_id rows' i = t_lookup se_id rows i"
    using assms(2) by (simp add: t_lookup_append) (simp add: t_lookup_def new_session_def split: option.split)
  then show ?thesis by (simp add: keeps_session_def same_session_def)
qed

lemma keeps_run: "session_run deps i rows rows' \<Longrightarrow> keeps_session i rows rows'"
proof (induction rule: session_run.induct)
  case (more rows mid rows')
  from more(1) have "keeps_session i rows mid"
    by cases (auto intro: keeps_fresh keeps_locked keeps_logout keeps_callback)
  with more(3) show ?case by (rule keeps_trans[rotated])
qed simp

lemma keeps_output:
  assumes "freshSession deps now others locked later rows i = (rows', Some r, sent)" "keeps_session i rows (others rows)"
  shows "\<exists>r0. t_lookup se_id rows i = Some r0 \<and> same_session r0 r \<and> now - se_createdAt r0 \<le> SESSION_MAX_AGE_S * 1000"
proof -
  obtain row where row: "t_lookup se_id rows i = Some row" "now - se_createdAt row \<le> SESSION_MAX_AGE_S * 1000"
    using assms(1) by (auto simp: freshSession_def split: option.splits if_splits)
  show ?thesis
  proof (cases "se_expiresAt row - now > REFRESH_BEFORE_MS")
    case True
    then show ?thesis using assms(1) row by (auto simp: freshSession_def same_session_def split: if_splits)
  next
    case False
    then have "locked_refresh deps locked later (others rows) i = (rows', Some r, sent)"
      using assms(1) row by (simp add: freshSession_def)
    then obtain cur where "t_lookup se_id (others rows) i = Some cur" "same_session cur r"
      by (auto simp: locked_refresh_def same_session_def split: option.splits if_splits prod.splits)
    then show ?thesis using assms(2) row by (fastforce simp: keeps_session_def same_session_def)
  qed
qed

section \<open>Callers that exist\<close>

definition enabled_principal :: "auth_deps \<Rightarrow> db \<Rightarrow> principal \<Rightarrow> bool" where
  "enabled_principal deps d p =
    (case p_kind p of
       KUser \<Rightarrow> \<exists>u\<in>set (db_users d). us_id u = p_id p \<and> \<not> us_disabled u
     | KService \<Rightarrow> \<exists>a\<in>set (db_serviceAccounts d). sa_id a = p_id p \<and> \<not> sa_disabled a \<and>
         ad_verify deps (p_token p) = Inr (sa_clientId a))"

lemma user_enabled: "userPrincipal d i t = Some p \<Longrightarrow> enabled_principal deps d p"
  by (auto simp: userPrincipal_def enabled_principal_def intro: rev_bexI split: option.splits if_splits dest!: t_lookup_SomeD)

lemma service_enabled: "servicePrincipal d i t = Some p \<Longrightarrow> ad_verify deps t = Inr i \<Longrightarrow> enabled_principal deps d p"
  by (auto simp: servicePrincipal_def enabled_principal_def intro: rev_bexI dest!: find_mem)

lemma principal_enabled:
  assumes "resolvePrincipal deps now others locked later d rows rq = (rows', Inr (Some p))"
  shows "enabled_principal deps d p"
proof (cases "bearer_token (rq_authorization rq)")
  case None
  then show ?thesis using assms
    by (auto simp: resolvePrincipal_def Let_def split: if_splits prod.splits option.splits dest!: user_enabled)
next
  case (Some token)
  then show ?thesis using assms
    by (auto simp: resolvePrincipal_def then_do_Inr_iff intro: user_enabled service_enabled split: if_splits)
qed

lemma session_principal:
  assumes "resolvePrincipal deps now others locked later d rows rq = (rows', Inr (Some p))" "bearer_token (rq_authorization rq) = None"
  shows "truthy (cookieOf (rq_cookie rq) SESSION_COOKIE) \<and>
    (rq_method rq \<in> SAFE_METHODS \<or> \<not> truthy (rq_origin rq) \<or> rq_origin rq = Some (ad_origin deps))"
  using assms by (auto simp: resolvePrincipal_def Let_def split: if_splits)

section \<open>Properties\<close>

text \<open>
  C33: However often its tokens are renewed, a session ends seven days after it was made: whatever
  requests, renewals, sign-outs and other sign-ins came in between, in any order, a request that
  presents it is given a row only if seven days have not passed since its sign-in, the row has the
  sign-in's user, and a later request finds no session.
\<close>

theorem session_ends:
  assumes "t_lookup se_id rows i = Some r0" "session_run deps i rows rows1" "session_run deps i rows1 rows2"
  shows "case freshSession deps now (\<lambda>_. rows2) locked later rows1 i of
     (rows', Some r, sent) \<Rightarrow> now \<le> se_createdAt r0 + 7 * 86400 * 1000 \<and> se_userId r = se_userId r0 \<and> se_createdAt r = se_createdAt r0
   | (rows', None, sent) \<Rightarrow> now > se_createdAt r0 + 7 * 86400 * 1000 \<longrightarrow> t_lookup se_id rows' i = None"
proof -
  obtain rows' out sent where f: "freshSession deps now (\<lambda>_. rows2) locked later rows1 i = (rows', out, sent)"
    by (cases "freshSession deps now (\<lambda>_. rows2) locked later rows1 i") auto
  have born: "t_lookup se_id rows1 i = Some r \<Longrightarrow> same_session r0 r" for r
    using keeps_run[OF assms(2)] assms(1) by (auto simp: keeps_session_def)
  show ?thesis
  proof (cases out)
    case None
    have "t_lookup se_id rows' i = None" if "now > se_createdAt r0 + 7 * 86400 * 1000"
      using f born that None
      by (auto simp: freshSession_def same_session_def SESSION_MAX_AGE_S_def t_lookup_remove split: option.splits if_splits)
    then show ?thesis using f None by simp
  next
    case (Some r)
    obtain r1 where "t_lookup se_id rows1 i = Some r1" "same_session r1 r" "now - se_createdAt r1 \<le> SESSION_MAX_AGE_S * 1000"
      using keeps_output[OF f[unfolded Some]] keeps_run[OF assms(3)] by auto
    then show ?thesis using f Some born[of r1] by (simp add: same_session_def SESSION_MAX_AGE_S_def)
  qed
qed

text \<open>
  Hydra revokes a session whose refresh token is used twice, and it is used once: when a
  request has renewed the tokens under the lock, a request that had also found them about to expire
  and was waiting for the lock sends nothing and uses the renewed row, as long as that is more than
  a minute from its own expiry.
\<close>

theorem refreshed_once:
  assumes "locked_refresh deps now later rows i = (rows1, Some r, sent)"
      and "t_lookup se_id rows0 i = Some row" "se_expiresAt row - seen \<le> 60000"
      and "seen - se_createdAt row \<le> 7 * 86400 * 1000" "se_expiresAt r - now1 > 60000"
  shows "freshSession deps seen (\<lambda>_. rows1) now1 later1 rows0 i = (rows1, Some r, [])"
proof -
  have "t_lookup se_id rows1 i = Some r"
    using assms(1) by (auto simp: locked_refresh_def lookup_refreshed split: option.splits if_splits prod.splits)
  then show ?thesis
    using assms(2-5) by (simp add: freshSession_def locked_refresh_def REFRESH_BEFORE_MS_def SESSION_MAX_AGE_S_def)
qed

text \<open>
  Whoever the platform takes a caller for exists and is not disabled: a user, or a service
  account of the token's client id; a caller with no bearer token got in with a session cookie, and
  then not from another site's page unless the method changes nothing.
\<close>

theorem principal_sound:
  assumes "resolvePrincipal deps now others locked later d rows rq = (rows', Inr (Some p))"
  shows "enabled_principal deps d p \<and>
    (bearer_token (rq_authorization rq) = None \<longrightarrow>
       truthy (cookieOf (rq_cookie rq) SESSION_COOKIE) \<and>
       (rq_method rq \<in> SAFE_METHODS \<or> \<not> truthy (rq_origin rq) \<or> rq_origin rq = Some (ad_origin deps)))"
  using assms by (blast intro: principal_enabled dest: session_principal)

section \<open>Concrete instances\<close>

definition sample_deps :: auth_deps where
  "sample_deps = \<lparr>ad_verify = \<lambda>t. Inr ''svc'', ad_refresh = \<lambda>t. Some \<lparr>ts_accessToken = ''a2'', ts_refreshToken = Some ''r2'',
       ts_idToken = None, ts_expiresIn = 3600\<rparr>, ad_exchange = \<lambda>c v. None, ad_seal = \<lambda>s. ''v1.'' @ s,
     ad_open = \<lambda>s. Inr (drop 3 s), ad_hash = \<lambda>s. ''h'' @ s, ad_origin = ''https://cloud''\<rparr>"

definition a_session :: session_row where
  "a_session = \<lparr>se_id = ''h1'', se_userId = ''u'', se_accessToken = ''a1'', se_refreshToken = Some ''v1.r1'', se_idToken = None,
     se_expiresAt = 3600000, se_createdAt = 0, se_lastSeenAt = 0, se_userAgent = [], se_ip = []\<rparr>"

definition a_service :: service_account_row where
  "a_service = \<lparr>sa_id = ''s1'', sa_name = ''ci'', sa_tenantId = None, sa_clientId = ''svc'', sa_createdBy = None,
     sa_platformRole = None, sa_disabled = False, sa_createdAt = 0\<rparr>"

lemma sample_lookup [simp]: "t_lookup se_id [a_session] ''h1'' = Some a_session"
  by (simp add: t_lookup_def a_session_def)

theorem session_ends_witness:
  "t_lookup se_id (fst (freshSession sample_deps 691200000 (\<lambda>_. [a_session]) 0 0 [a_session] ''h1'')) ''h1'' = None"
proof -
  have "freshSession sample_deps 691200000 (\<lambda>_. [a_session]) 0 0 [a_session] ''h1'' = (t_remove se_id [a_session] ''h1'', None, [])"
    by (simp add: freshSession_def SESSION_MAX_AGE_S_def) (simp add: a_session_def)
  with session_ends[OF sample_lookup session_run.stop[of sample_deps] session_run.stop, of 691200000 0 0]
  show ?thesis by (simp add: a_session_def)
qed

lemma sample_refresh:
  "locked_refresh sample_deps 3590000 3590001 [a_session] ''h1'' =
     ([refreshed sample_deps 3590001 (the (ad_refresh sample_deps ''r1'')) a_session],
      Some (refreshed sample_deps 3590001 (the (ad_refresh sample_deps ''r1'')) a_session), [''r1''])"
  by (simp add: locked_refresh_def REFRESH_BEFORE_MS_def t_update_def)
     (simp add: a_session_def refresh_answer_def sample_deps_def t_update_def)

theorem refreshed_once_witness:
  "freshSession sample_deps 3590000 (\<lambda>_. [refreshed sample_deps 3590001 (the (ad_refresh sample_deps ''r1'')) a_session])
     3590002 3590003 [a_session] ''h1'' =
   ([refreshed sample_deps 3590001 (the (ad_refresh sample_deps ''r1'')) a_session],
     Some (refreshed sample_deps 3590001 (the (ad_refresh sample_deps ''r1'')) a_session), [])"
  by (rule refreshed_once[OF sample_refresh sample_lookup]) (simp_all add: a_session_def sample_deps_def)

theorem principal_sound_witness:
  "\<exists>a\<in>set [a_service]. sa_id a = ''s1'' \<and> \<not> sa_disabled a"
proof -
  let ?rq = "\<lparr>rq_method = ''GET'', rq_authorization = Some ''bearer t'', rq_cookie = None, rq_origin = None\<rparr>"
  let ?p = "\<lparr>p_kind = KService, p_id = ''s1'', p_email = None, p_name = ''ci'', p_token = ''t'', p_platformRole = None, p_tenantId = None\<rparr>"
  have "bearer_token (Some ''bearer t'') = Some ''t''"
    by (simp add: bearer_token_def to_lower_def is_upper_def cc_def trim_def js_space_def)
  moreover have "\<not> isUuid ''svc''" by (simp add: isUuid_def)
  ultimately have "resolvePrincipal sample_deps 0 id 0 0 (empty_db\<lparr>db_serviceAccounts := [a_service]\<rparr>) [] ?rq = ([], Inr (Some ?p))"
    by (simp add: resolvePrincipal_def servicePrincipal_def sample_deps_def a_service_def)
  from principal_sound[OF this] show ?thesis by (simp add: enabled_principal_def)
qed

end
