(* ===== verification/Gateway.thy ===== *)
theory Gateway
  imports Session
begin

text \<open>
  The cluster API gateway: which cluster a request is for (\<^verbatim>\<open>gateway/route.ts\<close>), the cache of
  clusters (\<^verbatim>\<open>gateway/clusters-cache.ts\<close>), admission (\<^verbatim>\<open>gateway/handler.ts\<close>: known, enabled,
  authenticated, same-origin, allowed) and the batched request log (\<^verbatim>\<open>gateway/request-log.ts\<close>).
  A request's URL and headers are the Latin-1 strings Node's parser gives. What is relayed is the
  value of \<open>gateway_request\<close> and \<open>gateway_upgrade\<close>; the relaying itself is not modelled.
\<close>

section \<open>Routing\<close>

definition label_char :: "char \<Rightarrow> bool" where
  "label_char c \<longleftrightarrow> is_lower c \<or> is_digit c \<or> c = CHR ''-''"

text \<open>\<^verbatim>\<open>/^[a-z][a-z0-9-]{0,61}[a-z0-9]$/\<close>\<close>

definition CLUSTER_NAME :: "string \<Rightarrow> bool" where
  "CLUSTER_NAME s \<longleftrightarrow> 2 \<le> length s \<and> length s \<le> 63 \<and> is_lower (hd s) \<and> list_all label_char (butlast (tl s)) \<and>
     (is_lower (last s) \<or> is_digit (last s))"

datatype route_mode = ByHost | ByPath

record route =
  rt_name :: string
  rt_path :: string
  rt_mode :: route_mode

text \<open>\<^verbatim>\<open>(?:[/?].*)?$\<close>: nothing, or a slash or question mark and then no line ends.\<close>

definition root_tail :: "string \<Rightarrow> bool" where
  "root_tail t \<longleftrightarrow> t = [] \<or> ((hd t = CHR ''/'' \<or> hd t = CHR ''?'') \<and> list_all (\<lambda>c. cc c \<noteq> 10 \<and> cc c \<noteq> 13) (tl t))"

definition CLUSTER_ROOTS :: "string list" where
  "CLUSTER_ROOTS = [''/1.0'', ''/os/1.0'', ''/ui'', ''/documentation'']"

definition gateway_path :: "string \<Rightarrow> bool" where
  "gateway_path p = list_ex (\<lambda>base. startsWith p base \<and> root_tail (drop (length base) p)) CLUSTER_ROOTS"

definition PATH_ROUTE :: "string \<Rightarrow> (string \<times> string) option" where
  "PATH_ROUTE url =
    (let rest = drop (length ''/clusters/'') url;
         name = takeWhile (\<lambda>c. c \<noteq> CHR ''/'' \<and> c \<noteq> CHR ''?'' \<and> c \<noteq> CHR ''#'') rest;
         path = drop (length name) rest in
     if startsWith url ''/clusters/'' \<and> name \<noteq> [] \<and> gateway_path path then Some (name, path) else None)"

text \<open>\<^verbatim>\<open>replace(/:\d+$/, "")\<close>\<close>

definition strip_port :: "string \<Rightarrow> string" where
  "strip_port h =
    (let digits = takeWhile is_digit (rev h); rest = drop (length digits) (rev h) in
     if digits \<noteq> [] \<and> rest \<noteq> [] \<and> hd rest = CHR '':'' then rev (tl rest) else h)"

definition routeRequest :: "string option \<Rightarrow> string option \<Rightarrow> string \<Rightarrow> route option" where
  "routeRequest rhost rurl clusterDomain =
    (let host = strip_port (map to_lower (case rhost of None \<Rightarrow> [] | Some h \<Rightarrow> h));
         url = (case rurl of None \<Rightarrow> ''/'' | Some u \<Rightarrow> u);
         suffix = ''.'' @ map to_lower clusterDomain in
     if endsWith host suffix
     then let name = take (length host - length suffix) host in
       if CLUSTER_NAME name then Some \<lparr>rt_name = name, rt_path = url, rt_mode = ByHost\<rparr> else None
     else case PATH_ROUTE url of
       None \<Rightarrow> None
     | Some (name, path) \<Rightarrow>
         if CLUSTER_NAME name then Some \<lparr>rt_name = name, rt_path = path, rt_mode = ByPath\<rparr> else None)"

section \<open>The cache of clusters\<close>

record cluster_cache =
  ca_entries :: "(string, cluster_row option \<times> int) jsmap"
  ca_list :: "(cluster_row list \<times> int) option"

definition empty_cache :: cluster_cache where
  "empty_cache = \<lparr>ca_entries = [], ca_list = None\<rparr>"

definition cache_get :: "int \<Rightarrow> int \<Rightarrow> db \<Rightarrow> string \<Rightarrow> cluster_cache \<Rightarrow> cluster_row option \<times> cluster_cache" where
  "cache_get ttl now d name c =
    (case m_get (ca_entries c) name of
       Some (row, at_) \<Rightarrow>
         if now - at_ < ttl then (row, c)
         else let row = find (\<lambda>x. cl_name x = name) (db_clusters d) in (row, c\<lparr>ca_entries := m_set (ca_entries c) name (row, now)\<rparr>)
     | None \<Rightarrow> let row = find (\<lambda>x. cl_name x = name) (db_clusters d) in (row, c\<lparr>ca_entries := m_set (ca_entries c) name (row, now)\<rparr>))"

definition cache_all :: "(string \<Rightarrow> string \<Rightarrow> rat) \<Rightarrow> int \<Rightarrow> int \<Rightarrow> db \<Rightarrow> cluster_cache \<Rightarrow> cluster_row list \<times> cluster_cache" where
  "cache_all lc ttl now d c =
    (let rows = sort_by (\<lambda>a b. lc (cl_name a) (cl_name b)) (db_clusters d) in
     case ca_list c of
       Some (old, at_) \<Rightarrow> if now - at_ < ttl then (old, c) else (rows, c\<lparr>ca_list := Some (rows, now)\<rparr>)
     | None \<Rightarrow> (rows, c\<lparr>ca_list := Some (rows, now)\<rparr>))"

definition cache_invalidate :: "string option \<Rightarrow> cluster_cache \<Rightarrow> cluster_cache" where
  "cache_invalidate name c =
     c\<lparr>ca_list := None, ca_entries := (if truthy name then m_del (ca_entries c) (the name) else [])\<rparr>"

section \<open>Admission\<close>

record http_request =
  hr_method :: "string option"
  hr_url :: "string option"
  hr_host :: "string option"
  hr_authorization :: "string option"
  hr_cookie :: "string option"
  hr_origin :: "string option"
  hr_ip :: string

record gateway_request =
  gq_cluster :: cluster_row
  gq_principal :: "principal option"
  gq_method :: string
  gq_path :: string
  gq_status :: int
  gq_bytesIn :: int
  gq_bytesOut :: int
  gq_durationMs :: int
  gq_ip :: string
  gq_upgrade :: bool

definition contains_ci :: "string \<Rightarrow> string \<Rightarrow> bool" where
  "contains_ci s p = list_ex (\<lambda>i. startsWith (drop i (map to_lower s)) p) [0..<length s]"

definition ambiguous :: "string \<Rightarrow> bool" where
  "ambiguous path =
    (let p = before_first CHR ''?'' path in
     list_ex (\<lambda>seg. seg = ''.'' \<or> seg = ''..'') (split_on CHR ''/'' p) \<or>
     contains_ci p ''%2e'' \<or> contains_ci p ''%2f'' \<or> contains_ci p ''%5c'' \<or> CHR 0x5C \<in> set p)"

text \<open>\<^verbatim>\<open>/^<root>(?:[/?]|$)/\<close>\<close>

definition at_root :: "string \<Rightarrow> string \<Rightarrow> bool" where
  "at_root base path \<longleftrightarrow> startsWith path base \<and>
     (let t = drop (length base) path in t = [] \<or> hd t = CHR ''/'' \<or> hd t = CHR ''?'')"

definition isAnonymousAllowed :: "string \<Rightarrow> string \<Rightarrow> bool" where
  "isAnonymousAllowed method path \<longleftrightarrow>
     (method = ''GET'' \<and> (path = ''/1.0'' \<or> startsWith path ''/1.0?'')) \<or>
     ((method = ''GET'' \<or> method = ''HEAD'') \<and> at_root ''/documentation'' path \<and> \<not> ambiguous path)"

definition method_of :: "http_request \<Rightarrow> string" where
  "method_of req = (case hr_method req of None \<Rightarrow> [] | Some m \<Rightarrow> m)"

text \<open>
  The request \<open>resolvePrincipal\<close> reads: cookies are never credentials under host routing. The
  \<open>Request\<close> constructor takes a missing method for GET.
\<close>

definition authRequest :: "http_request \<Rightarrow> route \<Rightarrow> auth_request" where
  "authRequest req r =
     \<lparr>rq_method = (case hr_method req of None \<Rightarrow> ''GET'' | Some m \<Rightarrow> m), rq_authorization = hr_authorization req,
      rq_cookie = (if rt_mode r = ByHost then None else hr_cookie req), rq_origin = hr_origin req\<rparr>"

record admission =
  am_route :: route
  am_cluster :: cluster_row
  am_principal :: "principal option"
  am_isUi :: bool

text \<open>
  \<open>admit\<close>: the refusal (status and message) or the admission, with what is reported to the request
  log. \<open>found\<close> is the cache's answer for the route's cluster and \<open>caller\<close> the answer of
  \<open>resolvePrincipal\<close> for \<open>authRequest\<close>; an error that is no \<open>ApiError\<close> ends as a 500.
\<close>

definition admit_as ::
  "snapshot \<Rightarrow> string \<Rightarrow> http_request \<Rightarrow> bool \<Rightarrow> route \<Rightarrow> cluster_row option \<Rightarrow> principal option result
   \<Rightarrow> (int \<times> string + admission) \<times> gateway_request list" where
  "admit_as s publicOrigin req upgrade r found caller =
    (case found of
       None \<Rightarrow> (Inl (404, ''Unknown cluster \"'' @ rt_name r @ ''\"''), [])
     | Some c \<Rightarrow>
         if cl_status c = ''disabled'' then (Inl (503, ''Cluster \"'' @ cl_name c @ ''\" is disabled''), [])
         else (case caller of
             Inl (ApiError status code msg) \<Rightarrow> (Inl (status, msg), [])
           | Inl _ \<Rightarrow> (Inl (500, ''Internal error''), [])
           | Inr p \<Rightarrow>
               let isUi = (rt_mode r = ByPath \<and> at_root ''/ui'' (rt_path r));
                   asked = (hr_authorization req \<noteq> None);
                   viaSession = (p \<noteq> None \<and> \<not> truthy (hr_authorization req)) in
               if p = None \<and> \<not> isUi \<and> (asked \<or> \<not> isAnonymousAllowed (method_of req) (rt_path r))
               then (Inl (401, ''Sign in to IncusCloud first (send an access token)''), [])
               else if upgrade \<and> viaSession \<and> truthy (hr_origin req) \<and> hr_origin req \<noteq> Some publicOrigin
               then (Inl (403, ''Cross-origin requests cannot use the session cookie''), [])
               else if (case p of None \<Rightarrow> False
                   | Some x \<Rightarrow> \<not> authz_check s (''user:'' @ p_id x) ''can_access'' (''cluster:'' @ cl_id c))
               then (Inl (403, ''You have no access to cluster \"'' @ cl_name c @ ''\"''),
                 [\<lparr>gq_cluster = c, gq_principal = p, gq_method = method_of req, gq_path = rt_path r, gq_status = 403,
                   gq_bytesIn = 0, gq_bytesOut = 0, gq_durationMs = 0, gq_ip = hr_ip req, gq_upgrade = upgrade\<rparr>])
               else (Inr \<lparr>am_route = r, am_cluster = c, am_principal = p, am_isUi = isUi\<rparr>, [])))"

text \<open>What the gateway does with a request: it answers, serves the interface, or relays it.\<close>

record relay_target =
  ra_url :: string
  ra_path :: string
  ra_token :: "string option"
  ra_clientIp :: string

datatype gateway_outcome = Answered int string | Ui admission | Relayed cluster_row relay_target

definition target :: "http_request \<Rightarrow> admission \<Rightarrow> relay_target" where
  "target req a = \<lparr>ra_url = cl_url (am_cluster a), ra_path = rt_path (am_route a),
     ra_token = map_option p_token (am_principal a), ra_clientIp = hr_ip req\<rparr>"

record gateway_state =
  gs_cache :: cluster_cache
  gs_sessions :: sessions

text \<open>The whole admission: the cache is asked first, then the caller is resolved.\<close>

definition admit ::
  "auth_deps \<Rightarrow> string \<Rightarrow> snapshot \<Rightarrow> db \<Rightarrow> int \<Rightarrow> (sessions \<Rightarrow> sessions) \<Rightarrow> int \<Rightarrow> int \<Rightarrow> http_request \<Rightarrow> bool \<Rightarrow> route
   \<Rightarrow> gateway_state \<Rightarrow> ((int \<times> string + admission) \<times> gateway_request list) \<times> gateway_state" where
  "admit deps publicOrigin s d now others locked later req upgrade r st =
    (let (found, cache') = cache_get 5000 now d (rt_name r) (gs_cache st) in
     if found = None \<or> cl_status (the found) = ''disabled''
     then (admit_as s publicOrigin req upgrade r found (Inr None), st\<lparr>gs_cache := cache'\<rparr>)
     else let (rows', caller) = resolvePrincipal deps now others locked later d (gs_sessions st) (authRequest req r)
       in (admit_as s publicOrigin req upgrade r found caller, st\<lparr>gs_cache := cache', gs_sessions := rows'\<rparr>))"

definition gateway_answer :: "bool \<Rightarrow> bool \<Rightarrow> http_request \<Rightarrow> (int \<times> string + admission) \<Rightarrow> gateway_outcome" where
  "gateway_answer hasUi upgrade req a =
    (case a of
       Inl (status, msg) \<Rightarrow> Answered status msg
     | Inr x \<Rightarrow>
         if am_isUi x then (if hasUi \<and> \<not> upgrade then Ui x else Answered 404 ''Not found'')
         else Relayed (am_cluster x) (target req x))"

definition gateway ::
  "auth_deps \<Rightarrow> string \<Rightarrow> bool \<Rightarrow> string \<Rightarrow> snapshot \<Rightarrow> db \<Rightarrow> int \<Rightarrow> (sessions \<Rightarrow> sessions) \<Rightarrow> int \<Rightarrow> int \<Rightarrow> http_request \<Rightarrow> bool
   \<Rightarrow> gateway_state \<Rightarrow> (gateway_outcome \<times> gateway_request list \<times> gateway_state) option" where
  "gateway deps clusterDomain hasUi publicOrigin s d now others locked later req upgrade st =
    (case routeRequest (hr_host req) (hr_url req) clusterDomain of
       None \<Rightarrow> None
     | Some r \<Rightarrow>
         let ((a, reports), st') = admit deps publicOrigin s d now others locked later req upgrade r st
         in Some (gateway_answer hasUi upgrade req a, reports, st'))"

section \<open>The request log\<close>

record log_row =
  lr_clusterId :: string
  lr_actorType :: string
  lr_actorId :: string
  lr_method :: string
  lr_path :: string
  lr_status :: int
  lr_bytesIn :: int
  lr_bytesOut :: int
  lr_durationMs :: int
  lr_ip :: string

record request_log =
  rl_sampleReads :: rat
  rl_maxBatch :: nat
  rl_batch :: "log_row list"
  rl_stored :: "log_row list"
  rl_dropped :: "log_row list"

definition log_row_of :: "gateway_request \<Rightarrow> log_row" where
  "log_row_of r = \<lparr>lr_clusterId = cl_id (gq_cluster r),
     lr_actorType = (case gq_principal r of None \<Rightarrow> ''anonymous'' | Some p \<Rightarrow> (if p_kind p = KUser then ''user'' else ''service'')),
     lr_actorId = (case gq_principal r of None \<Rightarrow> [] | Some p \<Rightarrow> p_id p), lr_method = gq_method r,
     lr_path = take 512 (before_first CHR ''?'' (gq_path r)), lr_status = gq_status r, lr_bytesIn = gq_bytesIn r,
     lr_bytesOut = gq_bytesOut r, lr_durationMs = gq_durationMs r, lr_ip = gq_ip r\<rparr>"

text \<open>\<open>ok\<close>: whether the database takes the rows; those it does not are dropped.\<close>

definition flush :: "bool \<Rightarrow> request_log \<Rightarrow> request_log" where
  "flush ok l =
    (if rl_batch l = [] then l
     else if ok then l\<lparr>rl_batch := [], rl_stored := rl_stored l @ rl_batch l\<rparr>
     else l\<lparr>rl_batch := [], rl_dropped := rl_dropped l @ rl_batch l\<rparr>)"

definition is_read :: "gateway_request \<Rightarrow> bool" where
  "is_read r \<longleftrightarrow> \<not> gq_upgrade r \<and> (gq_method r = ''GET'' \<or> gq_method r = ''HEAD'')"

definition log_record :: "rat \<Rightarrow> bool \<Rightarrow> gateway_request \<Rightarrow> request_log \<Rightarrow> request_log" where
  "log_record draw ok r l =
    (if is_read r \<and> \<not> (rl_sampleReads l > 0 \<and> draw < rl_sampleReads l) then l
     else let l1 = l\<lparr>rl_batch := rl_batch l @ [log_row_of r]\<rparr>
       in if length (rl_batch l1) \<ge> rl_maxBatch l then flush ok l1 else l1)"

definition log_stop :: "bool \<Rightarrow> request_log \<Rightarrow> request_log" where
  "log_stop ok l = flush ok l"

section \<open>Facts on the pieces\<close>

lemma label_char_plain: "label_char c \<Longrightarrow> c \<noteq> CHR ''/'' \<and> c \<noteq> CHR ''?'' \<and> c \<noteq> CHR ''#'' \<and> c \<noteq> CHR ''@''"
  by (auto simp: label_char_def is_lower_def is_digit_def cc_def)

lemma CLUSTER_NAME_chars:
  assumes "CLUSTER_NAME n" "c \<in> set n"
  shows "label_char c"
proof -
  have "n = hd n # butlast (tl n) @ [last n]"
    using assms(1) by (cases n) (auto simp: CLUSTER_NAME_def)
  then have "c = hd n \<or> c \<in> set (butlast (tl n)) \<or> c = last n"
    using assms(2) by (metis Un_iff empty_iff empty_set insert_iff list.simps(15) set_append)
  then show ?thesis using assms(1) by (auto simp: CLUSTER_NAME_def label_char_def list_all_iff)
qed

lemma CLUSTER_NAME_nonempty: "CLUSTER_NAME n \<Longrightarrow> n \<noteq> []"
  by (auto simp: CLUSTER_NAME_def)

lemma gateway_path_slash: "gateway_path p \<Longrightarrow> \<exists>t. p = CHR ''/'' # t"
  by (auto simp: gateway_path_def CLUSTER_ROOTS_def startsWith_iff)

lemma takeWhile_drop: "takeWhile P xs @ drop (length (takeWhile P xs)) xs = xs"
  by (induction xs) auto

lemma if_SomeD: "(if C then Some (a, b) else None) = Some (x, y) \<Longrightarrow> C \<and> x = a \<and> y = b"
  by (cases C) simp_all

lemma PATH_ROUTE_iff:
  assumes "CLUSTER_NAME n"
  shows "PATH_ROUTE url = Some (n, p) \<longleftrightarrow> gateway_path p \<and> url = ''/clusters/'' @ n @ p"
proof
  assume r: "PATH_ROUTE url = Some (n, p)"
  let ?rest = "drop (length ''/clusters/'') url"
  note D = if_SomeD[OF r[unfolded PATH_ROUTE_def Let_def]]
  have n: "n = takeWhile (\<lambda>c. c \<noteq> CHR ''/'' \<and> c \<noteq> CHR ''?'' \<and> c \<noteq> CHR ''#'') ?rest"
    by (rule D[THEN conjunct2, THEN conjunct1])
  have p: "p = drop (length n) ?rest" unfolding n by (rule D[THEN conjunct2, THEN conjunct2])
  have parts: "startsWith url ''/clusters/''" "gateway_path p"
    using D unfolding p n by (simp_all only:)
  have "?rest = n @ p" unfolding p n by (rule takeWhile_drop[symmetric])
  moreover have "url = ''/clusters/'' @ ?rest"
    using parts(1) unfolding startsWith_def by (metis append_take_drop_id)
  ultimately show "gateway_path p \<and> url = ''/clusters/'' @ n @ p" using parts(2) by simp
next
  assume a: "gateway_path p \<and> url = ''/clusters/'' @ n @ p"
  then obtain t where "p = CHR ''/'' # t" using gateway_path_slash by blast
  moreover have "\<And>c. c \<in> set n \<Longrightarrow> c \<noteq> CHR ''/'' \<and> c \<noteq> CHR ''?'' \<and> c \<noteq> CHR ''#''"
    using CLUSTER_NAME_chars[OF assms] label_char_plain by blast
  ultimately have "takeWhile (\<lambda>c. c \<noteq> CHR ''/'' \<and> c \<noteq> CHR ''?'' \<and> c \<noteq> CHR ''#'') (n @ p) = n"
    by (simp add: takeWhile_append2)
  then show "PATH_ROUTE url = Some (n, p)"
    using a CLUSTER_NAME_nonempty[OF assms] by (simp add: PATH_ROUTE_def)
qed

lemma anonymous_paths:
  assumes "isAnonymousAllowed m p"
  shows "before_first CHR ''?'' p = ''/1.0'' \<or>
    (\<exists>segs. split_on CHR ''/'' (before_first CHR ''?'' p) = [] # ''documentation'' # segs \<and> ''.'' \<notin> set segs \<and> ''..'' \<notin> set segs)"
proof (cases "p = ''/1.0'' \<or> startsWith p ''/1.0?''")
  case True
  then show ?thesis by (auto simp: before_first_def startsWith_iff)
next
  case False
  with assms have doc: "at_root ''/documentation'' p" and plain: "\<not> ambiguous p"
    by (auto simp: isAnonymousAllowed_def)
  from doc obtain t where pt: "p = ''/documentation'' @ t" unfolding at_root_def startsWith_iff by blast
  with doc have t: "p = ''/documentation'' @ t" "t = [] \<or> hd t = CHR ''/'' \<or> hd t = CHR ''?''"
    by (simp_all add: at_root_def Let_def)
  have "\<exists>segs. split_on CHR ''/'' (before_first CHR ''?'' p) = [] # ''documentation'' # segs"
    using t by (cases t) (auto simp: before_first_def)
  moreover have "''.'' \<notin> set (split_on CHR ''/'' (before_first CHR ''?'' p))" "''..'' \<notin> set (split_on CHR ''/'' (before_first CHR ''?'' p))"
    using plain by (auto simp: ambiguous_def Let_def list_ex_iff)
  ultimately show ?thesis by (metis list.set_intros(2))
qed

lemma admit_asD:
  assumes "admit_as s origin req upgrade r found caller = (Inr a, reports)"
  shows "found = Some (am_cluster a) \<and> cl_status (am_cluster a) \<noteq> ''disabled'' \<and> caller = Inr (am_principal a) \<and> am_route a = r \<and>
    (am_principal a = None \<and> \<not> am_isUi a \<longrightarrow> hr_authorization req = None \<and> isAnonymousAllowed (method_of req) (rt_path r)) \<and>
    (\<forall>p. am_principal a = Some p \<longrightarrow>
       authz_check s (''user:'' @ p_id p) ''can_access'' (''cluster:'' @ cl_id (am_cluster a)) \<and>
       (upgrade \<and> \<not> truthy (hr_authorization req) \<longrightarrow> \<not> truthy (hr_origin req) \<or> hr_origin req = Some origin))"
proof -
  obtain c where c: "found = Some c" "cl_status c \<noteq> ''disabled''"
    using assms by (auto simp: admit_as_def split: option.splits if_splits)
  obtain p where p: "caller = Inr p"
    using assms c by (cases caller) (auto simp: admit_as_def split: failure.splits)
  show ?thesis
    using assms unfolding admit_as_def c p Let_def
    by (cases p) (auto simp: c p split: if_splits)
qed

lemma admitD:
  assumes "admit deps origin s d now others locked later req upgrade r st = ((Inr a, reports), st')"
  shows "\<exists>rows' caller. resolvePrincipal deps now others locked later d (gs_sessions st) (authRequest req r) = (rows', caller) \<and>
         admit_as s origin req upgrade r (fst (cache_get 5000 now d (rt_name r) (gs_cache st))) caller = (Inr a, reports)"
proof -
  obtain found cache' where g: "cache_get 5000 now d (rt_name r) (gs_cache st) = (found, cache')" by fastforce
  obtain rows' caller where p: "resolvePrincipal deps now others locked later d (gs_sessions st) (authRequest req r) = (rows', caller)"
    by fastforce
  show ?thesis
  proof (cases "found = None \<or> cl_status (the found) = ''disabled''")
    case True
    then have "admit_as s origin req upgrade r found (Inr None) = (Inr a, reports)"
      using assms by (simp add: admit_def g)
    from admit_asD[OF this] True show ?thesis by auto
  next
    case False
    then show ?thesis using assms by (auto simp: admit_def g p)
  qed
qed

section \<open>Properties\<close>

text \<open>
  What the gateway takes from a path: a request whose host is not under the cluster domain is
  routed exactly when its URL is \<open>/clusters/\<close>, a cluster name and one of the cluster's own paths
  (the API, the OS API, the interface, the documentation), and then to that cluster with exactly
  the rest of the URL.
\<close>

theorem route_by_path:
  assumes "\<not> endsWith (strip_port (map to_lower host)) (''.'' @ map to_lower domain)"
  shows "routeRequest (Some host) (Some url) domain = Some r \<longleftrightarrow>
    rt_mode r = ByPath \<and> CLUSTER_NAME (rt_name r) \<and> gateway_path (rt_path r) \<and> url = ''/clusters/'' @ rt_name r @ rt_path r"
proof -
  have "routeRequest (Some host) (Some url) domain = Some r \<longleftrightarrow>
    PATH_ROUTE url = Some (rt_name r, rt_path r) \<and> CLUSTER_NAME (rt_name r) \<and> rt_mode r = ByPath"
    using assms by (cases r) (auto simp: routeRequest_def Let_def split: option.splits)
  then show ?thesis using PATH_ROUTE_iff[of "rt_name r" url "rt_path r"] by blast
qed


section \<open>The cache over time\<close>

text \<open>
  A run of the cache while the database changes: \<open>hist t\<close> is the database at the time \<open>t\<close>, and
  each operation comes no earlier than the one before.
\<close>

inductive cache_run :: "(string \<Rightarrow> string \<Rightarrow> rat) \<Rightarrow> int \<Rightarrow> (int \<Rightarrow> db) \<Rightarrow> int \<Rightarrow> cluster_cache \<Rightarrow> bool" for lc ttl hist where
  start: "cache_run lc ttl hist t empty_cache"
| got: "cache_run lc ttl hist t c \<Longrightarrow> t \<le> now \<Longrightarrow> cache_run lc ttl hist now (snd (cache_get ttl now (hist now) name c))"
| listed: "cache_run lc ttl hist t c \<Longrightarrow> t \<le> now \<Longrightarrow> cache_run lc ttl hist now (snd (cache_all lc ttl now (hist now) c))"
| invalidated: "cache_run lc ttl hist t c \<Longrightarrow> t \<le> now \<Longrightarrow> cache_run lc ttl hist now (cache_invalidate name c)"

definition named_cluster :: "db \<Rightarrow> string \<Rightarrow> cluster_row option" where
  "named_cluster d name = find (\<lambda>x. cl_name x = name) (db_clusters d)"

definition clusters_in_order :: "(string \<Rightarrow> string \<Rightarrow> rat) \<Rightarrow> db \<Rightarrow> cluster_row list" where
  "clusters_in_order lc d = sort_by (\<lambda>a b. lc (cl_name a) (cl_name b)) (db_clusters d)"

definition cache_ok :: "(string \<Rightarrow> string \<Rightarrow> rat) \<Rightarrow> (int \<Rightarrow> db) \<Rightarrow> int \<Rightarrow> cluster_cache \<Rightarrow> bool" where
  "cache_ok lc hist t c \<longleftrightarrow>
     (\<forall>name row u. m_get (ca_entries c) name = Some (row, u) \<longrightarrow> u \<le> t \<and> row = named_cluster (hist u) name) \<and>
     (\<forall>rows u. ca_list c = Some (rows, u) \<longrightarrow> u \<le> t \<and> rows = clusters_in_order lc (hist u))"

lemma cache_ok_later: "cache_ok lc hist t c \<Longrightarrow> t \<le> now \<Longrightarrow> cache_ok lc hist now c"
  unfolding cache_ok_def by (meson order_trans)

lemma cache_get_cases:
  "snd (cache_get ttl now d name c) = c \<or>
   snd (cache_get ttl now d name c) = c\<lparr>ca_entries := m_set (ca_entries c) name (named_cluster d name, now)\<rparr>"
  by (auto simp: cache_get_def named_cluster_def Let_def split: option.splits)

lemma cache_all_cases:
  "snd (cache_all lc ttl now d c) = c \<or> snd (cache_all lc ttl now d c) = c\<lparr>ca_list := Some (clusters_in_order lc d, now)\<rparr>"
  by (auto simp: cache_all_def clusters_in_order_def Let_def split: option.splits)

lemma cache_ok_put:
  "cache_ok lc hist now c \<Longrightarrow> cache_ok lc hist now (c\<lparr>ca_entries := m_set (ca_entries c) name (named_cluster (hist now) name, now)\<rparr>)"
  "cache_ok lc hist now c \<Longrightarrow> cache_ok lc hist now (c\<lparr>ca_list := Some (clusters_in_order lc (hist now), now)\<rparr>)"
  by (simp_all add: cache_ok_def)

lemma cache_ok_invalidate: "cache_ok lc hist now c \<Longrightarrow> cache_ok lc hist now (cache_invalidate name c)"
  by (simp add: cache_ok_def cache_invalidate_def)

lemma cache_ok_empty: "cache_ok lc hist t empty_cache"
  by (simp add: cache_ok_def empty_cache_def)

lemma cache_run_ok: "cache_run lc ttl hist t c \<Longrightarrow> cache_ok lc hist t c"
proof (induction rule: cache_run.induct)
  case (got t c now name)
  then have "cache_ok lc hist now c" using cache_ok_later by blast
  then show ?case using cache_ok_put(1) cache_get_cases[of ttl now "hist now" name c] by fastforce
next
  case (listed t c now)
  then have "cache_ok lc hist now c" using cache_ok_later by blast
  then show ?case using cache_ok_put(2) cache_all_cases[of lc ttl now "hist now" c] by fastforce
qed (auto intro: cache_ok_invalidate cache_ok_later cache_ok_empty)

text \<open>
  The gateway works with clusters at most \<open>ttl\<close> old: after any run of the cache, what it answers
  for a name, and for all clusters, is what the database held at some moment less than \<open>ttl\<close> ago,
  and right after an invalidation of the name it is what the database holds now.
\<close>

theorem cache_staleness:
  assumes "cache_run lc ttl hist t c" "t \<le> now" "0 < ttl"
  shows "(\<exists>u. now - ttl < u \<and> u \<le> now \<and> fst (cache_get ttl now (hist now) name c) = named_cluster (hist u) name) \<and>
    (\<exists>u. now - ttl < u \<and> u \<le> now \<and> fst (cache_all lc ttl now (hist now) c) = clusters_in_order lc (hist u)) \<and>
    fst (cache_get ttl now (hist now) name (cache_invalidate (Some name) c)) = named_cluster (hist now) name \<and>
    fst (cache_all lc ttl now (hist now) (cache_invalidate (Some name) c)) = clusters_in_order lc (hist now)"
proof (intro conjI)
  note ok = cache_ok_later[OF cache_run_ok[OF assms(1)] assms(2)]
  show "\<exists>u. now - ttl < u \<and> u \<le> now \<and> fst (cache_get ttl now (hist now) name c) = named_cluster (hist u) name"
  proof (cases "\<exists>row u. m_get (ca_entries c) name = Some (row, u) \<and> now - u < ttl")
    case True
    then obtain row u where "m_get (ca_entries c) name = Some (row, u)" "now - u < ttl" by blast
    then show ?thesis using ok assms(2) by (intro exI[of _ u]) (auto simp: cache_ok_def cache_get_def)
  next
    case False
    then show ?thesis using assms(3)
      by (intro exI[of _ now]) (auto simp: cache_get_def named_cluster_def Let_def split: option.splits)
  qed
  show "\<exists>u. now - ttl < u \<and> u \<le> now \<and> fst (cache_all lc ttl now (hist now) c) = clusters_in_order lc (hist u)"
  proof (cases "\<exists>rows u. ca_list c = Some (rows, u) \<and> now - u < ttl")
    case True
    then obtain rows u where "ca_list c = Some (rows, u)" "now - u < ttl" by blast
    then show ?thesis using ok assms(2) by (intro exI[of _ u]) (auto simp: cache_ok_def cache_all_def)
  next
    case False
    then show ?thesis using assms(3)
      by (intro exI[of _ now]) (auto simp: cache_all_def clusters_in_order_def Let_def split: option.splits)
  qed
qed (auto simp: cache_invalidate_def cache_get_def cache_all_def named_cluster_def clusters_in_order_def Let_def split: option.splits)

theorem cache_staleness_witness:
  "fst (cache_get 5000 7 empty_db ''c'' (cache_invalidate (Some ''c'') empty_cache)) = named_cluster empty_db ''c''"
  using cache_staleness[OF cache_run.start[of "\<lambda>a b. 0" 5000 "\<lambda>_. empty_db" 3], of 7 "''c''"] by simp

section \<open>The log over time\<close>

datatype log_op = Recorded rat bool gateway_request | Flushed bool

fun log_do :: "log_op \<Rightarrow> request_log \<Rightarrow> request_log" where
  "log_do (Recorded draw ok r) l = log_record draw ok r l"
| "log_do (Flushed ok) l = flush ok l"

definition new_log :: "rat \<Rightarrow> nat \<Rightarrow> request_log" where
  "new_log sampleReads maxBatch =
     \<lparr>rl_sampleReads = sampleReads, rl_maxBatch = maxBatch, rl_batch = [], rl_stored = [], rl_dropped = []\<rparr>"

text \<open>The requests to keep: every change and upgrade, and the reads whose draw is below the rate.\<close>

fun kept_rows :: "rat \<Rightarrow> log_op list \<Rightarrow> log_row list" where
  "kept_rows rate [] = []"
| "kept_rows rate (Recorded draw ok r # ops) =
     (if is_read r \<and> \<not> (rate > 0 \<and> draw < rate) then [] else [log_row_of r]) @ kept_rows rate ops"
| "kept_rows rate (Flushed ok # ops) = kept_rows rate ops"

fun op_ok :: "log_op \<Rightarrow> bool" where
  "op_ok (Recorded draw ok r) = ok"
| "op_ok (Flushed ok) = ok"

lemma log_do_consts [simp]: "rl_sampleReads (log_do x l) = rl_sampleReads l" "rl_maxBatch (log_do x l) = rl_maxBatch l"
  by (cases x; simp add: log_record_def flush_def Let_def)+

lemma flush_ok: "rl_stored (flush True l) @ rl_batch (flush True l) = rl_stored l @ rl_batch l" "rl_dropped (flush True l) = rl_dropped l"
  by (simp_all add: flush_def)

lemma flush_empties: "rl_batch (flush ok l) = []"
  by (simp add: flush_def)

lemma log_step:
  assumes "op_ok x" "rl_dropped l = []"
  shows "rl_stored (log_do x l) @ rl_batch (log_do x l) = (rl_stored l @ rl_batch l) @ kept_rows (rl_sampleReads l) [x]
    \<and> rl_dropped (log_do x l) = []"
  using assms by (cases x) (auto simp: log_record_def Let_def flush_ok flush_ok(1)[simplified])

lemma log_batch_bound:
  assumes "0 < rl_maxBatch l" "length (rl_batch l) < rl_maxBatch l"
  shows "length (rl_batch (log_do x l)) < rl_maxBatch l"
  using assms by (cases x) (auto simp: log_record_def Let_def flush_empties)

lemma kept_rows_append: "kept_rows rate (xs @ ys) = kept_rows rate xs @ kept_rows rate ys"
  by (induction rate xs rule: kept_rows.induct) auto

lemma log_run:
  assumes "list_all op_ok ops" "0 < n"
  shows "let l = fold log_do ops (new_log rate n) in
    rl_stored l @ rl_batch l = kept_rows rate ops \<and> rl_dropped l = [] \<and> length (rl_batch l) < n \<and>
    rl_sampleReads l = rate \<and> rl_maxBatch l = n"
  using assms(1)
proof (induction ops rule: rev_induct)
  case Nil
  then show ?case using assms(2) by (simp add: new_log_def)
next
  case (snoc x ops)
  then show ?case
    using log_step[of x "fold log_do ops (new_log rate n)"] log_batch_bound[of "fold log_do ops (new_log rate n)" x] assms(2)
    by (simp add: Let_def kept_rows_append)
qed

lemma log_row_path: "CHR ''?'' \<notin> set (lr_path (log_row_of r)) \<and> length (lr_path (log_row_of r)) \<le> 512"
proof -
  have "CHR ''?'' \<notin> set (before_first CHR ''?'' (gq_path r))"
    by (auto simp: before_first_def dest: set_takeWhileD)
  then show ?thesis by (auto simp: log_row_of_def dest: in_set_takeD)
qed

lemma kept_row_safe: "row \<in> set (kept_rows rate ops) \<Longrightarrow> CHR ''?'' \<notin> set (lr_path row) \<and> length (lr_path row) \<le> 512"
  by (induction rate ops rule: kept_rows.induct) (auto simp: log_row_path split: if_splits)

lemma kept_changes: "Recorded draw ok r \<in> set ops \<Longrightarrow> \<not> is_read r \<Longrightarrow> log_row_of r \<in> set (kept_rows rate ops)"
  by (induction rate ops rule: kept_rows.induct) auto

text \<open>
  The gateway's log loses nothing while the database takes its writes: the rows stored and those
  waiting are, in order, every change and upgrade reported and the sampled reads, fewer than
  \<open>maxBatch\<close> of them waiting; no row has a query string (it may carry a secret) or more than 512
  characters of path.
\<close>

theorem log_complete:
  assumes "list_all op_ok ops" "0 < maxBatch"
  shows "let l = fold log_do ops (new_log rate maxBatch) in
    rl_stored l @ rl_batch l = kept_rows rate ops \<and> length (rl_batch l) < maxBatch \<and>
    (\<forall>draw ok r. Recorded draw ok r \<in> set ops \<and> \<not> is_read r \<longrightarrow> log_row_of r \<in> set (rl_stored l) \<union> set (rl_batch l)) \<and>
    (\<forall>row\<in>set (rl_stored l) \<union> set (rl_batch l). CHR ''?'' \<notin> set (lr_path row) \<and> length (lr_path row) \<le> 512)"
proof -
  define l where "l = fold log_do ops (new_log rate maxBatch)"
  have l: "rl_stored l @ rl_batch l = kept_rows rate ops" "length (rl_batch l) < maxBatch"
    using log_run[OF assms, of rate] by (simp_all add: Let_def l_def)
  have "set (rl_stored l) \<union> set (rl_batch l) = set (kept_rows rate ops)"
    unfolding l(1)[symmetric] by simp
  then show ?thesis using l kept_row_safe kept_changes unfolding Let_def l_def[symmetric] by blast
qed

definition a_put :: gateway_request where
  "a_put = \<lparr>gq_cluster = a_cluster, gq_principal = None, gq_method = ''PUT'', gq_path = ''/1.0/x?secret=s'', gq_status = 200,
     gq_bytesIn = 0, gq_bytesOut = 0, gq_durationMs = 1, gq_ip = [], gq_upgrade = False\<rparr>"

theorem log_complete_witness:
  "length (rl_batch (fold log_do [Recorded 0 True a_put, Flushed True] (new_log 0 200))) < 200"
  using log_complete[of "[Recorded 0 True a_put, Flushed True]" 200 0] by (simp add: Let_def)

section \<open>Concrete instances\<close>

definition gw_cluster :: cluster_row where
  "gw_cluster = a_cluster\<lparr>cl_name := ''c1''\<rparr>"

definition anonymous_get :: http_request where
  "anonymous_get = \<lparr>hr_method = Some ''GET'', hr_url = Some ''/clusters/c1/1.0'', hr_host = Some ''h'', hr_authorization = None,
     hr_cookie = None, hr_origin = None, hr_ip = []\<rparr>"

lemma char_tests [simp]:
  "is_lower CHR ''c''" "\<not> is_lower CHR ''1''" "is_digit CHR ''1''" "\<not> is_digit CHR ''h''"
  "to_lower CHR ''h'' = CHR ''h''" "to_lower CHR ''d'' = CHR ''d''"
  by (simp_all add: is_lower_def is_digit_def to_lower_def is_upper_def cc_def)

theorem route_by_path_witness:
  "routeRequest (Some ''h'') (Some ''/clusters/c1/1.0'') ''d'' = Some \<lparr>rt_name = ''c1'', rt_path = ''/1.0'', rt_mode = ByPath\<rparr>"
proof -
  have "\<not> endsWith (strip_port (map to_lower ''h'')) (''.'' @ map to_lower ''d'')"
    by (simp add: endsWith_def strip_port_def)
  from route_by_path[OF this] show ?thesis
    by (simp add: CLUSTER_NAME_def gateway_path_def CLUSTER_ROOTS_def root_tail_def)
qed


end
