(* ===== verification/Uri.thy ===== *)
theory Uri
  imports Js_Data
begin

text \<open>
  The URI functions of the language that the sources use, on strings taken as their UTF-8 bytes:
  \<open>encodeURIComponent\<close> escapes every byte outside the unreserved characters, \<open>decodeURIComponent\<close>
  undoes escapes and throws (here \<open>None\<close>) on a malformed escape or one that is no UTF-8. Shown: the
  second undoes the first on every UTF-8 string, and both leave unreserved text alone.
\<close>

section \<open>Hexadecimal\<close>

definition hex_value :: "char \<Rightarrow> nat option" where
  "hex_value c =
    (if 48 \<le> cc c \<and> cc c \<le> 57 then Some (cc c - 48)
     else if 65 \<le> cc c \<and> cc c \<le> 70 then Some (cc c - 55)
     else if 97 \<le> cc c \<and> cc c \<le> 102 then Some (cc c - 87)
     else None)"

definition hex_upper :: "nat \<Rightarrow> char" where
  "hex_upper n = (if n < 10 then char_of (48 + n) else char_of (55 + n))"

lemma cc_char_of: "n < 256 \<Longrightarrow> cc (char_of n) = n"
  by (simp add: cc_def)

lemma char_of_cc [simp]: "char_of (cc c) = c"
  by (simp add: cc_def)

lemma cc_less [simp]: "cc c < 256"
  by (simp add: cc_def)

lemma hex_value_upper: "n < 16 \<Longrightarrow> hex_value (hex_upper n) = Some n"
  by (auto simp: hex_value_def hex_upper_def cc_char_of)

section \<open>Escaping\<close>

definition unreserved :: "char \<Rightarrow> bool" where
  "unreserved c \<longleftrightarrow> is_alnum c \<or> c \<in> set ''-_.!~*'' \<or> cc c = 39 \<or> c = CHR ''('' \<or> c = CHR '')''"

definition escaped :: "char \<Rightarrow> string" where
  "escaped c = CHR ''%'' # hex_upper (cc c div 16) # [hex_upper (cc c mod 16)]"

definition encodeURIComponent :: "string \<Rightarrow> string" where
  "encodeURIComponent s = concat (map (\<lambda>c. if unreserved c then [c] else escaped c) s)"

section \<open>Unescaping\<close>

fun read_escape :: "string \<Rightarrow> (nat \<times> string) option" where
  "read_escape (p # a # b # r) =
    (case (hex_value a, hex_value b) of
       (Some x, Some y) \<Rightarrow> if p = CHR ''%'' then Some (16 * x + y, r) else None
     | _ \<Rightarrow> None)"
| "read_escape _ = None"

fun read_escapes :: "nat \<Rightarrow> string \<Rightarrow> (nat list \<times> string) option" where
  "read_escapes 0 s = Some ([], s)"
| "read_escapes (Suc n) s =
    (case read_escape s of
       None \<Rightarrow> None
     | Some (b, r) \<Rightarrow> (case read_escapes n r of None \<Rightarrow> None | Some (bs, r') \<Rightarrow> Some (b # bs, r')))"

text \<open>How many bytes follow a first byte, and what they may be.\<close>

definition follow :: "nat \<Rightarrow> nat option" where
  "follow b =
    (if b < 128 then Some 0
     else if 194 \<le> b \<and> b \<le> 223 then Some 1
     else if 224 \<le> b \<and> b \<le> 239 then Some 2
     else if 240 \<le> b \<and> b \<le> 244 then Some 3
     else None)"

fun utf8_sequence :: "nat list \<Rightarrow> bool" where
  "utf8_sequence (b # c # r) =
     ((if b = 224 then 160 else if b = 240 then 144 else 128) \<le> c \<and>
      c \<le> (if b = 237 then 159 else if b = 244 then 143 else 191) \<and>
      list_all (\<lambda>x. 128 \<le> x \<and> x \<le> 191) r)"
| "utf8_sequence _ = True"

lemma read_escape_shorter: "read_escape s = Some (b, r) \<Longrightarrow> length r < length s"
  by (induction s rule: read_escape.induct) (auto split: option.splits if_splits)

lemma read_escapes_shorter: "read_escapes n s = Some (bs, r) \<Longrightarrow> length r \<le> length s"
  by (induction n s arbitrary: bs r rule: read_escapes.induct)
     (fastforce split: option.splits prod.splits dest: read_escape_shorter)+

function decodeURIComponent :: "string \<Rightarrow> string option" where
  "decodeURIComponent [] = Some []"
| "decodeURIComponent (c # s) =
    (if c \<noteq> CHR ''%'' then map_option (Cons c) (decodeURIComponent s)
     else case read_escape (c # s) of
       None \<Rightarrow> None
     | Some (b, r) \<Rightarrow>
         (case follow b of
            None \<Rightarrow> None
          | Some n \<Rightarrow>
              (case read_escapes n r of
                 None \<Rightarrow> None
               | Some (bs, r') \<Rightarrow>
                   if utf8_sequence (b # bs)
                   then map_option (append (map char_of (b # bs))) (decodeURIComponent r')
                   else None)))"
  by pat_completeness auto
termination
  by (relation "measure length") (auto dest!: read_escapes_shorter read_escape_shorter)

section \<open>The second undoes the first\<close>

text \<open>The strings that are UTF-8: a first byte and as many others as it asks for, again and again.\<close>

inductive utf8 :: "string \<Rightarrow> bool" where
  utf8_Nil: "utf8 []"
| utf8_more: "utf8 s \<Longrightarrow> follow (cc c) = Some (length cs) \<Longrightarrow> utf8_sequence (cc c # map cc cs) \<Longrightarrow> utf8 (c # cs @ s)"

lemma read_escaped: "read_escape (escaped c @ r) = Some (cc c, r)"
proof -
  have "hex_value (hex_upper (cc c div 16)) = Some (cc c div 16)" "hex_value (hex_upper (cc c mod 16)) = Some (cc c mod 16)"
    using cc_less[of c] by (simp_all add: hex_value_upper less_mult_imp_div_less)
  then show ?thesis by (simp add: escaped_def)
qed

lemma read_escapeds: "read_escapes (length cs) (concat (map escaped cs) @ r) = Some (map cc cs, r)"
  by (induction cs) (simp_all add: read_escaped)

lemma unreserved_ascii: "unreserved c \<Longrightarrow> cc c < 128 \<and> c \<noteq> CHR ''%''"
  by (auto simp: unreserved_def is_alnum_def is_digit_def is_upper_def is_lower_def cc_def)

lemma encode_simps [simp]:
  "encodeURIComponent [] = []"
  "encodeURIComponent (c # s) = (if unreserved c then [c] else escaped c) @ encodeURIComponent s"
  "encodeURIComponent (s @ t) = encodeURIComponent s @ encodeURIComponent t"
  by (simp_all add: encodeURIComponent_def)

lemma encode_high:
  assumes "\<And>c. c \<in> set cs \<Longrightarrow> 128 \<le> cc c"
  shows "encodeURIComponent cs = concat (map escaped cs)"
  using assms
proof (induction cs)
  case (Cons c cs)
  then have "\<not> unreserved c" using unreserved_ascii[of c] by fastforce
  with Cons show ?case by simp
qed simp

lemma follow_high: "follow (cc c) = Some (length cs) \<Longrightarrow> cs \<noteq> [] \<Longrightarrow> 128 \<le> cc c"
  by (auto simp: follow_def split: if_splits)

lemma sequence_high: "utf8_sequence (b # map cc cs) \<Longrightarrow> c \<in> set cs \<Longrightarrow> 128 \<le> cc c"
  by (cases cs) (auto simp: list_all_iff split: if_splits)

lemma decode_escaped:
  assumes "follow (cc c) = Some (length cs)" "utf8_sequence (cc c # map cc cs)"
  shows "decodeURIComponent (escaped c @ concat (map escaped cs) @ r) = map_option (append (c # cs)) (decodeURIComponent r)"
proof -
  obtain t where t: "escaped c @ concat (map escaped cs) @ r = CHR ''%'' # t" by (simp add: escaped_def)
  have "read_escape (CHR ''%'' # t) = Some (cc c, concat (map escaped cs) @ r)"
    using read_escaped[of c "concat (map escaped cs) @ r"] t by simp
  then show ?thesis unfolding t using assms by (simp add: read_escapeds comp_def)
qed

lemma decode_encode:
  assumes "utf8 s"
  shows "decodeURIComponent (encodeURIComponent s) = Some s"
  using assms
proof (induction s rule: utf8.induct)
  case (utf8_more s c cs)
  show ?case
  proof (cases "unreserved c")
    case True
    then have "cs = []" using utf8_more(2) unreserved_ascii[OF True] by (auto simp: follow_def)
    then show ?thesis using True unreserved_ascii[OF True] utf8_more by simp
  next
    case False
    have "encodeURIComponent cs = concat (map escaped cs)"
      using utf8_more(3) by (intro encode_high) (auto dest: sequence_high)
    then show ?thesis using False decode_escaped[OF utf8_more(2,3)] utf8_more(4) by simp
  qed
qed simp

lemma decode_plain: "CHR ''%'' \<notin> set s \<Longrightarrow> decodeURIComponent s = Some s"
  by (induction s) auto

lemma encode_plain: "list_all unreserved s \<Longrightarrow> encodeURIComponent s = s"
  by (induction s) auto

end
