(* ===== verification/Federation.thy ===== *)
theory Federation
  imports Gateway Uri
begin

text \<open>
  \<^verbatim>\<open>federation/rewrite.ts\<close>: the naming of the federation facade. What belongs to one cluster is
  written \<open>name@cluster\<close>; requests lose the qualifiers before they reach their cluster
  (\<open>stripRequest\<close>, \<open>stripBody\<close>), responses gain them on the way back (\<open>qualifyUrl\<close>, \<open>walk\<close>,
  \<open>qualifyResponse\<close>), and a request's own qualifiers say which cluster it is for (\<open>targetOf\<close>). A
  JSON object is the list of its entries in the order of \<open>Object.entries\<close>. The path of a parsed
  referer is an argument of \<open>targetOf\<close> (the empty path when it does not parse).
\<close>

section \<open>Names\<close>

definition qualify :: "string \<Rightarrow> string \<Rightarrow> string" where
  "qualify name cluster = name @ ''@'' @ cluster"

definition split :: "string \<Rightarrow> string list \<Rightarrow> string \<times> string option" where
  "split s clusters =
    (if CHR ''@'' \<in> set s \<and> before_last CHR ''@'' s \<noteq> [] \<and> after_last CHR ''@'' s \<in> set clusters
     then (before_last CHR ''@'' s, Some (after_last CHR ''@'' s))
     else (s, None))"

datatype fed_target = One string | Every | Conflict "string list"

definition decode :: "string \<Rightarrow> string" where
  "decode s =
    (case decodeURIComponent (map (\<lambda>c. if c = CHR ''+'' then CHR '' '' else c) s) of
       None \<Rightarrow> s
     | Some d \<Rightarrow> d)"

record param =
  pm_k :: string
  pm_v :: "string option"
  pm_raw :: string

definition after_first :: "char \<Rightarrow> string \<Rightarrow> string" where
  "after_first c s = tl (dropWhile (\<lambda>x. x \<noteq> c) s)"

definition parse_param :: "string \<Rightarrow> param" where
  "parse_param p =
    (if CHR ''='' \<in> set p
     then \<lparr>pm_k = decode (before_first CHR ''='' p), pm_v = Some (decode (after_first CHR ''='' p)), pm_raw = p\<rparr>
     else \<lparr>pm_k = decode p, pm_v = None, pm_raw = p\<rparr>)"

definition parse_url :: "string \<Rightarrow> string list \<times> param list" where
  "parse_url pathAndQuery =
    (let query = after_first CHR ''?'' pathAndQuery in
     (split_on CHR ''/'' (before_first CHR ''?'' pathAndQuery),
      if query = [] then [] else map parse_param (split_on CHR ''&'' query)))"

section \<open>Which cluster a request is for\<close>

definition opt_list :: "string option \<Rightarrow> string list" where
  "opt_list v = (case v of None \<Rightarrow> [] | Some s \<Rightarrow> if s = [] then [] else [s])"

definition clustersIn :: "string \<Rightarrow> string list \<Rightarrow> string list" where
  "clustersIn pathAndQuery clusters =
    (let (segs, params) = parse_url pathAndQuery in
     uniq (concat (map (\<lambda>s. opt_list (snd (split (decode s) clusters))) segs)
       @ concat (map (\<lambda>p. if (pm_k p = ''project'' \<or> pm_k p = ''target'') \<and> truthy (pm_v p)
                          then opt_list (snd (split (the (pm_v p)) clusters)) else []) params)))"

definition inventory_page :: "string \<Rightarrow> string option" where
  "inventory_page path =
    (let name = before_first CHR ''/'' (drop (length ''/inventory/'') path)
     in if startsWith path ''/inventory/'' \<and> name \<noteq> [] then Some name else None)"

definition targetOf :: "string \<Rightarrow> string option \<Rightarrow> string list \<Rightarrow> string option \<Rightarrow> fed_target" where
  "targetOf pathAndQuery refererPath clusters scope =
    (case clustersIn pathAndQuery clusters of
       c # c' # cs \<Rightarrow> Conflict (c # c' # cs)
     | [c] \<Rightarrow> One c
     | [] \<Rightarrow>
         if scope = Some ''all'' then Every
         else if truthy scope \<and> the scope \<in> set clusters then One (the scope)
         else (case refererPath of
             None \<Rightarrow> Every
           | Some path \<Rightarrow>
               (case clustersIn path clusters of
                  c # _ \<Rightarrow> One c
                | [] \<Rightarrow>
                    (case inventory_page path of
                       Some page \<Rightarrow> if decode page \<in> set clusters then One (decode page) else Every
                     | None \<Rightarrow> Every))))"

section \<open>Requests lose the qualifiers\<close>

definition stripName :: "string \<Rightarrow> string \<Rightarrow> string" where
  "stripName s cluster = (if endsWith s (''@'' @ cluster) then take (length s - length cluster - 1) s else s)"

definition with_query :: "string \<Rightarrow> string list \<Rightarrow> string" where
  "with_query path params = (if params = [] then path else path @ ''?'' @ join_with ''&'' params)"

definition strip_segment :: "string \<Rightarrow> string \<Rightarrow> string" where
  "strip_segment cluster s =
    (let d = decode s; n = stripName d cluster in if n = d then s else encodeURIComponent n)"

definition strip_param :: "string \<Rightarrow> bool \<Rightarrow> param \<Rightarrow> string list" where
  "strip_param cluster standalone p =
    (case pm_v p of
       None \<Rightarrow> [pm_raw p]
     | Some v \<Rightarrow>
         let n = stripName v cluster in
         if pm_k p = ''target'' \<and> standalone \<and> n = cluster then []
         else [if n = v then pm_raw p else encodeURIComponent (pm_k p) @ ''='' @ encodeURIComponent n])"

definition stripRequest :: "string \<Rightarrow> string \<Rightarrow> bool \<Rightarrow> string" where
  "stripRequest pathAndQuery cluster standalone =
    (let (segs, params) = parse_url pathAndQuery in
     with_query (join_with ''/'' (map (strip_segment cluster) segs)) (concat (map (strip_param cluster standalone) params)))"

fun stripBody :: "string \<Rightarrow> json \<Rightarrow> json" where
  "stripBody cluster (JStr s) = JStr (if startsWith s ''/1.0/'' then stripRequest s cluster False else stripName s cluster)"
| "stripBody cluster (JArr xs) = JArr (map (stripBody cluster) xs)"
| "stripBody cluster (JObj es) = JObj (map (\<lambda>(k, x). (k, stripBody cluster x)) es)"
| "stripBody cluster v = v"

section \<open>Responses gain them\<close>

definition GLOBAL_NAME_AT :: "(string \<times> nat) list" where
  "GLOBAL_NAME_AT = [(''storage-pools'', 3), (''operations'', 3), (''projects'', 3), (''certificates'', 3),
     (''warnings'', 3), (''network-integrations'', 3)]"

definition CLUSTER_NAME_AT :: "(string \<times> nat) list" where
  "CLUSTER_NAME_AT = [(''members'', 4), (''groups'', 4)]"

text \<open>What \<open>in\<close> also finds on an object literal.\<close>

definition OBJECT_PROTOTYPE :: "string list" where
  "OBJECT_PROTOTYPE = [''constructor'', ''toString'', ''toLocaleString'', ''valueOf'', ''hasOwnProperty'', ''isPrototypeOf'',
     ''propertyIsEnumerable'', ''__proto__'', ''__defineGetter__'', ''__defineSetter__'', ''__lookupGetter__'', ''__lookupSetter__'']"

definition seg_at :: "string list \<Rightarrow> nat \<Rightarrow> string" where
  "seg_at segs i = (if i < length segs then segs ! i else [])"

definition projectScoped :: "string list \<Rightarrow> bool" where
  "projectScoped segs =
    (let kind = seg_at segs 2 in
     if kind = [] then False
     else if kind = ''storage-pools'' then length segs > 4
     else kind \<notin> fst ` set GLOBAL_NAME_AT \<and> kind \<notin> set OBJECT_PROTOTYPE \<and>
       kind \<notin> {''cluster'', ''events'', ''resources'', ''metrics'', ''auth''})"

record ctx =
  cx_cluster :: string
  cx_standalone :: bool

definition q_of :: "string \<Rightarrow> ctx \<Rightarrow> string" where
  "q_of s c = (if s \<noteq> [] then qualify s (cx_cluster c) else s)"

definition member :: "string \<Rightarrow> ctx \<Rightarrow> string" where
  "member s c = (if cx_standalone c \<and> (s = ''none'' \<or> s = []) then qualify (cx_cluster c) (cx_cluster c) else q_of s c)"

definition name_at :: "string list \<Rightarrow> nat option" where
  "name_at segs = (let kind = seg_at segs 2 in
     if kind = ''cluster'' then map_of CLUSTER_NAME_AT (seg_at segs 3) else map_of GLOBAL_NAME_AT kind)"

definition qualify_segments :: "ctx \<Rightarrow> string list \<Rightarrow> string list" where
  "qualify_segments c segs =
    (case name_at segs of
       None \<Rightarrow> segs
     | Some i \<Rightarrow> if seg_at segs i \<noteq> [] then segs[i := q_of (decode (segs ! i)) c] else segs)"

definition is_project_param :: "param \<Rightarrow> bool" where
  "is_project_param p \<longleftrightarrow> pm_v p \<noteq> None \<and> pm_k p = ''project''"

definition qualify_param :: "ctx \<Rightarrow> param \<Rightarrow> string" where
  "qualify_param c p =
    (case pm_v p of
       None \<Rightarrow> pm_raw p
     | Some v \<Rightarrow> if pm_k p = ''project'' then ''project='' @ q_of v c
         else if pm_k p = ''target'' then ''target='' @ member v c else pm_raw p)"

definition qualifyUrl :: "string \<Rightarrow> ctx \<Rightarrow> string" where
  "qualifyUrl url c =
    (let (segs0, params) = parse_url url; segs = qualify_segments c segs0 in
     with_query (join_with ''/'' segs)
       (map (qualify_param c) params @
        (if \<not> list_ex is_project_param params \<and> projectScoped segs
         then [''project='' @ qualify ''default'' (cx_cluster c)] else [])))"

definition isOperation :: "(string \<times> json) list \<Rightarrow> bool" where
  "isOperation es = ((case m_get es ''id'' of Some (JStr _) \<Rightarrow> True | _ \<Rightarrow> False) \<and> m_get es ''resources'' \<noteq> None)"

text \<open>The fields that are qualified by their key.\<close>

definition member_item :: "ctx \<Rightarrow> string \<Rightarrow> json \<Rightarrow> json" where
  "member_item c k m = (case m of JStr s \<Rightarrow> JStr (if k = ''groups'' then q_of s c else member s c) | _ \<Rightarrow> m)"

definition field :: "ctx \<Rightarrow> string set \<Rightarrow> bool \<Rightarrow> string \<Rightarrow> json \<Rightarrow> json option" where
  "field c identity isOp k x =
    (case x of
       JStr s \<Rightarrow>
         if k = ''project'' \<or> k = ''pool'' \<or> k \<in> identity then Some (JStr (q_of s c))
         else if k = ''location'' then Some (JStr (member s c))
         else if k = ''id'' \<and> isOp then Some (JStr (q_of s c))
         else if k = ''config'' \<or> k = ''expanded_config'' then Some x else None
     | JArr xs \<Rightarrow>
         if k = ''locations'' \<or> (''server_name'' \<in> identity \<and> k = ''groups'') \<or> (''members'' \<in> identity \<and> k = ''members'')
         then Some (JArr (map (member_item c k) xs))
         else if k = ''config'' \<or> k = ''expanded_config'' then Some x else None
     | _ \<Rightarrow> if k = ''config'' \<or> k = ''expanded_config'' then Some x else None)"

fun walk :: "ctx \<Rightarrow> string set \<Rightarrow> json \<Rightarrow> json" where
  "walk c identity (JStr s) = JStr (if startsWith s ''/1.0/'' then qualifyUrl s c else s)"
| "walk c identity (JArr xs) = JArr (map (walk c identity) xs)"
| "walk c identity (JObj es) = JObj (map (\<lambda>(k, x).
     (k, case field c identity (isOperation es) k x of Some y \<Rightarrow> y | None \<Rightarrow> walk c {} x)) es)"
| "walk c identity v = v"

definition identityOf :: "string \<Rightarrow> string set" where
  "identityOf path =
    (let segs = split_on CHR ''/'' (before_first CHR ''?'' path); kind = seg_at segs 2 in
     if kind = ''projects'' \<or> kind = ''network-integrations'' \<or> (kind = ''storage-pools'' \<and> length segs \<le> 4) then {''name''}
     else if kind = ''certificates'' then {''fingerprint''}
     else if kind = ''warnings'' then {''uuid''}
     else if kind = ''cluster'' \<and> seg_at segs 3 = ''members'' then {''server_name''}
     else if kind = ''cluster'' \<and> seg_at segs 3 = ''groups'' then {''name'', ''members''}
     else {})"

definition is_array :: "json \<Rightarrow> bool" where
  "is_array v = (case v of JArr _ \<Rightarrow> True | _ \<Rightarrow> False)"

fun walkMetadata :: "ctx \<Rightarrow> string set \<Rightarrow> json \<Rightarrow> json" where
  "walkMetadata c identity (JArr xs) = JArr (map (walk c identity) xs)"
| "walkMetadata c identity (JObj es) =
    (if m_get es ''id'' = None \<and> list_all (\<lambda>(k, x). is_array x) es \<and> es \<noteq> []
     then JObj (map (\<lambda>(k, x). (k, walkMetadata c identity x)) es)
     else walk c identity (JObj es))"
| "walkMetadata c identity v = walk c identity v"

text \<open>
  The envelope: its own fields like any object's, its metadata by what was asked for. \<open>out.metadata\<close>
  is set last, so the entry moves to the end.
\<close>

definition qualifyResponse :: "string \<Rightarrow> json \<Rightarrow> string \<Rightarrow> bool \<Rightarrow> json" where
  "qualifyResponse path body cluster standalone =
    (let c = \<lparr>cx_cluster = cluster, cx_standalone = standalone\<rparr> in
     case body of
       JObj es \<Rightarrow>
         (case walk c {} (JObj (m_del es ''metadata'')) of
            JObj out \<Rightarrow>
              (case m_get es ''metadata'' of
                 Some metadata \<Rightarrow> JObj (out @ [(''metadata'', walkMetadata c (identityOf path) metadata)])
               | None \<Rightarrow> JObj out)
          | v \<Rightarrow> v)
     | _ \<Rightarrow> walk c {} body)"

section \<open>Names come apart as they were put together\<close>

lemma split_iff:
  assumes "\<And>c. c \<in> set clusters \<Longrightarrow> CHR ''@'' \<notin> set c"
  shows "split s clusters = (n, Some c) \<longleftrightarrow> s = qualify n c \<and> c \<in> set clusters \<and> n \<noteq> []"
proof
  assume "split s clusters = (n, Some c)"
  then show "s = qualify n c \<and> c \<in> set clusters \<and> n \<noteq> []"
    using before_after_last[of "CHR ''@''" s] by (auto simp: split_def qualify_def split: if_splits)
next
  assume a: "s = qualify n c \<and> c \<in> set clusters \<and> n \<noteq> []"
  then have "CHR ''@'' \<notin> set c" using assms by blast
  then show "split s clusters = (n, Some c)"
    using a by (simp add: split_def qualify_def after_last_append before_last_append)
qed

lemma split_known: "snd (split s clusters) = Some c \<Longrightarrow> c \<in> set clusters"
  by (auto simp: split_def split: if_splits)

lemma strip_qualify [simp]: "stripName (qualify n c) c = n"
proof -
  have "endsWith (n @ ''@'' @ c) (''@'' @ c)" by (rule endsWith_append)
  then show ?thesis by (simp add: stripName_def qualify_def)
qed

lemma strip_unqualified: "CHR ''@'' \<notin> set s \<Longrightarrow> stripName s c = s"
  by (auto simp: stripName_def endsWith_iff)

lemma strip_q: "CHR ''@'' \<notin> set s \<Longrightarrow> stripName (q_of s c) (cx_cluster c) = s"
  by (simp add: q_of_def strip_unqualified)

lemma strip_member: "CHR ''@'' \<notin> set s \<Longrightarrow> \<not> cx_standalone c \<Longrightarrow> stripName (member s c) (cx_cluster c) = s"
  by (simp add: member_def strip_q)

section \<open>URLs of plain parts\<close>

text \<open>
  A URL made of plain parts: unreserved characters only, so that each part stands for itself. What
  the facade makes of it has the at-sign too.
\<close>

definition url_of :: "string list \<Rightarrow> (string \<times> string) list \<Rightarrow> string" where
  "url_of segs ps = with_query (join_with ''/'' segs) (map (\<lambda>(k, v). k @ ''='' @ v) ps)"

definition plain :: "string \<Rightarrow> bool" where
  "plain s = list_all unreserved s"

definition urlsafe :: "string \<Rightarrow> bool" where
  "urlsafe s = list_all (\<lambda>c. unreserved c \<or> c = CHR ''@'') s"

lemma unreserved_not: "unreserved c \<Longrightarrow> c \<noteq> CHR ''@'' \<and> c \<noteq> CHR ''%'' \<and> c \<noteq> CHR ''+'' \<and> c \<noteq> CHR ''/'' \<and> c \<noteq> CHR ''?''
    \<and> c \<noteq> CHR ''&'' \<and> c \<noteq> CHR ''=''"
  by (auto simp: unreserved_def is_alnum_def is_digit_def is_upper_def is_lower_def cc_def)

lemma urlsafe_not: "urlsafe s \<Longrightarrow> c \<in> set s \<Longrightarrow> c \<noteq> CHR ''%'' \<and> c \<noteq> CHR ''+'' \<and> c \<noteq> CHR ''/'' \<and> c \<noteq> CHR ''?''
    \<and> c \<noteq> CHR ''&'' \<and> c \<noteq> CHR ''=''"
  using unreserved_not by (fastforce simp: urlsafe_def list_all_iff)

lemma plain_urlsafe: "plain s \<Longrightarrow> urlsafe s"
  by (simp add: plain_def urlsafe_def list_all_iff)

lemma safe_Nil [simp]: "plain []" "urlsafe []"
  by (simp_all add: plain_def urlsafe_def)

lemma plain_no_at: "plain s \<Longrightarrow> CHR ''@'' \<notin> set s"
  using unreserved_not by (fastforce simp: plain_def list_all_iff)

lemma urlsafe_qualify: "plain s \<Longrightarrow> plain c \<Longrightarrow> urlsafe (qualify s c)"
  by (auto simp: plain_def urlsafe_def qualify_def list_all_iff)

lemma decode_urlsafe: "urlsafe s \<Longrightarrow> decode s = s"
proof -
  assume s: "urlsafe s"
  then have "map (\<lambda>c. if c = CHR ''+'' then CHR '' '' else c) s = s"
    using urlsafe_not by (intro map_idI) fastforce
  moreover have "CHR ''%'' \<notin> set s" using urlsafe_not[OF s] by blast
  ultimately show ?thesis by (simp add: decode_def decode_plain)
qed

lemma before_after_first:
  assumes "c \<notin> set s"
  shows "before_first c (s @ c # t) = s" "after_first c (s @ c # t) = t" "before_first c s = s" "after_first c s = []"
  using assms by (induction s) (auto simp: before_first_def after_first_def)

lemma parse_param_of:
  assumes "urlsafe k" "urlsafe v"
  shows "parse_param (k @ ''='' @ v) = \<lparr>pm_k = k, pm_v = Some v, pm_raw = k @ ''='' @ v\<rparr>"
proof -
  have "CHR ''='' \<notin> set k" using urlsafe_not[OF assms(1)] by blast
  then show ?thesis using assms by (simp add: parse_param_def before_after_first decode_urlsafe)
qed

lemma join_no_char: "c \<notin> set sep \<Longrightarrow> (\<And>x. x \<in> set xs \<Longrightarrow> c \<notin> set x) \<Longrightarrow> c \<notin> set (join_with sep xs)"
  by (induction sep xs rule: join_with.induct) auto

lemma parse_url_of:
  assumes segs: "segs \<noteq> []" "\<And>s. s \<in> set segs \<Longrightarrow> urlsafe s" and ps: "\<And>k v. (k, v) \<in> set ps \<Longrightarrow> urlsafe k \<and> urlsafe v"
  shows "parse_url (url_of segs ps) = (segs, map (\<lambda>(k, v). \<lparr>pm_k = k, pm_v = Some v, pm_raw = k @ ''='' @ v\<rparr>) ps)"
proof -
  let ?path = "join_with ''/'' segs" and ?raws = "map (\<lambda>(k, v). k @ ''='' @ v) ps"
  have path: "CHR ''?'' \<notin> set ?path"
    using urlsafe_not[OF segs(2)] by (intro join_no_char) auto
  have segs': "split_on CHR ''/'' ?path = segs"
    using segs(1) urlsafe_not[OF segs(2)] by (intro split_join) auto
  have amp: "CHR ''&'' \<notin> set r" if r: "r \<in> set ?raws" for r
  proof -
    obtain k v where "(k, v) \<in> set ps" "r = k @ ''='' @ v" using r by auto
    then show ?thesis using ps[of k v] urlsafe_not[of k "CHR ''&''"] urlsafe_not[of v "CHR ''&''"] by auto
  qed
  show ?thesis
  proof (cases "ps = []")
    case True
    then show ?thesis using path segs' by (simp add: url_of_def with_query_def parse_url_def before_after_first)
  next
    case False
    then obtain k v ps' where kv: "ps = (k, v) # ps'" by (cases ps) auto
    have join: "join_with ''&'' ?raws \<noteq> []" using kv by (cases ps') auto
    have params: "map parse_param ?raws = map (\<lambda>(k, v). \<lparr>pm_k = k, pm_v = Some v, pm_raw = k @ ''='' @ v\<rparr>) ps"
      using ps parse_param_of by auto
    have "split_on CHR ''&'' (join_with ''&'' ?raws) = ?raws"
      using False amp by (intro split_join) auto
    then show ?thesis
      using False path segs' join params
      by (simp add: url_of_def with_query_def parse_url_def Let_def before_after_first del: map_map)
  qed
qed

section \<open>There and back\<close>

lemma name_at_cases: "name_at segs = Some i \<Longrightarrow> i = 3 \<or> i = 4"
  by (auto simp: name_at_def Let_def CLUSTER_NAME_AT_def GLOBAL_NAME_AT_def split: if_splits)

lemma scoped_qualified: "projectScoped (qualify_segments c segs) = projectScoped segs"
proof -
  have "seg_at (qualify_segments c segs) 2 = seg_at segs 2" "length (qualify_segments c segs) = length segs"
    using name_at_cases[of segs] by (auto simp: qualify_segments_def seg_at_def split: option.splits)
  then show ?thesis by (simp add: projectScoped_def)
qed

lemma strip_segment_plain: "plain s \<Longrightarrow> strip_segment c s = s"
  by (simp add: strip_segment_def Let_def decode_urlsafe plain_urlsafe strip_unqualified plain_no_at)

lemma strip_segment_qualified: "plain s \<Longrightarrow> plain c \<Longrightarrow> strip_segment c (qualify s c) = s"
  by (simp add: strip_segment_def Let_def decode_urlsafe urlsafe_qualify encode_plain plain_def[symmetric] encode_plain[OF iffD1[OF plain_def]])

lemma strip_segments:
  assumes "\<And>s. s \<in> set segs \<Longrightarrow> plain s" "plain (cx_cluster c)"
  shows "map (strip_segment (cx_cluster c)) (qualify_segments c segs) = segs"
proof -
  have plain: "map (strip_segment (cx_cluster c)) segs = segs"
    using assms(1) by (intro map_idI) (simp add: strip_segment_plain)
  show ?thesis
  proof (cases "\<exists>i. name_at segs = Some i \<and> seg_at segs i \<noteq> []")
    case True
    then obtain i where i: "name_at segs = Some i" "seg_at segs i \<noteq> []" by blast
    then have "i < length segs" "segs ! i \<noteq> []" by (auto simp: seg_at_def split: if_splits)
    moreover have "plain (segs ! i)" using assms(1) \<open>i < length segs\<close> by simp
    ultimately show ?thesis using i plain assms(2)
      by (simp add: qualify_segments_def map_update decode_urlsafe plain_urlsafe q_of_def strip_segment_qualified)
  next
    case False
    then show ?thesis using plain by (auto simp: qualify_segments_def split: option.splits)
  qed
qed

lemma qualify_segments_safe:
  assumes "\<And>s. s \<in> set segs \<Longrightarrow> plain s" "plain (cx_cluster c)" "s \<in> set (qualify_segments c segs)"
  shows "urlsafe s"
proof -
  have plain: "urlsafe x" if "x \<in> set segs" for x using assms(1) that by (simp add: plain_urlsafe)
  show ?thesis
  proof (cases "s \<in> set segs")
    case False
    then obtain i where i: "i < length segs" "s = q_of (decode (segs ! i)) c"
      using assms(3) by (auto simp: qualify_segments_def seg_at_def split: option.splits if_splits dest!: subsetD[OF set_update_subset_insert])
    then have "plain (segs ! i)" using assms(1) by simp
    then show ?thesis using i assms(2) by (simp add: decode_urlsafe plain_urlsafe q_of_def urlsafe_qualify)
  qed (rule plain)
qed

text \<open>The parameters, as pairs, before and after.\<close>

definition pair_param :: "string \<times> string \<Rightarrow> param" where
  "pair_param kv = \<lparr>pm_k = fst kv, pm_v = Some (snd kv), pm_raw = fst kv @ ''='' @ snd kv\<rparr>"

definition qualify_pair :: "ctx \<Rightarrow> string \<times> string \<Rightarrow> string \<times> string" where
  "qualify_pair c kv = (fst kv, if fst kv = ''project'' then q_of (snd kv) c else if fst kv = ''target'' then member (snd kv) c else snd kv)"

lemma qualify_pair_raw: "qualify_param c (pair_param kv) = fst (qualify_pair c kv) @ ''='' @ snd (qualify_pair c kv)"
  by (simp add: qualify_param_def pair_param_def qualify_pair_def)

lemma strip_pair:
  assumes "plain (fst kv)" "plain (snd kv)" "plain (cx_cluster c)" "cx_standalone c \<Longrightarrow> fst kv \<noteq> ''target''"
  shows "strip_param (cx_cluster c) (cx_standalone c) (pair_param (qualify_pair c kv)) = [fst kv @ ''='' @ snd kv]"
proof -
  have at: "CHR ''@'' \<notin> set (snd kv)" using assms(2) by (rule plain_no_at)
  have "stripName (snd (qualify_pair c kv)) (cx_cluster c) = snd kv"
    using at assms(4) by (cases "cx_standalone c") (auto simp: qualify_pair_def strip_q strip_member strip_unqualified)
  moreover have "encodeURIComponent (fst kv) = fst kv" "encodeURIComponent (snd kv) = snd kv"
    using assms(1,2) by (simp_all add: plain_def encode_plain)
  moreover have "fst (qualify_pair c kv) = fst kv" by (simp add: qualify_pair_def)
  ultimately show ?thesis using assms(4) by (auto simp: strip_param_def pair_param_def Let_def)
qed

lemma strip_pairs:
  assumes "\<And>kv. kv \<in> set xs \<Longrightarrow> plain (fst kv) \<and> plain (snd kv)" "plain (cx_cluster c)"
    "\<And>kv. kv \<in> set xs \<Longrightarrow> cx_standalone c \<Longrightarrow> fst kv \<noteq> ''target''"
  shows "concat (map (strip_param (cx_cluster c) (cx_standalone c)) (map (pair_param \<circ> qualify_pair c) xs)) = map (\<lambda>(k, v). k @ ''='' @ v) xs"
  using assms(1,3)
proof (induction xs)
  case (Cons kv xs)
  have "strip_param (cx_cluster c) (cx_standalone c) (pair_param (qualify_pair c kv)) = [fst kv @ ''='' @ snd kv]"
    using Cons.prems assms(2) by (intro strip_pair) auto
  with Cons show ?case by (simp add: case_prod_beta)
qed simp

lemma pair_safe: "plain (fst kv) \<Longrightarrow> plain (snd kv) \<Longrightarrow> plain (cx_cluster c)
    \<Longrightarrow> urlsafe (fst (qualify_pair c kv)) \<and> urlsafe (snd (qualify_pair c kv))"
  by (auto simp: qualify_pair_def q_of_def member_def plain_urlsafe urlsafe_qualify)

text \<open>A URL of plain parts in a cluster of plain name, and what the facade adds to it.\<close>

definition plain_url :: "string list \<Rightarrow> (string \<times> string) list \<Rightarrow> bool" where
  "plain_url segs ps \<longleftrightarrow> segs \<noteq> [] \<and> list_all plain segs \<and> list_all (\<lambda>(k, v). plain k \<and> plain v) ps"

definition implied :: "string list \<Rightarrow> (string \<times> string) list \<Rightarrow> (string \<times> string) list" where
  "implied segs ps = (if \<not> list_ex (\<lambda>(k, v). k = ''project'') ps \<and> projectScoped segs then [(''project'', ''default'')] else [])"

lemma plain_strings: "plain ''project''" "plain ''default''" "plain ''target''"
  by (simp_all add: plain_def unreserved_def is_alnum_def is_digit_def is_upper_def is_lower_def cc_def)

lemma qualifyUrl_of:
  assumes "plain_url segs ps"
  shows "qualifyUrl (url_of segs ps) c = url_of (qualify_segments c segs) (map (qualify_pair c) (ps @ implied segs ps))"
proof -
  have parse: "parse_url (url_of segs ps) = (segs, map pair_param ps)"
    using assms by (subst parse_url_of) (auto simp: plain_url_def list_all_iff plain_urlsafe pair_param_def)
  have has: "list_ex is_project_param (map pair_param ps) = list_ex (\<lambda>(k, v). k = ''project'') ps"
    by (induction ps) (auto simp: is_project_param_def pair_param_def)
  have default: "qualify_pair c (''project'', ''default'') = (''project'', qualify ''default'' (cx_cluster c))"
    by (simp add: qualify_pair_def q_of_def)
  show ?thesis
    unfolding qualifyUrl_def parse
    by (simp add: has scoped_qualified url_of_def implied_def default comp_def qualify_pair_raw case_prod_beta)
qed

lemma implied_plain:
  "plain_url segs ps \<Longrightarrow> kv \<in> set (ps @ implied segs ps) \<Longrightarrow> plain (fst kv) \<and> plain (snd kv)"
  by (auto simp: plain_url_def list_all_iff implied_def plain_strings split: if_splits)

lemma parse_qualified:
  assumes "plain_url segs ps" "plain (cx_cluster c)"
  shows "parse_url (qualifyUrl (url_of segs ps) c) =
     (qualify_segments c segs, map (pair_param \<circ> qualify_pair c) (ps @ implied segs ps))"
proof -
  have segs: "\<And>s. s \<in> set segs \<Longrightarrow> plain s" "segs \<noteq> []" using assms(1) by (auto simp: plain_url_def list_all_iff)
  have ne: "qualify_segments c segs \<noteq> []" using segs(2) by (auto simp: qualify_segments_def split: option.splits)
  show ?thesis
    unfolding qualifyUrl_of[OF assms(1)]
  proof (subst parse_url_of[OF ne])
    fix k v assume "(k, v) \<in> set (map (qualify_pair c) (ps @ implied segs ps))"
    then obtain kv where "kv \<in> set (ps @ implied segs ps)" "(k, v) = qualify_pair c kv" by auto
    then show "urlsafe k \<and> urlsafe v"
      using pair_safe[of kv c] implied_plain[OF assms(1)] assms(2) by (metis fst_conv snd_conv)
  qed (use qualify_segments_safe[OF segs(1) assms(2)] in \<open>auto simp: pair_param_def comp_def case_prod_beta\<close>)
qed

lemma url_back:
  assumes "plain_url segs ps" "plain (cx_cluster c)" "cx_standalone c \<Longrightarrow> ''target'' \<notin> fst ` set ps"
  shows "stripRequest (qualifyUrl (url_of segs ps) c) (cx_cluster c) (cx_standalone c) = url_of segs (ps @ implied segs ps)"
proof -
  let ?ps = "ps @ implied segs ps"
  have segs: "\<And>s. s \<in> set segs \<Longrightarrow> plain s" using assms(1) by (auto simp: plain_url_def list_all_iff)
  have target: "fst kv \<noteq> ''target''" if "kv \<in> set ?ps" "cx_standalone c" for kv
  proof (cases "kv \<in> set ps")
    case True
    from imageI[OF this, of fst] show ?thesis using that assms(3) by force
  next
    case False
    then show ?thesis using that by (auto simp: implied_def split: if_splits)
  qed
  have "concat (map (strip_param (cx_cluster c) (cx_standalone c)) (map (pair_param \<circ> qualify_pair c) ?ps)) = map (\<lambda>(k, v). k @ ''='' @ v) ?ps"
    using implied_plain[OF assms(1)] target assms(2) by (intro strip_pairs) blast+
  then show ?thesis
    unfolding stripRequest_def parse_qualified[OF assms(1,2)]
    by (simp add: strip_segments[OF segs assms(2)] url_of_def del: map_append concat_append)
qed

section \<open>Documents there and back\<close>

text \<open>
  The documents of one cluster that come back as they were: URLs of plain parts that carry their
  project where their kind has one, and otherwise text without an at-sign.
\<close>

definition own_string :: "string \<Rightarrow> bool" where
  "own_string s \<longleftrightarrow>
     (if startsWith s ''/1.0/'' then \<exists>segs ps. s = url_of segs ps \<and> plain_url segs ps \<and> implied segs ps = []
      else CHR ''@'' \<notin> set s)"

text \<open>The keys whose strings are names, and what they hold: no URLs.\<close>

definition NAME_KEYS :: "string set" where
  "NAME_KEYS = {''project'', ''pool'', ''location'', ''locations'', ''id'', ''name'', ''fingerprint'', ''uuid'', ''server_name'',
     ''groups'', ''members''}"

definition not_url :: "json \<Rightarrow> bool" where
  "not_url x = (case x of JStr s \<Rightarrow> \<not> startsWith s ''/1.0/'' | _ \<Rightarrow> True)"

definition names_only :: "json \<Rightarrow> bool" where
  "names_only x = (case x of JArr xs \<Rightarrow> list_all not_url xs | _ \<Rightarrow> not_url x)"

fun own_json :: "json \<Rightarrow> bool" where
  "own_json (JStr s) = own_string s"
| "own_json (JArr xs) = list_all own_json xs"
| "own_json (JObj es) = list_all (\<lambda>(k, x). own_json x \<and> (k \<in> NAME_KEYS \<longrightarrow> names_only x)) es"
| "own_json v = True"

lemma url_no_at:
  assumes "plain_url segs ps"
  shows "CHR ''@'' \<notin> set (url_of segs ps)"
proof -
  have segs: "\<And>s. s \<in> set segs \<Longrightarrow> CHR ''@'' \<notin> set s" using assms by (auto simp: plain_url_def list_all_iff plain_no_at)
  have ps: "CHR ''@'' \<notin> set r" if "r \<in> set (map (\<lambda>(k, v). k @ ''='' @ v) ps)" for r
    using that assms plain_no_at by (fastforce simp: plain_url_def list_all_iff)
  have "CHR ''@'' \<notin> set (join_with ''/'' segs)" "CHR ''@'' \<notin> set (join_with ''&'' (map (\<lambda>(k, v). k @ ''='' @ v) ps))"
    using segs ps by (intro join_no_char; simp)+
  then show ?thesis by (auto simp: url_of_def with_query_def)
qed

lemma own_no_at: "own_string s \<Longrightarrow> CHR ''@'' \<notin> set s"
  using url_no_at by (auto simp: own_string_def split: if_splits)

lemma strip_own_url:
  assumes "plain_url segs ps"
  shows "stripRequest (url_of segs ps) cluster False = url_of segs ps"
proof -
  have parse: "parse_url (url_of segs ps) = (segs, map pair_param ps)"
    using assms by (subst parse_url_of) (auto simp: plain_url_def list_all_iff plain_urlsafe pair_param_def)
  have "map (strip_segment cluster) segs = segs"
    using assms by (intro map_idI) (auto simp: plain_url_def list_all_iff strip_segment_plain)
  moreover have "concat (map (strip_param cluster False) (map pair_param ps)) = map (\<lambda>(k, v). k @ ''='' @ v) ps"
    using assms by (induction ps) (auto simp: plain_url_def strip_param_def pair_param_def strip_unqualified plain_no_at)
  ultimately show ?thesis unfolding stripRequest_def parse by (simp add: url_of_def)
qed

lemma strip_own_string: "own_string s \<Longrightarrow> stripBody cluster (JStr s) = JStr s"
  by (auto simp: own_string_def strip_own_url strip_unqualified split: if_splits)

lemma strip_own: "own_json v \<Longrightarrow> stripBody cluster v = v"
proof (induction cluster v rule: stripBody.induct)
  case (1 cluster s)
  then show ?case using strip_own_string by simp
next
  case (3 cluster es)
  then show ?case by (auto simp: list_all_iff intro!: map_idI)
qed (auto simp: list_all_iff intro!: map_idI)

lemma startsWith_at: "CHR ''@'' \<notin> set p \<Longrightarrow> startsWith (s @ CHR ''@'' # c) p \<longleftrightarrow> startsWith s p"
proof (induction s arbitrary: p)
  case Nil
  then show ?case by (cases p) auto
next
  case (Cons x s)
  then show ?case by (cases p) auto
qed

lemma strip_string_q:
  assumes "own_string s" "\<not> startsWith s ''/1.0/''"
  shows "stripBody (cx_cluster c) (JStr (q_of s c)) = JStr s"
proof -
  have "\<not> startsWith (q_of s c) ''/1.0/''"
    using assms(2) startsWith_at[of "''/1.0/''" s "cx_cluster c"] by (simp add: q_of_def qualify_def)
  then show ?thesis using own_no_at[OF assms(1)] by (simp add: strip_q)
qed

lemma strip_string_member:
  assumes "own_string s" "\<not> startsWith s ''/1.0/''" "\<not> cx_standalone c"
  shows "stripBody (cx_cluster c) (JStr (member s c)) = JStr s"
  using strip_string_q[OF assms(1,2)] assms(3) by (simp add: member_def)

lemma strip_item:
  assumes "own_json m" "not_url m" "\<not> cx_standalone c"
  shows "stripBody (cx_cluster c) (member_item c k m) = m"
  using assms strip_string_q[of _ c] strip_string_member[of _ c] strip_own[of m "cx_cluster c"]
  by (cases m) (auto simp: member_item_def not_url_def simp del: stripBody.simps(1))

lemma field_keys:
  "field c identity isOp k x = Some y \<Longrightarrow> y = x \<or> k \<in> identity
    \<or> k \<in> {''project'', ''pool'', ''location'', ''id'', ''locations'', ''groups'', ''members''}"
  unfolding field_def by (cases x) (simp_all split: if_split_asm, (elim disjE conjE; simp)+)

lemma name_keys: "{''project'', ''pool'', ''location'', ''id'', ''locations'', ''groups'', ''members''} \<subseteq> NAME_KEYS"
  by (simp add: NAME_KEYS_def)

lemma strip_field:
  assumes "own_json x" "k \<in> NAME_KEYS \<longrightarrow> names_only x" "identity \<subseteq> NAME_KEYS" "\<not> cx_standalone c"
    and f: "field c identity isOp k x = Some y"
  shows "stripBody (cx_cluster c) y = x"
proof (cases "y = x")
  case True
  then show ?thesis using assms(1) strip_own by simp
next
  case False
  then have k: "k \<in> NAME_KEYS"
    using field_keys[OF f] assms(3) name_keys by blast
  show ?thesis
  proof (cases x)
    case (JStr s)
    then have s: "own_string s" "\<not> startsWith s ''/1.0/''" using assms(1,2) k by (simp_all add: names_only_def not_url_def)
    have "y = JStr (q_of s c) \<or> y = JStr (member s c)"
      using f False JStr by (auto simp: field_def split: if_splits)
    then show ?thesis using strip_string_q[OF s] strip_string_member[OF s assms(4)] JStr by auto
  next
    case (JArr xs)
    have y: "y = JArr (map (member_item c k) xs)"
      using f False JArr by (auto simp: field_def split: if_splits)
    have "stripBody (cx_cluster c) (member_item c k m) = m" if "m \<in> set xs" for m
      using that assms(1,2,4) k JArr by (intro strip_item) (auto simp: names_only_def list_all_iff)
    then show ?thesis using y JArr by (auto intro!: map_idI)
  qed (use f False in \<open>auto simp: field_def split: if_splits\<close>)
qed

lemma qualify_segments_keep:
  assumes "r \<noteq> []"
  shows "\<exists>r'. qualify_segments c (a # b # r) = a # b # r' \<and> r' \<noteq> []"
proof (cases "name_at (a # b # r)")
  case None
  then show ?thesis using assms by (simp add: qualify_segments_def)
next
  case (Some i)
  then obtain j where "i = Suc (Suc j)" using name_at_cases[of "a # b # r"] by (auto simp: numeral_eq_Suc)
  then show ?thesis using assms Some by (simp add: qualify_segments_def)
qed

lemma api_url_stays:
  assumes "plain_url segs ps" "startsWith (url_of segs ps) ''/1.0/''"
  shows "startsWith (qualifyUrl (url_of segs ps) c) ''/1.0/''"
proof -
  obtain t where t: "url_of segs ps = ''/1.0/'' @ t" using assms(2) by (auto simp: startsWith_iff)
  have "parse_url (url_of segs ps) = (segs, map pair_param ps)"
    using assms(1) by (subst parse_url_of) (auto simp: plain_url_def list_all_iff plain_urlsafe pair_param_def)
  then have "segs = split_on CHR ''/'' (before_first CHR ''?'' (''/1.0/'' @ t))"
    unfolding t by (simp add: parse_url_def Let_def)
  then obtain r where r: "segs = [] # ''1.0'' # r" "r \<noteq> []"
    by (simp add: before_first_def)
  then obtain r' where "qualify_segments c segs = [] # ''1.0'' # r'" "r' \<noteq> []"
    using qualify_segments_keep[of r c "[]" "''1.0''"] by blast
  then show ?thesis
    unfolding qualifyUrl_of[OF assms(1)] by (simp add: url_of_def with_query_def join_with_Cons)
qed

lemma walk_back:
  assumes "own_json v" "identity \<subseteq> NAME_KEYS" "\<not> cx_standalone c" "plain (cx_cluster c)"
  shows "stripBody (cx_cluster c) (walk c identity v) = v"
  using assms
proof (induction c identity v rule: walk.induct)
  case (1 c identity s)
  show ?case
  proof (cases "startsWith s ''/1.0/''")
    case True
    then obtain segs ps where u: "s = url_of segs ps" "plain_url segs ps" "implied segs ps = []"
      using 1(1) by (auto simp: own_string_def)
    have there: "stripRequest (qualifyUrl s c) (cx_cluster c) False = s"
      using url_back[of segs ps c] u 1 by simp
    have "startsWith (qualifyUrl s c) ''/1.0/''" using api_url_stays[of segs ps c] u True by simp
    then show ?thesis using True there by simp
  next
    case False
    then show ?thesis using 1(1) strip_own_string[of s] by simp
  qed
next
  case (2 c identity xs)
  then show ?case by (auto simp: list_all_iff intro!: map_idI)
next
  case (3 c identity es)
  have "(k, stripBody (cx_cluster c) (case field c identity (isOperation es) k x of None \<Rightarrow> walk c {} x | Some y \<Rightarrow> y)) = (k, x)"
    if "(k, x) \<in> set es" for k x
  proof (cases "field c identity (isOperation es) k x")
    case None
    then show ?thesis using 3 that by (auto simp: list_all_iff)
  next
    case (Some y)
    have "own_json x" "k \<in> NAME_KEYS \<longrightarrow> names_only x" using 3(2) that by (auto simp: list_all_iff)
    from strip_field[OF this 3(3,4) Some] show ?thesis using Some by simp
  qed
  then show ?case by (auto intro!: map_idI)
qed auto

section \<open>What a request names\<close>

text \<open>A request names a cluster with a qualified path segment, \<open>project\<close> or \<open>target\<close>.\<close>

definition names_cluster :: "string \<Rightarrow> string \<Rightarrow> bool" where
  "names_cluster url c =
    (let (segs, params) = parse_url url in
     (\<exists>s\<in>set segs. \<exists>n. n \<noteq> [] \<and> decode s = qualify n c) \<or>
     (\<exists>p\<in>set params. (pm_k p = ''project'' \<or> pm_k p = ''target'') \<and> (\<exists>n. n \<noteq> [] \<and> pm_v p = Some (qualify n c))))"

lemma cluster_no_at: "list_all CLUSTER_NAME clusters \<Longrightarrow> c \<in> set clusters \<Longrightarrow> CHR ''@'' \<notin> set c \<and> c \<noteq> []"
  using CLUSTER_NAME_chars label_char_plain CLUSTER_NAME_nonempty by (fastforce simp: list_all_iff)

lemma opt_list_split:
  assumes "list_all CLUSTER_NAME clusters"
  shows "c \<in> set (opt_list (snd (split s clusters))) \<longleftrightarrow> c \<in> set clusters \<and> (\<exists>n. n \<noteq> [] \<and> s = qualify n c)"
proof -
  have "c \<in> set (opt_list (snd (split s clusters))) \<longleftrightarrow> (\<exists>n. split s clusters = (n, Some c)) \<and> c \<noteq> []"
    by (cases "split s clusters") (auto simp: opt_list_def split: option.splits)
  also have "\<dots> \<longleftrightarrow> (\<exists>n. s = qualify n c \<and> c \<in> set clusters \<and> n \<noteq> []) \<and> c \<noteq> []"
    using split_iff[of clusters s _ c] cluster_no_at[OF assms] by simp
  finally show ?thesis using cluster_no_at[OF assms] by blast
qed

lemma set_clustersIn:
  assumes "list_all CLUSTER_NAME clusters"
  shows "set (clustersIn url clusters) = {c \<in> set clusters. names_cluster url c}"
proof -
  obtain segs params where parse: "parse_url url = (segs, params)" by fastforce
  let ?named = "\<lambda>p. (pm_k p = ''project'' \<or> pm_k p = ''target'') \<and> truthy (pm_v p)"
  have param: "?named p \<and> c \<in> set (opt_list (snd (split (the (pm_v p)) clusters))) \<longleftrightarrow>
      c \<in> set clusters \<and> (pm_k p = ''project'' \<or> pm_k p = ''target'') \<and> (\<exists>n. n \<noteq> [] \<and> pm_v p = Some (qualify n c))" for p c
    unfolding opt_list_split[OF assms] by (cases "pm_v p") (auto simp: qualify_def)
  have mem: "c \<in> set (clustersIn url clusters) \<longleftrightarrow>
      (\<exists>s\<in>set segs. c \<in> set (opt_list (snd (split (decode s) clusters)))) \<or>
      (\<exists>p\<in>set params. ?named p \<and> c \<in> set (opt_list (snd (split (the (pm_v p)) clusters))))" for c
    unfolding clustersIn_def parse Let_def by (simp add: if_distrib[of set] if_bool_eq_conj) blast
  have "c \<in> set (clustersIn url clusters) \<longleftrightarrow> c \<in> set clusters \<and> names_cluster url c" for c
    unfolding mem param unfolding opt_list_split[OF assms] names_cluster_def parse
    by (simp only: Let_def prod.case bex_simps conj_disj_distribL)
  then show ?thesis by blast
qed

lemma distinct_clustersIn: "distinct (clustersIn url clusters)"
  by (simp add: clustersIn_def case_prod_beta Let_def)

lemma target_cases:
  "targetOf url ref clusters scope = One c \<Longrightarrow> clustersIn url clusters = [c] \<or> clustersIn url clusters = []"
  "targetOf url ref clusters scope = Every \<Longrightarrow> clustersIn url clusters = []"
  "targetOf url ref clusters scope = Conflict cs \<Longrightarrow> clustersIn url clusters = cs \<and> 2 \<le> length cs"
  by (cases "clustersIn url clusters" rule: remdups_adj.cases; auto simp: targetOf_def split: list.splits option.splits if_splits)+

lemma target_known:
  assumes "list_all CLUSTER_NAME clusters" "targetOf url ref clusters scope = One c"
  shows "c \<in> set clusters"
proof -
  have first: "c \<in> set clusters" if "clustersIn p clusters = c # cs" for p c cs
    using set_clustersIn[OF assms(1), of p] that by auto
  show ?thesis
    using assms(2) by (auto simp: targetOf_def dest: first split: list.splits option.splits if_splits)
qed

lemma target_respects:
  assumes "list_all CLUSTER_NAME clusters"
  shows "case targetOf url ref clusters scope of
     One c \<Rightarrow> c \<in> set clusters \<and> (\<forall>c'\<in>set clusters. names_cluster url c' \<longrightarrow> c' = c)
   | Every \<Rightarrow> \<forall>c\<in>set clusters. \<not> names_cluster url c
   | Conflict cs \<Rightarrow> distinct cs \<and> 2 \<le> length cs \<and> set cs = {c \<in> set clusters. names_cluster url c}"
proof (cases "targetOf url ref clusters scope")
  case (One c)
  then have "set (clustersIn url clusters) \<subseteq> {c}" using target_cases(1) by fastforce
  then show ?thesis using One target_known[OF assms One] set_clustersIn[OF assms, of url] by auto
next
  case Every
  then have "set (clustersIn url clusters) = {}" using target_cases(2) by fastforce
  then show ?thesis using Every set_clustersIn[OF assms, of url] by auto
next
  case (Conflict cs)
  then show ?thesis using target_cases(3)[OF Conflict] set_clustersIn[OF assms, of url] distinct_clustersIn[of url clusters] by auto
qed

lemma identity_names: "identityOf path \<subseteq> NAME_KEYS"
  by (simp add: identityOf_def NAME_KEYS_def Let_def)

section \<open>Properties\<close>

text \<open>
  Qualified names are unambiguous: a name splits into \<open>n\<close> and the cluster \<open>c\<close> exactly when it
  is \<open>n\<close>, an at-sign and \<open>c\<close>, with \<open>c\<close> a known cluster and \<open>n\<close> not empty, whatever at-signs \<open>n\<close> has.
\<close>

theorem split_exact:
  assumes "list_all CLUSTER_NAME clusters"
  shows "split s clusters = (n, Some c) \<longleftrightarrow> s = qualify n c \<and> c \<in> set clusters \<and> n \<noteq> []"
  using split_iff cluster_no_at[OF assms] by blast

text \<open>
  A URL in a cluster's answer leads back to what it named: stripped of its qualifiers for that
  cluster, the qualified URL is the original, with \<open>project=default\<close> written out where the original
  left it to Incus; for every URL of unreserved characters, on a standalone server as long as the URL
  has no \<open>target\<close>.
\<close>

theorem url_round_trip:
  assumes "plain_url segs ps" "plain (cx_cluster c)" "cx_standalone c \<longrightarrow> ''target'' \<notin> fst ` set ps"
  shows "stripRequest (qualifyUrl (url_of segs ps) c) (cx_cluster c) (cx_standalone c) =
    url_of segs (ps @ (if \<not> list_ex (\<lambda>(k, v). k = ''project'') ps \<and> projectScoped segs then [(''project'', ''default'')] else []))"
  using url_back[OF assms(1,2)] assms(3) by (simp add: implied_def)


text \<open>
  A request never goes to a cluster other than the one it names: sent to one cluster, it names
  no other; sent to all, it names none; and if it names several, they are exactly the clusters the
  refusal lists.
\<close>

theorem target_named:
  assumes "list_all CLUSTER_NAME clusters"
  shows "case targetOf url ref clusters scope of
     One c \<Rightarrow> c \<in> set clusters \<and> (\<forall>c'\<in>set clusters. names_cluster url c' \<longrightarrow> c' = c)
   | Every \<Rightarrow> \<forall>c\<in>set clusters. \<not> names_cluster url c
   | Conflict cs \<Rightarrow> distinct cs \<and> 2 \<le> length cs \<and> set cs = {c \<in> set clusters. names_cluster url c}"
  using assms by (rule target_respects)

text \<open>
  Free text is not exempt from stripping: a description that ends in an at-sign and the cluster's
  name loses that ending on its way to the cluster, though an answer's text gains none.
\<close>

theorem text_loses_ending:
  "stripBody ''c1'' (JObj [(''description'', JStr ''ask joe@c1'')]) = JObj [(''description'', JStr ''ask joe'')] \<and>
   walk \<lparr>cx_cluster = ''c1'', cx_standalone = False\<rparr> {} (JObj [(''description'', JStr ''ask joe'')]) = JObj [(''description'', JStr ''ask joe'')]"
  by (simp add: stripName_def endsWith_def field_def)

text \<open>A plus sign in a path, which stands for itself there, is read as a space.\<close>

lemma plus_in_path: "stripRequest ''/1.0/projects/a+b@c1'' ''c1'' False = ''/1.0/projects/a%20b''"
  by code_simp

section \<open>Concrete instances\<close>

lemma c1_name: "list_all CLUSTER_NAME [''c1'']" "plain ''c1''"
  by (simp_all add: CLUSTER_NAME_def plain_def unreserved_def is_alnum_def)

theorem split_exact_witness: "split ''a@b@c1'' [''c1''] = (''a@b'', Some ''c1'')"
  using split_exact[OF c1_name(1), of "''a@b@c1''" "''a@b''" "''c1''"] by (simp add: qualify_def)

lemma url_parts: "plain_url [[], ''1.0'', ''projects'', ''p''] [(''recursion'', ''1'')]"
  by (simp add: plain_url_def plain_def unreserved_def is_alnum_def is_digit_def is_lower_def cc_def)

theorem url_round_trip_witness:
  "stripRequest (qualifyUrl (url_of [[], ''1.0'', ''projects'', ''p''] [(''recursion'', ''1'')]) \<lparr>cx_cluster = ''c1'', cx_standalone = False\<rparr>) ''c1'' False =
   url_of [[], ''1.0'', ''projects'', ''p''] [(''recursion'', ''1'')]"
  using url_round_trip[OF url_parts, of "\<lparr>cx_cluster = ''c1'', cx_standalone = False\<rparr>"] c1_name(2)
  by (simp add: projectScoped_def seg_at_def GLOBAL_NAME_AT_def)


theorem target_named_witness:
  "targetOf ''/1.0/projects/p@c1'' None [''c1''] None = One ''c1'' \<and> names_cluster ''/1.0/projects/p@c1'' ''c1''"
proof (cases "targetOf ''/1.0/projects/p@c1'' None [''c1''] None")
  case (One c)
  then have c: "c = ''c1''" using target_named[OF c1_name(1), of "''/1.0/projects/p@c1''" None None] by simp
  have "decode ''p@c1'' = qualify ''p'' ''c1''" by code_simp
  then have "names_cluster ''/1.0/projects/p@c1'' ''c1''"
    by (auto simp: names_cluster_def parse_url_def before_first_def after_first_def intro!: exI[of _ "''p''"])
  with One c show ?thesis by simp
next
  case Every
  have "targetOf ''/1.0/projects/p@c1'' None [''c1''] None = One ''c1''" by code_simp
  with Every show ?thesis by simp
next
  case (Conflict cs)
  have "targetOf ''/1.0/projects/p@c1'' None [''c1''] None = One ''c1''" by code_simp
  with Conflict show ?thesis by simp
qed

end
