(* ===== verification/Merge.thy ===== *)
theory Merge
  imports Federation
begin

text \<open>
  \<^verbatim>\<open>federation/merge.ts\<close>: one answer out of the clusters' answers to a fanned-out read, and the
  cluster views of a standalone server. An answer's metadata that is missing is \<open>None\<close>; where the code
  reads a property of it, a missing or null one is the \<open>TypeError\<close> it throws. A project state's
  \<open>limit\<close> and \<open>usage\<close> are numbers, as their type says, and what is spread into an object is an object.
\<close>

section \<open>Answers\<close>

record answer =
  an_cluster :: string
  an_status :: int
  an_json :: json

record merged =
  me_status :: int
  me_body :: json

definition jget :: "json \<Rightarrow> string \<Rightarrow> json option" where
  "jget v k = (case v of JObj es \<Rightarrow> m_get es k | _ \<Rightarrow> None)"

definition isObj :: "json \<Rightarrow> bool" where
  "isObj v = (case v of JObj _ \<Rightarrow> True | _ \<Rightarrow> False)"

definition spread_of :: "json \<Rightarrow> (string \<times> json) list" where
  "spread_of v = (case v of JObj es \<Rightarrow> es | _ \<Rightarrow> [])"

definition syncOf :: "json \<Rightarrow> json" where
  "syncOf metadata = JObj [(''type'', JStr ''sync''), (''status'', JStr ''Success''), (''status_code'', JNum 200),
     (''operation'', JStr []), (''error_code'', JNum 0), (''error'', JStr []), (''metadata'', metadata)]"

definition sync :: "json \<Rightarrow> merged" where
  "sync metadata = \<lparr>me_status = 200, me_body = syncOf metadata\<rparr>"

definition merge_error :: "int \<Rightarrow> string \<Rightarrow> merged" where
  "merge_error status msg = \<lparr>me_status = status,
     me_body = JObj [(''type'', JStr ''error''), (''error'', JStr msg), (''error_code'', JNum (of_int status))]\<rparr>"

definition untrustedServer :: merged where
  "untrustedServer = sync (JObj [(''api_extensions'', JArr []), (''api_status'', JStr ''stable''), (''api_version'', JStr ''1.0''),
     (''auth'', JStr ''untrusted''), (''public'', JBool False), (''auth_methods'', JArr [JStr ''oidc''])])"

section \<open>Sums and intersections\<close>

definition num_field :: "json \<Rightarrow> string \<Rightarrow> rat" where
  "num_field v k = (case jget v k of Some (JNum r) \<Rightarrow> r | _ \<Rightarrow> 0)"

definition add_usage :: "json \<Rightarrow> json \<Rightarrow> json" where
  "add_usage cur v =
     JObj (m_set (m_set (spread_of cur) ''usage'' (JNum (num_field cur ''usage'' + num_field v ''usage''))) ''limit''
       (JNum (if num_field cur ''limit'' < 0 \<or> num_field v ''limit'' < 0 then -1
              else num_field cur ''limit'' + num_field v ''limit'')))"

definition sum_entry :: "string \<times> json \<Rightarrow> (string, json) jsmap \<Rightarrow> (string, json) jsmap" where
  "sum_entry e resources =
    (case m_get resources (fst e) of
       None \<Rightarrow> m_set resources (fst e) (JObj (spread_of (snd e)))
     | Some cur \<Rightarrow> m_set resources (fst e) (add_usage cur (snd e)))"

definition resources_of :: "json \<Rightarrow> (string \<times> json) list" where
  "resources_of s = (case jget s ''resources'' of Some v \<Rightarrow> spread_of v | None \<Rightarrow> [])"

definition sumState :: "json list \<Rightarrow> json" where
  "sumState states =
     JObj (m_set (case states of [] \<Rightarrow> [] | s # _ \<Rightarrow> spread_of s) ''resources''
       (JObj (fold (\<lambda>s. fold sum_entry (resources_of s)) states [])))"

definition extensions_of :: "json \<Rightarrow> json list result" where
  "extensions_of s =
    (case jget s ''api_extensions'' of
       None \<Rightarrow> Inr []
     | Some JNull \<Rightarrow> Inr []
     | Some (JArr xs) \<Rightarrow> Inr (uniq xs)
     | Some (JStr t) \<Rightarrow> Inr (uniq (map (\<lambda>c. JStr [c]) t))
     | Some _ \<Rightarrow> Inl (OtherError ''TypeError''))"

fun results :: "'a result list \<Rightarrow> 'a list result" where
  "results [] = Inr []"
| "results (r # rs) = then_do r (\<lambda>x. then_do (results rs) (\<lambda>xs. Inr (x # xs)))"

definition CONSOLE_ENV :: "(string \<times> json) list \<Rightarrow> json" where
  "CONSOLE_ENV env = JObj (m_set (m_set env ''server_clustered'' (JBool True)) ''server_name'' (JStr ''incuscloud''))"

definition federatedServer :: "json list \<Rightarrow> json result" where
  "federatedServer servers =
     then_do (results (map extensions_of servers)) (\<lambda>ext.
       let first = hd servers;
           api_extensions = filter (\<lambda>e. list_all (\<lambda>x. e \<in> set x) ext) (hd ext);
           env = (case jget first ''environment'' of Some (JObj e) \<Rightarrow> e | _ \<Rightarrow> []);
           es1 = m_set (spread_of first) ''api_extensions'' (JArr api_extensions);
           es2 = (if list_ex (\<lambda>s. jget s ''auth'' = Some (JStr ''trusted'')) servers
                  then m_set es1 ''auth'' (JStr ''trusted'') else es1)
       in Inr (JObj (m_set (m_set es2 ''config'' (JObj [])) ''environment'' (CONSOLE_ENV env))))"

definition mergedProject :: "string \<Rightarrow> json list \<Rightarrow> json" where
  "mergedProject name same =
     JObj (m_set (m_set (m_set (spread_of (hd same)) ''name'' (JStr name)) ''description''
         (JStr (name @ '' on '' @ show_nat (length same) @ '' clusters''))) ''used_by''
       (JArr (concat (map (\<lambda>p. case jget p ''used_by'' of Some (JArr xs) \<Rightarrow> xs | None \<Rightarrow> [] | Some JNull \<Rightarrow> [] | Some v \<Rightarrow> [v]) same))))"

section \<open>The merge\<close>

definition answered :: "answer option list \<Rightarrow> answer list" where
  "answered answers = filter (\<lambda>a. an_status a = 200 \<and> jget (an_json a) ''type'' = Some (JStr ''sync'')) (List.map_filter id answers)"

definition failed_answers :: "answer option list \<Rightarrow> answer list" where
  "failed_answers answers = filter (\<lambda>a. an_json a \<noteq> JNull \<and> an_status a \<ge> 400) (List.map_filter id answers)"

text \<open>\<open>flat()\<close>: arrays are spliced in, anything else stays an element.\<close>

definition flat :: "json option list \<Rightarrow> json list" where
  "flat metas = concat (map (\<lambda>m. case m of Some (JArr xs) \<Rightarrow> xs | Some v \<Rightarrow> [v] | None \<Rightarrow> [JNull]) metas)"

definition array_of :: "json option \<Rightarrow> bool" where
  "array_of m = (case m of Some (JArr _) \<Rightarrow> True | _ \<Rightarrow> False)"

definition operation_list :: "json option \<Rightarrow> bool" where
  "operation_list m = (case m of Some (JObj es) \<Rightarrow> list_all (\<lambda>(k, v). is_array v) es | _ \<Rightarrow> False)"

definition array_items :: "json \<Rightarrow> json list" where
  "array_items v = (case v of JArr xs \<Rightarrow> xs | _ \<Rightarrow> [])"

definition add_operations :: "json \<Rightarrow> (string, json list) jsmap \<Rightarrow> (string, json list) jsmap" where
  "add_operations m out = fold (\<lambda>(k, l) o'. m_set o' k (m_list o' k @ array_items l)) (spread_of m) out"

definition merge_operations :: "json list \<Rightarrow> (string, json list) jsmap" where
  "merge_operations metas = fold add_operations metas []"

definition project_path :: "string \<Rightarrow> (string \<times> bool) option" where
  "project_path path =
    (case split_on CHR ''/'' path of
       [a, b, c, n] \<Rightarrow> if a = [] \<and> b = ''1.0'' \<and> c = ''projects'' \<and> n \<noteq> [] then Some (n, False) else None
     | [a, b, c, n, s] \<Rightarrow> if a = [] \<and> b = ''1.0'' \<and> c = ''projects'' \<and> n \<noteq> [] \<and> s = ''state'' then Some (n, True) else None
     | _ \<Rightarrow> None)"

text \<open>A property of a missing or null value is read: the code throws.\<close>

definition present :: "json option list \<Rightarrow> json list result" where
  "present metas = results (map (\<lambda>m. case m of Some v \<Rightarrow> if v = JNull then Inl (OtherError ''TypeError'') else Inr v
     | None \<Rightarrow> Inl (OtherError ''TypeError'')) metas)"

definition default_server :: json where
  "default_server = JObj [(''api_extensions'', JArr []), (''api_status'', JStr ''stable''), (''api_version'', JStr ''1.0''),
     (''auth'', JStr ''trusted''), (''public'', JBool False),
     (''environment'', JObj [(''server_clustered'', JBool True), (''server_name'', JStr ''incuscloud'')])]"

definition merge_failures :: "string \<Rightarrow> answer option list \<Rightarrow> nat \<Rightarrow> merged" where
  "merge_failures path answers clusters =
    (let failed = failed_answers answers in
     if clusters = 0 \<and> length (split_on CHR ''/'' path) mod 2 = 1
     then sync (if path = ''/1.0/operations'' then JObj [] else JArr [])
     else if failed = []
     then merge_error (if clusters \<noteq> 0 then 503 else 404) (if clusters \<noteq> 0 then ''No cluster answered'' else ''Not found'')
     else let real = (case find (\<lambda>a. an_status a \<noteq> 404) failed of Some a \<Rightarrow> a | None \<Rightarrow> hd failed)
       in \<lparr>me_status = an_status real, me_body = an_json real\<rparr>)"

definition merge :: "string \<Rightarrow> answer option list \<Rightarrow> nat \<Rightarrow> (string \<times> json) list \<Rightarrow> merged result" where
  "merge path answers clusters config =
    (let ok = answered answers; metas = map (\<lambda>a. jget (an_json a) ''metadata'') ok in
     if path = ''/1.0'' then
       then_do (if ok \<noteq> [] then then_do (present metas) federatedServer else Inr default_server) (\<lambda>server.
         Inr (sync (JObj (m_set (spread_of server) ''config'' (JObj config)))))
     else if path = ''/1.0/cluster'' then
       Inr (sync (JObj [(''server_name'', JStr []), (''enabled'', JBool True), (''member_config'', JArr [])]))
     else if ok = [] then Inr (merge_failures path answers clusters)
     else if path = ''/1.0/projects'' then Inr (sync (JArr (flat metas)))
     else case project_path path of
       Some (n, state) \<Rightarrow>
         if state then then_do (present metas) (\<lambda>ms. Inr (sync (sumState ms)))
         else (case decodeURIComponent n of
             None \<Rightarrow> Inl (OtherError ''URIError'')
           | Some name \<Rightarrow> then_do (present metas) (\<lambda>ms. Inr (sync (mergedProject name ms))))
     | None \<Rightarrow>
         if list_all array_of metas then Inr (sync (JArr (flat metas)))
         else if list_all operation_list metas
         then Inr (sync (JObj (map (\<lambda>(k, xs). (k, JArr xs)) (merge_operations (map the metas)))))
         else Inr \<lparr>me_status = 200, me_body = an_json (hd ok)\<rparr>)"

section \<open>Standalone servers\<close>

definition member_view :: "cluster_row \<Rightarrow> json \<Rightarrow> json" where
  "member_view c env = JObj [(''server_name'', JStr (cl_name c)), (''url'', JStr (cl_url c)), (''database'', JBool False),
     (''status'', JStr ''Online''), (''message'', JStr ''Fully operational''),
     (''architecture'', case jget env ''kernel_architecture'' of None \<Rightarrow> JStr [] | Some JNull \<Rightarrow> JStr [] | Some v \<Rightarrow> v),
     (''failure_domain'', JStr ''default''), (''description'', JStr []), (''config'', JObj []),
     (''groups'', JArr [JStr ''default'']), (''roles'', JArr [])]"

definition group_view :: "cluster_row \<Rightarrow> json" where
  "group_view c = JObj [(''name'', JStr ''default''), (''description'', JStr []), (''members'', JArr [JStr (cl_name c)])]"

definition field_of :: "json option \<Rightarrow> string \<Rightarrow> json option" where
  "field_of v k = (case v of None \<Rightarrow> None | Some x \<Rightarrow> jget x k)"

definition state_view :: "json option \<Rightarrow> json" where
  "state_view r =
    (let mem = field_of r ''memory'';
         num = (\<lambda>v k. case field_of v k of Some (JNum n) \<Rightarrow> n | _ \<Rightarrow> 0);
         zero = JNum 0
     in JObj [(''sysinfo'', JObj [(''uptime'', zero), (''load_averages'', JArr [zero, zero, zero]),
         (''total_ram'', JNum (num mem ''total'')), (''free_ram'', JNum (num mem ''total'' - num mem ''used'')),
         (''shared_ram'', zero), (''buffered_ram'', zero), (''total_swap'', zero), (''free_swap'', zero), (''processes'', zero),
         (''logical_cpus'', JNum (num (field_of r ''cpu'') ''total''))]), (''storage_pools'', JObj [])])"

text \<open>\<^verbatim>\<open>/^\/1\.0\/cluster(?:\/(members|groups)(?:\/([^/]+)(\/state)?)?)?$/\<close>: the kind, the item and whether its state.\<close>

definition cluster_view :: "string \<Rightarrow> (string option \<times> string option \<times> bool) option" where
  "cluster_view p =
    (let kind = (\<lambda>k. k = ''members'' \<or> k = ''groups'') in
     case split_on CHR ''/'' p of
       [a, b, c] \<Rightarrow> if a = [] \<and> b = ''1.0'' \<and> c = ''cluster'' then Some (None, None, False) else None
     | [a, b, c, k] \<Rightarrow> if a = [] \<and> b = ''1.0'' \<and> c = ''cluster'' \<and> kind k then Some (Some k, None, False) else None
     | [a, b, c, k, i] \<Rightarrow> if a = [] \<and> b = ''1.0'' \<and> c = ''cluster'' \<and> kind k \<and> i \<noteq> [] then Some (Some k, Some i, False) else None
     | [a, b, c, k, i, s] \<Rightarrow>
         if a = [] \<and> b = ''1.0'' \<and> c = ''cluster'' \<and> kind k \<and> i \<noteq> [] \<and> s = ''state'' then Some (Some k, Some i, True) else None
     | _ \<Rightarrow> None)"

definition standaloneView :: "cluster_row \<Rightarrow> json \<Rightarrow> string \<Rightarrow> string \<Rightarrow> string option \<Rightarrow> json option \<Rightarrow> merged result option" where
  "standaloneView c env method path recursion resources =
    (let recursive = (truthy recursion \<and> recursion \<noteq> Some ''0''); name = cl_name c in
     if method \<noteq> ''GET'' then None
     else case cluster_view (before_first CHR ''?'' path) of
       None \<Rightarrow> None
     | Some (None, _, _) \<Rightarrow>
         Some (Inr (sync (JObj [(''server_name'', JStr name), (''enabled'', JBool True), (''member_config'', JArr [])])))
     | Some (Some kind, item, state) \<Rightarrow>
         (case item of
            None \<Rightarrow>
              Some (Inr (sync (JArr [if kind = ''groups''
                then (if recursive then group_view c else JStr ''/1.0/cluster/groups/default'')
                else (if recursive then member_view c env else JStr (''/1.0/cluster/members/'' @ name))])))
          | Some i \<Rightarrow>
              (case decodeURIComponent i of
                 None \<Rightarrow> Some (Inl (OtherError ''URIError''))
               | Some n \<Rightarrow>
                   Some (Inr (if kind = ''groups''
                     then (if n = ''default'' then sync (group_view c) else merge_error 404 ''Cluster group not found'')
                     else if n \<noteq> name then merge_error 404 ''Cluster member not found''
                     else if \<not> state then sync (member_view c env)
                     else sync (state_view resources))))))"

section \<open>Facts on the folds\<close>

lemma fold_concat: "fold (\<lambda>x. fold f (g x)) xs z = fold f (concat (map g xs)) z"
  by (induction xs arbitrary: z) auto

text \<open>The values a list of entries has under a key.\<close>

definition values_under :: "string \<Rightarrow> (string \<times> json) list \<Rightarrow> json list" where
  "values_under k es = map snd (filter (\<lambda>e. fst e = k) es)"

lemma values_under_simps [simp]: "values_under k [] = []" "values_under k (es @ fs) = values_under k es @ values_under k fs"
  "values_under k [e] = (if fst e = k then [snd e] else [])"
  by (simp_all add: values_under_def)

lemma values_under_wf: "m_wf es \<Longrightarrow> values_under k es = (case m_get es k of Some v \<Rightarrow> [v] | None \<Rightarrow> [])"
proof (induction es)
  case (Cons e es)
  obtain k' v where e: "e = (k', v)" by (cases e)
  from Cons.prems have wf: "m_wf es" "k' \<notin> fst ` set es" by (auto simp: m_wf_def e)
  have none: "k' = k \<Longrightarrow> m_get es k = None" using wf(2) by (simp add: m_get_None_iff)
  have split: "values_under k (e # es) = (if k' = k then [v] else []) @ values_under k es" by (simp add: values_under_def e)
  show ?case unfolding split using Cons.IH[OF wf(1)] none by (cases "k' = k") (auto simp: e m_get_Cons)
qed simp

definition summed :: "json \<Rightarrow> json list \<Rightarrow> bool" where
  "summed r vs \<longleftrightarrow>
     num_field r ''usage'' = sum_list (map (\<lambda>v. num_field v ''usage'') vs) \<and>
     (if \<exists>v\<in>set vs. num_field v ''limit'' < 0 then num_field r ''limit'' < 0
      else num_field r ''limit'' = sum_list (map (\<lambda>v. num_field v ''limit'') vs))"

lemma num_field_copy [simp]: "num_field (JObj (spread_of v)) k = num_field v k"
  by (cases v) (simp_all add: num_field_def jget_def spread_of_def)

lemma add_usage_fields:
  "num_field (add_usage cur v) ''usage'' = num_field cur ''usage'' + num_field v ''usage''"
  "num_field (add_usage cur v) ''limit'' =
     (if num_field cur ''limit'' < 0 \<or> num_field v ''limit'' < 0 then -1 else num_field cur ''limit'' + num_field v ''limit'')"
  by (simp_all add: add_usage_def num_field_def jget_def)

lemma sum_nonneg: "\<forall>v\<in>set vs. \<not> f v < 0 \<Longrightarrow> \<not> sum_list (map f vs) < (0 :: rat)"
  by (induction vs) auto

lemma summed_add: "summed cur vs \<Longrightarrow> summed (add_usage cur v) (vs @ [v])"
  unfolding summed_def using sum_nonneg[of vs "\<lambda>v. num_field v ''limit''"]
  by (auto simp: add_usage_fields split: if_splits)

lemma m_get_sum_entry:
  "m_get (sum_entry e m) k = (if k = fst e
     then Some (case m_get m k of None \<Rightarrow> JObj (spread_of (snd e)) | Some cur \<Rightarrow> add_usage cur (snd e)) else m_get m k)"
  by (simp add: sum_entry_def split: option.splits)

lemma summed_one: "summed (JObj (spread_of v)) [v]"
  by (simp add: summed_def)

lemma sum_entries:
  "case m_get (fold sum_entry es []) k of None \<Rightarrow> values_under k es = [] | Some r \<Rightarrow> values_under k es \<noteq> [] \<and> summed r (values_under k es)"
proof (induction es rule: rev_induct)
  case (snoc e es)
  define m where "m = fold sum_entry es []"
  have step: "fold sum_entry (es @ [e]) [] = sum_entry e m" by (simp add: m_def)
  note IH = snoc[folded m_def]
  show ?case
  proof (cases "k = fst e")
    case True
    then show ?thesis
      using IH unfolding step m_get_sum_entry by (cases "m_get m k") (simp_all add: summed_one summed_add)
  next
    case False
    then have "values_under k (es @ [e]) = values_under k es" by simp
    then show ?thesis using IH False unfolding step m_get_sum_entry by (simp only: if_False)
  qed
qed simp

lemma operations_under:
  "m_list (merge_operations ms) k = concat (map array_items (values_under k (concat (map spread_of ms))))"
proof -
  have "m_list (fold (\<lambda>(k, l) o'. m_set o' k (m_list o' k @ array_items l)) es out) k =
      m_list out k @ concat (map array_items (values_under k es))" for es out
  proof (induction es arbitrary: out)
    case (Cons e es)
    obtain k' v where e: "e = (k', v)" by (cases e)
    show ?case using Cons.IH by (simp add: e values_under_def m_list_def)
  qed simp
  then show ?thesis
    unfolding merge_operations_def add_operations_def by (simp add: fold_concat)
qed

lemma m_get_arrays: "m_get (map (\<lambda>(k, xs). (k, JArr xs)) m) k = map_option JArr (m_get m k)"
  by (induction m) (auto simp: m_get_Cons)

lemma results_map: "(\<And>x. x \<in> set xs \<Longrightarrow> f x = Inr (g x)) \<Longrightarrow> results (map f xs) = Inr (map g xs)"
  by (induction xs) auto

lemma results_append: "results rs = Inr xs \<Longrightarrow> results ss = Inr ys \<Longrightarrow> results (rs @ ss) = Inr (xs @ ys)"
  by (induction rs arbitrary: xs) (auto simp: then_do_Inr_iff)

section \<open>Properties\<close>

text \<open>The reads that no view of their own answers.\<close>

definition plain_read :: "string \<Rightarrow> bool" where
  "plain_read path \<longleftrightarrow> path \<noteq> ''/1.0'' \<and> path \<noteq> ''/1.0/cluster'' \<and> path \<noteq> ''/1.0/projects'' \<and> project_path path = None"

text \<open>
  Merging operation lists loses and invents nothing: when every answering cluster answers with
  its operations by status, the merged answer has under each status the operations all of them have
  there, cluster after cluster.
\<close>

theorem operations_merged:
  assumes "plain_read path" "answered answers \<noteq> []"
    and "\<forall>a\<in>set (answered answers). \<exists>es. jget (an_json a) ''metadata'' = Some (JObj es) \<and> m_wf es \<and> list_all (\<lambda>(k, v). is_array v) es"
  shows "\<exists>out. merge path answers clusters config = Inr (sync (JObj out)) \<and>
    (\<forall>k. (case m_get out k of Some v \<Rightarrow> array_items v | None \<Rightarrow> []) =
       concat (map (\<lambda>a. case jget (the (jget (an_json a) ''metadata'')) k of Some v \<Rightarrow> array_items v | None \<Rightarrow> []) (answered answers)))"
proof -
  let ?ok = "answered answers" and ?meta = "\<lambda>a. the (jget (an_json a) ''metadata'')"
  let ?metas = "map (\<lambda>a. jget (an_json a) ''metadata'') ?ok"
  let ?out = "map (\<lambda>(k, xs). (k, JArr xs)) (merge_operations (map ?meta ?ok))"
  obtain a0 as where a0: "?ok = a0 # as" using assms(2) by (cases ?ok) auto
  have "\<not> list_all array_of ?metas" using assms(3) a0 by (auto simp: array_of_def)
  moreover have "list_all operation_list ?metas" using assms(3) by (fastforce simp: list_all_iff operation_list_def)
  ultimately have m: "merge path answers clusters config = Inr (sync (JObj ?out))"
    using assms(1,2) by (simp add: merge_def plain_read_def Let_def comp_def)
  have out: "m_get ?out k = map_option JArr (m_get (merge_operations (map ?meta ?ok)) k)" for k
    by (rule m_get_arrays)
  have "(case m_get ?out k of Some v \<Rightarrow> array_items v | None \<Rightarrow> []) = m_list (merge_operations (map ?meta ?ok)) k" for k
    unfolding out m_list_def by (simp add: array_items_def split: option.splits)
  moreover have "concat (map array_items (values_under k (concat (map spread_of (map ?meta as))))) =
      concat (map (\<lambda>a. case jget (?meta a) k of Some v \<Rightarrow> array_items v | None \<Rightarrow> []) as)" if "set as \<subseteq> set ?ok" for as k
    using that
  proof (induction as)
    case (Cons a as)
    obtain es where "jget (an_json a) ''metadata'' = Some (JObj es)" "m_wf es" using assms(3) Cons.prems by auto
    with Cons show ?case by (simp add: values_under_wf spread_of_def jget_def[of "JObj es"] split: option.splits)
  qed simp
  ultimately show ?thesis using m operations_under by auto
qed

text \<open>
  A project's usage over several clusters is the sum: under each resource the merged state has
  the total of the clusters' usages, and the total of their limits, or a negative limit (unlimited)
  exactly when one of them is negative; a resource no cluster reports is not there.
\<close>

theorem state_summed:
  assumes "project_path path = Some (n, True)" "answered answers \<noteq> []"
    and "\<forall>a\<in>set (answered answers). \<exists>es. jget (an_json a) ''metadata'' = Some (JObj es)"
  shows "\<exists>es res. merge path answers clusters config = Inr (sync (JObj es)) \<and> m_get es ''resources'' = Some (JObj res) \<and>
    (\<forall>k. let vs = values_under k (concat (map (\<lambda>a. resources_of (the (jget (an_json a) ''metadata''))) (answered answers))) in
       case m_get res k of
         None \<Rightarrow> vs = []
       | Some r \<Rightarrow> vs \<noteq> [] \<and> num_field r ''usage'' = sum_list (map (\<lambda>v. num_field v ''usage'') vs) \<and>
           (if \<exists>v\<in>set vs. num_field v ''limit'' < 0 then num_field r ''limit'' < 0
            else num_field r ''limit'' = sum_list (map (\<lambda>v. num_field v ''limit'') vs)))"
proof -
  let ?ok = "answered answers" and ?meta = "\<lambda>a. the (jget (an_json a) ''metadata'')"
  let ?res = "fold sum_entry (concat (map resources_of (map ?meta ?ok))) []"
  have path: "path \<noteq> ''/1.0''" "path \<noteq> ''/1.0/cluster''" "path \<noteq> ''/1.0/projects''"
    using assms(1) by (auto simp: project_path_def)
  have "present (map (\<lambda>a. jget (an_json a) ''metadata'') ?ok) = Inr (map ?meta ?ok)"
    unfolding present_def map_map using assms(3) by (intro results_map) fastforce
  then have m: "merge path answers clusters config = Inr (sync (sumState (map ?meta ?ok)))"
    using assms(1,2) path by (simp add: merge_def Let_def)
  have s: "sumState (map ?meta ?ok) = JObj (m_set (case map ?meta ?ok of [] \<Rightarrow> [] | s # _ \<Rightarrow> spread_of s) ''resources'' (JObj ?res))"
    by (simp add: sumState_def fold_concat)
  define E where "E = concat (map resources_of (map ?meta ?ok))"
  have E: "concat (map (\<lambda>a. resources_of (?meta a)) ?ok) = E" by (simp add: E_def comp_def)
  show ?thesis
    unfolding m s E Let_def
    by (intro exI conjI allI, rule refl, rule m_get_set[THEN trans], simp only: simp_thms if_True, unfold E_def[symmetric],
        rule sum_entries[unfolded summed_def])
qed

text \<open>
  A failure is never merged into a success: when clusters were asked and none of them answered the
  read, the facade's status is an error, and it is a 404 only if every cluster that gave a reason said
  404; a server's or permission error of one cluster is not hidden behind another's 404.
\<close>

theorem failures_reported:
  assumes "plain_read path \<or> path = ''/1.0/projects'' \<or> project_path path \<noteq> None" "answered answers = []" "0 < clusters"
    and "path \<noteq> ''/1.0''" "path \<noteq> ''/1.0/cluster''"
  shows "\<exists>m. merge path answers clusters config = Inr m \<and> me_status m \<ge> 400 \<and>
    (me_status m = 404 \<longrightarrow> (\<forall>a\<in>set (failed_answers answers). an_status a = 404) \<and> failed_answers answers \<noteq> []) \<and>
    (failed_answers answers = [] \<longrightarrow> me_status m = 503)"
proof -
  have m: "merge path answers clusters config = Inr (merge_failures path answers clusters)"
    using assms by (simp add: merge_def)
  show ?thesis
  proof (cases "failed_answers answers")
    case Nil
    then show ?thesis using m assms(3) by (simp add: merge_failures_def merge_error_def)
  next
    case (Cons a0 as)
    have ge: "\<forall>a\<in>set (failed_answers answers). an_status a \<ge> 400" by (auto simp: failed_answers_def)
    show ?thesis
    proof (cases "find (\<lambda>a. an_status a \<noteq> 404) (failed_answers answers)")
      case None
      then have "\<forall>a\<in>set (failed_answers answers). an_status a = 404" by (auto simp: find_None_iff)
      then show ?thesis using m Cons None assms(3) by (auto simp: merge_failures_def Let_def)
    next
      case (Some a)
      then have "a \<in> set (failed_answers answers)" "an_status a \<noteq> 404" using find_mem[OF Some] by auto
      then show ?thesis using m Cons Some assms(3) ge by (auto simp: merge_failures_def Let_def)
    qed
  qed
qed

text \<open>
  The federated server claims exactly the API extensions that every answering cluster has, no
  cluster's configuration but the console's, and that it is clustered.
\<close>

theorem extensions_common:
  assumes "servers \<noteq> []" "\<forall>s\<in>set servers. \<exists>xs. jget s ''api_extensions'' = Some (JArr xs)"
  shows "\<exists>es xs. federatedServer servers = Inr (JObj es) \<and> m_get es ''api_extensions'' = Some (JArr xs) \<and>
    (\<forall>e. e \<in> set xs \<longleftrightarrow> (\<forall>s\<in>set servers. e \<in> set (array_items (the (jget s ''api_extensions''))))) \<and>
    m_get es ''config'' = Some (JObj [])"
proof -
  let ?ext = "\<lambda>s. uniq (array_items (the (jget s ''api_extensions'')))"
  have ext: "results (map extensions_of servers) = Inr (map ?ext servers)"
    using assms(2) by (intro results_map) (auto simp: extensions_of_def array_items_def)
  obtain s0 ss where s0: "servers = s0 # ss" using assms(1) by (cases servers) auto
  show ?thesis
    unfolding federatedServer_def ext by (auto simp: Let_def s0 list_all_iff)
qed

section \<open>Concrete instances\<close>

definition running :: "string \<Rightarrow> string \<Rightarrow> answer option" where
  "running c i = Some \<lparr>an_cluster = c, an_status = 200, an_json = syncOf (JObj [(''running'', JArr [JStr i])])\<rparr>"

definition project_use :: "string \<Rightarrow> rat \<Rightarrow> answer option" where
  "project_use c u = Some \<lparr>an_cluster = c, an_status = 200,
     an_json = syncOf (JObj [(''resources'', JObj [(''cpu'', JObj [(''limit'', JNum 8), (''usage'', JNum u)])])])\<rparr>"

definition refused :: "answer option" where
  "refused = Some \<lparr>an_cluster = ''c1'', an_status = 403, an_json = JObj [(''type'', JStr ''error'')]\<rparr>"

lemmas sample_answers = running_def project_use_def refused_def answered_def failed_answers_def syncOf_def jget_def m_get_Cons
  map_filter_def

theorem operations_merged_witness:
  "\<exists>out. merge ''/1.0/operations'' [running ''c1'' ''a'', None, running ''c2'' ''b''] 3 [] = Inr (sync (JObj out)) \<and>
     (case m_get out ''running'' of Some v \<Rightarrow> array_items v | None \<Rightarrow> []) = [JStr ''a'', JStr ''b'']"
proof -
  let ?as = "[running ''c1'' ''a'', None, running ''c2'' ''b'']"
  have "plain_read ''/1.0/operations''" by (simp add: plain_read_def project_path_def)
  moreover have "answered ?as \<noteq> []" by (simp add: sample_answers)
  moreover have "\<forall>a\<in>set (answered ?as). \<exists>es. jget (an_json a) ''metadata'' = Some (JObj es) \<and> m_wf es \<and> list_all (\<lambda>(k, v). is_array v) es"
    by (simp add: sample_answers m_wf_def is_array_def)
  ultimately obtain out where out: "merge ''/1.0/operations'' ?as 3 [] = Inr (sync (JObj out))"
    "\<And>k. (case m_get out k of Some v \<Rightarrow> array_items v | None \<Rightarrow> []) =
       concat (map (\<lambda>a. case jget (the (jget (an_json a) ''metadata'')) k of Some v \<Rightarrow> array_items v | None \<Rightarrow> []) (answered ?as))"
    using operations_merged[of "''/1.0/operations''" ?as 3 "[]"] by blast
  then show ?thesis by (auto simp: out(2) sample_answers array_items_def)
qed

theorem state_summed_witness:
  "\<exists>es res r. merge ''/1.0/projects/p/state'' [project_use ''c1'' 2, project_use ''c2'' 3] 2 [] = Inr (sync (JObj es)) \<and>
     m_get es ''resources'' = Some (JObj res) \<and> m_get res ''cpu'' = Some r \<and> num_field r ''usage'' = 5"
proof -
  let ?as = "[project_use ''c1'' 2, project_use ''c2'' 3]"
  have p: "project_path ''/1.0/projects/p/state'' = Some (''p'', True)" by (simp add: project_path_def)
  have n: "answered ?as \<noteq> []" by (simp add: sample_answers)
  have a: "\<forall>a\<in>set (answered ?as). \<exists>es. jget (an_json a) ''metadata'' = Some (JObj es)" by (simp add: sample_answers)
  have vs: "values_under ''cpu'' (concat (map (\<lambda>a. resources_of (the (jget (an_json a) ''metadata''))) (answered ?as))) =
      [JObj [(''limit'', JNum 8), (''usage'', JNum 2)], JObj [(''limit'', JNum 8), (''usage'', JNum 3)]]"
    by (simp add: sample_answers resources_of_def spread_of_def values_under_def)
  obtain es res where m: "merge ''/1.0/projects/p/state'' ?as 2 [] = Inr (sync (JObj es))" "m_get es ''resources'' = Some (JObj res)"
    and k: "case m_get res ''cpu'' of None \<Rightarrow> False
      | Some r \<Rightarrow> num_field r ''usage'' = num_field (JObj [(''limit'', JNum 8), (''usage'', JNum 2)]) ''usage''
          + num_field (JObj [(''limit'', JNum 8), (''usage'', JNum 3)]) ''usage''"
    using state_summed[OF p n a, of 2 "[]"] unfolding Let_def by (elim exE conjE) (drule spec[of _ "''cpu''"], auto simp: vs split: option.splits)
  have five: "num_field (JObj [(''limit'', JNum 8), (''usage'', JNum 2)]) ''usage''
      + num_field (JObj [(''limit'', JNum 8), (''usage'', JNum 3)]) ''usage'' = 5"
    by (simp add: num_field_def jget_def m_get_Cons)
  obtain r where "m_get res ''cpu'' = Some r" using k by (cases "m_get res ''cpu''") auto
  moreover from this have "num_field r ''usage'' = 5" using k five by simp
  ultimately show ?thesis using m by blast
qed

theorem failures_reported_witness:
  "\<exists>m. merge ''/1.0/instances'' [refused, None] 2 [] = Inr m \<and> me_status m \<ge> 400"
proof -
  have "plain_read ''/1.0/instances''" by (simp add: plain_read_def project_path_def)
  moreover have "answered [refused, None] = []" by (simp add: sample_answers)
  ultimately show ?thesis using failures_reported[of "''/1.0/instances''" "[refused, None]" 2 "[]"] by auto
qed

theorem extensions_common_witness:
  "\<exists>es xs. federatedServer [JObj [(''api_extensions'', JArr [JStr ''a'', JStr ''b''])], JObj [(''api_extensions'', JArr [JStr ''b''])]] = Inr (JObj es) \<and>
     m_get es ''api_extensions'' = Some (JArr xs) \<and> JStr ''b'' \<in> set xs \<and> JStr ''a'' \<notin> set xs"
proof -
  let ?s = "[JObj [(''api_extensions'', JArr [JStr ''a'', JStr ''b''])], JObj [(''api_extensions'', JArr [JStr ''b''])]]"
  have "\<forall>s\<in>set ?s. \<exists>xs. jget s ''api_extensions'' = Some (JArr xs)" by (simp add: jget_def m_get_Cons)
  from extensions_common[OF _ this] show ?thesis by (auto simp: jget_def m_get_Cons array_items_def)
qed

end
