(* ===== verification/Tenants.thy ===== *)
theory Tenants
  imports Jobs
begin

text \<open>
  A tenant's quotas and where its instances go: \<^verbatim>\<open>tenants/quota.ts\<close> (the pool, split over the
  tenant's projects), \<^verbatim>\<open>tenants/limits.ts\<close> (maximums per instance, shares of users, backups and
  Kubernetes clusters) and \<^verbatim>\<open>tenants/placement.ts\<close> (the cluster of a new instance). Amounts are
  whole numbers of instances, CPUs and bytes, as Incus reports them and the API accepts them;
  \<open>lc\<close> stands for \<open>localeCompare\<close>, whose order is the host's.
\<close>

section \<open>The pool\<close>

datatype ukey = Kinstances | Kcpu | Kmemory | Kdisk

definition KEYS :: "ukey list" where
  "KEYS = [Kinstances, Kcpu, Kmemory, Kdisk]"

definition GiB :: int where
  "GiB = 1024 ^ 3"

fun in_bytes :: "ukey \<Rightarrow> bool" where
  "in_bytes Kmemory = True"
| "in_bytes Kdisk = True"
| "in_bytes _ = False"

fun key_name :: "ukey \<Rightarrow> string" where
  "key_name Kinstances = ''instances''"
| "key_name Kcpu = ''cpu''"
| "key_name Kmemory = ''memory''"
| "key_name Kdisk = ''disk''"

fun q_at :: "quotas \<Rightarrow> ukey \<Rightarrow> int option" where
  "q_at q Kinstances = q_instances q"
| "q_at q Kcpu = q_cpu q"
| "q_at q Kmemory = q_memory q"
| "q_at q Kdisk = q_disk q"

fun u_at :: "usage \<Rightarrow> ukey \<Rightarrow> int" where
  "u_at u Kinstances = u_instances u"
| "u_at u Kcpu = u_cpu u"
| "u_at u Kmemory = u_memory u"
| "u_at u Kdisk = u_disk u"

fun l_at :: "limits \<Rightarrow> ukey \<Rightarrow> int option" where
  "l_at l Kinstances = l_instances l"
| "l_at l Kcpu = l_cpu l"
| "l_at l Kmemory = l_memory l"
| "l_at l Kdisk = l_disk l"

definition limits_of :: "(ukey \<Rightarrow> int option) \<Rightarrow> limits" where
  "limits_of f = \<lparr>l_instances = f Kinstances, l_cpu = f Kcpu, l_memory = f Kmemory, l_disk = f Kdisk\<rparr>"

definition usage_of :: "(ukey \<Rightarrow> int) \<Rightarrow> usage" where
  "usage_of f = \<lparr>u_instances = f Kinstances, u_cpu = f Kcpu, u_memory = f Kmemory, u_disk = f Kdisk\<rparr>"

definition ZERO :: usage where
  "ZERO = usage_of (\<lambda>_. 0)"

definition quotaBytes :: "quotas \<Rightarrow> limits" where
  "quotaBytes q = limits_of (\<lambda>k. map_option (\<lambda>n. if in_bytes k then n * GiB else n) (q_at q k))"

definition sumUsage :: "usage option list \<Rightarrow> usage" where
  "sumUsage us = fold (\<lambda>u out. case u of None \<Rightarrow> out | Some x \<Rightarrow> usage_of (\<lambda>k. u_at out k + u_at x k)) us ZERO"

definition splitLimits :: "quotas \<Rightarrow> usage option list \<Rightarrow> limits list" where
  "splitLimits q us =
    (let quota = quotaBytes q; total = sumUsage us in
     map (\<lambda>u. let own = (case u of None \<Rightarrow> ZERO | Some x \<Rightarrow> x) in
       limits_of (\<lambda>k. map_option (\<lambda>n. u_at own k + max (n - u_at total k) 0) (l_at quota k))) us)"

definition show_amount :: "ukey \<Rightarrow> int \<Rightarrow> string" where
  "show_amount k n = (if in_bytes k then toFixed1 (of_int n / of_int GiB) else show_int n)"

definition exceeds :: "quotas \<Rightarrow> usage \<Rightarrow> usage \<Rightarrow> string list" where
  "exceeds q used request =
     concat (map (\<lambda>k. case l_at (quotaBytes q) k of
         None \<Rightarrow> []
       | Some limit \<Rightarrow>
           if u_at request k = 0 then []
           else let after = u_at used k + u_at request k in
             if after > limit
             then [key_name k @ '': '' @ show_amount k after @ '' of '' @ show_int (the (q_at q k))
                   @ (if in_bytes k then '' GiB'' else [])]
             else []) KEYS)"

definition no_quotas :: quotas where
  "no_quotas = \<lparr>q_instances = None, q_cpu = None, q_memory = None, q_disk = None, q_maxInstanceCpu = None, q_maxInstanceMemory = None,
     q_maxInstanceDisk = None, q_snapshots = None, q_backups = None, q_backupGiB = None, q_kubernetes = None\<rparr>"

section \<open>Limits beside the pool\<close>

definition over :: "string list \<Rightarrow> unit result" where
  "over msg = (if msg \<noteq> [] then Inl (ApiError 409 ''quota_exceeded'' (''Over the quota: '' @ join_with '', '' msg)) else Inr ())"

definition gib_text :: "int \<Rightarrow> string" where
  "gib_text n = toFixed1 (of_int n / of_int GiB)"

definition needInstanceCaps :: "quotas \<Rightarrow> int \<Rightarrow> int \<Rightarrow> int \<Rightarrow> unit result" where
  "needInstanceCaps q cpu memory disk = over (
     (case q_maxInstanceCpu q of None \<Rightarrow> [] | Some m \<Rightarrow>
        if cpu > m then [show_int cpu @ '' cores per instance, at most '' @ show_int m] else [])
     @ (case q_maxInstanceMemory q of None \<Rightarrow> [] | Some m \<Rightarrow>
        if memory > m * GiB then [gib_text memory @ '' GiB of memory per instance, at most '' @ show_int m] else [])
     @ (case q_maxInstanceDisk q of None \<Rightarrow> [] | Some m \<Rightarrow>
        if disk > m * GiB then [gib_text disk @ '' GiB of disk per instance, at most '' @ show_int m] else []))"

text \<open>
  \<open>bytesOf\<close>: digits with an optional fraction, white space, then \<open>K\<close>, \<open>M\<close>, \<open>G\<close>, \<open>T\<close> or \<open>P\<close> with an
  optional \<open>i\<close> and an optional \<open>B\<close>, in any case. The power is the index of the unit's first
  letter in \<open>KMGTP\<close> plus one; of no letter at all the index is that of the empty string, 0.
\<close>

definition is_space :: "char \<Rightarrow> bool" where
  "is_space c \<longleftrightarrow> cc c \<in> {9, 10, 11, 12, 13, 32, 160}"

definition digits_value :: "string \<Rightarrow> nat" where
  "digits_value s = foldl (\<lambda>n c. 10 * n + (cc c - 48)) 0 s"

definition to_upper :: "char \<Rightarrow> char" where
  "to_upper c = (if is_lower c then char_of (cc c - 32) else c)"

definition is_unit :: "string \<Rightarrow> bool" where
  "is_unit s = (let u = map to_upper s in
     u = [] \<or> (hd u \<in> set ''KMGTP'' \<and> (tl u = [] \<or> tl u = ''I'' \<or> tl u = ''B'' \<or> tl u = ''IB'')))"

definition decimal_of :: "string \<Rightarrow> (rat \<times> string) option" where
  "decimal_of s =
    (let whole = takeWhile is_digit s; rest = dropWhile is_digit s in
     if whole = [] then None
     else case rest of
       CHR ''.'' # r \<Rightarrow>
         (let frac = takeWhile is_digit r in
          if frac = [] then None
          else Some (of_nat (digits_value whole) + of_nat (digits_value frac) / 10 ^ length frac, dropWhile is_digit r))
     | _ \<Rightarrow> Some (of_nat (digits_value whole), rest))"

fun index_of :: "char \<Rightarrow> string \<Rightarrow> nat" where
  "index_of c [] = 0"
| "index_of c (x # xs) = (if x = c then 0 else Suc (index_of c xs))"

definition bytesOf :: "string option \<Rightarrow> int" where
  "bytesOf v =
    (case decimal_of (case v of None \<Rightarrow> [] | Some s \<Rightarrow> s) of
       None \<Rightarrow> 0
     | Some (n, rest) \<Rightarrow>
         let unit = dropWhile is_space rest in
         if \<not> is_unit unit then 0
         else let u = map to_upper unit;
                  pow = (case u of [] \<Rightarrow> 0 | c # _ \<Rightarrow> index_of c ''KMGTP'') + 1
           in js_round (n * (if CHR ''I'' \<in> set u then 1024 else 1000) ^ pow))"

definition userQuotaOf :: "db \<Rightarrow> string \<Rightarrow> string \<Rightarrow> user_quotas" where
  "userQuotaOf d tenantId userId =
    (case find (\<lambda>r. uqr_tenantId r = tenantId \<and> uqr_userId r = userId) (db_userQuotas d) of
       None \<Rightarrow> \<lparr>uq_instances = None, uq_cpu = None, uq_memory = None, uq_backups = None\<rparr>
     | Some r \<Rightarrow> uqr_quotas r)"

record user_usage =
  uu_instances :: int
  uu_cpu :: int
  uu_memory :: int
  uu_backups :: int

text \<open>
  \<open>Number(s) || 0\<close> of a CPU limit as Incus gives it: a count, or a set of CPUs to pin to, which is
  not a number. A job's payload holds the whole numbers the API took.
\<close>

definition cpu_count :: "string \<Rightarrow> int" where
  "cpu_count s = (if s \<noteq> [] \<and> list_all is_digit s then int (digits_value s) else 0)"

definition payload_number :: "string \<Rightarrow> (string, json) jsmap \<Rightarrow> int" where
  "payload_number k p = (case m_get p k of Some (JNum r) \<Rightarrow> \<lfloor>r\<rfloor> | Some (JStr s) \<Rightarrow> cpu_count s | _ \<Rightarrow> 0)"

definition owned_instances :: "db \<Rightarrow> string \<Rightarrow> string \<Rightarrow> instance_row list" where
  "owned_instances d tenantId userId =
     [i. o' \<leftarrow> db_instanceOwners d, io_userId o' = Some userId,
         i \<leftarrow> db_instances d, in_clusterId i = io_clusterId o' \<and> in_project i = io_project o' \<and> in_name i = io_name o',
         p \<leftarrow> db_placements d, pl_clusterId p = in_clusterId i \<and> pl_project p = in_project i \<and> pl_tenantId p = tenantId]"

definition pending_creates :: "db \<Rightarrow> string \<Rightarrow> string \<Rightarrow> job_row list" where
  "pending_creates d tenantId userId =
     filter (\<lambda>j. jo_type j = ''create'' \<and> jo_tenantId j = Some tenantId \<and> jo_actorType j = ''user'' \<and> jo_actorId j = userId
       \<and> active_job j) (db_jobs d)"

definition userUsage :: "db \<Rightarrow> string \<Rightarrow> string \<Rightarrow> user_usage" where
  "userUsage d tenantId userId =
    (let owned = owned_instances d tenantId userId; pending = pending_creates d tenantId userId in \<lparr>
       uu_instances = int (length owned) + int (length pending),
       uu_cpu = sum_list (map (\<lambda>i. cpu_count (in_limitsCpu i)) owned)
         + sum_list (map (\<lambda>j. payload_number ''cpu'' (jo_payload j)) pending),
       uu_memory = sum_list (map (\<lambda>i. bytesOf (Some (in_limitsMemory i))) owned)
         + sum_list (map (\<lambda>j. payload_number ''memory'' (jo_payload j)) pending),
       uu_backups = int (length (filter (\<lambda>b. ba_tenantId b = Some tenantId \<and> ba_createdBy b = ''user:'' @ userId
         \<and> ba_state b \<noteq> BFailed) (db_backups d)))\<rparr>)"

text \<open>A request adds so many instances, CPUs, bytes and backups; 0 where it adds none.\<close>

definition share_over :: "string \<Rightarrow> int option \<Rightarrow> int \<Rightarrow> int \<Rightarrow> string list" where
  "share_over name quota used req =
    (case quota of None \<Rightarrow> [] | Some q \<Rightarrow>
       if req \<noteq> 0 \<and> used + req > q then [''your '' @ name @ '': '' @ show_int (used + req) @ '' of '' @ show_int q] else [])"

definition needUserQuota :: "db \<Rightarrow> string \<Rightarrow> string \<Rightarrow> user_usage \<Rightarrow> unit result" where
  "needUserQuota d tenantId userId req =
    (let q = userQuotaOf d tenantId userId; used = userUsage d tenantId userId in
     if uq_instances q = None \<and> uq_cpu q = None \<and> uq_memory q = None \<and> uq_backups q = None then Inr ()
     else over (
       share_over ''instances'' (uq_instances q) (uu_instances used) (uu_instances req)
       @ share_over ''cpu'' (uq_cpu q) (uu_cpu used) (uu_cpu req)
       @ share_over ''backups'' (uq_backups q) (uu_backups used) (uu_backups req)
       @ (case uq_memory q of None \<Rightarrow> [] | Some m \<Rightarrow>
            if uu_memory req \<noteq> 0 \<and> uu_memory used + uu_memory req > m * GiB
            then [''your memory: '' @ gib_text (uu_memory used + uu_memory req) @ '' of '' @ show_int m @ '' GiB''] else [])))"

definition needBackupQuota :: "db \<Rightarrow> string option \<Rightarrow> quotas \<Rightarrow> unit result" where
  "needBackupQuota d tenantId q =
    (if \<not> truthy tenantId \<or> (q_backups q = None \<and> q_backupGiB q = None) then Inr ()
     else let rows = filter (\<lambda>b. ba_tenantId b = tenantId \<and> ba_state b \<noteq> BFailed) (db_backups d);
              n = int (length rows);
              bytes = sum_list (map (\<lambda>b. case ba_sizeBytes b of None \<Rightarrow> 0 | Some x \<Rightarrow> x) rows)
       in over ((case q_backups q of None \<Rightarrow> [] | Some m \<Rightarrow> if n + 1 > m then [''backups: '' @ show_int m @ '' already''] else [])
            @ (case q_backupGiB q of None \<Rightarrow> [] | Some m \<Rightarrow>
                 if bytes \<ge> m * GiB then [''backup storage: '' @ gib_text bytes @ '' of '' @ show_int m @ '' GiB''] else [])))"

definition needKubernetesQuota :: "db \<Rightarrow> string \<Rightarrow> quotas \<Rightarrow> unit result" where
  "needKubernetesQuota d tenantId q =
    (case q_kubernetes q of None \<Rightarrow> Inr () | Some m \<Rightarrow>
       if int (length (filter (\<lambda>k. kc_tenantId k = tenantId) (db_k8sClusters d))) + 1 > m
       then over [''Kubernetes clusters: '' @ show_int m @ '' already''] else Inr ())"

section \<open>Placement\<close>

record candidate =
  ca_clusterId :: string
  ca_clusterName :: string
  ca_project :: string
  ca_placementStatus :: string
  ca_clusterStatus :: string
  ca_labels :: "(string, string) jsmap"
  ca_memoryTotal :: int
  ca_memoryUsed :: int

datatype choice = Pick candidate | NoPick string

definition USABLE :: "string set" where
  "USABLE = {''ready'', ''degraded''}"

definition free_after :: "int \<Rightarrow> candidate \<Rightarrow> rat" where
  "free_after memory c = of_int (ca_memoryTotal c - ca_memoryUsed c - memory) / of_int (ca_memoryTotal c)"

definition ready_pool :: "candidate list \<Rightarrow> string option \<Rightarrow> candidate list" where
  "ready_pool cs clusterId =
     filter (\<lambda>c. ca_placementStatus c = ''ready'' \<and> ca_clusterStatus c \<in> USABLE
       \<and> (truthy clusterId \<longrightarrow> ca_clusterId c = the clusterId)) cs"

definition matches_labels :: "(string \<times> string) list \<Rightarrow> candidate \<Rightarrow> bool" where
  "matches_labels selector c = list_all (\<lambda>(k, v). m_get (ca_labels c) k = Some v) selector"

definition choose_cluster :: "(string \<Rightarrow> string \<Rightarrow> rat) \<Rightarrow> candidate list \<Rightarrow> int \<Rightarrow> string option \<Rightarrow> (string \<times> string) list \<Rightarrow> choice" where
  "choose_cluster lc cs memory clusterId selector =
    (let pool = ready_pool cs clusterId in
     if pool = [] then NoPick (if truthy clusterId then ''The tenant is not placed on that cluster''
       else ''The tenant is not ready on any cluster'')
     else let pool = filter (matches_labels selector) pool in
       if pool = [] then NoPick (''No cluster of the tenant has ''
         @ join_with '', '' (map (\<lambda>(k, v). k @ ''='' @ v) selector))
       else let fits = sort_by (\<lambda>a b. if free_after memory b - free_after memory a \<noteq> 0
                 then free_after memory b - free_after memory a else lc (ca_clusterName a) (ca_clusterName b))
               (filter (\<lambda>c. ca_memoryTotal c > 0 \<and> free_after memory c \<ge> 0) pool) in
         if fits \<noteq> [] then Pick (hd fits)
         else let unknown = sort_by (\<lambda>a b. lc (ca_clusterName a) (ca_clusterName b)) (filter (\<lambda>c. ca_memoryTotal c \<le> 0) pool) in
           if unknown \<noteq> [] then Pick (hd unknown)
           else NoPick (''No cluster has '' @ gib_text memory @ '' GiB of memory free''))"

section \<open>Facts\<close>

lemma at_of [simp]: "l_at (limits_of f) k = f k" "u_at (usage_of g) k = g k"
  by (cases k; simp add: limits_of_def usage_of_def)+

declare l_at.simps [simp del] u_at.simps [simp del]

lemma u_at_sum: "u_at (sumUsage us) k = sum_list (map (\<lambda>u. case u of None \<Rightarrow> 0 | Some x \<Rightarrow> u_at x k) us)"
proof -
  have "u_at (fold (\<lambda>u out. case u of None \<Rightarrow> out | Some x \<Rightarrow> usage_of (\<lambda>k. u_at out k + u_at x k)) us z) k
      = u_at z k + sum_list (map (\<lambda>u. case u of None \<Rightarrow> 0 | Some x \<Rightarrow> u_at x k) us)" for z
    by (induction us arbitrary: z) (auto split: option.splits)
  then show ?thesis by (simp add: sumUsage_def ZERO_def)
qed

lemma set_KEYS: "k \<in> set KEYS"
  by (cases k) (simp_all add: KEYS_def)

lemma by_name_orders: "orders_on (N ` A) lc \<Longrightarrow> orders_on A (\<lambda>a b. lc (N a) (N b))"
  unfolding orders_on_def by (simp only: ball_simps)

lemma by_share_orders:
  assumes "orders_on (N ` A) lc"
  shows "orders_on A (\<lambda>a b. if f b - f a \<noteq> 0 then f b - f a else lc (N a) (N b))"
proof -
  let ?cmp = "\<lambda>a b. if f b - f a \<noteq> 0 then f b - f a else lc (N a) (N b)"
  have le: "?cmp a b \<le> 0 \<longleftrightarrow> f b < f a \<or> (f b = f a \<and> lc (N a) (N b) \<le> 0)" for a b by auto
  from assms have total: "a \<in> A \<Longrightarrow> b \<in> A \<Longrightarrow> lc (N a) (N b) \<le> 0 \<or> lc (N b) (N a) \<le> 0"
    and trans: "a \<in> A \<Longrightarrow> b \<in> A \<Longrightarrow> c \<in> A \<Longrightarrow> lc (N a) (N b) \<le> 0 \<Longrightarrow> lc (N b) (N c) \<le> 0 \<Longrightarrow> lc (N a) (N c) \<le> 0" for a b c
    unfolding orders_on_def by blast+
  show ?thesis
    unfolding orders_on_def le
  proof (intro conjI ballI impI)
    fix x y z assume "x \<in> A" "y \<in> A" "z \<in> A" and "f y < f x \<or> (f y = f x \<and> lc (N x) (N y) \<le> 0)"
      and "f z < f y \<or> (f z = f y \<and> lc (N y) (N z) \<le> 0)"
    then show "f z < f x \<or> (f z = f x \<and> lc (N x) (N z) \<le> 0)" using trans[of x y z] by auto
  qed (use total in force)
qed

lemma exceeds_none:
  "exceeds q used request = [] \<longleftrightarrow>
     (\<forall>k n. l_at (quotaBytes q) k = Some n \<longrightarrow> u_at request k \<noteq> 0 \<longrightarrow> u_at used k + u_at request k \<le> n)"
proof -
  have "exceeds q used request = [] \<longleftrightarrow> (\<forall>k\<in>set KEYS. \<forall>n. l_at (quotaBytes q) k = Some n \<longrightarrow> u_at request k \<noteq> 0
      \<longrightarrow> u_at used k + u_at request k \<le> n)"
    unfolding exceeds_def Let_def by (force split: option.splits if_splits)
  then show ?thesis using set_KEYS by blast
qed

text \<open>What makes a placement eligible for a new instance, before memory is looked at.\<close>

definition eligible :: "string option \<Rightarrow> (string \<times> string) list \<Rightarrow> candidate \<Rightarrow> bool" where
  "eligible clusterId selector c \<longleftrightarrow> ca_placementStatus c = ''ready'' \<and> ca_clusterStatus c \<in> USABLE
     \<and> (truthy clusterId \<longrightarrow> ca_clusterId c = the clusterId) \<and> matches_labels selector c"

lemma eligible_pool: "set (filter (matches_labels selector) (ready_pool cs clusterId)) = {c \<in> set cs. eligible clusterId selector c}"
  by (auto simp: ready_pool_def eligible_def)

section \<open>Properties\<close>

definition two_cpus :: quotas where
  "two_cpus = \<lparr>q_instances = None, q_cpu = Some 2, q_memory = None, q_disk = None, q_maxInstanceCpu = None,
     q_maxInstanceMemory = None, q_maxInstanceDisk = None, q_snapshots = None, q_backups = None, q_backupGiB = None,
     q_kubernetes = None\<rparr>"

definition a_candidate :: candidate where
  "a_candidate = \<lparr>ca_clusterId = ''c1'', ca_clusterName = ''one'', ca_project = ''web'', ca_placementStatus = ''ready'',
     ca_clusterStatus = ''degraded'', ca_labels = [], ca_memoryTotal = 8, ca_memoryUsed = 2\<rparr>"



text \<open>
  The server's own check agrees with the limits it sets in Incus: a request that is not over
  the tenant's quota fits the limits of whichever of the tenant's projects it goes to.
\<close>

theorem admitted_fits_project:
  assumes "exceeds q (sumUsage us) request = []" and "i < length us"
    and "l_at (splitLimits q us ! i) k = Some limit" and "u_at request k \<noteq> 0"
  shows "(case us ! i of None \<Rightarrow> 0 | Some x \<Rightarrow> u_at x k) + u_at request k \<le> limit"
proof -
  obtain n where n: "l_at (quotaBytes q) k = Some n"
    using assms(2,3) by (auto simp: splitLimits_def Let_def)
  with assms(1,4) have "u_at (sumUsage us) k + u_at request k \<le> n" by (simp add: exceeds_none)
  with n assms(2,3) show ?thesis by (auto simp: splitLimits_def Let_def ZERO_def split: option.splits)
qed

theorem admitted_fits_project_witness:
  "exceeds two_cpus (sumUsage [None, Some (usage_of (\<lambda>_. 1))]) (usage_of (\<lambda>_. 1)) = []
   \<and> l_at (splitLimits two_cpus [None, Some (usage_of (\<lambda>_. 1))] ! 1) Kcpu = Some 2
   \<and> u_at (usage_of (\<lambda>_. 1)) Kcpu + u_at (usage_of (\<lambda>_. 1)) Kcpu \<le> 2"
proof -
  let ?us = "[None, Some (usage_of (\<lambda>_. 1))]"
  have *: "exceeds two_cpus (sumUsage ?us) (usage_of (\<lambda>_. 1)) = []"
    unfolding exceeds_none
  proof (intro allI impI)
    fix k n assume "l_at (quotaBytes two_cpus) k = Some n"
    then show "u_at (sumUsage ?us) k + u_at (usage_of (\<lambda>_. 1)) k \<le> n"
      by (cases k) (simp_all add: two_cpus_def quotaBytes_def u_at_sum)
  qed
  have l: "l_at (splitLimits two_cpus ?us ! 1) Kcpu = Some 2"
    by (simp add: splitLimits_def two_cpus_def quotaBytes_def u_at_sum Let_def)
  show ?thesis using admitted_fits_project[OF * _ l] * l by simp
qed

text \<open>
  Where a new instance goes. The cluster picked is one of the tenant's ready placements on a
  usable cluster, on the cluster asked for and with the labels asked for. When its memory is
  known it fits, and no other eligible cluster keeps a larger share free (ties by name); a
  cluster without inventory is picked only when no other eligible one fits. Nothing is refused
  but for want of memory on every eligible cluster.
\<close>

theorem choose_best:
  assumes "orders_on (ca_clusterName ` set cs) lc"
  shows "case choose_cluster lc cs memory clusterId selector of
      Pick c \<Rightarrow> c \<in> set cs \<and> eligible clusterId selector c
        \<and> (if ca_memoryTotal c > 0
           then free_after memory c \<ge> 0
             \<and> (\<forall>c'\<in>set cs. eligible clusterId selector c' \<and> ca_memoryTotal c' > 0 \<longrightarrow>
                  free_after memory c' < free_after memory c
                  \<or> (free_after memory c' = free_after memory c \<and> lc (ca_clusterName c) (ca_clusterName c') \<le> 0))
           else \<forall>c'\<in>set cs. eligible clusterId selector c' \<longrightarrow>
             (if ca_memoryTotal c' > 0 then free_after memory c' < 0 else lc (ca_clusterName c) (ca_clusterName c') \<le> 0))
    | NoPick _ \<Rightarrow> \<forall>c\<in>set cs. eligible clusterId selector c \<longrightarrow> ca_memoryTotal c > 0 \<and> free_after memory c < 0"
proof -
  let ?pool = "filter (matches_labels selector) (ready_pool cs clusterId)"
  let ?cmp = "\<lambda>a b. if free_after memory b - free_after memory a \<noteq> 0
    then free_after memory b - free_after memory a else lc (ca_clusterName a) (ca_clusterName b)"
  let ?fits = "filter (\<lambda>c. ca_memoryTotal c > 0 \<and> free_after memory c \<ge> 0) ?pool"
  let ?unknown = "filter (\<lambda>c. ca_memoryTotal c \<le> 0) ?pool"
  note pool = eligible_pool[of selector cs clusterId]
  have sub: "orders_on (ca_clusterName ` A) lc" if "A \<subseteq> set cs" for A
    using assms that unfolding orders_on_def by (meson image_mono subsetD)
  have picked: "sort_by f xs \<noteq> [] \<Longrightarrow> hd (sort_by f xs) \<in> set xs" for f :: "candidate \<Rightarrow> candidate \<Rightarrow> rat" and xs
    by (metis hd_in_set set_sort_by)
  consider (fits) "?fits \<noteq> []" | (unknown) "?fits = []" "?unknown \<noteq> []" | (none) "?fits = []" "?unknown = []" by blast
  then show ?thesis
  proof cases
    case fits
    have "choose_cluster lc cs memory clusterId selector = Pick (hd (sort_by ?cmp ?fits))"
      using fits by (auto simp: choose_cluster_def Let_def filter_empty_conv)
    moreover have "hd (sort_by ?cmp ?fits) \<in> set ?fits" using fits by (intro picked) simp
    moreover have "\<forall>x\<in>set ?fits. ?cmp (hd (sort_by ?cmp ?fits)) x \<le> 0"
      using pool by (intro ballI hd_sort_by_least by_share_orders sub) auto
    ultimately obtain c where c: "choose_cluster lc cs memory clusterId selector = Pick c" "c \<in> set ?fits"
      "\<forall>x\<in>set ?fits. ?cmp c x \<le> 0" by blast
    have "free_after memory x < free_after memory c
        \<or> (free_after memory x = free_after memory c \<and> lc (ca_clusterName c) (ca_clusterName x) \<le> 0)"
      if "x \<in> set ?pool" "ca_memoryTotal x > 0" for x
      using c that by (cases "free_after memory x \<ge> 0") (auto split: if_splits)
    moreover have "c \<in> set ?pool" "ca_memoryTotal c > 0" "free_after memory c \<ge> 0" using c(2) by simp_all
    ultimately show ?thesis using pool unfolding c(1) by (simp add: set_eq_iff)
  next
    case unknown
    let ?c = "hd (sort_by (\<lambda>a b. lc (ca_clusterName a) (ca_clusterName b)) ?unknown)"
    have c: "choose_cluster lc cs memory clusterId selector = Pick ?c"
      using unknown by (auto simp: choose_cluster_def Let_def filter_empty_conv)
    have "?c \<in> set ?unknown" using unknown by (intro picked) simp
    moreover have "lc (ca_clusterName ?c) (ca_clusterName x) \<le> 0" if "x \<in> set ?unknown" for x
    proof (rule hd_sort_by_least[where cmp = "\<lambda>a b. lc (ca_clusterName a) (ca_clusterName b)", OF by_name_orders[where N = ca_clusterName and lc = lc]])
      show "orders_on (ca_clusterName ` set ?unknown) lc" using pool by (intro sub) auto
    qed (use that in simp)
    moreover have "\<forall>x\<in>set ?pool. ca_memoryTotal x > 0 \<longrightarrow> free_after memory x < 0"
      using unknown(1) by (auto simp: filter_empty_conv not_le)
    ultimately show ?thesis using pool unfolding c by (auto simp: not_less)
  next
    case none
    then have "\<exists>r. choose_cluster lc cs memory clusterId selector = NoPick r"
      by (auto simp: choose_cluster_def Let_def)
    then obtain r where r: "choose_cluster lc cs memory clusterId selector = NoPick r" ..
    have "\<forall>x\<in>set ?pool. ca_memoryTotal x > 0 \<and> free_after memory x < 0"
      using none by (auto simp: filter_empty_conv not_le)
    then show ?thesis using pool unfolding r by auto
  qed
qed

theorem choose_best_witness:
  "orders_on (ca_clusterName ` set [a_candidate]) (\<lambda>_ _. 0)
   \<and> choose_cluster (\<lambda>_ _. 0) [a_candidate] 1 None [] = Pick a_candidate
   \<and> eligible None [] a_candidate \<and> free_after 1 a_candidate \<ge> 0"
proof -
  have o: "orders_on (ca_clusterName ` set [a_candidate]) (\<lambda>_ _. 0)" by (simp add: orders_on_def)
  have p: "choose_cluster (\<lambda>_ _. 0) [a_candidate] 1 None [] = Pick a_candidate"
    by (simp add: choose_cluster_def ready_pool_def matches_labels_def USABLE_def free_after_def a_candidate_def sort_by_def)
  have "ca_memoryTotal a_candidate > 0" by (simp add: a_candidate_def)
  with o p choose_best[OF o, where memory = 1 and clusterId = None and selector = "[]"] show ?thesis by auto
qed

text \<open>
  A size without a unit is read a thousand times too large: \<open>bytesOf(\"1073741824\")\<close>, one GiB in
  plain bytes as Incus may give it, is 1073741824000, since the index of the empty string in
  \<open>KMGTP\<close> is 0 and so the power 1. With a unit the size is right.
\<close>

theorem bytes_plain:
  "bytesOf (Some ''1073741824'') = 1073741824000 \<and> bytesOf (Some ''1GiB'') = 1073741824 \<and> bytesOf (Some ''1.5kB'') = 1500"
  using js_round_int[of 1073741824000] js_round_int[of 1073741824] js_round_int[of 1500]
  by (simp add: bytesOf_def decimal_of_def digits_value_def is_unit_def to_upper_def is_digit_def is_lower_def cc_def is_space_def char_of_def bit_0)

end
