(* ===== verification/Facade.thy ===== *)
theory Facade
  imports Merge Tenants
begin

text \<open>
  \<^verbatim>\<open>federation/handler.ts\<close>: the facade that shows every reachable cluster as one. Who is admitted and
  which clusters they reach (\<open>facade_admit\<close>), what is known of a cluster's server (\<open>serverOf\<close>, cached),
  the projects a caller sees that Incus does not show (\<open>withProjects\<close>), one cluster's request (\<open>one\<close>),
  the fan-out (\<open>fanOut\<close>), the choice of a cluster for a new instance (\<open>place\<close>) and the decision on a
  request (\<open>handle\<close>). What a cluster answers to a GET with the caller's token is the argument \<open>up\<close>:
  status and JSON body, or nothing when it does not answer with JSON in time. The parsed referer
  (origin and path), whether the body is too large, and the body (when it is JSON) are part of the request. A value of the query string is read as \<open>URLSearchParams\<close> does for well-formed escapes. The
  reports to the request log, which carry byte counts and durations, are not modelled.
\<close>

section \<open>Requests and state\<close>

record facade_request =
  fq_method :: "string option"
  fq_url :: "string option"
  fq_authorization :: "string option"
  fq_cookie :: "string option"
  fq_origin :: "string option"
  fq_referer :: "(string \<times> string) option"
  fq_scope :: "string option"
  fq_contentType :: "string option"
  fq_tooLarge :: bool
  fq_body :: "json option"

record server_info =
  sv_at :: int
  sv_env :: json
  sv_clustered :: bool

record facade_state =
  fs_cache :: cluster_cache
  fs_sessions :: sessions
  fs_servers :: "(string, server_info) jsmap"

type_synonym upstream = "cluster_row \<Rightarrow> string \<Rightarrow> (int \<times> json) option"

record admitted =
  fa_principal :: principal
  fa_reachable :: "cluster_row list"
  fa_known :: "string list"

datatype facade_admission = Refused int string | Anonymous | Admitted admitted

text \<open>What the facade does: an answer of its own, or the request sent on to one cluster.\<close>

datatype facade_outcome = FError int string | FJson int json | FRelay cluster_row string string "json option"

definition req_url :: "facade_request \<Rightarrow> string" where
  "req_url req = (case fq_url req of None \<Rightarrow> ''/'' | Some u \<Rightarrow> u)"

definition req_method :: "facade_request \<Rightarrow> string" where
  "req_method req = (case fq_method req of None \<Rightarrow> ''GET'' | Some m \<Rightarrow> m)"

definition content_type :: "facade_request \<Rightarrow> string" where
  "content_type req = (case fq_contentType req of None \<Rightarrow> [] | Some v \<Rightarrow> v)"

definition streamed :: "facade_request \<Rightarrow> string \<Rightarrow> bool" where
  "streamed req path =
    (list_ex (contains_ci (content_type req)) [''octet-stream'', ''multipart'', ''x-tar'', ''gzip''] \<or>
     endsWith (before_first CHR ''?'' path) ''/files'')"

text \<open>\<^verbatim>\<open>/\bjson\b/i\<close>: the word, with no word character at either side.\<close>

definition word_char :: "char \<Rightarrow> bool" where
  "word_char c \<longleftrightarrow> is_alnum c \<or> c = CHR ''_''"

definition isJson :: "string \<Rightarrow> bool" where
  "isJson v = list_ex (\<lambda>i. startsWith (drop i (map to_lower v)) ''json'' \<and>
     (i = 0 \<or> \<not> word_char (v ! (i - 1))) \<and> (length v = i + 4 \<or> \<not> word_char (v ! (i + 4)))) [0..<length v]"

text \<open>The bodies that are rewritten: JSON, of no type, or sent as plain text.\<close>

definition rewritable :: "facade_request \<Rightarrow> bool" where
  "rewritable req \<longleftrightarrow> isJson (content_type req) \<or> content_type req = [] \<or> contains_ci (content_type req) ''text/plain''"

definition query_get :: "string \<Rightarrow> string \<Rightarrow> string option" where
  "query_get url k = map_option (\<lambda>p. case pm_v p of None \<Rightarrow> [] | Some v \<Rightarrow> v) (find (\<lambda>p. pm_k p = k) (snd (parse_url url)))"

definition json_truthy :: "json \<Rightarrow> bool" where
  "json_truthy v = (case v of JNull \<Rightarrow> False | JBool b \<Rightarrow> b | JNum r \<Rightarrow> r \<noteq> 0 | JStr s \<Rightarrow> s \<noteq> [] | _ \<Rightarrow> True)"

section \<open>Admission\<close>

definition facade_auth :: "facade_request \<Rightarrow> auth_request" where
  "facade_auth req = \<lparr>rq_method = req_method req, rq_authorization = fq_authorization req, rq_cookie = fq_cookie req,
     rq_origin = fq_origin req\<rparr>"

definition reachable_of :: "snapshot \<Rightarrow> principal \<Rightarrow> cluster_row list \<Rightarrow> cluster_row list" where
  "reachable_of s p all = filter (\<lambda>c. authz_check s (''user:'' @ p_id p) ''can_access'' (''cluster:'' @ cl_id c)) all"

definition facade_admit_as ::
  "snapshot \<Rightarrow> string \<Rightarrow> facade_request \<Rightarrow> bool \<Rightarrow> principal option result \<Rightarrow> cluster_row list \<Rightarrow> facade_admission" where
  "facade_admit_as s publicOrigin req upgrade caller rows =
    (case caller of
       Inl (ApiError status code msg) \<Rightarrow> Refused status msg
     | Inl _ \<Rightarrow> Refused 500 ''Internal error''
     | Inr None \<Rightarrow> Anonymous
     | Inr (Some p) \<Rightarrow>
         if upgrade \<and> \<not> truthy (fq_authorization req) \<and> truthy (fq_origin req) \<and> fq_origin req \<noteq> Some publicOrigin
         then Refused 403 ''Cross-origin requests cannot use the session cookie''
         else let all = filter (\<lambda>c. cl_status c \<noteq> ''disabled'') rows
           in Admitted \<lparr>fa_principal = p, fa_reachable = reachable_of s p all, fa_known = map cl_name all\<rparr>)"

definition facade_admit ::
  "auth_deps \<Rightarrow> (string \<Rightarrow> string \<Rightarrow> rat) \<Rightarrow> string \<Rightarrow> snapshot \<Rightarrow> db \<Rightarrow> int \<Rightarrow> (sessions \<Rightarrow> sessions) \<Rightarrow> int \<Rightarrow> int
   \<Rightarrow> facade_request \<Rightarrow> bool \<Rightarrow> facade_state \<Rightarrow> facade_admission \<times> facade_state" where
  "facade_admit deps lc publicOrigin s d now others locked later req upgrade st =
    (let (sess, caller) = resolvePrincipal deps now others locked later d (fs_sessions st) (facade_auth req);
         st1 = st\<lparr>fs_sessions := sess\<rparr>;
         (rows, cache') = cache_all lc 5000 now d (fs_cache st) in
     case facade_admit_as s publicOrigin req upgrade caller rows of
       Admitted a \<Rightarrow> (Admitted a, st1\<lparr>fs_cache := cache'\<rparr>)
     | x \<Rightarrow> (x, st1))"

section \<open>What is known of a cluster's server\<close>

definition SERVER_TTL_MS :: int where
  "SERVER_TTL_MS = 60000"

definition unknown_server :: server_info where
  "unknown_server = \<lparr>sv_at = 0, sv_env = JObj [], sv_clustered = True\<rparr>"

definition asked_server :: "int \<Rightarrow> (int \<times> json) option \<Rightarrow> server_info option" where
  "asked_server now answer =
    (case answer of
       None \<Rightarrow> None
     | Some (status, j) \<Rightarrow>
         let meta = (if status = 200 then jget j ''metadata'' else None);
             env = field_of meta ''environment'' in
         if field_of meta ''auth'' \<noteq> Some (JStr ''trusted'') \<or> env = None \<or> \<not> json_truthy (the env) then None
         else Some \<lparr>sv_at = now, sv_env = the env,
           sv_clustered = (case jget (the env) ''server_clustered'' of None \<Rightarrow> False | Some v \<Rightarrow> json_truthy v)\<rparr>)"

definition serverOf :: "upstream \<Rightarrow> int \<Rightarrow> cluster_row \<Rightarrow> (string, server_info) jsmap \<Rightarrow> server_info \<times> (string, server_info) jsmap" where
  "serverOf up now c servers =
    (case m_get servers (cl_id c) of
       Some hit \<Rightarrow>
         if now - sv_at hit < SERVER_TTL_MS then (hit, servers)
         else (case asked_server now (up c ''/1.0'') of None \<Rightarrow> (unknown_server, servers)
           | Some sv \<Rightarrow> (sv, m_set servers (cl_id c) sv))
     | None \<Rightarrow>
         (case asked_server now (up c ''/1.0'') of None \<Rightarrow> (unknown_server, servers)
           | Some sv \<Rightarrow> (sv, m_set servers (cl_id c) sv)))"

definition synthetic ::
  "upstream \<Rightarrow> int \<Rightarrow> cluster_row \<Rightarrow> string \<Rightarrow> string \<Rightarrow> (string, server_info) jsmap
   \<Rightarrow> (bool \<times> merged result option) \<times> (string, server_info) jsmap" where
  "synthetic up now c method path servers =
    (let (sv, servers') = serverOf up now c servers in
     if sv_clustered sv then ((False, None), servers')
     else ((True, standaloneView c (sv_env sv) method path (query_get path ''recursion'')
        (case up c ''/1.0/resources'' of None \<Rightarrow> None | Some (_, j) \<Rightarrow> jget j ''metadata'')), servers'))"

section \<open>Projects Incus does not show\<close>

definition seenProjects :: "snapshot \<Rightarrow> db \<Rightarrow> principal \<Rightarrow> cluster_row \<Rightarrow> (string, string) jsmap" where
  "seenProjects s d p c =
     m_of [(pl_project r, te_slug t). r \<leftarrow> db_placements d, t \<leftarrow> db_tenants d,
       te_id t = pl_tenantId r \<and> pl_clusterId r = cl_id c \<and> pl_status r = ''ready'' \<and>
       sees s p (''/clusters/'' @ cl_name c @ ''/projects/'' @ pl_project r)]"

definition projectObject :: "string \<Rightarrow> string \<Rightarrow> json" where
  "projectObject name slug = JObj [(''name'', JStr name), (''description'', JStr (''IncusCloud tenant '' @ slug)),
     (''config'', JObj []), (''used_by'', JArr [])]"

text \<open>The name of a listed project: the last segment of its URL, or the object's name.\<close>

definition listed_name :: "json \<Rightarrow> json option result" where
  "listed_name x =
    (case x of
       JStr u \<Rightarrow> (case decodeURIComponent (last (split_on CHR ''/'' u)) of None \<Rightarrow> Inl (OtherError ''URIError'') | Some n \<Rightarrow> Inr (Some (JStr n)))
     | JNull \<Rightarrow> Inl (OtherError ''TypeError'')
     | v \<Rightarrow> Inr (jget v ''name''))"

definition listed_projects :: "json \<Rightarrow> json list result" where
  "listed_projects j =
    (case jget j ''metadata'' of None \<Rightarrow> Inr [] | Some JNull \<Rightarrow> Inr [] | Some (JArr xs) \<Rightarrow> Inr xs | Some _ \<Rightarrow> Inl (OtherError ''TypeError''))"

definition withProjects ::
  "snapshot \<Rightarrow> db \<Rightarrow> principal \<Rightarrow> cluster_row \<Rightarrow> string \<Rightarrow> int \<Rightarrow> json \<Rightarrow> (int \<times> json) result" where
  "withProjects s d p c path status j =
    (let bare = before_first CHR ''?'' path; seen = seenProjects s d p c in
     case (if status = 403 then project_path bare else None) of
       Some (n, False) \<Rightarrow>
         (case decodeURIComponent n of
            None \<Rightarrow> Inl (OtherError ''URIError'')
          | Some name \<Rightarrow>
              if truthy (m_get seen name) then Inr (200, syncOf (projectObject name (the (m_get seen name)))) else Inr (status, j))
     | _ \<Rightarrow>
         if bare = ''/1.0/projects'' \<and> status = 200 then
           then_do (listed_projects j) (\<lambda>list. then_do (results (map listed_name list)) (\<lambda>has.
             let recursive = (truthy (query_get path ''recursion'') \<and> query_get path ''recursion'' \<noteq> Some ''0'');
                 extra = filter (\<lambda>(name, slug). Some (JStr name) \<notin> set has) seen in
             if extra = [] then Inr (status, j)
             else Inr (status, JObj (m_set (spread_of j) ''metadata'' (JArr (list @
               map (\<lambda>(name, slug). if recursive then projectObject name slug else JStr (''/1.0/projects/'' @ encodeURIComponent name)) extra))))))
         else Inr (status, j))"

section \<open>One cluster\<close>

text \<open>The server's own answer says it is clustered, and has the console's settings under its own.\<close>

definition console_server :: "bool \<Rightarrow> bool \<Rightarrow> (string \<times> json) list \<Rightarrow> json \<Rightarrow> json" where
  "console_server standalone isGet consoleConfig v =
    (case v of
       JObj es \<Rightarrow>
         (case m_get es ''metadata'' of
            Some (JObj ms) \<Rightarrow>
              let ms1 = (case m_get ms ''environment'' of
                    Some (JObj env) \<Rightarrow> if standalone then m_set ms ''environment'' (JObj (m_set env ''server_clustered'' (JBool True))) else ms
                  | _ \<Rightarrow> ms);
                  ms2 = (if isGet then m_set ms1 ''config'' (JObj (fold (\<lambda>(k, x) m. m_set m k x)
                      (case m_get ms1 ''config'' of Some x \<Rightarrow> spread_of x | None \<Rightarrow> []) consoleConfig)) else ms1)
              in JObj (m_set es ''metadata'' (JObj ms2))
          | _ \<Rightarrow> v)
     | _ \<Rightarrow> v)"

definition one_qualify :: "(string \<times> json) list \<Rightarrow> cluster_row \<Rightarrow> bool \<Rightarrow> string \<Rightarrow> string \<Rightarrow> json \<Rightarrow> json" where
  "one_qualify consoleConfig c standalone method path j =
    (let out = qualifyResponse path j (cl_name c) standalone in
     if path = ''/1.0'' then console_server standalone (method = ''GET'') consoleConfig out else out)"

text \<open>\<^verbatim>\<open>/^\/1\.0\/projects(?:\/[^/?]+)?(?:\?|$)/\<close>\<close>

definition projects_read :: "string \<Rightarrow> bool" where
  "projects_read path =
    (let bare = before_first CHR ''?'' path in
     bare = ''/1.0/projects'' \<or> (case project_path bare of Some (n, False) \<Rightarrow> True | _ \<Rightarrow> False))"

definition one ::
  "upstream \<Rightarrow> snapshot \<Rightarrow> db \<Rightarrow> (string \<times> json) list \<Rightarrow> int \<Rightarrow> facade_request \<Rightarrow> principal \<Rightarrow> cluster_row \<Rightarrow> bool
   \<Rightarrow> (string, server_info) jsmap \<Rightarrow> facade_outcome \<times> (string, server_info) jsmap" where
  "one up s d consoleConfig now req p c given servers =
    (let url = req_url req; method = req_method req;
         ((standalone, view), servers') = synthetic up now c method (stripRequest url (cl_name c) False) servers;
         path = stripRequest url (cl_name c) standalone;
         readHere = (\<not> given \<and> method \<noteq> ''GET'' \<and> method \<noteq> ''HEAD'' \<and> \<not> streamed req url) in
     case view of
       Some (Inl _) \<Rightarrow> (FError 500 ''Internal error'', servers')
     | Some (Inr m) \<Rightarrow> (FJson (me_status m) (one_qualify consoleConfig c standalone method path (me_body m)), servers')
     | None \<Rightarrow>
         if method = ''GET'' \<and> projects_read path then
           (case up c path of
              None \<Rightarrow> (FError 502 (''Cluster \"'' @ cl_name c @ ''\" did not answer''), servers')
            | Some (status, j) \<Rightarrow>
                (case withProjects s d p c path status j of
                   Inl _ \<Rightarrow> (FError 502 (''Cluster \"'' @ cl_name c @ ''\" did not answer''), servers')
                 | Inr (st, j') \<Rightarrow> (FJson st (one_qualify consoleConfig c standalone method path j'), servers')))
         else if readHere \<and> fq_tooLarge req then (FError 413 ''Request body too large'', servers')
         else (FRelay c method path (if (given \<or> readHere) \<and> rewritable req then map_option (stripBody (cl_name c)) (fq_body req) else None), servers'))"

section \<open>All of them\<close>

definition fan_answer ::
  "upstream \<Rightarrow> snapshot \<Rightarrow> db \<Rightarrow> int \<Rightarrow> string \<Rightarrow> principal \<Rightarrow> cluster_row \<Rightarrow> (string, server_info) jsmap
   \<Rightarrow> answer option result \<times> (string, server_info) jsmap" where
  "fan_answer up s d now url p c servers =
    (let ((standalone, view), servers') = synthetic up now c ''GET'' (stripRequest url (cl_name c) False) servers;
         path = stripRequest url (cl_name c) standalone;
         qualified = (\<lambda>status j. Some \<lparr>an_cluster = cl_name c, an_status = status, an_json = qualifyResponse path j (cl_name c) standalone\<rparr>) in
     case view of
       Some (Inl e) \<Rightarrow> (Inl e, servers')
     | Some (Inr m) \<Rightarrow> (Inr (qualified (me_status m) (me_body m)), servers')
     | None \<Rightarrow>
         (Inr (case up c path of
            None \<Rightarrow> None
          | Some (status, j) \<Rightarrow> (case withProjects s d p c path status j of Inl _ \<Rightarrow> None | Inr (st, j') \<Rightarrow> qualified st j')), servers'))"

fun fanOut ::
  "upstream \<Rightarrow> snapshot \<Rightarrow> db \<Rightarrow> int \<Rightarrow> string \<Rightarrow> principal \<Rightarrow> cluster_row list \<Rightarrow> (string, server_info) jsmap
   \<Rightarrow> answer option list result \<times> (string, server_info) jsmap" where
  "fanOut up s d now url p [] servers = (Inr [], servers)"
| "fanOut up s d now url p (c # cs) servers =
    (let (a, servers1) = fan_answer up s d now url p c servers;
         (rest, servers2) = fanOut up s d now url p cs servers1
     in (then_do a (\<lambda>x. then_do rest (\<lambda>xs. Inr (x # xs))), servers2))"

section \<open>Placing a new instance\<close>

text \<open>
  \<open>memoryOf\<close> reads the text of \<open>limits.memory\<close> as \<open>bytesOf\<close> does. The text of a number is its decimal
  digits below 10\<open>\<^sup>2\<^sup>1\<close> (tiny ones round to 0 in either form), that of a list is its elements' joined by
  commas.
\<close>

fun memory_value :: "json \<Rightarrow> int" where
  "memory_value (JStr v) = bytesOf (Some v)"
| "memory_value (JNum r) = (if 0 \<le> r \<and> r < 10 ^ 21 then js_round (r * 1000) else 0)"
| "memory_value (JArr [x]) = memory_value x"
| "memory_value _ = 0"

definition memoryOf :: "json \<Rightarrow> int" where
  "memoryOf body = (case field_of (jget body ''config'') ''limits.memory'' of None \<Rightarrow> 0 | Some v \<Rightarrow> memory_value v)"

definition online_memory :: "db \<Rightarrow> (cluster_member_row \<Rightarrow> int) \<Rightarrow> string \<Rightarrow> int" where
  "online_memory d f i = sum_list (map f (filter (\<lambda>m. cm_clusterId m = i \<and> cm_status m = ''Online'') (db_clusterMembers d)))"

definition place_candidate :: "db \<Rightarrow> string \<Rightarrow> cluster_row \<Rightarrow> candidate" where
  "place_candidate d project c = \<lparr>ca_clusterId = cl_id c, ca_clusterName = cl_name c, ca_project = project,
     ca_placementStatus = ''ready'', ca_clusterStatus = cl_status c, ca_labels = cl_labels c,
     ca_memoryTotal = online_memory d cm_memoryTotal (cl_id c), ca_memoryUsed = online_memory d cm_memoryUsed (cl_id c)\<rparr>"

definition showing :: "cluster_row list \<Rightarrow> answer option list \<Rightarrow> cluster_row list" where
  "showing reachable probes = map fst (filter (\<lambda>(c, a). case a of None \<Rightarrow> False | Some x \<Rightarrow> an_status x = 200) (zip reachable probes))"

definition place ::
  "(string \<Rightarrow> string \<Rightarrow> rat) \<Rightarrow> upstream \<Rightarrow> snapshot \<Rightarrow> db \<Rightarrow> (string \<times> json) list \<Rightarrow> int \<Rightarrow> facade_request \<Rightarrow> admitted \<Rightarrow> (string, server_info) jsmap
   \<Rightarrow> facade_outcome \<times> (string, server_info) jsmap" where
  "place lc up s d consoleConfig now req a servers =
    (let project = (case query_get (req_url req) ''project'' of None \<Rightarrow> ''default'' | Some v \<Rightarrow> v) in
     if fq_tooLarge req then (FError 413 ''Request body too large'', servers)
     else case fanOut up s d now (''/1.0/projects/'' @ encodeURIComponent project) (fa_principal a) (fa_reachable a) servers of
       (Inl _, servers') \<Rightarrow> (FError 500 ''Internal error'', servers')
     | (Inr probes, servers') \<Rightarrow>
         let has = showing (fa_reachable a) probes;
             body = (case fq_body req of None \<Rightarrow> JObj [] | Some b \<Rightarrow> b) in
         (case choose_cluster lc (map (place_candidate d project) has) (memoryOf body) None [] of
            NoPick reason \<Rightarrow>
              (if has \<noteq> [] then FError 409 reason else FError 404 (''Project \"'' @ project @ ''\" is on none of your clusters''), servers')
          | Pick k \<Rightarrow>
              (case find (\<lambda>c. cl_id c = ca_clusterId k) has of
                 None \<Rightarrow> (FError 500 ''Internal error'', servers')
               | Some c \<Rightarrow> one up s d consoleConfig now req (fa_principal a) c True servers')))"

section \<open>The decision on a request\<close>

definition referer_path :: "string \<Rightarrow> facade_request \<Rightarrow> string option" where
  "referer_path publicOrigin req =
    (case fq_referer req of None \<Rightarrow> None | Some (origin, path) \<Rightarrow> if origin = publicOrigin then Some path else None)"

definition dispatch ::
  "(string \<Rightarrow> string \<Rightarrow> rat) \<Rightarrow> upstream \<Rightarrow> string \<Rightarrow> snapshot \<Rightarrow> db \<Rightarrow> (string \<times> json) list \<Rightarrow> int \<Rightarrow> facade_request \<Rightarrow> admitted \<Rightarrow> (string, server_info) jsmap
   \<Rightarrow> facade_outcome \<times> (string, server_info) jsmap" where
  "dispatch lc up publicOrigin s d consoleConfig now req a servers =
    (let url = req_url req; method = req_method req; path = before_first CHR ''?'' url in
     case targetOf url (referer_path publicOrigin req) (fa_known a) (if truthy (fq_scope req) then fq_scope req else None) of
       Conflict cs \<Rightarrow> (FError 400 (''The request names several clusters ('' @ join_with '', '' cs @ '')''), servers)
     | One n \<Rightarrow>
         (case find (\<lambda>c. cl_name c = n) (fa_reachable a) of
            None \<Rightarrow> (FError 403 (''You have no access to cluster \"'' @ n @ ''\"''), servers)
          | Some c \<Rightarrow> one up s d consoleConfig now req (fa_principal a) c False servers)
     | Every \<Rightarrow>
         if method = ''GET'' \<or> method = ''HEAD'' then
           (case fanOut up s d now url (fa_principal a) (fa_reachable a) servers of
              (Inl _, servers') \<Rightarrow> (FError 500 ''Internal error'', servers')
            | (Inr answers, servers') \<Rightarrow>
                (case merge path answers (length (fa_reachable a)) (if path = ''/1.0'' then consoleConfig else []) of
                   Inl _ \<Rightarrow> (FError 500 ''Internal error'', servers')
                 | Inr m \<Rightarrow> (FJson (me_status m) (me_body m), servers')))
         else if method = ''POST'' \<and> path = ''/1.0/instances'' then place lc up s d consoleConfig now req a servers
         else (FError 400 ''Choose a cluster: this change names none (open the project on one cluster, as name@cluster)'', servers))"

definition handle ::
  "auth_deps \<Rightarrow> (string \<Rightarrow> string \<Rightarrow> rat) \<Rightarrow> upstream \<Rightarrow> string \<Rightarrow> snapshot \<Rightarrow> db \<Rightarrow> (string \<times> json) list \<Rightarrow> int \<Rightarrow> (sessions \<Rightarrow> sessions) \<Rightarrow> int \<Rightarrow> int
   \<Rightarrow> facade_request \<Rightarrow> facade_state \<Rightarrow> facade_outcome \<times> facade_state" where
  "handle deps lc up publicOrigin s d consoleConfig now others locked later req st =
    (case facade_admit deps lc publicOrigin s d now others locked later req False st of
       (Refused status msg, st1) \<Rightarrow> (FError status msg, st1)
     | (Anonymous, st1) \<Rightarrow>
         (if req_method req = ''GET'' \<and> before_first CHR ''?'' (req_url req) = ''/1.0''
          then FJson (me_status untrustedServer) (me_body untrustedServer)
          else FError 401 ''Sign in to IncusCloud first'', st1)
     | (Admitted a, st1) \<Rightarrow>
         let (o', servers') = dispatch lc up publicOrigin s d consoleConfig now req a (fs_servers st1)
         in (o', st1\<lparr>fs_servers := servers'\<rparr>))"

section \<open>What an answer depends on\<close>

text \<open>A cluster is asked only for itself: what another one answers does not matter.\<close>

lemma serverOf_cong:
  assumes "up c = up' c"
  shows "serverOf up now c sv = serverOf up' now c sv"
  unfolding serverOf_def assms ..

lemma synthetic_cong:
  assumes "up c = up' c"
  shows "synthetic up now c method path sv = synthetic up' now c method path sv"
  unfolding synthetic_def serverOf_cong[of up c up', OF assms] assms ..

lemma one_cong:
  assumes "up c = up' c"
  shows "one up s d cfg now req p c given sv = one up' s d cfg now req p c given sv"
  unfolding one_def synthetic_cong[of up c up', OF assms] assms ..

lemma fan_answer_cong:
  assumes "up c = up' c"
  shows "fan_answer up s d now url p c sv = fan_answer up' s d now url p c sv"
  unfolding fan_answer_def synthetic_cong[of up c up', OF assms] assms ..

lemma fanOut_cong: "(\<And>c. c \<in> set cs \<Longrightarrow> up c = up' c) \<Longrightarrow> fanOut up s d now url p cs sv = fanOut up' s d now url p cs sv"
  by (induction cs arbitrary: sv) (simp_all add: fan_answer_cong[of up _ up'])

lemma showing_subset: "set (showing reachable probes) \<subseteq> set reachable"
  by (auto simp: showing_def dest: set_zip_leftD)

lemma place_cong:
  assumes "\<And>c. c \<in> set (fa_reachable a) \<Longrightarrow> up c = up' c"
  shows "place lc up s d cfg now req a sv = place lc up' s d cfg now req a sv"
proof -
  have fan: "fanOut up s d now url p (fa_reachable a) sv = fanOut up' s d now url p (fa_reachable a) sv" for url p sv
    using assms by (rule fanOut_cong)
  have chosen: "one up s d cfg now req p c given sv = one up' s d cfg now req p c given sv"
    if "find (\<lambda>c. cl_id c = i) (showing (fa_reachable a) probes) = Some c" for p c given sv i probes
    using find_mem[OF that] showing_subset[of "fa_reachable a" probes] assms by (intro one_cong) auto
  have pick: "(case find (\<lambda>c. cl_id c = i) (showing (fa_reachable a) probes) of None \<Rightarrow> x | Some c \<Rightarrow> one up s d cfg now req p c given sv) =
      (case find (\<lambda>c. cl_id c = i) (showing (fa_reachable a) probes) of None \<Rightarrow> x | Some c \<Rightarrow> one up' s d cfg now req p c given sv)" for i probes x p given sv
    by (cases "find (\<lambda>c. cl_id c = i) (showing (fa_reachable a) probes)") (simp_all only: option.case chosen)
  show ?thesis unfolding place_def fan Let_def pick ..
qed

lemma dispatch_cong:
  assumes "\<And>c. c \<in> set (fa_reachable a) \<Longrightarrow> up c = up' c"
  shows "dispatch lc up origin s d cfg now req a sv = dispatch lc up' origin s d cfg now req a sv"
proof -
  have fan: "fanOut up s d now url p (fa_reachable a) sv = fanOut up' s d now url p (fa_reachable a) sv" for url p sv
    using assms by (rule fanOut_cong)
  have one: "one up s d cfg now req p c given sv = one up' s d cfg now req p c given sv"
    if "find (\<lambda>c. cl_name c = n) (fa_reachable a) = Some c" for p c given sv n
    using find_mem[OF that] assms by (intro one_cong) auto
  have place: "place lc up s d cfg now req a sv = place lc up' s d cfg now req a sv"
    using assms by (rule place_cong)
  show ?thesis
    unfolding dispatch_def fan place Let_def
    by (cases "targetOf (req_url req) (referer_path origin req) (fa_known a) (if truthy (fq_scope req) then fq_scope req else None)")
       (simp_all add: one split: option.split)
qed

section \<open>Who is admitted, and to what\<close>

lemma admit_asE:
  assumes "facade_admit_as s origin req upgrade caller rows = Admitted a"
  shows "caller = Inr (Some (fa_principal a)) \<and> fa_known a = map cl_name (filter (\<lambda>c. cl_status c \<noteq> ''disabled'') rows) \<and>
    set (fa_reachable a) = {c \<in> set rows. cl_status c \<noteq> ''disabled'' \<and>
      authz_check s (''user:'' @ p_id (fa_principal a)) ''can_access'' (''cluster:'' @ cl_id c)}"
proof -
  obtain p where p: "caller = Inr (Some p)"
    using assms by (cases caller) (auto simp: facade_admit_as_def split: failure.splits option.splits)
  show ?thesis
    using assms unfolding facade_admit_as_def p by (auto simp: Let_def reachable_of_def split: if_splits)
qed

lemma facade_admitE:
  assumes "facade_admit deps lc origin s d now others locked later req upgrade st = (Admitted a, st1)"
  obtains sess where "resolvePrincipal deps now others locked later d (fs_sessions st) (facade_auth req) = (sess, Inr (Some (fa_principal a)))"
    and "fa_known a = map cl_name (filter (\<lambda>c. cl_status c \<noteq> ''disabled'') (fst (cache_all lc 5000 now d (fs_cache st))))"
    and "set (fa_reachable a) = {c \<in> set (fst (cache_all lc 5000 now d (fs_cache st))). cl_status c \<noteq> ''disabled'' \<and>
      authz_check s (''user:'' @ p_id (fa_principal a)) ''can_access'' (''cluster:'' @ cl_id c)}"
    and "fs_servers st1 = fs_servers st"
proof -
  obtain sess caller where r: "resolvePrincipal deps now others locked later d (fs_sessions st) (facade_auth req) = (sess, caller)" by fastforce
  obtain rows cache' where c: "cache_all lc 5000 now d (fs_cache st) = (rows, cache')" by fastforce
  have a: "facade_admit_as s origin req upgrade caller rows = Admitted a" "fs_servers st1 = fs_servers st"
    using assms by (auto simp: facade_admit_def r c Let_def split: facade_admission.splits)
  from admit_asE[OF a(1)] show thesis using that r a(2) by (simp add: c)
qed

lemma one_relayE:
  assumes "one up s d cfg now req p c given sv = (FRelay c' m path b, sv')"
  shows "c' = c \<and> m = req_method req \<and> (\<exists>standalone. path = stripRequest (req_url req) (cl_name c) standalone)"
proof -
  obtain sa view sv1 where y: "synthetic up now c (req_method req) (stripRequest (req_url req) (cl_name c) False) sv = ((sa, view), sv1)"
    by (metis surj_pair)
  show ?thesis
    using assms unfolding one_def Let_def y by (auto split: option.splits sum.splits if_splits prod.splits)
qed

lemma place_relayE:
  assumes "place lc up s d cfg now req a sv = (FRelay c m path b, sv')"
  shows "c \<in> set (fa_reachable a) \<and> m = req_method req \<and> (\<exists>standalone. path = stripRequest (req_url req) (cl_name c) standalone)"
proof -
  obtain probes sv1 i c0 where c0: "find (\<lambda>c. cl_id c = i) (showing (fa_reachable a) probes) = Some c0"
    and o: "one up s d cfg now req (fa_principal a) c0 True sv1 = (FRelay c m path b, sv')"
  proof -
    obtain x sv1 where x: "fanOut up s d now (''/1.0/projects/'' @ encodeURIComponent (case query_get (req_url req) ''project'' of None \<Rightarrow> ''default'' | Some v \<Rightarrow> v))
        (fa_principal a) (fa_reachable a) sv = (x, sv1)" by fastforce
    show thesis
      using assms that unfolding place_def Let_def x
      by (cases x) (auto split: if_splits choice.splits option.splits)
  qed
  from find_mem[OF c0] have "c0 \<in> set (fa_reachable a)" using showing_subset by blast
  with one_relayE[OF o] show ?thesis by blast
qed

lemma dispatch_relayE:
  assumes "dispatch lc up origin s d cfg now req a sv = (FRelay c m path b, sv')"
  shows "c \<in> set (fa_reachable a) \<and> m = req_method req \<and> (\<exists>standalone. path = stripRequest (req_url req) (cl_name c) standalone) \<and>
    (\<exists>ref scope. targetOf (req_url req) ref (fa_known a) scope = One (cl_name c) \<or> targetOf (req_url req) ref (fa_known a) scope = Every)"
proof -
  let ?t = "targetOf (req_url req) (referer_path origin req) (fa_known a) (if truthy (fq_scope req) then fq_scope req else None)"
  show ?thesis
  proof (cases ?t)
    case (One n)
    then obtain c0 where c0: "find (\<lambda>c. cl_name c = n) (fa_reachable a) = Some c0"
      and o: "one up s d cfg now req (fa_principal a) c0 False sv = (FRelay c m path b, sv')"
      using assms by (auto simp: dispatch_def Let_def split: option.splits)
    from find_mem[OF c0] one_relayE[OF o] One show ?thesis by metis
  next
    case Every
    then have "place lc up s d cfg now req a sv = (FRelay c m path b, sv')"
      using assms by (auto simp: dispatch_def Let_def split: if_splits prod.splits sum.splits)
    with place_relayE Every show ?thesis by blast
  next
    case (Conflict cs)
    then show ?thesis using assms by (simp add: dispatch_def Let_def)
  qed
qed

section \<open>The projects a list shows\<close>

definition projects_listed :: "json \<Rightarrow> string set" where
  "projects_listed j = {n. \<exists>xs has. listed_projects j = Inr xs \<and> results (map listed_name xs) = Inr has \<and> Some (JStr n) \<in> set has}"

lemma keys_m_of: "fst ` set (m_of es) = fst ` set es"
proof -
  have "fst ` set (fold (\<lambda>e m. m_set m (fst e) (snd e)) es m) = fst ` set m \<union> fst ` set es" for m :: "('a \<times> 'b) list"
  proof (induction es arbitrary: m)
    case (Cons e es)
    have "set (map fst (m_set m (fst e) (snd e))) = insert (fst e) (set (map fst m))"
      by (auto simp: keys_m_set)
    then have "fst ` set (m_set m (fst e) (snd e)) = insert (fst e) (fst ` set m)" by simp
    then show ?case using Cons by simp
  qed simp
  from this[of "[]"] show ?thesis by (simp add: m_of_def)
qed

lemma seen_keys:
  "fst ` set (seenProjects s d p c) = {pl_project r | r t. r \<in> set (db_placements d) \<and> t \<in> set (db_tenants d) \<and>
     te_id t = pl_tenantId r \<and> pl_clusterId r = cl_id c \<and> pl_status r = ''ready'' \<and>
     sees s p (''/clusters/'' @ cl_name c @ ''/projects/'' @ pl_project r)}"
  unfolding seenProjects_def keys_m_of by (auto simp: image_iff) blast

lemma encode_no_slash: "CHR ''/'' \<notin> set (encodeURIComponent s)"
proof -
  have hex: "hex_upper n \<noteq> CHR ''/''" if "n < 16" for n
    using that hex_value_upper[OF that] by (auto simp: hex_value_def cc_def)
  have "CHR ''/'' \<notin> set (if unreserved c then [c] else escaped c)" for c
    using unreserved_not[of c] hex[of "cc c div 16"] hex[of "cc c mod 16"] cc_less[of c]
    by (auto simp: escaped_def less_mult_imp_div_less)
  then show ?thesis unfolding encodeURIComponent_def set_concat set_map by blast
qed

lemma listed_url:
  assumes "utf8 n"
  shows "listed_name (JStr (''/1.0/projects/'' @ encodeURIComponent n)) = Inr (Some (JStr n))"
proof -
  have "split_on CHR ''/'' (encodeURIComponent n) = [encodeURIComponent n]"
    using encode_no_slash by (rule split_on_no_sep)
  then have "last (split_on CHR ''/'' (''/1.0/projects/'' @ encodeURIComponent n)) = encodeURIComponent n" by simp
  then show ?thesis by (simp add: listed_name_def decode_encode[OF assms])
qed

lemma listed_object: "listed_name (projectObject n slug) = Inr (Some (JStr n))"
  by (simp add: listed_name_def projectObject_def jget_def m_get_Cons)

section \<open>Properties\<close>


text \<open>
  C30: What a caller may not reach cannot show through: whatever the clusters the caller has no access
  to would answer, the facade's answer, what it relays and what it remembers are the same.
\<close>

theorem unreachable_unseen:
  assumes "\<forall>p c. snd (resolvePrincipal deps now others locked later d (fs_sessions st) (facade_auth req)) = Inr (Some p) \<and>
      cl_status c \<noteq> ''disabled'' \<and> authz_check s (''user:'' @ p_id p) ''can_access'' (''cluster:'' @ cl_id c) \<longrightarrow> up c = up' c"
  shows "handle deps lc up origin s d cfg now others locked later req st = handle deps lc up' origin s d cfg now others locked later req st"
proof -
  obtain x st1 where ad: "facade_admit deps lc origin s d now others locked later req False st = (x, st1)" by fastforce
  show ?thesis
  proof (cases x)
    case (Admitted a)
    obtain sess where A: "resolvePrincipal deps now others locked later d (fs_sessions st) (facade_auth req) = (sess, Inr (Some (fa_principal a)))"
      "set (fa_reachable a) = {c \<in> set (fst (cache_all lc 5000 now d (fs_cache st))). cl_status c \<noteq> ''disabled'' \<and>
        authz_check s (''user:'' @ p_id (fa_principal a)) ''can_access'' (''cluster:'' @ cl_id c)}"
      using ad[unfolded Admitted] by (rule facade_admitE)
    have "dispatch lc up origin s d cfg now req a sv = dispatch lc up' origin s d cfg now req a sv" for sv
      using assms A by (intro dispatch_cong) auto
    then show ?thesis by (simp add: handle_def ad Admitted)
  qed (simp_all add: handle_def ad)
qed

text \<open>
  A list of a cluster's projects shows what Incus lists and, besides, exactly the ready
  projects of tenants there that the caller sees by their permissions.
\<close>

theorem projects_filled:
  assumes "before_first CHR ''?'' path = ''/1.0/projects''" "listed_projects j = Inr xs" "results (map listed_name xs) = Inr has"
    and "\<forall>r\<in>set (db_placements d). utf8 (pl_project r)"
  shows "\<exists>j'. withProjects s d p c path 200 j = Inr (200, j') \<and>
    projects_listed j' = projects_listed j \<union> {pl_project r | r t. r \<in> set (db_placements d) \<and> t \<in> set (db_tenants d) \<and>
     te_id t = pl_tenantId r \<and> pl_clusterId r = cl_id c \<and> pl_status r = ''ready'' \<and>
     sees s p (''/clusters/'' @ cl_name c @ ''/projects/'' @ pl_project r)}"
proof -
  let ?seen = "seenProjects s d p c"
  define extra where "extra = filter (\<lambda>(name, slug). Some (JStr name) \<notin> set has) ?seen"
  define rec where "rec \<longleftrightarrow> truthy (query_get path ''recursion'') \<and> query_get path ''recursion'' \<noteq> Some ''0''"
  define more where "more = map (\<lambda>(name, slug). if rec then projectObject name slug else JStr (''/1.0/projects/'' @ encodeURIComponent name)) extra"
  have before: "projects_listed j = {n. Some (JStr n) \<in> set has}" using assms(2,3) by (auto simp: projects_listed_def)
  have all: "projects_listed j \<union> fst ` set extra = projects_listed j \<union> fst ` set ?seen"
    unfolding before extra_def by (auto simp: image_iff)
  have w: "withProjects s d p c path 200 j =
      (if extra = [] then Inr (200, j) else Inr (200, JObj (m_set (spread_of j) ''metadata'' (JArr (xs @ more)))))"
    using assms(1-3) by (simp add: withProjects_def Let_def extra_def more_def rec_def)
  show ?thesis
  proof (cases "extra = []")
    case True
    then show ?thesis using w all unfolding seen_keys by auto
  next
    case False
    let ?j = "JObj (m_set (spread_of j) ''metadata'' (JArr (xs @ more)))"
    have utf: "utf8 n" if "(n, slug) \<in> set extra" for n slug
    proof -
      have "n \<in> fst ` set ?seen" using that by (force simp: extra_def)
      then show ?thesis using assms(4) unfolding seen_keys by auto
    qed
    have "results (map listed_name more) = Inr (map (\<lambda>e. Some (JStr (fst e))) extra)"
      unfolding more_def map_map using utf by (intro results_map) (auto simp: listed_object listed_url[simplified])
    from results_append[OF assms(3) this] have "results (map listed_name (xs @ more)) = Inr (has @ map (\<lambda>e. Some (JStr (fst e))) extra)"
      by simp
    moreover have "listed_projects ?j = Inr (xs @ more)" by (simp add: listed_projects_def jget_def)
    ultimately have "projects_listed ?j = projects_listed j \<union> fst ` set extra"
      unfolding before by (auto simp: projects_listed_def)
    then show ?thesis using w False all unfolding seen_keys by auto
  qed
qed

section \<open>Following a URL of an answer\<close>

lemma CLUSTER_NAME_plain: "CLUSTER_NAME n \<Longrightarrow> plain n"
  using CLUSTER_NAME_chars by (auto simp: plain_def list_all_iff label_char_def unreserved_def is_alnum_def)

lemma qualify_inj:
  assumes "CHR ''@'' \<notin> set c" "CHR ''@'' \<notin> set c'" "qualify n c = qualify n' c'"
  shows "c = c'"
  using assms after_last_append[of "CHR ''@''" c n] after_last_append[of "CHR ''@''" c' n'] by (simp add: qualify_def)

lemma distinct_singleton:
  assumes "set xs = {x}" "distinct xs"
  shows "xs = [x]"
proof (cases xs)
  case (Cons y ys)
  with assms have "y = x" "set ys \<subseteq> {x}" "y \<notin> set ys" by auto
  then have "ys = []" by (cases ys) auto
  with Cons \<open>y = x\<close> show ?thesis by simp
qed (use assms in simp)

text \<open>A URL says where it belongs: by the name of a global entity or by its project.\<close>

definition placed_url :: "string list \<Rightarrow> (string \<times> string) list \<Rightarrow> bool" where
  "placed_url segs ps \<longleftrightarrow> (\<exists>i. name_at segs = Some i \<and> seg_at segs i \<noteq> []) \<or> (\<exists>v. v \<noteq> [] \<and> (''project'', v) \<in> set (ps @ implied segs ps))"

lemma pair_param_v: "pm_v (pair_param kv) = Some w \<longleftrightarrow> snd kv = w"
  by (simp add: pair_param_def)

lemma named_by_url:
  assumes "plain_url segs ps" "CLUSTER_NAME (cx_cluster c)" "CLUSTER_NAME n" "\<not> cx_standalone c"
    and named: "names_cluster (qualifyUrl (url_of segs ps) c) n"
  shows "n = cx_cluster c"
proof -
  have plain: "plain (cx_cluster c)" using assms(2) by (rule CLUSTER_NAME_plain)
  have at: "CHR ''@'' \<notin> set n" "CHR ''@'' \<notin> set (cx_cluster c)" using assms(2,3) CLUSTER_NAME_plain plain_no_at by blast+
  have q: "n = cx_cluster c" if "qualify x n = q_of y c" "plain y" for x y
    using qualify_inj[OF at] that plain_no_at[OF that(2)] by (auto simp: q_of_def qualify_def split: if_splits)
  have plain_not: "\<not> plain (qualify x n)" for x using plain_no_at[of "qualify x n"] by (auto simp: qualify_def)
  have segs: "\<And>s. s \<in> set segs \<Longrightarrow> plain s" using assms(1) by (auto simp: plain_url_def list_all_iff)
  consider (seg) s x where "s \<in> set (qualify_segments c segs)" "decode s = qualify x n"
    | (pair) kv x where "kv \<in> set (ps @ implied segs ps)" "snd (qualify_pair c kv) = qualify x n"
    using named unfolding names_cluster_def parse_qualified[OF assms(1) plain] Let_def prod.case set_map comp_def bex_simps(7) pair_param_v by blast
  then show ?thesis
  proof cases
    case seg
    then have s: "s = qualify x n" using qualify_segments_safe[OF segs plain] decode_urlsafe by simp
    then have "s \<notin> set segs" using segs plain_not by auto
    then obtain i where "i < length segs" "s = q_of (decode (segs ! i)) c"
      using seg(1) by (auto simp: qualify_segments_def seg_at_def split: option.splits if_splits dest!: subsetD[OF set_update_subset_insert])
    then show ?thesis using q[of x "segs ! i"] s segs[of "segs ! i"] by (simp add: decode_urlsafe plain_urlsafe)
  next
    case pair
    have kv: "plain (snd kv)" using implied_plain[OF assms(1) pair(1)] by simp
    then have "snd (qualify_pair c kv) = q_of (snd kv) c"
      using pair(2) plain_not[of x] assms(4) by (auto simp: qualify_pair_def member_def split: if_splits)
    then show ?thesis using q[of x "snd kv"] pair(2) kv by simp
  qed
qed

lemma url_names:
  assumes "plain_url segs ps" "plain (cx_cluster c)" "placed_url segs ps"
  shows "names_cluster (qualifyUrl (url_of segs ps) c) (cx_cluster c)"
proof (cases "\<exists>i. name_at segs = Some i \<and> seg_at segs i \<noteq> []")
  case True
  then obtain i where i: "name_at segs = Some i" "seg_at segs i \<noteq> []" by blast
  then have l: "i < length segs" "segs ! i \<noteq> []" by (auto simp: seg_at_def split: if_splits)
  then have p: "plain (segs ! i)" using assms(1) by (auto simp: plain_url_def list_all_iff)
  have "qualify (segs ! i) (cx_cluster c) \<in> set (qualify_segments c segs)"
    using i l p by (auto simp: qualify_segments_def q_of_def decode_urlsafe plain_urlsafe intro: set_update_memI)
  moreover have "decode (qualify (segs ! i) (cx_cluster c)) = qualify (segs ! i) (cx_cluster c)"
    using p assms(2) by (intro decode_urlsafe urlsafe_qualify)
  ultimately show ?thesis
    unfolding names_cluster_def parse_qualified[OF assms(1,2)] using l(2) by auto
next
  case False
  then obtain v where v: "v \<noteq> []" "(''project'', v) \<in> set (ps @ implied segs ps)" using assms(3) by (auto simp: placed_url_def)
  let ?x = "(pair_param \<circ> qualify_pair c) (''project'', v)"
  have "?x \<in> set (map (pair_param \<circ> qualify_pair c) (ps @ implied segs ps))" unfolding set_map using v(2) by (rule imageI)
  moreover have "pm_k ?x = ''project''" "pm_v ?x = Some (qualify v (cx_cluster c))"
    using v(1) by (simp_all add: pair_param_def qualify_pair_def q_of_def)
  ultimately show ?thesis
    unfolding names_cluster_def parse_qualified[OF assms(1,2)] Let_def prod.case using v(1)
    by - (rule disjI2, (intro bexI[of _ ?x] conjI disjI1 exI[of _ v]; simp))
qed


section \<open>Concrete instances\<close>

definition facade_deps :: auth_deps where
  "facade_deps = sample_deps\<lparr>ad_verify := \<lambda>t. Inr root_id\<rparr>"

definition a_put_on :: "string \<Rightarrow> facade_request" where
  "a_put_on u = \<lparr>fq_method = Some ''PUT'', fq_url = Some u, fq_authorization = Some ''Bearer t'', fq_cookie = None, fq_origin = None,
     fq_referer = None, fq_scope = None, fq_contentType = None, fq_tooLarge = False, fq_body = None\<rparr>"

definition new_facade :: facade_state where
  "new_facade = \<lparr>fs_cache = empty_cache, fs_sessions = [], fs_servers = []\<rparr>"

definition facade_db :: db where
  "facade_db = staff_db\<lparr>db_clusters := [gw_cluster]\<rparr>"

definition a_put_handled :: "facade_outcome \<times> facade_state" where
  "a_put_handled = handle facade_deps (\<lambda>a b. 0) (\<lambda>_ _. None) ''o'' (load 0 facade_db) facade_db [] 0 id 0 0
     (a_put_on ''/1.0/instances/x?project=p@c1'') new_facade"

lemma a_put_relayed: "case fst a_put_handled of FRelay c m path b \<Rightarrow> cl_name c = ''c1'' \<and> path = ''/1.0/instances/x?project=p'' | _ \<Rightarrow> False"
  by code_simp


theorem unreachable_unseen_witness:
  "handle facade_deps (\<lambda>a b. 0) (\<lambda>c u. if cl_status c = ''disabled'' then Some (200, JNull) else None) ''o'' (load 0 facade_db) facade_db [] 0 id 0 0
     (a_put_on ''/1.0/instances/x?project=p@c1'') new_facade = a_put_handled"
  unfolding a_put_handled_def by (rule unreachable_unseen) simp

definition filled_db :: db where
  "filled_db = staff_db\<lparr>db_tenants := [a_tenant], db_placements := [a_placement]\<rparr>"

theorem projects_filled_witness:
  "\<exists>j'. withProjects (load 0 filled_db) filled_db (a_user root_id) a_cluster ''/1.0/projects'' 200
     (JObj [(''metadata'', JArr [JStr ''/1.0/projects/x''])]) = Inr (200, j') \<and> {''p'', ''x''} \<subseteq> projects_listed j'"
proof -
  let ?j = "JObj [(''metadata'', JArr [JStr ''/1.0/projects/x''])]"
  have l: "listed_projects ?j = Inr [JStr ''/1.0/projects/x'']" by (simp add: listed_projects_def jget_def m_get_Cons)
  have n: "results (map listed_name [JStr ''/1.0/projects/x'']) = Inr [Some (JStr ''x'')]" by code_simp
  have d: "db_placements filled_db = [a_placement]" "db_tenants filled_db = [a_tenant]" by (simp_all add: filled_db_def)
  have u: "utf8 (pl_project a_placement)" 
    using utf8_more[OF utf8_Nil, of "CHR ''p''" "[]"] by (simp add: a_placement_def follow_def cc_def)
  have s: "sees (load 0 filled_db) (a_user root_id) (''/clusters/'' @ cl_name a_cluster @ ''/projects/'' @ pl_project a_placement)" by code_simp
  have r: "te_id a_tenant = pl_tenantId a_placement" "pl_clusterId a_placement = cl_id a_cluster" "pl_status a_placement = ''ready''" "pl_project a_placement = ''p''"
    by (simp_all add: a_tenant_def a_placement_def a_cluster_def)
  have "''x'' \<in> projects_listed ?j" unfolding projects_listed_def using l n by force
  moreover have "before_first CHR ''?'' ''/1.0/projects'' = ''/1.0/projects''" by code_simp
  ultimately show ?thesis
    using projects_filled[of "''/1.0/projects''" ?j, OF _ l n, of filled_db "load 0 filled_db" "a_user root_id" a_cluster] d u s r by auto
qed


end
