(* ===== verification/Facade_Streams.thy ===== *)
theory Facade_Streams
  imports Facade
begin

text \<open>
  The connections of the facade: the decision on an upgrade (\<open>upgrade\<close> of \<^verbatim>\<open>federation/handler.ts\<close>) and the
  event stream over every reachable cluster (\<^verbatim>\<open>federation/events.ts\<close>). The sockets are what happens to
  them, in order: a message of a cluster's socket (its JSON, or nothing when it does not parse), a
  cluster's socket gone, the caller's socket closed.
\<close>

section \<open>The decision on an upgrade\<close>

record event_source =
  es_row :: cluster_row
  es_path :: string
  es_token :: string
  es_standalone :: bool

datatype upgrade_outcome = UError int string | UEvents "event_source list" | URelay cluster_row string string

fun event_sources ::
  "upstream \<Rightarrow> int \<Rightarrow> string \<Rightarrow> principal \<Rightarrow> cluster_row list \<Rightarrow> (string, server_info) jsmap \<Rightarrow> event_source list \<times> (string, server_info) jsmap" where
  "event_sources up now url p [] servers = ([], servers)"
| "event_sources up now url p (c # cs) servers =
    (let ((standalone, _), servers1) = synthetic up now c ''GET'' ''/1.0/none'' servers;
         (rest, servers2) = event_sources up now url p cs servers1
     in (\<lparr>es_row = c, es_path = stripRequest url (cl_name c) standalone, es_token = p_token p, es_standalone = standalone\<rparr> # rest, servers2))"

definition upgrade_target ::
  "upstream \<Rightarrow> string \<Rightarrow> int \<Rightarrow> facade_request \<Rightarrow> admitted \<Rightarrow> (string, server_info) jsmap \<Rightarrow> upgrade_outcome \<times> (string, server_info) jsmap" where
  "upgrade_target up publicOrigin now req a servers =
    (let url = req_url req; p = fa_principal a in
     if before_first CHR ''?'' url = ''/1.0/events'' then
       (let (sources, servers') = event_sources up now url p (fa_reachable a) servers in (UEvents sources, servers'))
     else case targetOf url (referer_path publicOrigin req) (fa_known a) None of
       One n \<Rightarrow>
         (case find (\<lambda>c. cl_name c = n) (fa_reachable a) of
            None \<Rightarrow> (UError 403 (''You have no access to cluster \"'' @ n @ ''\"''), servers)
          | Some c \<Rightarrow>
              let ((standalone, _), servers') = synthetic up now c ''GET'' ''/1.0/none'' servers
              in (URelay c (stripRequest url (cl_name c) standalone) (p_token p), servers'))
     | _ \<Rightarrow> (UError 400 ''Choose a cluster: this connection names none'', servers))"

definition facade_upgrade ::
  "auth_deps \<Rightarrow> (string \<Rightarrow> string \<Rightarrow> rat) \<Rightarrow> upstream \<Rightarrow> string \<Rightarrow> snapshot \<Rightarrow> db \<Rightarrow> int \<Rightarrow> (sessions \<Rightarrow> sessions) \<Rightarrow> int \<Rightarrow> int
   \<Rightarrow> facade_request \<Rightarrow> facade_state \<Rightarrow> upgrade_outcome \<times> facade_state" where
  "facade_upgrade deps lc up publicOrigin s d now others locked later req st =
    (case facade_admit deps lc publicOrigin s d now others locked later req True st of
       (Refused status msg, st1) \<Rightarrow> (UError status msg, st1)
     | (Anonymous, st1) \<Rightarrow> (UError 401 ''Sign in to IncusCloud first'', st1)
     | (Admitted a, st1) \<Rightarrow>
         let (o', servers') = upgrade_target up publicOrigin now req a (fs_servers st1)
         in (o', st1\<lparr>fs_servers := servers'\<rparr>))"

section \<open>Events of every cluster\<close>

datatype client_state = ClientOpen | ClientClosing int string | ClientClosed

record fan_in =
  fi_open :: "nat list"
  fi_client :: client_state
  fi_sent :: "json list"

datatype fan_event = FromCluster nat bool "json option" | ClusterGone nat | ClientGone

definition fanInEvents :: "event_source list \<Rightarrow> fan_in" where
  "fanInEvents sources = \<lparr>fi_open = [0..<length sources], fi_client = ClientOpen, fi_sent = []\<rparr>"

definition qualified_event :: "event_source \<Rightarrow> json \<Rightarrow> json" where
  "qualified_event s j = qualifyResponse ''/1.0/events'' j (cl_name (es_row s)) (es_standalone s)"

fun fan_step :: "event_source list \<Rightarrow> fan_event \<Rightarrow> fan_in \<Rightarrow> fan_in" where
  "fan_step sources (FromCluster i binary data) st =
    (if binary \<or> fi_client st \<noteq> ClientOpen then st
     else case data of None \<Rightarrow> st | Some j \<Rightarrow> st\<lparr>fi_sent := fi_sent st @ [qualified_event (sources ! i) j]\<rparr>)"
| "fan_step sources (ClusterGone i) st =
    (if i \<notin> set (fi_open st) then st
     else let left = filter (\<lambda>j. j \<noteq> i) (fi_open st) in
       st\<lparr>fi_open := left,
          fi_client := (if left = [] \<and> fi_client st = ClientOpen then ClientClosing 1011 ''No cluster is streaming events'' else fi_client st)\<rparr>)"
| "fan_step sources ClientGone st = st\<lparr>fi_open := [], fi_client := ClientClosed\<rparr>"

section \<open>Who is connected to what\<close>

fun connections :: "upgrade_outcome \<Rightarrow> (cluster_row \<times> string \<times> string) list" where
  "connections (UError _ _) = []"
| "connections (UEvents sources) = map (\<lambda>s. (es_row s, es_path s, es_token s)) sources"
| "connections (URelay c path token) = [(c, path, token)]"

lemma event_sources_shape:
  "s \<in> set (fst (event_sources up now url p cs sv)) \<Longrightarrow> es_row s \<in> set cs \<and> es_token s = p_token p \<and> es_path s = stripRequest url (cl_name (es_row s)) (es_standalone s)"
  by (induction cs arbitrary: sv) (auto simp: Let_def case_prod_beta)

lemma event_sources_rows: "map es_row (fst (event_sources up now url p cs sv)) = cs"
  by (induction cs arbitrary: sv) (simp_all add: Let_def case_prod_beta)

lemma upgrade_connects:
  assumes "upgrade_target up origin now req a sv = (x, sv')" "(c, path, token) \<in> set (connections x)"
  shows "c \<in> set (fa_reachable a) \<and> token = p_token (fa_principal a) \<and> (\<exists>sa. path = stripRequest (req_url req) (cl_name c) sa)"
proof (cases "before_first CHR ''?'' (req_url req) = ''/1.0/events''")
  case True
  then have "x = UEvents (fst (event_sources up now (req_url req) (fa_principal a) (fa_reachable a) sv))"
    using assms(1) by (auto simp: upgrade_target_def Let_def split: prod.splits)
  then show ?thesis using assms(2) by (auto dest: event_sources_shape)
next
  case False
  then show ?thesis
    using assms by (auto simp: upgrade_target_def Let_def split: fed_target.splits option.splits prod.splits dest: find_mem)
qed

lemma admit_origin:
  assumes "facade_admit_as s origin req True caller rows = Admitted a"
  shows "truthy (fq_authorization req) \<or> \<not> truthy (fq_origin req) \<or> fq_origin req = Some origin"
  using assms by (auto simp: facade_admit_as_def split: sum.splits failure.splits option.splits if_splits)

section \<open>Properties\<close>

text \<open>
  A connection is opened only to a cluster the caller may reach, with the caller's own token and
  that cluster's qualifiers taken off, and a page of another origin cannot open one with the
  session cookie.
\<close>

theorem upgrades_safely:
  assumes "facade_upgrade deps lc up origin s d now others locked later req st = (x, st')"
    and "(c, path, token) \<in> set (connections x)"
  shows "\<exists>p. enabled_principal deps d p \<and> token = p_token p \<and>
    authz_check s (''user:'' @ p_id p) ''can_access'' (''cluster:'' @ cl_id c) \<and>
    c \<in> set (fst (cache_all lc 5000 now d (fs_cache st))) \<and> cl_status c \<noteq> ''disabled'' \<and>
    (\<exists>standalone. path = stripRequest (req_url req) (cl_name c) standalone) \<and>
    (truthy (fq_authorization req) \<or> \<not> truthy (fq_origin req) \<or> fq_origin req = Some origin)"
proof -
  obtain a st1 where ad: "facade_admit deps lc origin s d now others locked later req True st = (Admitted a, st1)"
    and x: "fst (upgrade_target up origin now req a (fs_servers st1)) = x"
    using assms by (auto simp: facade_upgrade_def split: prod.splits facade_admission.splits)
  obtain sess where A: "resolvePrincipal deps now others locked later d (fs_sessions st) (facade_auth req) = (sess, Inr (Some (fa_principal a)))"
    "set (fa_reachable a) = {c \<in> set (fst (cache_all lc 5000 now d (fs_cache st))). cl_status c \<noteq> ''disabled'' \<and>
      authz_check s (''user:'' @ p_id (fa_principal a)) ''can_access'' (''cluster:'' @ cl_id c)}"
    using ad by (rule facade_admitE)
  obtain caller rows where "facade_admit_as s origin req True caller rows = Admitted a"
    using ad by (auto simp: facade_admit_def Let_def split: prod.splits facade_admission.splits)
  from admit_origin[OF this] upgrade_connects[OF _ assms(2), of up origin now req a "fs_servers st1"] x principal_enabled[OF A(1)] A(2)
  show ?thesis by (intro exI[of _ "fa_principal a"]) (cases "upgrade_target up origin now req a (fs_servers st1)"; auto)
qed

lemma fan_step_open:
  assumes "fi_client st = ClientOpen \<longleftrightarrow> fi_open st \<noteq> []"
  shows "fi_client (fan_step sources e st) = ClientOpen \<longleftrightarrow> fi_open (fan_step sources e st) \<noteq> []"
  using assms by (cases e) (auto simp: Let_def split: option.splits)

text \<open>The messages that reach the caller: the text ones that parse, while the caller's socket is open.\<close>

fun delivered :: "event_source list \<Rightarrow> fan_event list \<Rightarrow> nat list \<Rightarrow> json list" where
  "delivered sources [] left = []"
| "delivered sources (FromCluster i binary data # es) left =
    (if left = [] then [] else (if binary \<or> data = None then [] else [qualified_event (sources ! i) (the data)]) @ delivered sources es left)"
| "delivered sources (ClusterGone i # es) left = delivered sources es (filter (\<lambda>j. j \<noteq> i) left)"
| "delivered sources (ClientGone # es) left = []"

lemma fan_run:
  assumes "fi_client st = ClientOpen \<longleftrightarrow> fi_open st \<noteq> []"
  shows "fi_sent (fold (fan_step sources) es st) = fi_sent st @ delivered sources es (fi_open st) \<and>
    (fi_client (fold (fan_step sources) es st) = ClientOpen \<longleftrightarrow> fi_open (fold (fan_step sources) es st) \<noteq> [])"
  using assms
proof (induction es arbitrary: st)
  case (Cons e es)
  have closed: "delivered sources es [] = []" for es
    by (induction sources es "[] :: nat list" rule: delivered.induct) auto
  have same: "filter (\<lambda>j. j \<noteq> i) xs = xs" if "i \<notin> set xs" for i and xs :: "nat list"
    using that by (intro filter_True) auto
  show ?case
    using Cons.IH[OF fan_step_open[OF Cons.prems, of sources e]] Cons.prems
    by (cases e) (auto simp: Let_def closed same split: option.splits)
qed simp

text \<open>
  C37: The caller's event stream is open exactly as long as one cluster's is, when there is one to
  begin with, and carries every text event that arrives meanwhile, in order, under its cluster's name.
\<close>

theorem events_fanned_in:
  assumes "sources \<noteq> []"
  shows "let st = fold (fan_step sources) es (fanInEvents sources) in
    (fi_client st = ClientOpen \<longleftrightarrow> fi_open st \<noteq> []) \<and> fi_sent st = delivered sources es [0..<length sources]"
proof -
  have "fi_client (fanInEvents sources) = ClientOpen \<longleftrightarrow> fi_open (fanInEvents sources) \<noteq> []"
    using assms by (simp add: fanInEvents_def)
  from fan_run[OF this, of sources es] show ?thesis by (simp add: Let_def fanInEvents_def)
qed

text \<open>With no cluster to begin with nothing closes the caller's stream.\<close>

lemma no_source_stays_open:
  assumes "\<And>e. e \<in> set es \<Longrightarrow> e \<noteq> ClientGone"
  shows "fi_client (fold (fan_step []) es (fanInEvents [])) = ClientOpen"
proof -
  have "fi_client (fold (fan_step []) es st) = ClientOpen"
    if "fi_client st = ClientOpen" "fi_open st = []" "ClientGone \<notin> set es" for st
    using that
  proof (induction es arbitrary: st)
    case (Cons e es)
    then show ?case by (cases e) (auto split: option.splits)
  qed simp
  moreover have "ClientGone \<notin> set es" using assms by blast
  ultimately show ?thesis by (simp add: fanInEvents_def)
qed

section \<open>Concrete instances\<close>

definition an_upgrade :: "string \<Rightarrow> facade_request" where
  "an_upgrade u = (a_put_on u)\<lparr>fq_method := Some ''GET''\<rparr>"

definition events_opened :: "upgrade_outcome \<times> facade_state" where
  "events_opened = facade_upgrade facade_deps (\<lambda>a b. 0) (\<lambda>_ _. None) ''o'' (load 0 facade_db) facade_db 0 id 0 0
     (an_upgrade ''/1.0/events?project=p@c1'') new_facade"

lemma events_opened_one: "connections (fst events_opened) = [(gw_cluster, ''/1.0/events?project=p'', ''t'')]"
  by code_simp

theorem upgrades_safely_witness:
  "\<exists>p. enabled_principal facade_deps facade_db p \<and> p_token p = ''t'' \<and>
     authz_check (load 0 facade_db) (''user:'' @ p_id p) ''can_access'' (''cluster:'' @ cl_id gw_cluster)"
proof -
  have x: "facade_upgrade facade_deps (\<lambda>a b. 0) (\<lambda>_ _. None) ''o'' (load 0 facade_db) facade_db 0 id 0 0
     (an_upgrade ''/1.0/events?project=p@c1'') new_facade = (fst events_opened, snd events_opened)" by (simp add: events_opened_def)
  have m: "(gw_cluster, ''/1.0/events?project=p'', ''t'') \<in> set (connections (fst events_opened))"
    unfolding events_opened_one by simp
  from upgrades_safely[OF x m] obtain p where p: "enabled_principal facade_deps facade_db p" "''t'' = p_token p"
    "authz_check (load 0 facade_db) (''user:'' @ p_id p) ''can_access'' (''cluster:'' @ cl_id gw_cluster)" by (elim exE conjE)
  from p(1) p(2)[symmetric] p(3) show ?thesis by (intro exI conjI)
qed

definition a_source :: event_source where
  "a_source = \<lparr>es_row = gw_cluster, es_path = ''/1.0/events'', es_token = ''t'', es_standalone = False\<rparr>"

theorem events_fanned_in_witness:
  "fi_client (fold (fan_step [a_source, a_source]) [ClusterGone 0, ClusterGone 1] (fanInEvents [a_source, a_source])) \<noteq> ClientOpen"
  using events_fanned_in[of "[a_source, a_source]" "[ClusterGone 0, ClusterGone 1]"] by (simp add: Let_def fanInEvents_def)

end
