(* ===== verification/Accounts.thy ===== *)
theory Accounts
  imports Session
begin

text \<open>
  The routes that manage who there is: users (\<^verbatim>\<open>api/users.ts\<close>), groups (\<^verbatim>\<open>api/groups.ts\<close>) and service
  accounts (\<^verbatim>\<open>api/service-accounts.ts\<close>), with what the foreign keys of \<^verbatim>\<open>db/schema.ts\<close> remove or clear
  with a deleted row. A handler takes the snapshot its guards read and the database and answers with
  the database, the cached snapshot afterwards and its reply. The bodies are those the routes' schemas
  admit, identifiers the database generates, password hashes and Hydra's answers are arguments, and
  the audit row around a change is not part of the model.
\<close>

section \<open>What goes with a deleted row\<close>

definition drop_user :: "string \<Rightarrow> db \<Rightarrow> db" where
  "drop_user u d = d\<lparr>
     db_users := t_remove us_id (db_users d) u,
     db_platformRoles := filter (\<lambda>r. pr_userId r \<noteq> u) (db_platformRoles d),
     db_userQuotas := filter (\<lambda>q. uqr_userId q \<noteq> u) (db_userQuotas d),
     db_tenantMembers := filter (\<lambda>m. tm_userId m \<noteq> u) (db_tenantMembers d),
     db_serviceAccounts := t_update (\<lambda>a. sa_createdBy a = Some u) (\<lambda>a. a\<lparr>sa_createdBy := None\<rparr>) (db_serviceAccounts d),
     db_groupMembers := filter (\<lambda>m. gm_userId m \<noteq> Some u) (db_groupMembers d),
     db_aclEntries := t_update (\<lambda>e. ae_createdBy e = Some u) (\<lambda>e. e\<lparr>ae_createdBy := None\<rparr>)
       (filter (\<lambda>e. ae_userId e \<noteq> Some u) (db_aclEntries d)),
     db_instanceOwners := t_update (\<lambda>o'. io_userId o' = Some u) (\<lambda>o'. o'\<lparr>io_userId := None\<rparr>) (db_instanceOwners d)\<rparr>"

definition drop_service :: "string \<Rightarrow> db \<Rightarrow> db" where
  "drop_service a d = d\<lparr>
     db_serviceAccounts := t_remove sa_id (db_serviceAccounts d) a,
     db_groupMembers := filter (\<lambda>m. gm_serviceAccountId m \<noteq> Some a) (db_groupMembers d),
     db_aclEntries := filter (\<lambda>e. ae_serviceAccountId e \<noteq> Some a) (db_aclEntries d),
     db_instanceOwners := t_update (\<lambda>o'. io_serviceAccountId o' = Some a) (\<lambda>o'. o'\<lparr>io_serviceAccountId := None\<rparr>) (db_instanceOwners d)\<rparr>"

definition drop_group :: "string \<Rightarrow> db \<Rightarrow> db" where
  "drop_group g d = d\<lparr>
     db_groups := t_remove gr_id (db_groups d) g,
     db_groupMembers := filter (\<lambda>m. gm_groupId m \<noteq> g) (db_groupMembers d),
     db_aclEntries := filter (\<lambda>e. ae_groupId e \<noteq> Some g) (db_aclEntries d)\<rparr>"

section \<open>Users\<close>

record user_view =
  uv_id :: string
  uv_email :: string
  uv_name :: string
  uv_disabled :: bool
  uv_platformRole :: "string option"
  uv_hasPassword :: bool
  uv_createdAt :: int
  uv_lastLoginAt :: "int option"

definition view_user :: "user_row \<Rightarrow> string option \<Rightarrow> user_view" where
  "view_user u role = \<lparr>uv_id = us_id u, uv_email = us_email u, uv_name = us_name u, uv_disabled = us_disabled u,
     uv_platformRole = role, uv_hasPassword = truthy (us_passwordHash u), uv_createdAt = us_createdAt u,
     uv_lastLoginAt = us_lastLoginAt u\<rparr>"

record user_create =
  uc_email :: string
  uc_name :: string
  uc_password :: "string option"
  uc_platformRole :: "string option"

text \<open>In a change a missing field stays; a role is a role, or \<open>null\<close> for none.\<close>

record user_patch =
  up_name :: "string option"
  up_disabled :: "bool option"
  up_password :: "string option"
  up_platformRole :: "string option option"

definition needPlatform :: "snapshot \<Rightarrow> principal \<Rightarrow> string \<Rightarrow> unit result" where
  "needPlatform s p rel = check_that (can s p (if rel = ''admin'' then ''platform.users'' else ''platform.view'') ''/'' None) forbidden"

definition role_of_user :: "db \<Rightarrow> string \<Rightarrow> string option" where
  "role_of_user d u = map_option pr_role (t_lookup pr_userId (db_platformRoles d) u)"

definition uuidParam :: "string \<Rightarrow> string \<Rightarrow> string result" where
  "uuidParam i what = (if isUuid i then Inr i else Inl (notFound what))"

definition load_user :: "db \<Rightarrow> string \<Rightarrow> (user_row \<times> string option) result" where
  "load_user d i = then_do (uuidParam i ''Not found'') (\<lambda>i.
     case t_lookup us_id (db_users d) (uuid_of i) of
       None \<Rightarrow> Inl (notFound ''No such user'')
     | Some u \<Rightarrow> Inr (u, role_of_user d (us_id u)))"

definition list_users :: "(string \<Rightarrow> string \<Rightarrow> rat) \<Rightarrow> snapshot \<Rightarrow> db \<Rightarrow> principal \<Rightarrow> user_view list result" where
  "list_users collate s d p = then_do (needPlatform s p ''viewer'') (\<lambda>_.
     Inr (map (\<lambda>u. view_user u (role_of_user d (us_id u))) (sort_by (\<lambda>a b. collate (us_email a) (us_email b)) (db_users d))))"

type_synonym 'a handled = "(db \<times> snapshot option \<times> 'a) result"

definition create_user :: "(string \<Rightarrow> string) \<Rightarrow> int \<Rightarrow> string \<Rightarrow> snapshot \<Rightarrow> db \<Rightarrow> principal \<Rightarrow> user_create \<Rightarrow> user_view handled" where
  "create_user hashPassword now i s d p b =
     then_do (needPlatform s p ''admin'') (\<lambda>_.
     then_do (check_that (\<not> (\<exists>u\<in>set (db_users d). us_email u = uc_email b)) (ApiError 409 ''email_taken'' ''A user with this email already exists'')) (\<lambda>_.
     let passwordHash = (if truthy (uc_password b) then Some (hashPassword (the (uc_password b))) else None);
         u = \<lparr>us_id = i, us_email = uc_email b, us_name = uc_name b, us_passwordHash = passwordHash, us_disabled = False,
              us_createdAt = now, us_lastLoginAt = None\<rparr> in
     if i \<in> us_id ` set (db_users d) then Inl UniqueViolation
     else let d1 = d\<lparr>db_users := db_users d @ [u]\<rparr> in
       if truthy (uc_platformRole b) then
         let d2 = d1\<lparr>db_platformRoles := db_platformRoles d1 @ [\<lparr>pr_userId = i, pr_role = the (uc_platformRole b)\<rparr>]\<rparr>
         in Inr (requestReconcile now d2 AllClusters, invalidate (Some s), view_user u (uc_platformRole b))
       else Inr (d1, Some s, view_user u (uc_platformRole b))))"

fun by_role :: "admin_hold \<Rightarrow> bool" where
  "by_role (ByRole u) = True"
| "by_role (ByEntry u e) = False"

definition patched :: "(string \<Rightarrow> string) \<Rightarrow> user_patch \<Rightarrow> user_row \<Rightarrow> user_row" where
  "patched hashPassword b u = u\<lparr>
     us_name := (case up_name b of None \<Rightarrow> us_name u | Some n \<Rightarrow> n),
     us_disabled := (case up_disabled b of None \<Rightarrow> us_disabled u | Some x \<Rightarrow> x),
     us_passwordHash := (case up_password b of None \<Rightarrow> us_passwordHash u | Some w \<Rightarrow> Some (hashPassword w))\<rparr>"

definition set_role :: "string \<Rightarrow> string option \<Rightarrow> db \<Rightarrow> db" where
  "set_role u role d = d\<lparr>db_platformRoles := filter (\<lambda>r. pr_userId r \<noteq> u) (db_platformRoles d) @
     (if truthy role then [\<lparr>pr_userId = u, pr_role = the role\<rparr>] else [])\<rparr>"

definition lost_by :: "user_row \<Rightarrow> user_patch \<Rightarrow> admin_hold \<Rightarrow> bool" where
  "lost_by u b h \<longleftrightarrow> hold_user h = us_id u \<and>
     (up_disabled b = Some True \<or> (by_role h \<and> up_platformRole b \<noteq> None \<and> up_platformRole b \<noteq> Some (Some ''admin'')))"

text \<open>Hydra's answer to the end of a user's token chains; an error undoes the transaction.\<close>

definition update_user ::
  "(string \<Rightarrow> string) \<Rightarrow> (string \<Rightarrow> unit result) \<Rightarrow> int \<Rightarrow> snapshot \<Rightarrow> db \<Rightarrow> sessions \<Rightarrow> principal \<Rightarrow> string \<Rightarrow> user_patch
   \<Rightarrow> (sessions \<times> user_view) handled" where
  "update_user hashPassword revokeSubject now s d rows p i b =
     then_do (needPlatform s p ''admin'') (\<lambda>_.
     then_do (load_user d i) (\<lambda>(u, role).
     then_do (keepAnAdministrator d (lost_by u b)) (\<lambda>_.
     let u' = patched hashPassword b u;
         d1 = d\<lparr>db_users := t_update (\<lambda>x. us_id x = us_id u) (patched hashPassword b) (db_users d)\<rparr>;
         rows' = (if up_disabled b = Some True then filter (\<lambda>r. se_userId r \<noteq> us_id u) rows else rows);
         changes = (up_platformRole b \<noteq> None \<and> up_platformRole b \<noteq> Some role);
         newRole = (if changes then the (up_platformRole b) else role);
         d2 = (if changes then set_role (us_id u) newRole d1 else d1);
         d3 = (if up_disabled b \<noteq> None \<or> up_platformRole b \<noteq> None then requestReconcile now d2 AllClusters else d2) in
     then_do (if up_disabled b = Some True then revokeSubject (us_id u) else Inr ()) (\<lambda>_.
       Inr (d3, if changes then invalidate (Some s) else Some s, rows', view_user u' newRole)))))"

definition delete_user ::
  "(string \<Rightarrow> unit result) \<Rightarrow> int \<Rightarrow> snapshot \<Rightarrow> db \<Rightarrow> sessions \<Rightarrow> principal \<Rightarrow> string \<Rightarrow> sessions handled" where
  "delete_user revokeSubject now s d rows p i =
     then_do (needPlatform s p ''admin'') (\<lambda>_.
     then_do (load_user d i) (\<lambda>(u, role).
     then_do (keepAnAdministrator d (\<lambda>h. hold_user h = us_id u)) (\<lambda>_.
     then_do (revokeSubject (us_id u)) (\<lambda>_.
       Inr (requestReconcile now (drop_user (us_id u) d) AllClusters, invalidate (Some s), filter (\<lambda>r. se_userId r \<noteq> us_id u) rows)))))"

section \<open>Groups\<close>

definition need_group :: "snapshot \<Rightarrow> principal \<Rightarrow> privilege \<Rightarrow> unit result" where
  "need_group s p privilege = check_that (can s p privilege ''/'' None) forbidden"

definition load_group :: "db \<Rightarrow> string \<Rightarrow> group_row result" where
  "load_group d i = then_do (uuidParam i ''Group not found'') (\<lambda>i.
     case t_lookup gr_id (db_groups d) (uuid_of i) of None \<Rightarrow> Inl (notFound ''Group not found'') | Some g \<Rightarrow> Inr g)"

definition create_group :: "int \<Rightarrow> string \<Rightarrow> snapshot \<Rightarrow> db \<Rightarrow> principal \<Rightarrow> string \<Rightarrow> string option \<Rightarrow> group_row handled" where
  "create_group now i s d p name description =
     then_do (need_group s p ''platform.users'') (\<lambda>_.
     then_do (check_that (\<not> (\<exists>g\<in>set (db_groups d). gr_name g = name))
       (ApiError 409 ''conflict'' (''A group named \"'' @ name @ ''\" already exists''))) (\<lambda>_.
     let g = \<lparr>gr_id = i, gr_name = name, gr_description = (case description of None \<Rightarrow> [] | Some x \<Rightarrow> x), gr_createdAt = now\<rparr> in
     if i \<in> gr_id ` set (db_groups d) then Inl UniqueViolation
     else Inr (d\<lparr>db_groups := db_groups d @ [g]\<rparr>, Some s, g)))"

definition update_group :: "snapshot \<Rightarrow> db \<Rightarrow> principal \<Rightarrow> string \<Rightarrow> string \<Rightarrow> group_row handled" where
  "update_group s d p i description =
     then_do (need_group s p ''platform.users'') (\<lambda>_.
     then_do (load_group d i) (\<lambda>g.
       Inr (d\<lparr>db_groups := t_update (\<lambda>x. gr_id x = gr_id g) (\<lambda>x. x\<lparr>gr_description := description\<rparr>) (db_groups d)\<rparr>, Some s,
         g\<lparr>gr_description := description\<rparr>)))"

definition delete_group :: "int \<Rightarrow> snapshot \<Rightarrow> db \<Rightarrow> principal \<Rightarrow> string \<Rightarrow> unit handled" where
  "delete_group now s d p i =
     then_do (need_group s p ''platform.users'') (\<lambda>_.
     then_do (load_group d i) (\<lambda>g.
       Inr (requestReconcile now (drop_group (gr_id g) d) AllClusters, invalidate (Some s), ())))"

text \<open>A membership's key: the unique constraint treats absent columns as equal.\<close>

definition gm_key :: "group_member_row \<Rightarrow> string \<times> string option \<times> string option" where
  "gm_key m = (gm_groupId m, gm_userId m, gm_serviceAccountId m)"

definition put_group_member :: "int \<Rightarrow> snapshot \<Rightarrow> db \<Rightarrow> principal \<Rightarrow> string \<Rightarrow> string \<Rightarrow> string \<Rightarrow> unit handled" where
  "put_group_member now s d p i type memberId =
     then_do (need_group s p ''platform.users'') (\<lambda>_.
     then_do (load_group d i) (\<lambda>g.
     then_do (uuidParam memberId ''No such member'') (\<lambda>m.
     let row = (\<lambda>u a. \<lparr>gm_groupId = gr_id g, gm_userId = u, gm_serviceAccountId = a, gm_providerId = None, gm_createdAt = now\<rparr>) in
     then_do
       (if type = ''user'' then
          then_do (check_that (uuid_of m \<in> us_id ` set (db_users d)) (notFound ''No such user'')) (\<lambda>_.
            Inr (t_upsert gm_key (db_groupMembers d) (row (Some (uuid_of m)) None) (\<lambda>r. r\<lparr>gm_providerId := None\<rparr>) (\<lambda>_. True)))
        else if type = ''service'' then
          then_do (check_that (uuid_of m \<in> sa_id ` set (db_serviceAccounts d)) (notFound ''No such service account'')) (\<lambda>_.
            Inr (t_upsert gm_key (db_groupMembers d) (row None (Some (uuid_of m))) id (\<lambda>_. False)))
        else Inl (ApiError 400 ''invalid_request'' ''A member is a user or a service account'')) (\<lambda>ms.
       Inr (requestReconcile now (d\<lparr>db_groupMembers := ms\<rparr>) AllClusters, invalidate (Some s), ())))))"

definition remove_group_member :: "int \<Rightarrow> snapshot \<Rightarrow> db \<Rightarrow> principal \<Rightarrow> string \<Rightarrow> string \<Rightarrow> string \<Rightarrow> unit handled" where
  "remove_group_member now s d p i type memberId =
     then_do (need_group s p ''platform.users'') (\<lambda>_.
     then_do (load_group d i) (\<lambda>g.
     then_do (uuidParam memberId ''No such member'') (\<lambda>m.
     let gone = (\<lambda>r. gm_groupId r = gr_id g \<and>
           (if type = ''service'' then gm_serviceAccountId r = Some (uuid_of m) \<and> gm_userId r = None
            else gm_userId r = Some (uuid_of m) \<and> gm_serviceAccountId r = None)) in
       Inr (requestReconcile now (d\<lparr>db_groupMembers := filter (\<lambda>r. \<not> gone r) (db_groupMembers d)\<rparr>) AllClusters, invalidate (Some s), ()))))"

section \<open>Service accounts\<close>

definition sa_affected :: "string option \<Rightarrow> string option \<Rightarrow> reconcile_target option" where
  "sa_affected tenantId platformRole =
    (if truthy tenantId then Some (OfTenant (the tenantId)) else if truthy platformRole then Some AllClusters else None)"

definition reconcile_if :: "int \<Rightarrow> reconcile_target option \<Rightarrow> db \<Rightarrow> db" where
  "reconcile_if now target d = (case target of None \<Rightarrow> d | Some t \<Rightarrow> requestReconcile now d t)"

definition manages :: "snapshot \<Rightarrow> principal \<Rightarrow> service_account_row \<Rightarrow> bool" where
  "manages s p sa =
    (if \<not> truthy (sa_tenantId sa) then can s p ''platform.users'' ''/'' None
     else let slug = m_get (lk_tenantSlugs (sn_ids s)) (the (sa_tenantId sa))
       in truthy slug \<and> can s p ''tenant.members'' (''/tenants/'' @ the slug) None)"

definition load_account :: "snapshot \<Rightarrow> db \<Rightarrow> principal \<Rightarrow> string \<Rightarrow> service_account_row result" where
  "load_account s d p i = then_do (uuidParam i ''Not found'') (\<lambda>i.
     case t_lookup sa_id (db_serviceAccounts d) (uuid_of i) of
       None \<Rightarrow> Inl (notFound ''Not found'')
     | Some sa \<Rightarrow>
         if manages s p sa then Inr sa
         else Inl (if can s p ''platform.view'' ''/'' None then forbidden else notFound ''Not found''))"

definition list_accounts :: "(string \<Rightarrow> string \<Rightarrow> rat) \<Rightarrow> snapshot \<Rightarrow> db \<Rightarrow> principal \<Rightarrow> service_account_row list" where
  "list_accounts collate s d p =
    (let rows = sort_by (\<lambda>a b. collate (sa_name a) (sa_name b)) (db_serviceAccounts d) in
     if can s p ''platform.view'' ''/'' None then rows else filter (\<lambda>a. truthy (sa_tenantId a) \<and> manages s p a) rows)"

text \<open>Hydra knows each account as a client; creating one is refused when it does not answer.\<close>

definition create_account ::
  "(service_account_row \<Rightarrow> unit result) \<Rightarrow> int \<Rightarrow> string \<Rightarrow> snapshot \<Rightarrow> db \<Rightarrow> principal \<Rightarrow> string \<Rightarrow> string option \<Rightarrow> string option
   \<Rightarrow> service_account_row handled" where
  "create_account createClient now i s d p name tenantId platformRole =
     then_do
       (if truthy tenantId then
          if truthy platformRole then Inl (ApiError 400 ''invalid_request'' ''Tenant service accounts cannot have a platform role'')
          else then_do (uuidParam (the tenantId) ''Not found'') (\<lambda>t. then_do (needTenant d s p t ''tenant.members'') (\<lambda>_. Inr ()))
        else check_that (can s p ''platform.users'' ''/'' None) forbidden) (\<lambda>_.
     let sa = \<lparr>sa_id = i, sa_name = name, sa_tenantId = map_option uuid_of tenantId, sa_clientId = ''sa-'' @ i,
           sa_createdBy = (if p_kind p = KUser then Some (p_id p) else None), sa_platformRole = platformRole, sa_disabled = False, sa_createdAt = now\<rparr> in
     if tenantId = Some [] then Inl (OtherError ''invalid input syntax for type uuid'')
     else if i \<in> sa_id ` set (db_serviceAccounts d) then Inl UniqueViolation
     else then_do (createClient sa) (\<lambda>_.
       Inr (reconcile_if now (sa_affected (sa_tenantId sa) platformRole) (d\<lparr>db_serviceAccounts := db_serviceAccounts d @ [sa]\<rparr>), invalidate (Some s), sa)))"

definition delete_account ::
  "(string \<Rightarrow> unit result) \<Rightarrow> int \<Rightarrow> snapshot \<Rightarrow> db \<Rightarrow> principal \<Rightarrow> string \<Rightarrow> unit handled" where
  "delete_account deleteClient now s d p i =
     then_do (load_account s d p i) (\<lambda>sa.
     then_do (deleteClient (sa_clientId sa)) (\<lambda>_.
       Inr (reconcile_if now (sa_affected (sa_tenantId sa) (sa_platformRole sa)) (drop_service (sa_id sa) d), invalidate (Some s), ())))"

end
