(* ===== verification/Accounts_Steps.thy ===== *)
theory Accounts_Steps
  imports Accounts
begin

text \<open>
  The account routes as steps on the database and the sessions, the well-formedness the database's
  constraints promise, and what the routes keep: well-formedness, an administrator, and that nobody
  acts as a user who is disabled or gone. Last, what a group membership changes in the decisions.
\<close>

section \<open>Steps\<close>

inductive account_step :: "db \<times> sessions \<Rightarrow> db \<times> sessions \<Rightarrow> bool" where
  user_created: "create_user h now i s d p ub = Inr (d', c, v) \<Longrightarrow> account_step (d, rows) (d', rows)"
| user_updated: "update_user h rv now s d rows p i pb = Inr (d', c, rows', v) \<Longrightarrow> account_step (d, rows) (d', rows')"
| user_deleted: "delete_user rv now s d rows p i = Inr (d', c, rows') \<Longrightarrow> account_step (d, rows) (d', rows')"
| group_created: "create_group now i s d p name desc = Inr (d', c, g) \<Longrightarrow> account_step (d, rows) (d', rows)"
| group_updated: "update_group s d p i desc = Inr (d', c, g) \<Longrightarrow> account_step (d, rows) (d', rows)"
| group_deleted: "delete_group now s d p i = Inr (d', c, v) \<Longrightarrow> account_step (d, rows) (d', rows)"
| member_put: "put_group_member now s d p i type m = Inr (d', c, v) \<Longrightarrow> account_step (d, rows) (d', rows)"
| member_removed: "remove_group_member now s d p i type m = Inr (d', c, v) \<Longrightarrow> account_step (d, rows) (d', rows)"
| account_created: "create_account cr now i s d p name t r = Inr (d', c, a) \<Longrightarrow> (p_kind p = KUser \<Longrightarrow> p_id p \<in> us_id ` set (db_users d))
    \<Longrightarrow> account_step (d, rows) (d', rows)"
| account_deleted: "delete_account dc now s d p i = Inr (d', c, v) \<Longrightarrow> account_step (d, rows) (d', rows)"

section \<open>Well-formedness\<close>

definition some_in :: "'a option \<Rightarrow> 'a set \<Rightarrow> bool" where
  "some_in x S = (case x of None \<Rightarrow> True | Some y \<Rightarrow> y \<in> S)"

definition one_of :: "'a option list \<Rightarrow> bool" where
  "one_of xs \<longleftrightarrow> length (filter (\<lambda>x. x \<noteq> None) xs) = 1"

text \<open>Primary keys and unique columns.\<close>

definition keys_ok :: "db \<Rightarrow> bool" where
  "keys_ok d \<longleftrightarrow> distinct (map us_id (db_users d)) \<and> distinct (map us_email (db_users d)) \<and> distinct (map pr_userId (db_platformRoles d)) \<and>
     distinct (map gr_id (db_groups d)) \<and> distinct (map gr_name (db_groups d)) \<and> distinct (map sa_id (db_serviceAccounts d)) \<and>
     distinct (map gm_key (db_groupMembers d))"

text \<open>The rows that refer to users \<open>U\<close>, service accounts \<open>A\<close>, groups \<open>G\<close> and tenants \<open>T\<close>: foreign keys and check constraints.\<close>

definition entry_ok :: "string set \<Rightarrow> string set \<Rightarrow> string set \<Rightarrow> string set \<Rightarrow> acl_entry_row \<Rightarrow> bool" where
  "entry_ok U A G T e \<longleftrightarrow> some_in (ae_userId e) U \<and> some_in (ae_serviceAccountId e) A \<and> some_in (ae_groupId e) G \<and>
     some_in (ae_tenantGroupId e) T \<and> some_in (ae_createdBy e) U \<and>
     one_of [ae_userId e, ae_serviceAccountId e, ae_groupId e, ae_tenantGroupId e]"

definition member_ok :: "string set \<Rightarrow> string set \<Rightarrow> string set \<Rightarrow> group_member_row \<Rightarrow> bool" where
  "member_ok U A G m \<longleftrightarrow> gm_groupId m \<in> G \<and> some_in (gm_userId m) U \<and> some_in (gm_serviceAccountId m) A \<and>
     one_of [gm_userId m, gm_serviceAccountId m]"

definition account_ok :: "string set \<Rightarrow> string set \<Rightarrow> service_account_row \<Rightarrow> bool" where
  "account_ok U T a \<longleftrightarrow> some_in (sa_createdBy a) U \<and> some_in (sa_tenantId a) T"

definition owner_ok :: "string set \<Rightarrow> string set \<Rightarrow> instance_owner_row \<Rightarrow> bool" where
  "owner_ok U A x \<longleftrightarrow> some_in (io_userId x) U \<and> some_in (io_serviceAccountId x) A"

definition rows_ok :: "string set \<Rightarrow> string set \<Rightarrow> string set \<Rightarrow> string set \<Rightarrow> db \<Rightarrow> bool" where
  "rows_ok U A G T d \<longleftrightarrow>
     (\<forall>r\<in>set (db_platformRoles d). pr_userId r \<in> U) \<and> (\<forall>e\<in>set (db_aclEntries d). entry_ok U A G T e) \<and>
     (\<forall>m\<in>set (db_groupMembers d). member_ok U A G m) \<and> (\<forall>a\<in>set (db_serviceAccounts d). account_ok U T a) \<and>
     (\<forall>m\<in>set (db_tenantMembers d). tm_userId m \<in> U \<and> tm_tenantId m \<in> T) \<and>
     (\<forall>q\<in>set (db_userQuotas d). uqr_userId q \<in> U \<and> uqr_tenantId q \<in> T) \<and>
     (\<forall>x\<in>set (db_instanceOwners d). owner_ok U A x)"

definition refs_ok :: "db \<Rightarrow> bool" where
  "refs_ok d \<longleftrightarrow> rows_ok (us_id ` set (db_users d)) (sa_id ` set (db_serviceAccounts d)) (gr_id ` set (db_groups d)) (te_id ` set (db_tenants d)) d"

lemma some_in_mono: "some_in x S \<Longrightarrow> S \<subseteq> T \<Longrightarrow> some_in x T"
  by (auto simp: some_in_def split: option.splits)

lemma some_in_simps [simp]: "some_in None S" "some_in (Some y) S \<longleftrightarrow> y \<in> S"
  by (simp_all add: some_in_def)

lemma some_in_diff: "some_in x S \<Longrightarrow> x \<noteq> Some u \<Longrightarrow> some_in x (S - {u})"
  by (auto simp: some_in_def split: option.splits)

lemma ids_removed: "key ` set (t_remove key rows k) = key ` set rows - {k}"
  by (auto simp: t_remove_def)

lemma map_updated: "(\<And>r. key (f r) = key r) \<Longrightarrow> map key (t_update sel f rows) = map key rows"
  by (auto simp: t_update_def)

lemma ids_updated: "(\<And>r. key (f r) = key r) \<Longrightarrow> key ` set (t_update sel f rows) = key ` set rows"
  unfolding set_map[symmetric] by (simp only: map_updated)

lemma ball_updated: "(\<forall>r\<in>set (t_update sel f rows). Q r) \<longleftrightarrow> (\<forall>r\<in>set rows. Q (if sel r then f r else r))"
  by (auto simp: t_update_def)

text \<open>Only the clusters' columns about reconciliation change when it is asked for.\<close>

lemma reconcile_clusters: "requestReconcile now d t = d\<lparr>db_clusters := db_clusters (requestReconcile now d t)\<rparr>"
  by (cases t) (auto simp: requestReconcile_def)

lemma reconcile_if_clusters: "reconcile_if now t d = d\<lparr>db_clusters := db_clusters (reconcile_if now t d)\<rparr>"
  by (cases t) (auto simp: reconcile_if_def intro: reconcile_clusters[THEN trans])

lemma refs_clusters [simp]: "refs_ok (d\<lparr>db_clusters := x\<rparr>) = refs_ok d" "keys_ok (d\<lparr>db_clusters := x\<rparr>) = keys_ok d"
  "administrators (d\<lparr>db_clusters := x\<rparr>) = administrators d"
  by (simp_all add: refs_ok_def rows_ok_def keys_ok_def administrators_def admin_roles_def admin_entries_def fenced_def)

lemma refs_reconcile [simp]: "refs_ok (requestReconcile now d t) = refs_ok d" "keys_ok (requestReconcile now d t) = keys_ok d"
  "administrators (requestReconcile now d t) = administrators d"
  by (subst reconcile_clusters, simp)+

lemma refs_reconcile_if [simp]: "refs_ok (reconcile_if now t d) = refs_ok d" "keys_ok (reconcile_if now t d) = keys_ok d"
  "administrators (reconcile_if now t d) = administrators d"
  by (cases t; simp add: reconcile_if_def)+

section \<open>Each change keeps the constraints\<close>

lemma distinct_snoc: "distinct (map f (xs @ [x])) \<longleftrightarrow> distinct (map f xs) \<and> f x \<notin> f ` set xs"
  by auto

lemma rows_mono:
  assumes "rows_ok U A G T d" "U \<subseteq> U'" "A \<subseteq> A'" "G \<subseteq> G'"
  shows "rows_ok U' A' G' T d"
  using assms some_in_mono unfolding rows_ok_def entry_ok_def member_ok_def account_ok_def owner_ok_def by (meson subsetD)

lemma drop_user_rows:
  assumes "rows_ok U A G T d"
  shows "rows_ok (U - {u}) A G T (drop_user u d)"
proof -
  have e: "entry_ok (U - {u}) A G T (if ae_createdBy e = Some u then e\<lparr>ae_createdBy := None\<rparr> else e)"
    if "entry_ok U A G T e" "ae_userId e \<noteq> Some u" for e
    using that by (simp add: entry_ok_def some_in_diff)
  have m: "member_ok (U - {u}) A G m" if "member_ok U A G m" "gm_userId m \<noteq> Some u" for m
    using that by (simp add: member_ok_def some_in_diff)
  have a: "account_ok (U - {u}) T (if sa_createdBy a = Some u then a\<lparr>sa_createdBy := None\<rparr> else a)" if "account_ok U T a" for a
    using that by (simp add: account_ok_def some_in_diff)
  have x: "owner_ok (U - {u}) A (if io_userId x = Some u then x\<lparr>io_userId := None\<rparr> else x)" if "owner_ok U A x" for x
    using that by (simp add: owner_ok_def some_in_diff)
  show ?thesis
    using assms e m a x unfolding rows_ok_def by (simp add: drop_user_def ball_updated)
qed

lemma drop_user_ok:
  assumes "refs_ok d" "keys_ok d"
  shows "refs_ok (drop_user u d)" "keys_ok (drop_user u d)"
proof -
  have "us_id ` set (db_users (drop_user u d)) = us_id ` set (db_users d) - {u}" by (simp add: drop_user_def ids_removed)
  moreover have "sa_id ` set (db_serviceAccounts (drop_user u d)) = sa_id ` set (db_serviceAccounts d)" by (simp add: drop_user_def ids_updated)
  moreover have "db_groups (drop_user u d) = db_groups d" "db_tenants (drop_user u d) = db_tenants d" by (simp_all add: drop_user_def)
  ultimately show "refs_ok (drop_user u d)" using drop_user_rows assms(1) by (simp add: refs_ok_def)
  show "keys_ok (drop_user u d)"
    using assms(2) unfolding keys_ok_def drop_user_def by (simp add: t_remove_def map_updated distinct_map_filter)
qed

lemma drop_service_ok:
  assumes "refs_ok d" "keys_ok d"
  shows "refs_ok (drop_service a d)" "keys_ok (drop_service a d)"
proof -
  have x: "owner_ok U (A - {a}) (if io_serviceAccountId x = Some a then x\<lparr>io_serviceAccountId := None\<rparr> else x)" if "owner_ok U A x" for x U A
    using that by (simp add: owner_ok_def some_in_diff)
  have "rows_ok U (A - {a}) G T (drop_service a d)" if "rows_ok U A G T d" for U A G T
    using that x unfolding rows_ok_def
    by (simp add: drop_service_def ball_updated entry_ok_def member_ok_def some_in_diff t_remove_def)
  then show "refs_ok (drop_service a d)" using assms(1) by (simp add: refs_ok_def ids_removed drop_service_def)
  show "keys_ok (drop_service a d)"
    using assms(2) unfolding keys_ok_def drop_service_def by (simp add: t_remove_def distinct_map_filter)
qed

lemma drop_group_ok:
  assumes "refs_ok d" "keys_ok d"
  shows "refs_ok (drop_group g d)" "keys_ok (drop_group g d)"
proof -
  have "rows_ok U A (G - {g}) T (drop_group g d)" if "rows_ok U A G T d" for U A G T
    using that unfolding rows_ok_def drop_group_def by (simp add: entry_ok_def member_ok_def some_in_diff)
  then show "refs_ok (drop_group g d)" using assms(1) by (simp add: refs_ok_def ids_removed drop_group_def)
  show "keys_ok (drop_group g d)"
    using assms(2) unfolding keys_ok_def drop_group_def by (simp add: t_remove_def distinct_map_filter)
qed

section \<open>What a handler that succeeds did\<close>

lemma uuidParam_Inr [simp]: "uuidParam i what = Inr j \<longleftrightarrow> isUuid i \<and> j = i"
  by (auto simp: uuidParam_def)

lemma load_userD: "load_user d i = Inr (u, role) \<Longrightarrow> u \<in> set (db_users d) \<and> us_id u = uuid_of i"
  by (cases "t_lookup us_id (db_users d) (uuid_of i)") (auto simp: load_user_def then_do_Inr_iff dest: t_lookup_SomeD)

lemma create_userE:
  assumes "create_user h now i s d p ub = Inr (d', c, v)"
  obtains u rs cs where "d' = d\<lparr>db_users := db_users d @ [u], db_platformRoles := db_platformRoles d @ rs, db_clusters := cs\<rparr>"
    "us_id u = i" "i \<notin> us_id ` set (db_users d)" "us_email u \<notin> us_email ` set (db_users d)" "rs = [] \<or> (\<exists>r. rs = [\<lparr>pr_userId = i, pr_role = r\<rparr>])"
proof -
  from assms have new: "i \<notin> us_id ` set (db_users d)" "uc_email ub \<notin> us_email ` set (db_users d)"
    by (auto simp: create_user_def then_do_Inr_iff Let_def split: if_splits)
  let ?u = "\<lparr>us_id = i, us_email = uc_email ub, us_name = uc_name ub,
    us_passwordHash = (if truthy (uc_password ub) then Some (h (the (uc_password ub))) else None), us_disabled = False,
    us_createdAt = now, us_lastLoginAt = None\<rparr>"
  let ?rs = "if truthy (uc_platformRole ub) then [\<lparr>pr_userId = i, pr_role = the (uc_platformRole ub)\<rparr>] else []"
  have "d' = d\<lparr>db_users := db_users d @ [?u], db_platformRoles := db_platformRoles d @ ?rs, db_clusters := db_clusters d'\<rparr>"
    using assms by (auto simp: create_user_def then_do_Inr_iff Let_def requestReconcile_def split: if_splits)
  from that[OF this] new show thesis by simp
qed

lemma update_userE:
  assumes "update_user h rv now s d rows p i pb = Inr (d', c, rows', v)"
  obtains u rs cs where "u \<in> set (db_users d)" "keepAnAdministrator d (lost_by u pb) = Inr ()"
    "d' = d\<lparr>db_users := t_update (\<lambda>x. us_id x = us_id u) (patched h pb) (db_users d), db_platformRoles := rs, db_clusters := cs\<rparr>"
    "rs = db_platformRoles d \<or> (\<exists>role. up_platformRole pb = Some role \<and> rs = filter (\<lambda>r. pr_userId r \<noteq> us_id u) (db_platformRoles d) @
       (if truthy role then [\<lparr>pr_userId = us_id u, pr_role = the role\<rparr>] else []))"
    "rows' = (if up_disabled pb = Some True then filter (\<lambda>r. se_userId r \<noteq> us_id u) rows else rows)"
    "us_id u = uuid_of i"
proof -
  obtain u role where lu: "load_user d i = Inr (u, role)"
    using assms by (cases "load_user d i") (auto simp: update_user_def then_do_Inr_iff)
  then have u: "u \<in> set (db_users d)" "us_id u = uuid_of i"
    by (auto dest: load_userD)
  have keep: "keepAnAdministrator d (lost_by u pb) = Inr ()"
    using assms lu by (auto simp: update_user_def then_do_Inr_iff)
  define ch where "ch \<longleftrightarrow> up_platformRole pb \<noteq> None \<and> up_platformRole pb \<noteq> Some role"
  let ?d1 = "d\<lparr>db_users := t_update (\<lambda>x. us_id x = us_id u) (patched h pb) (db_users d)\<rparr>"
  let ?d2 = "if ch then set_role (us_id u) (the (up_platformRole pb)) ?d1 else ?d1"
  have d': "d' = (if up_disabled pb \<noteq> None \<or> up_platformRole pb \<noteq> None then requestReconcile now ?d2 AllClusters else ?d2)"
    and r': "rows' = (if up_disabled pb = Some True then filter (\<lambda>r. se_userId r \<noteq> us_id u) rows else rows)"
    using assms lu keep by (auto simp: update_user_def then_do_Inr_iff Let_def ch_def)
  have cs: "d' = ?d2\<lparr>db_clusters := db_clusters d'\<rparr>" using d' by (auto simp: requestReconcile_def set_role_def)
  show thesis
  proof (cases ch)
    case True
    then obtain role' where "up_platformRole pb = Some role'" by (auto simp: ch_def)
    with True cs have "d' = d\<lparr>db_users := t_update (\<lambda>x. us_id x = us_id u) (patched h pb) (db_users d),
        db_platformRoles := filter (\<lambda>r. pr_userId r \<noteq> us_id u) (db_platformRoles d) @
          (if truthy role' then [\<lparr>pr_userId = us_id u, pr_role = the role'\<rparr>] else []), db_clusters := db_clusters d'\<rparr>"
      by (simp add: set_role_def)
    from that[OF u(1) keep this _ r' u(2)] \<open>up_platformRole pb = Some role'\<close> show thesis by blast
  next
    case False
    with cs have "d' = d\<lparr>db_users := t_update (\<lambda>x. us_id x = us_id u) (patched h pb) (db_users d),
        db_platformRoles := db_platformRoles d, db_clusters := db_clusters d'\<rparr>" by simp
    from that[OF u(1) keep this disjI1[OF refl] r' u(2)] show thesis .
  qed
qed

lemma delete_userE:
  assumes "delete_user rv now s d rows p i = Inr (d', c, rows')"
  obtains u where "u \<in> set (db_users d)" "us_id u = uuid_of i" "keepAnAdministrator d (\<lambda>h. hold_user h = us_id u) = Inr ()"
    "d' = requestReconcile now (drop_user (us_id u) d) AllClusters" "rows' = filter (\<lambda>r. se_userId r \<noteq> us_id u) rows"
proof -
  obtain u role where lu: "load_user d i = Inr (u, role)"
    using assms by (cases "load_user d i") (auto simp: delete_user_def then_do_Inr_iff)
  then have "u \<in> set (db_users d)" "us_id u = uuid_of i"
    by (auto dest: load_userD)
  then show thesis using assms lu by (intro that) (auto simp: delete_user_def then_do_Inr_iff)
qed

lemma load_groupD: "load_group d i = Inr g \<Longrightarrow> g \<in> set (db_groups d) \<and> gr_id g = uuid_of i"
  by (cases "t_lookup gr_id (db_groups d) (uuid_of i)") (auto simp: load_group_def then_do_Inr_iff dest: t_lookup_SomeD)

lemma put_memberE:
  assumes "put_group_member now s d p i type m = Inr (d', c, v)"
  obtains g u a f guard where "g \<in> set (db_groups d)" "gr_id g = uuid_of i"
    "u = (if type = ''user'' then Some (uuid_of m) else None)" "a = (if type = ''user'' then None else Some (uuid_of m))"
    "some_in u (us_id ` set (db_users d))" "some_in a (sa_id ` set (db_serviceAccounts d))"
    "d' = requestReconcile now (d\<lparr>db_groupMembers := t_upsert gm_key (db_groupMembers d)
       \<lparr>gm_groupId = gr_id g, gm_userId = u, gm_serviceAccountId = a, gm_providerId = None, gm_createdAt = now\<rparr> f guard\<rparr>) AllClusters"
    "\<forall>r. gm_key (f r) = gm_key r"
proof -
  obtain g where g: "load_group d i = Inr g" using assms by (auto simp: put_group_member_def then_do_Inr_iff)
  note gm = load_groupD[OF g]
  show thesis
  proof (cases "type = ''user''")
    case True
    then show thesis
      using assms g gm by (intro that[of g "Some (uuid_of m)" None "\<lambda>r. r\<lparr>gm_providerId := None\<rparr>" "\<lambda>_. True"])
        (auto simp: put_group_member_def then_do_Inr_iff gm_key_def split: if_splits)
  next
    case False
    then show thesis
      using assms g gm by (intro that[of g None "Some (uuid_of m)" id "\<lambda>_. False"])
        (auto simp: put_group_member_def then_do_Inr_iff split: if_splits)
  qed
qed

text \<open>The key of a member in the unique constraint, by the type of the request.\<close>

definition named_member :: "string \<Rightarrow> string \<Rightarrow> string option \<times> string option" where
  "named_member type m = (if type = ''service'' then (None, Some (uuid_of m)) else (Some (uuid_of m), None))"

lemma remove_memberE:
  assumes "remove_group_member now s d p i type m = Inr (d', c, v)"
  obtains g where "g \<in> set (db_groups d)" "gr_id g = uuid_of i"
    "d' = requestReconcile now (d\<lparr>db_groupMembers := filter (\<lambda>r. gm_key r \<noteq> (gr_id g, named_member type m)) (db_groupMembers d)\<rparr>) AllClusters"
proof -
  obtain g where g: "load_group d i = Inr g" using assms by (auto simp: remove_group_member_def then_do_Inr_iff)
  have "(\<lambda>r. \<not> (gm_groupId r = gr_id g \<and> (if type = ''service'' then gm_serviceAccountId r = Some (uuid_of m) \<and> gm_userId r = None
      else gm_userId r = Some (uuid_of m) \<and> gm_serviceAccountId r = None))) = (\<lambda>r. gm_key r \<noteq> (gr_id g, named_member type m))"
    by (auto simp: gm_key_def named_member_def)
  then show thesis using assms g load_groupD[OF g] that[of g]
    by (simp add: remove_group_member_def then_do_Inr_iff Let_def)
qed

lemma create_accountE:
  assumes "create_account cr now i s d p name t r = Inr (d', c, a)"
  obtains cs where "d' = d\<lparr>db_serviceAccounts := db_serviceAccounts d @ [a], db_clusters := cs\<rparr>" "sa_id a = i" "i \<notin> sa_id ` set (db_serviceAccounts d)"
    "some_in (sa_tenantId a) (te_id ` set (db_tenants d))" "sa_createdBy a = (if p_kind p = KUser then Some (p_id p) else None)"
proof -
  let ?a = "\<lparr>sa_id = i, sa_name = name, sa_tenantId = map_option uuid_of t, sa_clientId = ''sa-'' @ i,
    sa_createdBy = (if p_kind p = KUser then Some (p_id p) else None), sa_platformRole = r, sa_disabled = False, sa_createdAt = now\<rparr>"
  have a: "a = ?a" and i: "i \<notin> sa_id ` set (db_serviceAccounts d)" and t: "t \<noteq> Some []"
    and d': "d' = reconcile_if now (sa_affected (sa_tenantId a) r) (d\<lparr>db_serviceAccounts := db_serviceAccounts d @ [a]\<rparr>)"
    using assms by (auto simp: create_account_def then_do_Inr_iff Let_def split: if_splits)
  have "some_in (sa_tenantId a) (te_id ` set (db_tenants d))"
  proof (cases t)
    case (Some x)
    with t assms obtain path where "needTenant d s p x ''tenant.members'' = Inr path"
      by (auto simp: create_account_def then_do_Inr_iff split: if_splits)
    then obtain row where "t_lookup te_id (db_tenants d) (uuid_of x) = Some row"
      by (cases "t_lookup te_id (db_tenants d) (uuid_of x)") (auto simp: needTenant_def split: if_splits)
    with Some a show ?thesis by (auto dest!: t_lookup_SomeD intro: rev_image_eqI)
  qed (simp add: a)
  moreover have "d' = d\<lparr>db_serviceAccounts := db_serviceAccounts d @ [a], db_clusters := db_clusters d'\<rparr>"
    unfolding d' by (subst reconcile_if_clusters) simp
  ultimately show thesis using that i a by simp
qed

lemma load_accountD: "load_account s d p i = Inr a \<Longrightarrow> a \<in> set (db_serviceAccounts d) \<and> sa_id a = uuid_of i \<and> manages s p a"
  by (cases "t_lookup sa_id (db_serviceAccounts d) (uuid_of i)") (auto simp: load_account_def then_do_Inr_iff dest: t_lookup_SomeD split: if_splits)

section \<open>Well-formedness is kept\<close>

lemma upsert_keys:
  assumes "\<And>r. key (f r) = key r" "distinct (map key rows)"
  shows "distinct (map key (t_upsert key rows row f guard))"
proof -
  have "map key (map (\<lambda>r. if key r = key row \<and> guard r then f r else r) rows) = map key rows" by (simp add: assms(1))
  then show ?thesis using assms(2) unfolding t_upsert_def by (auto simp del: map_map)
qed

lemma upsert_ball:
  assumes "\<And>r. r \<in> set rows \<Longrightarrow> P r" "P row" "\<And>r. P r \<Longrightarrow> P (f r)"
  shows "\<forall>r\<in>set (t_upsert key rows row f guard). P r"
  using assms by (auto simp: t_upsert_def)

lemma member_ok_key: "gm_key r = gm_key r' \<Longrightarrow> member_ok U A G r = member_ok U A G r'"
  by (simp add: member_ok_def gm_key_def)

lemma create_user_ok:
  assumes "create_user h now i s d p ub = Inr (d', c, v)" "refs_ok d" "keys_ok d"
  shows "refs_ok d' \<and> keys_ok d'"
proof -
  obtain u rs cs where
    d': "d' = d\<lparr>db_users := db_users d @ [u], db_platformRoles := db_platformRoles d @ rs, db_clusters := cs\<rparr>"
    and u: "us_id u = i" "i \<notin> us_id ` set (db_users d)" "us_email u \<notin> us_email ` set (db_users d)"
    and rs: "rs = [] \<or> (\<exists>r. rs = [\<lparr>pr_userId = i, pr_role = r\<rparr>])"
    using assms(1) by (rule create_userE)
  have "i \<notin> pr_userId ` set (db_platformRoles d)" using assms(2) u(2) by (auto simp: refs_ok_def rows_ok_def)
  then have "distinct (map pr_userId (db_platformRoles d @ rs))" using assms(3) rs by (auto simp: keys_ok_def image_iff)
  moreover have "distinct (map us_id (db_users d @ [u]))" "distinct (map us_email (db_users d @ [u]))"
    using assms(3) u unfolding distinct_snoc keys_ok_def by simp_all
  ultimately have "keys_ok d'" using assms(3) unfolding d' keys_ok_def by simp
  moreover have "rows_ok (us_id ` set (db_users d) \<union> {i}) (sa_id ` set (db_serviceAccounts d)) (gr_id ` set (db_groups d)) (te_id ` set (db_tenants d)) d"
    using assms(2) by (auto simp: refs_ok_def intro: rows_mono)
  then have "refs_ok d'" using rs u(1) by (auto simp: d' refs_ok_def rows_ok_def)
  ultimately show ?thesis by simp
qed

lemma update_user_ok:
  assumes "update_user h rv now s d rows p i pb = Inr (d', c, rows', v)" "refs_ok d" "keys_ok d"
  shows "refs_ok d' \<and> keys_ok d'"
proof -
  obtain u rs cs where u: "u \<in> set (db_users d)" and "keepAnAdministrator d (lost_by u pb) = Inr ()"
    and d': "d' = d\<lparr>db_users := t_update (\<lambda>x. us_id x = us_id u) (patched h pb) (db_users d), db_platformRoles := rs, db_clusters := cs\<rparr>"
    and rs: "rs = db_platformRoles d \<or> (\<exists>role. up_platformRole pb = Some role \<and> rs = filter (\<lambda>r. pr_userId r \<noteq> us_id u) (db_platformRoles d) @
       (if truthy role then [\<lparr>pr_userId = us_id u, pr_role = the role\<rparr>] else []))"
    and "rows' = (if up_disabled pb = Some True then filter (\<lambda>r. se_userId r \<noteq> us_id u) rows else rows)" "us_id u = uuid_of i"
    using assms(1) by (rule update_userE)
  have same: "us_id (patched h pb x) = us_id x" "us_email (patched h pb x) = us_email x" for x by (simp_all add: patched_def)
  have "distinct (map pr_userId rs)" using rs assms(3) by (auto simp: keys_ok_def distinct_map_filter)
  then have "keys_ok d'" using assms(3) by (simp add: d' keys_ok_def map_updated same)
  moreover have "\<forall>r\<in>set rs. pr_userId r \<in> us_id ` set (db_users d)" using rs assms(2) u by (auto simp: refs_ok_def rows_ok_def)
  then have "refs_ok d'" using assms(2) by (simp add: d' refs_ok_def rows_ok_def ids_updated same)
  ultimately show ?thesis by simp
qed

lemma put_member_ok:
  assumes "put_group_member now s d p i type m = Inr (d', c, v)" "refs_ok d" "keys_ok d"
  shows "refs_ok d' \<and> keys_ok d'"
proof -
  obtain g u a f guard where g: "g \<in> set (db_groups d)" "gr_id g = uuid_of i"
    and ua: "u = (if type = ''user'' then Some (uuid_of m) else None)" "a = (if type = ''user'' then None else Some (uuid_of m))"
      "some_in u (us_id ` set (db_users d))" "some_in a (sa_id ` set (db_serviceAccounts d))"
    and d': "d' = requestReconcile now (d\<lparr>db_groupMembers := t_upsert gm_key (db_groupMembers d)
       \<lparr>gm_groupId = gr_id g, gm_userId = u, gm_serviceAccountId = a, gm_providerId = None, gm_createdAt = now\<rparr> f guard\<rparr>) AllClusters"
    and f: "\<forall>r. gm_key (f r) = gm_key r"
    using assms(1) by (rule put_memberE)
  let ?ok = "member_ok (us_id ` set (db_users d)) (sa_id ` set (db_serviceAccounts d)) (gr_id ` set (db_groups d))"
  have "\<forall>r\<in>set (t_upsert gm_key (db_groupMembers d)
       \<lparr>gm_groupId = gr_id g, gm_userId = u, gm_serviceAccountId = a, gm_providerId = None, gm_createdAt = now\<rparr> f guard). ?ok r"
  proof (rule upsert_ball)
    show "?ok r" if "r \<in> set (db_groupMembers d)" for r using that assms(2) by (simp add: refs_ok_def rows_ok_def)
    show "?ok \<lparr>gm_groupId = gr_id g, gm_userId = u, gm_serviceAccountId = a, gm_providerId = None, gm_createdAt = now\<rparr>"
      using g(1) ua by (auto simp: member_ok_def one_of_def)
    show "?ok (f r)" if "?ok r" for r using that member_ok_key[OF f[rule_format]] by simp
  qed
  moreover have "distinct (map gm_key (t_upsert gm_key (db_groupMembers d)
       \<lparr>gm_groupId = gr_id g, gm_userId = u, gm_serviceAccountId = a, gm_providerId = None, gm_createdAt = now\<rparr> f guard))"
    by (rule upsert_keys[where key = gm_key, OF f[rule_format]]) (use assms(3) in \<open>simp add: keys_ok_def\<close>)
  ultimately show ?thesis using assms(2,3) unfolding d' refs_reconcile by (simp add: refs_ok_def rows_ok_def keys_ok_def)
qed

lemma create_group_ok:
  assumes "create_group now i s d p name desc = Inr (d', c, g)" "refs_ok d" "keys_ok d"
  shows "refs_ok d' \<and> keys_ok d'"
proof -
  have d': "d' = d\<lparr>db_groups := db_groups d @ [g]\<rparr>" and g: "gr_id g \<notin> gr_id ` set (db_groups d)" "gr_name g \<notin> gr_name ` set (db_groups d)"
    using assms(1) by (auto simp: create_group_def then_do_Inr_iff Let_def split: if_splits)
  have "distinct (map gr_id (db_groups d @ [g]))" "distinct (map gr_name (db_groups d @ [g]))"
    using assms(3) g unfolding distinct_snoc keys_ok_def by simp_all
  then have "keys_ok d'" using assms(3) unfolding d' keys_ok_def by simp
  moreover have "rows_ok (us_id ` set (db_users d)) (sa_id ` set (db_serviceAccounts d)) (gr_id ` set (db_groups d) \<union> {gr_id g}) (te_id ` set (db_tenants d)) d"
    using assms(2) by (auto simp: refs_ok_def intro: rows_mono)
  then have "refs_ok d'" by (simp add: d' refs_ok_def rows_ok_def)
  ultimately show ?thesis by simp
qed

lemma create_account_ok:
  assumes "create_account cr now i s d p name t r = Inr (d', c, a)" "p_kind p = KUser \<Longrightarrow> p_id p \<in> us_id ` set (db_users d)"
    "refs_ok d" "keys_ok d"
  shows "refs_ok d' \<and> keys_ok d'"
proof -
  obtain cs where d': "d' = d\<lparr>db_serviceAccounts := db_serviceAccounts d @ [a], db_clusters := cs\<rparr>"
    and a: "sa_id a = i" "i \<notin> sa_id ` set (db_serviceAccounts d)" "some_in (sa_tenantId a) (te_id ` set (db_tenants d))"
      "sa_createdBy a = (if p_kind p = KUser then Some (p_id p) else None)"
    using assms(1) by (rule create_accountE)
  have "distinct (map sa_id (db_serviceAccounts d @ [a]))" using assms(4) a unfolding distinct_snoc keys_ok_def by simp
  then have "keys_ok d'" using assms(4) unfolding d' keys_ok_def by simp
  moreover have "rows_ok (us_id ` set (db_users d)) (sa_id ` set (db_serviceAccounts d) \<union> {i}) (gr_id ` set (db_groups d)) (te_id ` set (db_tenants d)) d"
    using assms(3) by (auto simp: refs_ok_def intro: rows_mono)
  then have "refs_ok d'" using a assms(2) by (simp add: d' refs_ok_def rows_ok_def account_ok_def)
  ultimately show ?thesis by simp
qed

lemma step_ok:
  assumes "account_step st st'" "refs_ok (fst st)" "keys_ok (fst st)"
  shows "refs_ok (fst st') \<and> keys_ok (fst st')"
  using assms
proof (induction rule: account_step.induct)
  case (user_created h now i s d p ub d' c v rows)
  then show ?case using create_user_ok by simp
next
  case (user_updated h rv now s d rows p i pb d' c rows' v)
  then show ?case using update_user_ok by simp
next
  case (user_deleted rv now s d rows p i d' c rows')
  then show ?case using drop_user_ok by (elim delete_userE) simp
next
  case (group_created now i s d p name desc d' c g rows)
  then show ?case using create_group_ok by simp
next
  case (group_updated s d p i desc d' c g rows)
  then show ?case
    by (auto simp: update_group_def then_do_Inr_iff refs_ok_def keys_ok_def rows_ok_def map_updated ids_updated)
next
  case (group_deleted now s d p i d' c v rows)
  then show ?case using drop_group_ok by (auto simp: delete_group_def then_do_Inr_iff)
next
  case (member_put now s d p i type m d' c v rows)
  then show ?case using put_member_ok by simp
next
  case (member_removed now s d p i type m d' c v rows)
  then obtain keep where "d' = requestReconcile now (d\<lparr>db_groupMembers := filter keep (db_groupMembers d)\<rparr>) AllClusters"
    by (elim remove_memberE)
  moreover have "refs_ok (d\<lparr>db_groupMembers := filter keep (db_groupMembers d)\<rparr>)" "keys_ok (d\<lparr>db_groupMembers := filter keep (db_groupMembers d)\<rparr>)"
    using member_removed by (simp_all add: refs_ok_def rows_ok_def keys_ok_def distinct_map_filter)
  ultimately show ?case by simp
next
  case (account_created cr now i s d p name t r d' c a rows)
  then show ?case using create_account_ok by simp
next
  case (account_deleted dc now s d p i d' c v rows)
  then show ?case using drop_service_ok by (auto simp: delete_account_def then_do_Inr_iff)
qed

lemma run_ok:
  assumes "account_step\<^sup>*\<^sup>* st st'" "refs_ok (fst st)" "keys_ok (fst st)"
  shows "refs_ok (fst st') \<and> keys_ok (fst st')"
  using assms by (induction rule: rtranclp_induct) (auto dest: step_ok)

section \<open>An administrator stays\<close>

lemma admin_stays:
  assumes "h \<in> set (administrators d)"
    and users: "\<And>u. u \<in> set (db_users d) \<Longrightarrow> us_id u = hold_user h \<Longrightarrow> \<not> us_disabled u \<Longrightarrow> \<exists>u'\<in>set (db_users d'). us_id u' = us_id u \<and> \<not> us_disabled u'"
    and roles: "\<And>r. r \<in> set (db_platformRoles d) \<Longrightarrow> by_role h \<Longrightarrow> pr_userId r = hold_user h \<Longrightarrow> pr_role r = ''admin'' \<Longrightarrow>
      \<exists>r'\<in>set (db_platformRoles d'). pr_userId r' = pr_userId r \<and> pr_role r' = ''admin''"
    and entries: "\<And>e. e \<in> set (db_aclEntries d) \<Longrightarrow> ae_userId e = Some (hold_user h) \<Longrightarrow> ae_path e = ''/'' \<Longrightarrow> ae_role e = ''administrator'' \<Longrightarrow>
      \<exists>e'\<in>set (db_aclEntries d'). ae_id e' = ae_id e \<and> ae_userId e' = ae_userId e \<and> ae_path e' = ae_path e \<and> ae_role e' = ae_role e"
    and fence: "Some (hold_user h) \<in> fenced d' \<Longrightarrow> Some (hold_user h) \<in> fenced d"
  shows "h \<in> set (administrators d')"
proof -
  have not_fenced: "Some (hold_user h) \<notin> fenced d'" using assms(1) fence by (auto simp: administrators_def)
  show ?thesis
  proof (cases h)
    case (ByRole x)
    then obtain r u where r: "r \<in> set (db_platformRoles d)" "pr_userId r = x" "pr_role r = ''admin''"
      and u: "u \<in> set (db_users d)" "us_id u = x" "\<not> us_disabled u"
      using assms(1) by (auto simp: administrators_def admin_roles_def admin_entries_def)
    obtain r' u' where "r' \<in> set (db_platformRoles d')" "pr_userId r' = x" "pr_role r' = ''admin''"
      "u' \<in> set (db_users d')" "us_id u' = x" "\<not> us_disabled u'"
      using roles[OF r(1)] users[OF u(1)] r u ByRole by auto
    then show ?thesis using not_fenced ByRole by (force simp: administrators_def admin_roles_def)
  next
    case (ByEntry x i)
    then obtain e u where e: "e \<in> set (db_aclEntries d)" "ae_id e = i" "ae_userId e = Some x" "ae_path e = ''/''" "ae_role e = ''administrator''"
      and u: "u \<in> set (db_users d)" "us_id u = x" "\<not> us_disabled u"
      using assms(1) by (auto simp: administrators_def admin_roles_def admin_entries_def)
    obtain e' u' where "e' \<in> set (db_aclEntries d')" "ae_id e' = i" "ae_userId e' = Some x" "ae_path e' = ''/''" "ae_role e' = ''administrator''"
      "u' \<in> set (db_users d')" "us_id u' = x" "\<not> us_disabled u'"
      using entries[OF e(1)] users[OF u(1)] e u ByEntry by auto
    then show ?thesis using not_fenced ByEntry by (force simp: administrators_def admin_entries_def)
  qed
qed

lemma administrators_same:
  assumes "db_users d' = db_users d" "db_platformRoles d' = db_platformRoles d" "db_aclEntries d' = db_aclEntries d"
  shows "administrators d' = administrators d"
  using assms by (simp add: administrators_def admin_roles_def admin_entries_def fenced_def)

lemma filtered_admin:
  assumes "h \<in> set (administrators d)" "db_users d' = db_users d" "db_platformRoles d' = db_platformRoles d"
    "db_aclEntries d' = filter keep (db_aclEntries d)" "\<And>e. e \<in> set (db_aclEntries d) \<Longrightarrow> ae_userId e = Some (hold_user h) \<Longrightarrow> ae_path e = ''/'' \<Longrightarrow> keep e"
  shows "h \<in> set (administrators d')"
  by (rule admin_stays[OF assms(1)]) (use assms(2-5) in \<open>auto simp: fenced_def\<close>)

lemma update_keeps_admin:
  assumes "update_user hp rv now s d rows p i pb = Inr (d', c, rows', v)" "administrators d \<noteq> []"
  shows "administrators d' \<noteq> []"
proof -
  obtain u rs cs where "u \<in> set (db_users d)" and keep: "keepAnAdministrator d (lost_by u pb) = Inr ()"
    and d': "d' = d\<lparr>db_users := t_update (\<lambda>x. us_id x = us_id u) (patched hp pb) (db_users d), db_platformRoles := rs, db_clusters := cs\<rparr>"
    and rs: "rs = db_platformRoles d \<or> (\<exists>role. up_platformRole pb = Some role \<and> rs = filter (\<lambda>r. pr_userId r \<noteq> us_id u) (db_platformRoles d) @
       (if truthy role then [\<lparr>pr_userId = us_id u, pr_role = the role\<rparr>] else []))"
    and "rows' = (if up_disabled pb = Some True then filter (\<lambda>r. se_userId r \<noteq> us_id u) rows else rows)" "us_id u = uuid_of i"
    using assms(1) by (rule update_userE)
  obtain h where h: "h \<in> set (administrators d)" "\<not> lost_by u pb h"
    using keep_admin[OF keep list.set_sel(1)[OF assms(2)]] by blast
  have "h \<in> set (administrators d')"
  proof (rule admin_stays[OF h(1)])
    fix x assume x: "x \<in> set (db_users d)" "us_id x = hold_user h" "\<not> us_disabled x"
    let ?x = "if us_id x = us_id u then patched hp pb x else x"
    have "?x \<in> set (db_users d')" using x(1) by (auto simp: d' t_update_def)
    moreover have "us_id ?x = us_id x" "\<not> us_disabled ?x"
      using x h(2) by (auto simp: patched_def lost_by_def split: option.splits)
    ultimately show "\<exists>u'\<in>set (db_users d'). us_id u' = us_id x \<and> \<not> us_disabled u'" by blast
  next
    fix r assume r: "r \<in> set (db_platformRoles d)" "by_role h" "pr_userId r = hold_user h" "pr_role r = ''admin''"
    from rs show "\<exists>r'\<in>set (db_platformRoles d'). pr_userId r' = pr_userId r \<and> pr_role r' = ''admin''"
    proof
      assume "rs = db_platformRoles d" then show ?thesis using r by (auto simp: d')
    next
      assume "\<exists>role. up_platformRole pb = Some role \<and> rs = filter (\<lambda>r. pr_userId r \<noteq> us_id u) (db_platformRoles d) @
        (if truthy role then [\<lparr>pr_userId = us_id u, pr_role = the role\<rparr>] else [])"
      then obtain role where role: "up_platformRole pb = Some role" "rs = filter (\<lambda>r. pr_userId r \<noteq> us_id u) (db_platformRoles d) @
        (if truthy role then [\<lparr>pr_userId = us_id u, pr_role = the role\<rparr>] else [])" by blast
      show ?thesis
      proof (cases "hold_user h = us_id u")
        case True
        then have "role = Some ''admin''" using h(2) r(2) role(1) by (auto simp: lost_by_def)
        then show ?thesis using True r by (auto simp: d' role(2))
      next
        case False
        then show ?thesis using r by (auto simp: d' role(2))
      qed
    qed
  qed (auto simp: d' fenced_def)
  then show ?thesis by auto
qed

lemma delete_keeps_admin:
  assumes "delete_user rv now s d rows p i = Inr (d', c, rows')" "administrators d \<noteq> []"
  shows "administrators d' \<noteq> []"
proof -
  obtain u where u: "u \<in> set (db_users d)" "us_id u = uuid_of i" and keep: "keepAnAdministrator d (\<lambda>h. hold_user h = us_id u) = Inr ()"
    and d': "d' = requestReconcile now (drop_user (us_id u) d) AllClusters" and "rows' = filter (\<lambda>r. se_userId r \<noteq> us_id u) rows"
    using assms(1) by (rule delete_userE)
  obtain h where h: "h \<in> set (administrators d)" "hold_user h \<noteq> us_id u"
    using keep_admin[OF keep list.set_sel(1)[OF assms(2)]] by blast
  have "h \<in> set (administrators (drop_user (us_id u) d))"
  proof (rule admin_stays[OF h(1)])
    fix e assume e: "e \<in> set (db_aclEntries d)" "ae_userId e = Some (hold_user h)"
    let ?e = "if ae_createdBy e = Some (us_id u) then e\<lparr>ae_createdBy := None\<rparr> else e"
    have "?e \<in> set (db_aclEntries (drop_user (us_id u) d))" using e h(2) by (auto simp: drop_user_def t_update_def)
    then show "\<exists>e'\<in>set (db_aclEntries (drop_user (us_id u) d)). ae_id e' = ae_id e \<and> ae_userId e' = ae_userId e \<and>
        ae_path e' = ae_path e \<and> ae_role e' = ae_role e" by (intro bexI[of _ ?e]) simp_all
  next
    assume "Some (hold_user h) \<in> fenced (drop_user (us_id u) d)"
    then show "Some (hold_user h) \<in> fenced d"
      by (auto simp: fenced_def drop_user_def t_update_def image_iff split: if_splits)
  qed (use h(2) in \<open>auto simp: drop_user_def t_remove_def\<close>)
  then show ?thesis by (auto simp: d')
qed

lemma owned_entry_kept:
  assumes "refs_ok d" "e \<in> set (db_aclEntries d)" "ae_userId e = Some u"
  shows "ae_serviceAccountId e = None \<and> ae_groupId e = None \<and> ae_tenantGroupId e = None"
proof -
  have "one_of [ae_userId e, ae_serviceAccountId e, ae_groupId e, ae_tenantGroupId e]"
    using assms(1,2) by (simp add: refs_ok_def rows_ok_def entry_ok_def)
  then show ?thesis using assms(3) by (simp add: one_of_def split: if_splits)
qed

lemma create_keeps_admin:
  assumes "create_user hp now i s d p ub = Inr (d', c, v)" "administrators d \<noteq> []"
  shows "administrators d' \<noteq> []"
proof -
  obtain u rs cs where d': "d' = d\<lparr>db_users := db_users d @ [u], db_platformRoles := db_platformRoles d @ rs, db_clusters := cs\<rparr>"
    "us_id u = i" "i \<notin> us_id ` set (db_users d)" "us_email u \<notin> us_email ` set (db_users d)" "rs = [] \<or> (\<exists>r. rs = [\<lparr>pr_userId = i, pr_role = r\<rparr>])"
    using assms(1) by (rule create_userE)
  obtain h where "h \<in> set (administrators d)" using assms(2) by (cases "administrators d") auto
  then have "h \<in> set (administrators d')" by (rule admin_stays) (auto simp: d'(1) fenced_def)
  then show ?thesis by auto
qed

lemma filter_keeps_admin:
  assumes "refs_ok d" "administrators d \<noteq> []" "db_users d' = db_users d" "db_platformRoles d' = db_platformRoles d"
    "db_aclEntries d' = filter (\<lambda>e. ae_serviceAccountId e \<noteq> Some a) (db_aclEntries d) \<or> db_aclEntries d' = filter (\<lambda>e. ae_groupId e \<noteq> Some g) (db_aclEntries d)"
  shows "administrators d' \<noteq> []"
proof -
  obtain h where h: "h \<in> set (administrators d)" using assms(2) by (cases "administrators d") auto
  from assms(5) have "h \<in> set (administrators d')"
  proof
    assume "db_aclEntries d' = filter (\<lambda>e. ae_serviceAccountId e \<noteq> Some a) (db_aclEntries d)"
    from filtered_admin[OF h assms(3,4) this] show ?thesis using owned_entry_kept[OF assms(1)] by auto
  next
    assume "db_aclEntries d' = filter (\<lambda>e. ae_groupId e \<noteq> Some g) (db_aclEntries d)"
    from filtered_admin[OF h assms(3,4) this] show ?thesis using owned_entry_kept[OF assms(1)] by auto
  qed
  then show ?thesis by auto
qed

lemma drop_group_admin: "refs_ok d \<Longrightarrow> administrators d \<noteq> [] \<Longrightarrow> administrators (drop_group g d) \<noteq> []"
  by (rule filter_keeps_admin[of d _ _ g], assumption+) (simp_all add: drop_group_def)

lemma drop_service_admin: "refs_ok d \<Longrightarrow> administrators d \<noteq> [] \<Longrightarrow> administrators (drop_service a d) \<noteq> []"
  by (rule filter_keeps_admin[of d _ a], assumption+) (simp_all add: drop_service_def)

lemma step_admin:
  assumes "account_step st st'" "refs_ok (fst st)" "administrators (fst st) \<noteq> []"
  shows "administrators (fst st') \<noteq> []"
  using assms
proof (induction rule: account_step.induct)
  case (user_created h now i s d p ub d' c v rows)
  then show ?case using create_keeps_admin by simp
next
  case (user_updated h rv now s d rows p i pb d' c rows' v)
  then show ?case using update_keeps_admin by simp
next
  case (user_deleted rv now s d rows p i d' c rows')
  then show ?case using delete_keeps_admin by simp
next
  case (group_created now i s d p name desc d' c g rows)
  then have "administrators d' = administrators d"
    by (intro administrators_same) (auto simp: create_group_def then_do_Inr_iff Let_def split: if_splits)
  with group_created show ?case by simp
next
  case (group_updated s d p i desc d' c g rows)
  then have "administrators d' = administrators d"
    by (intro administrators_same) (auto simp: update_group_def then_do_Inr_iff)
  with group_updated show ?case by simp
next
  case (group_deleted now s d p i d' c v rows)
  then obtain g where g: "load_group d i = Inr g" by (auto simp: delete_group_def then_do_Inr_iff)
  with group_deleted have "d' = requestReconcile now (drop_group (gr_id g) d) AllClusters" by (simp add: delete_group_def then_do_Inr_iff)
  with group_deleted drop_group_admin show ?case by simp
next
  case (member_put now s d p i type m d' c v rows)
  then obtain ms where "d' = requestReconcile now (d\<lparr>db_groupMembers := ms\<rparr>) AllClusters" by (elim put_memberE)
  with member_put administrators_same[of "d\<lparr>db_groupMembers := ms\<rparr>" d] show ?case by simp
next
  case (member_removed now s d p i type m d' c v rows)
  then obtain ms where "d' = requestReconcile now (d\<lparr>db_groupMembers := ms\<rparr>) AllClusters" by (elim remove_memberE)
  with member_removed administrators_same[of "d\<lparr>db_groupMembers := ms\<rparr>" d] show ?case by simp
next
  case (account_created cr now i s d p name t r d' c a rows)
  from account_created(1) obtain cs where "d' = d\<lparr>db_serviceAccounts := db_serviceAccounts d @ [a], db_clusters := cs\<rparr>"
    by (elim create_accountE)
  with account_created administrators_same[of d' d] show ?case by simp
next
  case (account_deleted dc now s d p i d' c v rows)
  then obtain a where a: "load_account s d p i = Inr a" by (auto simp: delete_account_def then_do_Inr_iff)
  with account_deleted have "d' = reconcile_if now (sa_affected (sa_tenantId a) (sa_platformRole a)) (drop_service (sa_id a) d)"
    by (simp add: delete_account_def then_do_Inr_iff)
  with account_deleted drop_service_admin show ?case by simp
qed

lemma run_admin:
  assumes "account_step\<^sup>*\<^sup>* st st'" "refs_ok (fst st)" "keys_ok (fst st)" "administrators (fst st) \<noteq> []"
  shows "administrators (fst st') \<noteq> []"
  using assms by (induction rule: rtranclp_induct) (auto dest: run_ok step_admin)

section \<open>What a membership changes\<close>

lemma entries_clusters: "load_entries (d\<lparr>db_clusters := x\<rparr>) = load_entries d" "load_groupsOf (d\<lparr>db_clusters := x\<rparr>) = load_groupsOf d"
  "k8s_rows (d\<lparr>db_clusters := x\<rparr>) = k8s_rows d" "member_rows (d\<lparr>db_clusters := x\<rparr>) = member_rows d"
  by (simp_all add: load_entries_def explicit_entries_def role_entries_def member_entries_def member_rows_def account_entries_def[abs_def]
      account_slug_def[abs_def] load_groupsOf_def k8s_rows_def cong: if_cong option.case_cong)

lemma rows_clusters:
  assumes "\<And>c. cl_id (f c) = cl_id c" "\<And>c. cl_name (f c) = cl_name c"
  shows "place_rows (d\<lparr>db_clusters := map f (db_clusters d)\<rparr>) = place_rows d" "owned_rows (d\<lparr>db_clusters := map f (db_clusters d)\<rparr>) = owned_rows d"
    "located_rows (d\<lparr>db_clusters := map f (db_clusters d)\<rparr>) = located_rows d" "load_groupsAt (d\<lparr>db_clusters := map f (db_clusters d)\<rparr>) = load_groupsAt d"
  by (simp_all add: place_rows_def owned_rows_def located_rows_def load_groupsAt_def assms comp_def cong: if_cong)

lemma load_clusters:
  assumes "\<And>c. cl_id (f c) = cl_id c" "\<And>c. cl_name (f c) = cl_name c"
  shows "load t (d\<lparr>db_clusters := map f (db_clusters d)\<rparr>) = load t d"
  unfolding load_def Let_def load_ids_def load_owners_def load_located_def rows_clusters[of f, OF assms] entries_clusters
  by (simp add: assms comp_def)

lemma load_reconcile [simp]: "load t (requestReconcile now d x) = load t d"
proof -
  obtain f where "requestReconcile now d x = d\<lparr>db_clusters := map f (db_clusters d)\<rparr>" "\<And>c. cl_id (f c) = cl_id c" "\<And>c. cl_name (f c) = cl_name c"
  proof (cases x)
    case AllClusters
    then show ?thesis by (intro that[of "ask now"]) (simp_all add: requestReconcile_def ask_def)
  next
    case (Clusters ids)
    then show ?thesis
      by (intro that[of "\<lambda>c. if cl_id c \<in> set ids then ask now c else c"]) (simp_all add: requestReconcile_def ask_def t_update_def)
  next
    case (OfTenant i)
    then show ?thesis
      by (intro that[of "\<lambda>c. if cl_id c \<in> pl_clusterId ` set (filter (\<lambda>p. pl_tenantId p = i) (db_placements d)) then ask now c else c"])
        (simp_all add: requestReconcile_def ask_def t_update_def)
  qed
  then show ?thesis using load_clusters by simp
qed

lemma parts_members: "load_entries (d\<lparr>db_groupMembers := x\<rparr>) = load_entries d" "place_rows (d\<lparr>db_groupMembers := x\<rparr>) = place_rows d"
  "load_ids (d\<lparr>db_groupMembers := x\<rparr>) = load_ids d" "load_owners (d\<lparr>db_groupMembers := x\<rparr>) = load_owners d"
  "located_rows (d\<lparr>db_groupMembers := x\<rparr>) = located_rows d" "load_groupsAt (d\<lparr>db_groupMembers := x\<rparr>) = load_groupsAt d"
  by (simp_all add: load_entries_def explicit_entries_def role_entries_def member_entries_def member_rows_def account_entries_def[abs_def]
      account_slug_def[abs_def] place_rows_def load_ids_def load_owners_def owned_rows_def k8s_rows_def located_rows_def load_groupsAt_def
      cong: if_cong option.case_cong)

lemma load_members: "load t (d\<lparr>db_groupMembers := ms\<rparr>) = (load t d)\<lparr>sn_groupsOf := load_groupsOf (d\<lparr>db_groupMembers := ms\<rparr>)\<rparr>"
  unfolding load_def Let_def load_located_def parts_members by simp

lemma decide_groups:
  assumes "m_list G x = m_list (sn_groupsOf s) x"
  shows "decide (s\<lparr>sn_groupsOf := G\<rparr>) x path owner = decide s x path owner"
proof -
  let ?s = "s\<lparr>sn_groupsOf := G\<rparr>"
  have k: "keysOf ?s x = keysOf s x" using assms by (simp add: keysOf_def)
  have c: "chain_of ?s = chain_of s" by (simp add: chain_of_def fun_eq_iff)
  have f: "sn_disabled ?s = sn_disabled s" "sn_owners ?s = sn_owners s" "sn_byPath ?s = sn_byPath s" "sn_locatedIn ?s = sn_locatedIn s" by simp_all
  show ?thesis unfolding decide_def k c f ..
qed

definition gm_subject :: "group_member_row \<Rightarrow> string" where
  "gm_subject g = (if truthy (gm_userId g) then ''user:'' @ the (gm_userId g)
     else ''service:'' @ (case gm_serviceAccountId g of None \<Rightarrow> ''null'' | Some a \<Rightarrow> a))"

lemma groups_of:
  "\<exists>rest. \<forall>ms. m_list (load_groupsOf (d\<lparr>db_groupMembers := ms\<rparr>)) x =
     map (\<lambda>g. ''group:'' @ gm_groupId g) (filter (\<lambda>g. gm_subject g = x) ms) @ rest \<and> ''group:'' @ y \<notin> set rest"
proof -
  have push: "m_list (fold (\<lambda>a m. if truthy (sa_tenantId a) then m_push m (''service:'' @ sa_id a) (''tenant:'' @ the (sa_tenantId a)) else m) as m) x =
      m_list m x @ map (\<lambda>a. ''tenant:'' @ the (sa_tenantId a)) (filter (\<lambda>a. truthy (sa_tenantId a) \<and> ''service:'' @ sa_id a = x) as)" for as m
    by (induction as arbitrary: m) auto
  have rows: "member_rows (d\<lparr>db_groupMembers := ms\<rparr>) = member_rows d" for ms by (simp add: member_rows_def)
  let ?rest = "map (\<lambda>r. ''tenant:'' @ tm_tenantId (fst r)) (filter (\<lambda>r. ''user:'' @ tm_userId (fst r) = x) (member_rows d)) @
    map (\<lambda>a. ''tenant:'' @ the (sa_tenantId a)) (filter (\<lambda>a. truthy (sa_tenantId a) \<and> ''service:'' @ sa_id a = x) (db_serviceAccounts d))"
  have "m_list (load_groupsOf (d\<lparr>db_groupMembers := ms\<rparr>)) x = map (\<lambda>g. ''group:'' @ gm_groupId g) (filter (\<lambda>g. gm_subject g = x) ms) @ ?rest" for ms
    unfolding load_groupsOf_def push rows case_prod_unfold m_list_fold_push gm_subject_def by simp
  moreover have "''group:'' @ y \<notin> set ?rest" by auto
  ultimately show ?thesis by blast
qed

lemma member_decisions:
  assumes "ms = t_upsert gm_key (db_groupMembers d) row f guard" "\<forall>r. gm_key (f r) = gm_key r"
  shows "x \<noteq> gm_subject row \<Longrightarrow> decide (load t (d\<lparr>db_groupMembers := ms\<rparr>)) x path owner = decide (load t d) x path owner"
    "set (keysOf (load t (d\<lparr>db_groupMembers := ms\<rparr>)) (gm_subject row)) =
       insert (''group:'' @ gm_groupId row) (set (keysOf (load t d) (gm_subject row)))"
proof -
  have key: "gm_subject r = gm_subject r' \<and> gm_groupId r = gm_groupId r'" if "gm_key r = gm_key r'" for r r'
    using that by (simp add: gm_key_def gm_subject_def)
  have groups: "map (\<lambda>g. ''group:'' @ gm_groupId g) (filter (\<lambda>g. gm_subject g = y) ms) =
      map (\<lambda>g. ''group:'' @ gm_groupId g) (filter (\<lambda>g. gm_subject g = y) (db_groupMembers d)) @
      (if gm_key row \<in> gm_key ` set (db_groupMembers d) \<or> gm_subject row \<noteq> y then [] else [''group:'' @ gm_groupId row])" for y
  proof (cases "gm_key row \<in> gm_key ` set (db_groupMembers d)")
    case True
    let ?f = "\<lambda>r. if gm_key r = gm_key row \<and> guard r then f r else r"
    have ms: "ms = map ?f (db_groupMembers d)" using True by (auto simp: assms(1) t_upsert_def)
    have same: "gm_subject (?f r) = gm_subject r" "gm_groupId (?f r) = gm_groupId r" for r using key[of "f r" r] assms(2) by auto
    then show ?thesis using True unfolding ms by (simp add: filter_map comp_def)
  next
    case False
    then have "ms = db_groupMembers d @ [row]" by (auto simp: assms(1) t_upsert_def image_iff)
    then show ?thesis using False by simp
  qed
  have own: "d\<lparr>db_groupMembers := db_groupMembers d\<rparr> = d" by simp
  {
    assume x: "x \<noteq> gm_subject row"
    obtain rest where "\<forall>ms. m_list (load_groupsOf (d\<lparr>db_groupMembers := ms\<rparr>)) x =
       map (\<lambda>g. ''group:'' @ gm_groupId g) (filter (\<lambda>g. gm_subject g = x) ms) @ rest" using groups_of by blast
    from this[THEN spec, of ms] this[THEN spec, of "db_groupMembers d"] groups[of x] x own
    have "m_list (load_groupsOf (d\<lparr>db_groupMembers := ms\<rparr>)) x = m_list (sn_groupsOf (load t d)) x" by (simp add: load_def Let_def)
    then show "decide (load t (d\<lparr>db_groupMembers := ms\<rparr>)) x path owner = decide (load t d) x path owner"
      unfolding load_members by (rule decide_groups)
  }
  obtain rest where rest: "\<forall>ms. m_list (load_groupsOf (d\<lparr>db_groupMembers := ms\<rparr>)) (gm_subject row) =
     map (\<lambda>g. ''group:'' @ gm_groupId g) (filter (\<lambda>g. gm_subject g = gm_subject row) ms) @ rest" using groups_of by blast
  have known: "''group:'' @ gm_groupId row \<in> set (map (\<lambda>g. ''group:'' @ gm_groupId g) (filter (\<lambda>g. gm_subject g = gm_subject row) (db_groupMembers d)))"
    if "gm_key row \<in> gm_key ` set (db_groupMembers d)"
  proof -
    from that obtain r where r: "gm_key row = gm_key r" "r \<in> set (db_groupMembers d)" by (rule imageE)
    have "gm_subject r = gm_subject row" "gm_groupId r = gm_groupId row" using key[OF r(1)] by simp_all
    with r(2) have "r \<in> set (filter (\<lambda>g. gm_subject g = gm_subject row) (db_groupMembers d))" by simp
    then have "''group:'' @ gm_groupId r \<in> set (map (\<lambda>g. ''group:'' @ gm_groupId g) (filter (\<lambda>g. gm_subject g = gm_subject row) (db_groupMembers d)))"
      unfolding set_map by (rule imageI)
    then show ?thesis using \<open>gm_groupId r = gm_groupId row\<close> by simp
  qed
  have before: "set (m_list (sn_groupsOf (load t d)) (gm_subject row)) =
      set (map (\<lambda>g. ''group:'' @ gm_groupId g) (filter (\<lambda>g. gm_subject g = gm_subject row) (db_groupMembers d))) \<union> set rest"
    using rest[THEN spec, of "db_groupMembers d"] own by (simp add: load_def Let_def)
  have after: "set (m_list (load_groupsOf (d\<lparr>db_groupMembers := ms\<rparr>)) (gm_subject row)) =
      insert (''group:'' @ gm_groupId row) (set (m_list (sn_groupsOf (load t d)) (gm_subject row)))"
    unfolding before rest[THEN spec, of ms] groups[of "gm_subject row"] set_append using known
    by (cases "gm_key row \<in> gm_key ` set (db_groupMembers d)") (simp_all del: set_map add: insert_absorb)
  show "set (keysOf (load t (d\<lparr>db_groupMembers := ms\<rparr>)) (gm_subject row)) =
      insert (''group:'' @ gm_groupId row) (set (keysOf (load t d) (gm_subject row)))"
    unfolding keysOf_def load_members using after by (simp add: insert_commute)
qed

section \<open>Properties\<close>

text \<open>
  C9: The constraints of the database hold after any sequence of user, group and service account
  changes: keys are unique, every reference leads to a row, and each permission entry and each
  group member has exactly one subject; what a deleted row would leave dangling goes with it.
\<close>

theorem constraints_kept:
  assumes "account_step\<^sup>*\<^sup>* (d, rows) (d', rows')" "refs_ok d" "keys_ok d"
  shows "refs_ok d' \<and> keys_ok d'"
  using run_ok[OF assms(1)] assms(2,3) by simp

text \<open>
  C8: No sequence of user, group and service account changes leaves the platform without an
  administrator: not a role taken, a user disabled or deleted, nor a group or account deleted.
\<close>

theorem administrators_survive:
  assumes "account_step\<^sup>*\<^sup>* (d, rows) (d', rows')" "refs_ok d" "keys_ok d" "administrators d \<noteq> []"
  shows "administrators d' \<noteq> []"
  using run_admin[OF assms(1)] assms(2-4) by simp

text \<open>
  C10: Whoever is disabled or deleted is shut out at once: none of their sessions remains, and no
  request afterwards, by cookie or by a token still valid, is theirs.
\<close>

theorem shut_out:
  assumes "(update_user hp rv now s d rows p i b = Inr (d', c, rows', v) \<and> up_disabled b = Some True) \<or>
    delete_user rv now s d rows p i = Inr (d', c, rows')"
  shows "(\<forall>r\<in>set rows'. se_userId r \<noteq> uuid_of i) \<and>
    (\<forall>deps t others locked later store rq store' q. resolvePrincipal deps t others locked later d' store rq = (store', Inr (Some q)) \<longrightarrow>
       p_kind q = KUser \<longrightarrow> p_id q \<noteq> uuid_of i)"
proof -
  have "(\<forall>r\<in>set rows'. se_userId r \<noteq> uuid_of i) \<and> (\<forall>u\<in>set (db_users d'). us_id u = uuid_of i \<longrightarrow> us_disabled u)"
    using assms
  proof
    assume a: "update_user hp rv now s d rows p i b = Inr (d', c, rows', v) \<and> up_disabled b = Some True"
    then have "update_user hp rv now s d rows p i b = Inr (d', c, rows', v)" by simp
    then obtain u rs cs where "u \<in> set (db_users d)" and "keepAnAdministrator d (lost_by u b) = Inr ()"
      and d': "d' = d\<lparr>db_users := t_update (\<lambda>x. us_id x = us_id u) (patched hp b) (db_users d), db_platformRoles := rs, db_clusters := cs\<rparr>"
      and "rs = db_platformRoles d \<or> (\<exists>role. up_platformRole b = Some role \<and> rs = filter (\<lambda>r. pr_userId r \<noteq> us_id u) (db_platformRoles d) @
        (if truthy role then [\<lparr>pr_userId = us_id u, pr_role = the role\<rparr>] else []))"
      and rows: "rows' = (if up_disabled b = Some True then filter (\<lambda>r. se_userId r \<noteq> us_id u) rows else rows)" and u: "us_id u = uuid_of i"
      by (rule update_userE)
    show ?thesis using a by (auto simp: d' rows u t_update_def patched_def)
  next
    assume "delete_user rv now s d rows p i = Inr (d', c, rows')"
    then show ?thesis by (elim delete_userE) (auto simp: drop_user_def t_remove_def)
  qed
  then show ?thesis by (auto simp: enabled_principal_def split: principal_kind.splits dest!: principal_enabled)
qed

text \<open>
  Adding someone to a group gives that group to them and to nobody else: their keys are as before
  and the group's, and every decision on anybody else, on any path, is the same.
\<close>

theorem membership_local:
  assumes "put_group_member now s d p i type m = Inr (d', c, v)"
    and "subject = (if type = ''user'' then ''user:'' else ''service:'') @ uuid_of m"
  shows "set (keysOf (load t d') subject) = insert (''group:'' @ uuid_of i) (set (keysOf (load t d) subject)) \<and>
    (\<forall>x path owner. x \<noteq> subject \<longrightarrow> decide (load t d') x path owner = decide (load t d) x path owner)"
proof -
  obtain g u a f guard where g: "g \<in> set (db_groups d)" "gr_id g = uuid_of i"
    and ua: "u = (if type = ''user'' then Some (uuid_of m) else None)" "a = (if type = ''user'' then None else Some (uuid_of m))"
      "some_in u (us_id ` set (db_users d))" "some_in a (sa_id ` set (db_serviceAccounts d))"
    and d': "d' = requestReconcile now (d\<lparr>db_groupMembers := t_upsert gm_key (db_groupMembers d)
       \<lparr>gm_groupId = gr_id g, gm_userId = u, gm_serviceAccountId = a, gm_providerId = None, gm_createdAt = now\<rparr> f guard\<rparr>) AllClusters"
    and f: "\<forall>r. gm_key (f r) = gm_key r"
    using assms(1) by (rule put_memberE)
  let ?row = "\<lparr>gm_groupId = gr_id g, gm_userId = u, gm_serviceAccountId = a, gm_providerId = None, gm_createdAt = now\<rparr>"
  have "isUuid m" using assms(1) by (auto simp: put_group_member_def then_do_Inr_iff)
  then have "uuid_of m \<noteq> []" by (auto simp: isUuid_def uuid_of_def)
  then have subject: "gm_subject ?row = subject" using assms(2) ua by (simp add: gm_subject_def)
  show ?thesis
    using member_decisions[where d = d and row = ?row and guard = guard, OF refl f] g(2) unfolding subject d' load_reconcile by simp
qed

section \<open>Concrete instances\<close>

definition a_group_id :: string where
  "a_group_id = ''00000000-0000-0000-0000-000000000003''"

definition team_db :: db where
  "team_db = staff_db\<lparr>db_users := [(a_user_row root_id)\<lparr>us_email := ''root''\<rparr>, (a_user_row joe_id)\<lparr>us_email := ''joe''\<rparr>],
     db_groups := [\<lparr>gr_id = a_group_id, gr_name = ''team'', gr_description = [], gr_createdAt = 0\<rparr>]\<rparr>"

lemma team_ok: "refs_ok team_db" "keys_ok team_db" "administrators team_db \<noteq> []"
  by code_simp+

lemma joe_deleted: "is_ok (delete_user (\<lambda>_. Inr ()) 1 (load 0 team_db) team_db [] (a_user root_id) joe_id)"
  by code_simp

lemma joe_joined: "is_ok (put_group_member 1 (load 0 team_db) team_db (a_user root_id) a_group_id ''user'' joe_id)"
  by code_simp

lemma joe_gone: obtains d' c rows' where "delete_user (\<lambda>_. Inr ()) 1 (load 0 team_db) team_db [] (a_user root_id) joe_id = Inr (d', c, rows')"
  using joe_deleted by (auto simp: is_ok_iff)

theorem constraints_kept_witness:
  "\<exists>d' rows'. account_step (team_db, []) (d', rows') \<and> refs_ok d' \<and> keys_ok d'"
proof -
  obtain d' c rows' where "delete_user (\<lambda>_. Inr ()) 1 (load 0 team_db) team_db [] (a_user root_id) joe_id = Inr (d', c, rows')"
    by (rule joe_gone)
  then have s: "account_step (team_db, []) (d', rows')" by (rule user_deleted)
  from constraints_kept[OF r_into_rtranclp[of account_step, OF s] team_ok(1,2)] s show ?thesis by blast
qed

theorem administrators_survive_witness:
  "\<exists>d' rows'. account_step (team_db, []) (d', rows') \<and> administrators d' \<noteq> []"
proof -
  obtain d' c rows' where "delete_user (\<lambda>_. Inr ()) 1 (load 0 team_db) team_db [] (a_user root_id) joe_id = Inr (d', c, rows')"
    by (rule joe_gone)
  then have s: "account_step (team_db, []) (d', rows')" by (rule user_deleted)
  from administrators_survive[OF r_into_rtranclp[of account_step, OF s] team_ok] s show ?thesis by blast
qed

theorem shut_out_witness:
  "\<exists>d' c rows'. delete_user (\<lambda>_. Inr ()) 1 (load 0 team_db) team_db [] (a_user root_id) joe_id = Inr (d', c, rows') \<and>
     (\<nexists>r. r \<in> set rows' \<and> se_userId r = uuid_of joe_id)"
proof -
  obtain d' c rows' where d: "delete_user (\<lambda>_. Inr ()) 1 (load 0 team_db) team_db [] (a_user root_id) joe_id = Inr (d', c, rows')"
    by (rule joe_gone)
  from shut_out[OF disjI2[OF d]] d show ?thesis by blast
qed

theorem membership_local_witness:
  "\<exists>d' c v. put_group_member 1 (load 0 team_db) team_db (a_user root_id) a_group_id ''user'' joe_id = Inr (d', c, v) \<and>
     ''group:'' @ uuid_of a_group_id \<in> set (keysOf (load 0 d') (''user:'' @ uuid_of joe_id))"
proof -
  obtain d' c v where "put_group_member 1 (load 0 team_db) team_db (a_user root_id) a_group_id ''user'' joe_id = Inr (d', c, v)"
    using joe_joined by (auto simp: is_ok_iff)
  moreover from membership_local[OF this, of "''user:'' @ uuid_of joe_id" 0]
  have "''group:'' @ uuid_of a_group_id \<in> set (keysOf (load 0 d') (''user:'' @ uuid_of joe_id))" by simp
  ultimately show ?thesis by blast
qed

end
