(* ===== verification/Tenant_Routes.thy ===== *)
theory Tenant_Routes
  imports Accounts_Steps Tenants Leases
begin

text \<open>
  \<^verbatim>\<open>api/tenants.ts\<close>: tenants, their members and roles, users' quotas inside a tenant and its lease
  policy. As in \<open>Accounts\<close>, a handler takes the snapshot its guards read and answers with the database,
  the cached snapshot afterwards and its reply. Identifiers of a request are compared by the database as
  values (\<open>uuid_of\<close>) and by the permission check as texts.
\<close>

section \<open>What goes with a tenant\<close>

text \<open>A Kubernetes cluster holds its tenant (restrict); jobs and backups outlive it without one.\<close>

definition drop_tenant :: "string \<Rightarrow> db \<Rightarrow> db result" where
  "drop_tenant t d =
    (if \<exists>k\<in>set (db_k8sClusters d). kc_tenantId k = t then Inl (OtherError ''foreign key violation'')
     else let gone = map sa_id (filter (\<lambda>a. sa_tenantId a = Some t) (db_serviceAccounts d));
              d1 = fold drop_service gone d in
       Inr (d1\<lparr>db_tenants := t_remove te_id (db_tenants d1) t,
         db_instanceLeases := filter (\<lambda>l. il_tenantId l \<noteq> t) (db_instanceLeases d1),
         db_userQuotas := filter (\<lambda>q. uqr_tenantId q \<noteq> t) (db_userQuotas d1),
         db_tenantMembers := filter (\<lambda>m. tm_tenantId m \<noteq> t) (db_tenantMembers d1),
         db_aclEntries := filter (\<lambda>e. ae_tenantGroupId e \<noteq> Some t) (db_aclEntries d1),
         db_placements := filter (\<lambda>p. pl_tenantId p \<noteq> t) (db_placements d1),
         db_jobs := t_update (\<lambda>j. jo_tenantId j = Some t) (\<lambda>j. j\<lparr>jo_tenantId := None\<rparr>) (db_jobs d1),
         db_backups := t_update (\<lambda>b. ba_tenantId b = Some t) (\<lambda>b. b\<lparr>ba_tenantId := None\<rparr>) (db_backups d1)\<rparr>))"

section \<open>Guards\<close>

definition load_tenant :: "snapshot \<Rightarrow> db \<Rightarrow> principal \<Rightarrow> string \<Rightarrow> privilege \<Rightarrow> tenant_row result" where
  "load_tenant s d p i privilege =
     then_do (uuidParam i ''Not found'') (\<lambda>_.
     then_do (needTenant d s p i privilege) (\<lambda>_.
     case t_lookup te_id (db_tenants d) (uuid_of i) of None \<Rightarrow> Inl (notFound ''Not found'') | Some row \<Rightarrow> Inr row))"

definition tm_key :: "tenant_member_row \<Rightarrow> string \<times> string" where
  "tm_key m = (tm_tenantId m, tm_userId m)"

definition owners_of :: "db \<Rightarrow> string \<Rightarrow> tenant_member_row list" where
  "owners_of d t = filter (\<lambda>m. tm_tenantId m = t \<and> tm_role m = ''owner'') (db_tenantMembers d)"

definition needOwnerPower :: "snapshot \<Rightarrow> db \<Rightarrow> principal \<Rightarrow> string \<Rightarrow> unit result" where
  "needOwnerPower s d p t =
     check_that ((p_kind p = KUser \<and> (\<exists>m\<in>set (owners_of d t). tm_userId m = p_id p)) \<or> can s p ''platform.users'' ''/'' None) forbidden"

definition ownerCount :: "db \<Rightarrow> string \<Rightarrow> nat" where
  "ownerCount d t = length (owners_of d t)"

section \<open>Tenants\<close>

definition RESERVED :: "string set" where
  "RESERVED = {''default'', ''incuscloud'', ''admin'', ''system''}"

record tenant_create =
  tc_slug :: string
  tc_name :: string
  tc_quotas :: "quotas option"
  tc_ownerId :: "string option"

definition list_tenants :: "(string \<Rightarrow> string \<Rightarrow> rat) \<Rightarrow> snapshot \<Rightarrow> db \<Rightarrow> principal \<Rightarrow> tenant_row list" where
  "list_tenants collate s d p =
     filter (\<lambda>t. can s p ''tenant.view'' (''/tenants/'' @ te_slug t) None) (sort_by (\<lambda>a b. collate (te_slug a) (te_slug b)) (db_tenants d))"

definition create_tenant :: "int \<Rightarrow> string \<Rightarrow> snapshot \<Rightarrow> db \<Rightarrow> principal \<Rightarrow> tenant_create \<Rightarrow> tenant_row handled" where
  "create_tenant now i s d p b =
     then_do (check_that (can s p ''tenant.manage'' ''/'' None) forbidden) (\<lambda>_.
     then_do (check_that (tc_slug b \<notin> RESERVED) (ApiError 400 ''invalid_request'' (''\"'' @ tc_slug b @ ''\" is reserved''))) (\<lambda>_.
     then_do (check_that (tc_slug b \<notin> te_slug ` set (db_tenants d)) (ApiError 409 ''slug_taken'' ''A tenant with this slug already exists'')) (\<lambda>_.
     then_do (if truthy (tc_ownerId b)
       then then_do (uuidParam (the (tc_ownerId b)) ''No such user'') (\<lambda>u. check_that (uuid_of u \<in> us_id ` set (db_users d)) (notFound ''No such user''))
       else Inr ()) (\<lambda>_.
     let row = \<lparr>te_id = i, te_slug = tc_slug b, te_name = tc_name b, te_quotas = (case tc_quotas b of None \<Rightarrow> no_quotas | Some q \<Rightarrow> q),
                te_leasePolicy = None, te_createdAt = now\<rparr> in
     if i \<in> te_id ` set (db_tenants d) then Inl UniqueViolation
     else Inr (d\<lparr>db_tenants := db_tenants d @ [row], db_tenantMembers := db_tenantMembers d @
         (if truthy (tc_ownerId b) then [\<lparr>tm_tenantId = i, tm_userId = uuid_of (the (tc_ownerId b)), tm_role = ''owner'', tm_createdAt = now\<rparr>] else [])\<rparr>,
       invalidate (Some s), row)))))"

text \<open>An update with nothing to set is an error of the query builder.\<close>

definition update_tenant ::
  "int \<Rightarrow> snapshot \<Rightarrow> db \<Rightarrow> principal \<Rightarrow> string \<Rightarrow> string option \<Rightarrow> quotas option \<Rightarrow> tenant_row handled" where
  "update_tenant now s d p i name quotas =
     then_do (load_tenant s d p i ''tenant.view'') (\<lambda>t.
     then_do (check_that (name \<noteq> None \<longrightarrow> can s p ''tenant.manage'' (''/tenants/'' @ te_slug t) None) forbidden) (\<lambda>_.
     then_do (check_that (quotas \<noteq> None \<longrightarrow> can s p ''tenant.quota'' ''/'' None) forbidden) (\<lambda>_.
     if name = None \<and> quotas = None then Inl (OtherError ''No values to set'')
     else let f = (\<lambda>x. x\<lparr>te_name := (case name of None \<Rightarrow> te_name x | Some n \<Rightarrow> n), te_quotas := (case quotas of None \<Rightarrow> te_quotas x | Some q \<Rightarrow> q)\<rparr>);
              d1 = d\<lparr>db_tenants := t_update (\<lambda>x. te_id x = te_id t) f (db_tenants d)\<rparr> in
       Inr (if quotas \<noteq> None then requestReconcile now d1 (OfTenant (te_id t)) else d1, Some s, f t))))"

definition delete_tenant :: "snapshot \<Rightarrow> db \<Rightarrow> principal \<Rightarrow> string \<Rightarrow> unit handled" where
  "delete_tenant s d p i =
     then_do (load_tenant s d p i ''tenant.view'') (\<lambda>t.
     then_do (needOwnerPower s d p (te_id t)) (\<lambda>_.
     then_do (check_that (te_id t \<notin> pl_tenantId ` set (db_placements d))
       (ApiError 409 ''tenant_placed'' ''Remove this tenant from its clusters first'')) (\<lambda>_.
     then_do (drop_tenant (te_id t) d) (\<lambda>d1.
       Inr (d1\<lparr>db_aclEntries := filter (\<lambda>e. \<not> entriesUnder (''/tenants/'' @ te_slug t) e) (db_aclEntries d1)\<rparr>, invalidate (Some s), ())))))"

definition set_lease_policy :: "snapshot \<Rightarrow> db \<Rightarrow> principal \<Rightarrow> string \<Rightarrow> lease_policy option \<Rightarrow> tenant_row handled" where
  "set_lease_policy s d p i policy =
     then_do (load_tenant s d p i ''tenant.view'') (\<lambda>t.
     then_do (check_that (can s p ''tenant.quota'' ''/'' None) forbidden) (\<lambda>_.
     let d1 = d\<lparr>db_tenants := t_update (\<lambda>x. te_id x = te_id t) (\<lambda>x. x\<lparr>te_leasePolicy := policy\<rparr>) (db_tenants d)\<rparr> in
       Inr (if policy = None then dropTenantLeases d1 (te_id t) else d1, Some s, t\<lparr>te_leasePolicy := policy\<rparr>)))"

section \<open>Users' quotas\<close>

definition above :: "int option \<Rightarrow> int option \<Rightarrow> bool" where
  "above x cap = (case (x, cap) of (Some v, Some c) \<Rightarrow> v > c | _ \<Rightarrow> False)"

definition quota_error :: "string \<Rightarrow> int option \<Rightarrow> failure" where
  "quota_error k cap = ApiError 400 ''invalid_request'' (''A user's '' @ k @ '' cannot be above the tenant's ('' @ show_int (the cap) @ '')'')"

definition no_user_quotas :: user_quotas where
  "no_user_quotas = \<lparr>uq_instances = None, uq_cpu = None, uq_memory = None, uq_backups = None\<rparr>"

definition uqr_key :: "user_quota_row \<Rightarrow> string \<times> string" where
  "uqr_key q = (uqr_tenantId q, uqr_userId q)"

definition list_user_quotas :: "snapshot \<Rightarrow> db \<Rightarrow> principal \<Rightarrow> string \<Rightarrow> (user_quota_row \<times> user_usage) list result" where
  "list_user_quotas s d p i =
     then_do (load_tenant s d p i ''tenant.view'') (\<lambda>t.
     let manage = can s p ''tenant.quota'' (''/tenants/'' @ te_slug t) None;
         rows = filter (\<lambda>q. uqr_tenantId q = te_id t \<and> uqr_userId q \<in> us_id ` set (db_users d)) (db_userQuotas d);
         shown = (if manage then rows else filter (\<lambda>r. uqr_userId r = p_id p) rows) in
     Inr (map (\<lambda>r. (r, userUsage d (te_id t) (uqr_userId r))) shown))"

definition set_user_quota :: "snapshot \<Rightarrow> db \<Rightarrow> principal \<Rightarrow> string \<Rightarrow> string \<Rightarrow> user_quotas \<Rightarrow> unit handled" where
  "set_user_quota s d p i userId q =
     then_do (load_tenant s d p i ''tenant.quota'') (\<lambda>t.
     then_do (uuidParam userId ''No such user'') (\<lambda>u.
     then_do (check_that (uuid_of u \<in> us_id ` set (db_users d)) (notFound ''No such user'')) (\<lambda>_.
     then_do (check_that (\<not> above (uq_instances q) (q_instances (te_quotas t))) (quota_error ''instances'' (q_instances (te_quotas t)))) (\<lambda>_.
     then_do (check_that (\<not> above (uq_cpu q) (q_cpu (te_quotas t))) (quota_error ''cpu'' (q_cpu (te_quotas t)))) (\<lambda>_.
     then_do (check_that (\<not> above (uq_memory q) (q_memory (te_quotas t))) (quota_error ''memory'' (q_memory (te_quotas t)))) (\<lambda>_.
     then_do (check_that (\<not> above (uq_backups q) (q_backups (te_quotas t))) (quota_error ''backups'' (q_backups (te_quotas t)))) (\<lambda>_.
       Inr (d\<lparr>db_userQuotas :=
           (if q = no_user_quotas then filter (\<lambda>r. uqr_key r \<noteq> (te_id t, uuid_of u)) (db_userQuotas d)
            else t_upsert uqr_key (db_userQuotas d) \<lparr>uqr_tenantId = te_id t, uqr_userId = uuid_of u, uqr_quotas = q\<rparr> (\<lambda>r. r\<lparr>uqr_quotas := q\<rparr>) (\<lambda>_. True))\<rparr>,
         Some s, ()))))))))"

section \<open>Members\<close>

definition member_of_tenant :: "db \<Rightarrow> string \<Rightarrow> string \<Rightarrow> tenant_member_row option" where
  "member_of_tenant d t u = t_lookup tm_key (db_tenantMembers d) (t, u)"

definition tenant_members :: "(string \<Rightarrow> string \<Rightarrow> rat) \<Rightarrow> snapshot \<Rightarrow> db \<Rightarrow> principal \<Rightarrow> string \<Rightarrow> (user_row \<times> string) list result" where
  "tenant_members collate s d p i =
     then_do (load_tenant s d p i ''tenant.view'') (\<lambda>t.
       Inr (sort_by (\<lambda>a b. collate (us_email (fst a)) (us_email (fst b)))
         [(u, tm_role m). m \<leftarrow> db_tenantMembers d, u \<leftarrow> db_users d, us_id u = tm_userId m \<and> tm_tenantId m = te_id t]))"

text \<open>\<open>setMember\<close>: the identifiers as they came, \<open>cur\<close> what the database finds for them.\<close>

definition setMember :: "int \<Rightarrow> snapshot \<Rightarrow> db \<Rightarrow> principal \<Rightarrow> string \<Rightarrow> string \<Rightarrow> string \<Rightarrow> (string \<times> string option) handled" where
  "setMember now s d p tenantId userId role =
    (let t = uuid_of tenantId; u = uuid_of userId; cur = member_of_tenant d t u; curRole = map_option tm_role cur in
     then_do (check_that (u \<in> us_id ` set (db_users d)) (notFound ''No such user'')) (\<lambda>_.
     then_do (if role = ''owner'' \<or> curRole = Some ''owner'' then needOwnerPower s d p t else Inr ()) (\<lambda>_.
     case t_lookup te_id (db_tenants d) t of
       None \<Rightarrow> Inl (OtherError ''TypeError'')
     | Some tenant \<Rightarrow>
         then_do (needOutrank s p (''/tenants/'' @ te_slug tenant) [''user:'' @ userId]) (\<lambda>_.
         let reply = (role, role_of_user d u) in
         then_do (check_that (\<not> (curRole = Some ''owner'' \<and> role \<noteq> ''owner'' \<and> ownerCount d t \<le> 1))
           (ApiError 409 ''last_owner'' ''A tenant needs at least one owner'')) (\<lambda>_.
         if curRole = Some role then Inr (d, Some s, reply)
         else Inr (requestReconcile now (d\<lparr>db_tenantMembers := t_upsert tm_key (db_tenantMembers d)
               \<lparr>tm_tenantId = t, tm_userId = u, tm_role = role, tm_createdAt = now\<rparr> (\<lambda>m. m\<lparr>tm_role := role\<rparr>) (\<lambda>_. True)\<rparr>) (OfTenant t),
             invalidate (Some s), reply))))))"

definition put_member :: "int \<Rightarrow> snapshot \<Rightarrow> db \<Rightarrow> principal \<Rightarrow> string \<Rightarrow> string \<Rightarrow> string \<Rightarrow> (string \<times> string option) handled" where
  "put_member now s d p i userId role =
     then_do (load_tenant s d p i ''tenant.members'') (\<lambda>_.
     then_do (uuidParam userId ''No such user'') (\<lambda>u. setMember now s d p i u role))"

definition post_member :: "int \<Rightarrow> snapshot \<Rightarrow> db \<Rightarrow> principal \<Rightarrow> string \<Rightarrow> string \<Rightarrow> string \<Rightarrow> (string \<times> string option) handled" where
  "post_member now s d p i email role =
     then_do (load_tenant s d p i ''tenant.members'') (\<lambda>_.
     case find (\<lambda>u. us_email u = email) (db_users d) of
       None \<Rightarrow> Inl (notFound ''No user with this email; ask a platform administrator to create the account'')
     | Some u \<Rightarrow> setMember now s d p i (us_id u) role)"

definition remove_member :: "int \<Rightarrow> snapshot \<Rightarrow> db \<Rightarrow> principal \<Rightarrow> string \<Rightarrow> string \<Rightarrow> unit handled" where
  "remove_member now s d p i userId =
     then_do (load_tenant s d p i ''tenant.members'') (\<lambda>tenant.
     then_do (uuidParam userId ''Not found'') (\<lambda>u.
     case member_of_tenant d (te_id tenant) (uuid_of u) of
       None \<Rightarrow> Inl (notFound ''Not a member'')
     | Some cur \<Rightarrow>
         then_do (needOutrank s p (''/tenants/'' @ te_slug tenant) [''user:'' @ tm_userId cur]) (\<lambda>_.
         then_do (if tm_role cur = ''owner'' then
             then_do (needOwnerPower s d p (te_id tenant)) (\<lambda>_.
               check_that (\<not> ownerCount d (te_id tenant) \<le> 1) (ApiError 409 ''last_owner'' ''A tenant needs at least one owner''))
           else Inr ()) (\<lambda>_.
         Inr (requestReconcile now (d\<lparr>db_tenantMembers := filter (\<lambda>m. tm_key m \<noteq> (te_id tenant, uuid_of u)) (db_tenantMembers d)\<rparr>) (OfTenant (te_id tenant)),
           invalidate (Some s), ())))))"

section \<open>Owners\<close>

lemma load_tenantD:
  assumes "load_tenant s d p i privilege = Inr t"
  shows "t \<in> set (db_tenants d) \<and> te_id t = uuid_of i \<and> isUuid i \<and> can s p ''tenant.view'' (''/tenants/'' @ te_slug t) None \<and>
    can s p privilege (''/tenants/'' @ te_slug t) None"
proof -
  obtain row where row: "t_lookup te_id (db_tenants d) (uuid_of i) = Some row" "row = t"
    using assms by (cases "t_lookup te_id (db_tenants d) (uuid_of i)") (auto simp: load_tenant_def then_do_Inr_iff)
  with assms show ?thesis
    by (auto simp: load_tenant_def then_do_Inr_iff needTenant_def Let_def dest: t_lookup_SomeD split: if_splits)
qed

lemma another_owner:
  assumes "distinct (map tm_key (db_tenantMembers d))" "\<not> ownerCount d t \<le> 1"
  shows "\<exists>m\<in>set (owners_of d t). tm_userId m \<noteq> u"
proof (rule ccontr)
  assume "\<not> ?thesis"
  then have all: "\<And>m. m \<in> set (owners_of d t) \<Longrightarrow> tm_key m = (t, u)" by (auto simp: owners_of_def tm_key_def)
  have "distinct (map tm_key (owners_of d t))" unfolding owners_of_def using assms(1) by (rule distinct_map_filter)
  moreover have "set (map tm_key (owners_of d t)) \<subseteq> {(t, u)}" using all by auto
  ultimately have "length (map tm_key (owners_of d t)) \<le> card {(t, u)}" by (metis card_mono distinct_card finite.emptyI finite.insertI)
  then show False using assms(2) by (simp add: ownerCount_def)
qed

lemma owner_stays:
  assumes "m \<in> set (owners_of d t)" "m \<in> set ms \<or> (\<exists>m'\<in>set ms. tm_tenantId m' = t \<and> tm_role m' = ''owner'')"
  shows "owners_of (d\<lparr>db_tenantMembers := ms\<rparr>) t \<noteq> []"
  using assms by (auto simp: owners_of_def filter_empty_conv)

lemma owners_reconcile [simp]: "owners_of (requestReconcile now d x) t = owners_of d t"
  by (subst reconcile_clusters) (simp add: owners_of_def)

lemma setMember_owner:
  assumes "setMember now s d p i u role = Inr (d', c, v)" "distinct (map tm_key (db_tenantMembers d))" "owners_of d t \<noteq> []"
  shows "owners_of d' t \<noteq> []"
proof -
  let ?cur = "member_of_tenant d (uuid_of i) (uuid_of u)"
  let ?row = "\<lparr>tm_tenantId = uuid_of i, tm_userId = uuid_of u, tm_role = role, tm_createdAt = now\<rparr>"
  let ?ms = "t_upsert tm_key (db_tenantMembers d) ?row (\<lambda>m. m\<lparr>tm_role := role\<rparr>) (\<lambda>_. True)"
  have d': "d' = d \<or> d' = requestReconcile now (d\<lparr>db_tenantMembers := ?ms\<rparr>) (OfTenant (uuid_of i))"
    and last: "\<not> (map_option tm_role ?cur = Some ''owner'' \<and> role \<noteq> ''owner'' \<and> ownerCount d (uuid_of i) \<le> 1)"
    using assms(1) by (auto simp: setMember_def Let_def then_do_Inr_iff split: option.splits if_splits)
  obtain m where m: "m \<in> set (owners_of d t)" "tm_key m \<noteq> tm_key ?row \<or> role = ''owner''"
  proof (cases "t = uuid_of i \<and> map_option tm_role ?cur = Some ''owner'' \<and> role \<noteq> ''owner''")
    case True
    with last another_owner[OF assms(2), of t "uuid_of u"] that show thesis by (auto simp: tm_key_def)
  next
    case False
    obtain m where m: "m \<in> set (owners_of d t)" using assms(3) by (cases "owners_of d t") auto
    show thesis
    proof (cases "tm_key m = tm_key ?row")
      case True
      have "m \<in> set (db_tenantMembers d)" "tm_role m = ''owner''" "tm_tenantId m = t" using m by (auto simp: owners_of_def)
      moreover from this have "?cur = Some m"
        unfolding member_of_tenant_def using True assms(2) by (subst t_lookup_Some_iff) (simp_all add: t_wf_def tm_key_def)
      ultimately have "role = ''owner''" using False True by (simp add: tm_key_def)
      with m that show thesis by blast
    qed (use m that in blast)
  qed
  have "m \<in> set (db_tenantMembers d)" "tm_tenantId m = t" "tm_role m = ''owner''" using m(1) by (auto simp: owners_of_def)
  then have "(if tm_key m = tm_key ?row then m\<lparr>tm_role := role\<rparr> else m) \<in> set ?ms \<or> m \<in> set ?ms"
    unfolding t_upsert_def by auto
  then have "owners_of (d\<lparr>db_tenantMembers := ?ms\<rparr>) t \<noteq> []"
  proof
    assume "(if tm_key m = tm_key ?row then m\<lparr>tm_role := role\<rparr> else m) \<in> set ?ms"
    moreover have "tm_role (if tm_key m = tm_key ?row then m\<lparr>tm_role := role\<rparr> else m) = ''owner''"
      "tm_tenantId (if tm_key m = tm_key ?row then m\<lparr>tm_role := role\<rparr> else m) = t"
      using m(2) \<open>tm_role m = ''owner''\<close> \<open>tm_tenantId m = t\<close> by auto
    ultimately show ?thesis by (intro owner_stays[OF m(1)] disjI2 bexI conjI)
  qed (rule owner_stays[OF m(1) disjI1])
  then show ?thesis using d' assms(3) by auto
qed

lemma remove_owner:
  assumes "remove_member now s d p i u = Inr (d', c, v)" "distinct (map tm_key (db_tenantMembers d))" "owners_of d t \<noteq> []"
  shows "owners_of d' t \<noteq> []"
proof -
  obtain tn where tn: "load_tenant s d p i ''tenant.members'' = Inr tn" using assms(1) by (auto simp: remove_member_def then_do_Inr_iff)
  then obtain cur where cur: "member_of_tenant d (te_id tn) (uuid_of u) = Some cur"
    using assms(1) by (cases "member_of_tenant d (te_id tn) (uuid_of u)") (auto simp: remove_member_def then_do_Inr_iff)
  let ?ms = "filter (\<lambda>m. tm_key m \<noteq> (te_id tn, uuid_of u)) (db_tenantMembers d)"
  have d': "d' = requestReconcile now (d\<lparr>db_tenantMembers := ?ms\<rparr>) (OfTenant (te_id tn))"
    and last: "tm_role cur = ''owner'' \<Longrightarrow> \<not> ownerCount d (te_id tn) \<le> 1"
    using assms(1) tn cur by (auto simp: remove_member_def then_do_Inr_iff)
  have uniq: "m = cur" if "m \<in> set (db_tenantMembers d)" "tm_key m = (te_id tn, uuid_of u)" for m
    using cur that assms(2) t_lookup_Some_iff[of tm_key "db_tenantMembers d" "(te_id tn, uuid_of u)" m] by (simp add: member_of_tenant_def t_wf_def)
  have "\<exists>m\<in>set (owners_of d t). tm_key m \<noteq> (te_id tn, uuid_of u)"
  proof (cases "t = te_id tn \<and> tm_role cur = ''owner''")
    case True
    with last another_owner[OF assms(2), of t "uuid_of u"] show ?thesis by (auto simp: tm_key_def)
  next
    case False
    obtain m where m: "m \<in> set (owners_of d t)" using assms(3) by (cases "owners_of d t") auto
    then have "tm_key m \<noteq> (te_id tn, uuid_of u)" using False uniq by (auto simp: owners_of_def tm_key_def)
    with m show ?thesis by blast
  qed
  then show ?thesis unfolding d' owners_reconcile by (auto simp: owners_of_def filter_empty_conv)
qed

text \<open>
  C29: A tenant that has an owner keeps one: no change of its members, by identifier or by address,
  takes the last one away.
\<close>

theorem last_owner_kept:
  assumes "distinct (map tm_key (db_tenantMembers d))" "owners_of d t \<noteq> []"
    and "put_member now s d p i u role = Inr (d', c, v) \<or> post_member now s d p i email role = Inr (d', c, v) \<or>
      remove_member now s d p i u = Inr (d', c', v')"
  shows "owners_of d' t \<noteq> []"
  using assms(3)
proof (elim disjE)
  assume "put_member now s d p i u role = Inr (d', c, v)"
  then have "setMember now s d p i u role = Inr (d', c, v)" by (auto simp: put_member_def then_do_Inr_iff)
  then show ?thesis using assms(1,2) by (rule setMember_owner)
next
  assume "post_member now s d p i email role = Inr (d', c, v)"
  then obtain x where "setMember now s d p i x role = Inr (d', c, v)"
    by (auto simp: post_member_def then_do_Inr_iff split: option.splits)
  then show ?thesis using assms(1,2) by (rule setMember_owner)
next
  assume "remove_member now s d p i u = Inr (d', c', v')"
  then show ?thesis using assms(1,2) by (rule remove_owner)
qed

section \<open>Changing members\<close>

text \<open>
  A member's role is set only by someone who manages the tenant's members and outranks them: when
  the identifier is written as the database has it, the person holds on the tenant and above it
  only what the caller holds there, and owners are made and unmade by owners and user administrators.
\<close>

theorem member_set_guarded:
  assumes "put_member now s d p i userId role = Inr (d', c, v)" "uuid_of userId = userId"
  shows "\<exists>t\<in>set (db_tenants d). te_id t = uuid_of i \<and> can s p ''tenant.members'' (''/tenants/'' @ te_slug t) None \<and>
    (''user:'' @ uuid_of userId \<noteq> subjectOf p \<longrightarrow>
       reach s (''user:'' @ uuid_of userId) (''/tenants/'' @ te_slug t) \<subseteq> acl_privileges s p (''/tenants/'' @ te_slug t) None) \<and>
    (role = ''owner'' \<or> map_option tm_role (member_of_tenant d (te_id t) (uuid_of userId)) = Some ''owner'' \<longrightarrow>
       (p_kind p = KUser \<and> (\<exists>m\<in>set (owners_of d (te_id t)). tm_userId m = p_id p)) \<or> can s p ''platform.users'' ''/'' None)"
proof -
  obtain t where t: "load_tenant s d p i ''tenant.members'' = Inr t" and sm: "setMember now s d p i userId role = Inr (d', c, v)"
    using assms(1) by (auto simp: put_member_def then_do_Inr_iff)
  note lt = load_tenantD[OF t]
  obtain t0 where t0: "t_lookup te_id (db_tenants d) (uuid_of i) = Some t0"
    using sm by (cases "t_lookup te_id (db_tenants d) (uuid_of i)") (auto simp: setMember_def Let_def then_do_Inr_iff)
  then have "t0 = t" using t by (auto simp: load_tenant_def then_do_Inr_iff)
  with sm t0 have "needOutrank s p (''/tenants/'' @ te_slug t) [''user:'' @ userId] = Inr ()"
    and power: "role = ''owner'' \<or> map_option tm_role (member_of_tenant d (te_id t) (uuid_of userId)) = Some ''owner'' \<Longrightarrow> needOwnerPower s d p (te_id t) = Inr ()"
    using lt by (auto simp: setMember_def Let_def then_do_Inr_iff split: if_splits)
  then have "''user:'' @ uuid_of userId \<noteq> subjectOf p \<Longrightarrow>
      reach s (''user:'' @ uuid_of userId) (''/tenants/'' @ te_slug t) \<subseteq> acl_privileges s p (''/tenants/'' @ te_slug t) None"
    unfolding assms(2) needOutrank_def Let_def by (auto split: if_splits)
  then show ?thesis using lt power by (intro bexI[of _ t]) (auto simp: needOwnerPower_def)
qed

section \<open>Quotas\<close>

definition quotas_within :: "user_quotas \<Rightarrow> quotas \<Rightarrow> bool" where
  "quotas_within u q \<longleftrightarrow> \<not> above (uq_instances u) (q_instances q) \<and> \<not> above (uq_cpu u) (q_cpu q) \<and> \<not> above (uq_memory u) (q_memory q) \<and>
     \<not> above (uq_backups u) (q_backups q)"

text \<open>
  A user's quota inside a tenant is set only by a holder of the tenant's quota privilege, never above
  the tenant's own quota as it then is, and for that user alone: afterwards exactly the quota given
  applies to them (none at all when it is empty), and to everybody else the one before.
\<close>

theorem user_quota_set:
  assumes "set_user_quota s d p i userId q = Inr (d', c, v)"
  shows "\<exists>t\<in>set (db_tenants d). te_id t = uuid_of i \<and> can s p ''tenant.quota'' (''/tenants/'' @ te_slug t) None \<and> quotas_within q (te_quotas t) \<and>
    userQuotaOf d' (te_id t) (uuid_of userId) = q \<and>
    (\<forall>t' u'. (t', u') \<noteq> (te_id t, uuid_of userId) \<longrightarrow> userQuotaOf d' t' u' = userQuotaOf d t' u')"
proof -
  obtain t where t: "load_tenant s d p i ''tenant.quota'' = Inr t" using assms by (auto simp: set_user_quota_def then_do_Inr_iff)
  note lt = load_tenantD[OF t]
  let ?k = "(te_id t, uuid_of userId)"
  let ?rows = "if q = no_user_quotas then filter (\<lambda>r. uqr_key r \<noteq> ?k) (db_userQuotas d)
    else t_upsert uqr_key (db_userQuotas d) \<lparr>uqr_tenantId = te_id t, uqr_userId = uuid_of userId, uqr_quotas = q\<rparr> (\<lambda>r. r\<lparr>uqr_quotas := q\<rparr>) (\<lambda>_. True)"
  have d': "d' = d\<lparr>db_userQuotas := ?rows\<rparr>" and w: "quotas_within q (te_quotas t)"
    using assms t by (auto simp: set_user_quota_def then_do_Inr_iff quotas_within_def)
  have quota: "userQuotaOf x t' u' = (case t_lookup uqr_key (db_userQuotas x) (t', u') of None \<Rightarrow> no_user_quotas | Some r \<Rightarrow> uqr_quotas r)" for x t' u'
    by (simp add: userQuotaOf_def t_lookup_def uqr_key_def no_user_quotas_def split: option.split)
  let ?row = "\<lparr>uqr_tenantId = te_id t, uqr_userId = uuid_of userId, uqr_quotas = q\<rparr>"
  have k: "uqr_key ?row = ?k" by (simp add: uqr_key_def)
  have up: "t_lookup uqr_key (t_upsert uqr_key (db_userQuotas d) ?row (\<lambda>r. r\<lparr>uqr_quotas := q\<rparr>) (\<lambda>_. True)) k =
      (if k = ?k then Some (case t_lookup uqr_key (db_userQuotas d) k of None \<Rightarrow> ?row | Some r \<Rightarrow> r\<lparr>uqr_quotas := q\<rparr>) else t_lookup uqr_key (db_userQuotas d) k)" for k
    by (subst t_lookup_upsert) (simp_all add: uqr_key_def split: option.split)
  have del: "t_lookup uqr_key (filter (\<lambda>r. uqr_key r \<noteq> ?k) (db_userQuotas d)) k = (if k = ?k then None else t_lookup uqr_key (db_userQuotas d) k)" for k
    unfolding t_remove_def[symmetric] by (rule t_lookup_remove)
  have rows: "db_userQuotas d' = ?rows" by (simp add: d')
  have "userQuotaOf d' (te_id t) (uuid_of userId) = q"
    unfolding quota rows by (cases "q = no_user_quotas") (simp_all only: if_True if_False up del refl option.case, simp split: option.split)
  moreover have "userQuotaOf d' t' u' = userQuotaOf d t' u'" if "(t', u') \<noteq> ?k" for t' u'
    unfolding quota rows using that by (cases "q = no_user_quotas") (simp_all only: if_True if_False up del refl simp_thms)
  ultimately show ?thesis using lt w by (intro bexI[of _ t]) auto
qed

section \<open>Deleting a tenant\<close>

lemma fold_drop_service:
  "refs_ok d \<Longrightarrow> keys_ok d \<Longrightarrow> refs_ok (fold drop_service as d) \<and> keys_ok (fold drop_service as d) \<and>
     (administrators d \<noteq> [] \<longrightarrow> administrators (fold drop_service as d) \<noteq> []) \<and>
     db_serviceAccounts (fold drop_service as d) = filter (\<lambda>a. sa_id a \<notin> set as) (db_serviceAccounts d) \<and>
     db_tenants (fold drop_service as d) = db_tenants d \<and> db_users (fold drop_service as d) = db_users d \<and>
     db_groups (fold drop_service as d) = db_groups d"
proof (induction as arbitrary: d)
  case (Cons a as)
  have "filter (\<lambda>x. sa_id x \<notin> set as) (t_remove sa_id (db_serviceAccounts d) a) = filter (\<lambda>x. sa_id x \<notin> set (a # as)) (db_serviceAccounts d)"
    by (simp add: t_remove_def conj_commute)
  then show ?case
    using Cons.IH[OF drop_service_ok(1,2)[OF Cons.prems]] drop_service_admin[OF Cons.prems(1)] Cons.prems by (auto simp: drop_service_def)
qed simp

lemma rows_drop_tenant:
  assumes "rows_ok U A G T d" "\<And>a. a \<in> set (db_serviceAccounts d) \<Longrightarrow> sa_tenantId a \<noteq> Some t"
  shows "rows_ok U A G (T - {t}) (d\<lparr>db_tenants := x, db_instanceLeases := y, db_userQuotas := filter (\<lambda>q. uqr_tenantId q \<noteq> t) (db_userQuotas d),
     db_tenantMembers := filter (\<lambda>m. tm_tenantId m \<noteq> t) (db_tenantMembers d), db_aclEntries := filter (\<lambda>e. ae_tenantGroupId e \<noteq> Some t) (db_aclEntries d),
     db_placements := z, db_jobs := j, db_backups := b\<rparr>)"
  using assms by (simp add: rows_ok_def entry_ok_def account_ok_def some_in_diff)

lemma root_not_under: "ae_path e = ''/'' \<Longrightarrow> \<not> entriesUnder (''/tenants/'' @ slug) e"
  by (simp add: entriesUnder_def startsWith_def)

lemma delete_tenant_state:
  assumes "delete_tenant s d p i = Inr (d', c, v)"
  obtains t d1 where "t \<in> set (db_tenants d)" "te_id t = uuid_of i" "drop_tenant (te_id t) d = Inr d1"
    "d' = d1\<lparr>db_aclEntries := filter (\<lambda>e. \<not> entriesUnder (''/tenants/'' @ te_slug t) e) (db_aclEntries d1)\<rparr>"
    "needOwnerPower s d p (te_id t) = Inr ()"
proof -
  obtain t where t: "load_tenant s d p i ''tenant.view'' = Inr t" using assms by (auto simp: delete_tenant_def then_do_Inr_iff)
  then show thesis using assms load_tenantD[OF t] that by (auto simp: delete_tenant_def then_do_Inr_iff)
qed

text \<open>
  A deleted tenant leaves nothing behind: no member, quota, lease, service account or permission
  entry of it or under its path, so a tenant of the same name starts clean; the database's
  constraints still hold and an administrator remains.
\<close>

theorem tenant_deleted:
  assumes "delete_tenant s d p i = Inr (d', c, v)" "refs_ok d" "keys_ok d" "administrators d \<noteq> []"
  shows "\<exists>t\<in>set (db_tenants d). te_id t = uuid_of i \<and>
    (\<forall>e\<in>set (db_aclEntries d'). \<not> entriesUnder (''/tenants/'' @ te_slug t) e \<and> ae_tenantGroupId e \<noteq> Some (te_id t)) \<and>
    te_id t \<notin> te_id ` set (db_tenants d') \<and> te_id t \<notin> tm_tenantId ` set (db_tenantMembers d') \<and> te_id t \<notin> uqr_tenantId ` set (db_userQuotas d') \<and>
    te_id t \<notin> il_tenantId ` set (db_instanceLeases d') \<and> Some (te_id t) \<notin> sa_tenantId ` set (db_serviceAccounts d') \<and>
    refs_ok d' \<and> administrators d' \<noteq> []"
proof -
  obtain t d1 where t: "t \<in> set (db_tenants d)" "te_id t = uuid_of i" and drop: "drop_tenant (te_id t) d = Inr d1"
    and d': "d' = d1\<lparr>db_aclEntries := filter (\<lambda>e. \<not> entriesUnder (''/tenants/'' @ te_slug t) e) (db_aclEntries d1)\<rparr>"
    and "needOwnerPower s d p (te_id t) = Inr ()" using assms(1) by (rule delete_tenant_state)
  define d0 where "d0 = fold drop_service (map sa_id (filter (\<lambda>a. sa_tenantId a = Some (te_id t)) (db_serviceAccounts d))) d"
  note f = fold_drop_service[OF assms(2,3), of "map sa_id (filter (\<lambda>a. sa_tenantId a = Some (te_id t)) (db_serviceAccounts d))", folded d0_def]
  have d1: "d1 = d0\<lparr>db_tenants := t_remove te_id (db_tenants d0) (te_id t),
         db_instanceLeases := filter (\<lambda>l. il_tenantId l \<noteq> te_id t) (db_instanceLeases d0),
         db_userQuotas := filter (\<lambda>q. uqr_tenantId q \<noteq> te_id t) (db_userQuotas d0),
         db_tenantMembers := filter (\<lambda>m. tm_tenantId m \<noteq> te_id t) (db_tenantMembers d0),
         db_aclEntries := filter (\<lambda>e. ae_tenantGroupId e \<noteq> Some (te_id t)) (db_aclEntries d0),
         db_placements := filter (\<lambda>p. pl_tenantId p \<noteq> te_id t) (db_placements d0),
         db_jobs := t_update (\<lambda>j. jo_tenantId j = Some (te_id t)) (\<lambda>j. j\<lparr>jo_tenantId := None\<rparr>) (db_jobs d0),
         db_backups := t_update (\<lambda>b. ba_tenantId b = Some (te_id t)) (\<lambda>b. b\<lparr>ba_tenantId := None\<rparr>) (db_backups d0)\<rparr>"
    using drop by (simp add: drop_tenant_def Let_def d0_def split: if_splits)
  have refs0: "refs_ok d0" and same: "db_tenants d0 = db_tenants d" "db_users d0 = db_users d" "db_groups d0 = db_groups d" using f by blast+
  have accounts: "sa_tenantId a \<noteq> Some (te_id t)" if "a \<in> set (db_serviceAccounts d0)" for a
    using that f by auto
  have "rows_ok (us_id ` set (db_users d)) (sa_id ` set (db_serviceAccounts d0)) (gr_id ` set (db_groups d)) (te_id ` set (db_tenants d) - {te_id t}) d1"
    unfolding d1
  proof (rule rows_drop_tenant)
    show "rows_ok (us_id ` set (db_users d)) (sa_id ` set (db_serviceAccounts d0)) (gr_id ` set (db_groups d)) (te_id ` set (db_tenants d)) d0"
      using refs0 unfolding refs_ok_def same .
  qed (rule accounts)
  then have refs1: "refs_ok d1" by (simp add: refs_ok_def d1 ids_removed same)
  have refs: "refs_ok d'" using refs1 unfolding d' by (simp add: refs_ok_def rows_ok_def)
  obtain h where "h \<in> set (administrators d0)" using f assms(4) by (cases "administrators d0") auto
  then have "h \<in> set (administrators d')"
  proof (rule filtered_admin[where keep = "\<lambda>e. \<not> entriesUnder (''/tenants/'' @ te_slug t) e \<and> ae_tenantGroupId e \<noteq> Some (te_id t)"])
    show "\<not> entriesUnder (''/tenants/'' @ te_slug t) e \<and> ae_tenantGroupId e \<noteq> Some (te_id t)"
      if "e \<in> set (db_aclEntries d0)" "ae_userId e = Some (hold_user h)" "ae_path e = ''/''" for e
      using owned_entry_kept[OF refs0 that(1,2)] root_not_under[OF that(3)] by simp
  qed (simp_all add: d' d1 conj_commute)
  then have "administrators d' \<noteq> []" by auto
  moreover have "\<forall>e\<in>set (db_aclEntries d'). \<not> entriesUnder (''/tenants/'' @ te_slug t) e \<and> ae_tenantGroupId e \<noteq> Some (te_id t)"
    by (simp add: d' d1)
  moreover have "te_id t \<notin> te_id ` set (db_tenants d')" "te_id t \<notin> tm_tenantId ` set (db_tenantMembers d')" "te_id t \<notin> uqr_tenantId ` set (db_userQuotas d')"
    "te_id t \<notin> il_tenantId ` set (db_instanceLeases d')" "Some (te_id t) \<notin> sa_tenantId ` set (db_serviceAccounts d')"
    using accounts by (force simp: d' d1 t_remove_def)+
  ultimately show ?thesis using t refs by (intro bexI[of _ t] conjI)
qed

section \<open>Concrete instances\<close>

definition a_tenant_id :: string where
  "a_tenant_id = ''00000000-0000-0000-0000-0000000000f0''"

text \<open>An administrator, and a tenant with an owner and an admin of its own.\<close>

definition routes_db :: db where
  "routes_db = empty_db\<lparr>
     db_users := [(a_user_row ada_id)\<lparr>us_email := ''ada''\<rparr>, (a_user_row joe_id)\<lparr>us_email := ''joe''\<rparr>, (a_user_row root_id)\<lparr>us_email := ''root''\<rparr>],
     db_platformRoles := [\<lparr>pr_userId = ada_id, pr_role = ''admin''\<rparr>],
     db_tenants := [a_tenant\<lparr>te_id := a_tenant_id\<rparr>],
     db_tenantMembers := [\<lparr>tm_tenantId = a_tenant_id, tm_userId = root_id, tm_role = ''owner'', tm_createdAt = 0\<rparr>,
       \<lparr>tm_tenantId = a_tenant_id, tm_userId = joe_id, tm_role = ''admin'', tm_createdAt = 0\<rparr>]\<rparr>"

text \<open>
  The case of an identifier decides whether an administrator can be narrowed: the tenant's admin is refused
  when it is written as the database has it, and takes the administrator's rights in the tenant away
  when it is written in capitals.
\<close>

lemma demoted_by_case:
  "needOutrank (load 0 routes_db) (a_user joe_id) ''/tenants/t'' [''user:'' @ ada_id] \<noteq> Inr ()"
  "can (load 0 routes_db) (a_user ada_id) ''tenant.members'' ''/tenants/t'' None"
  "map_sum id (\<lambda>r. can (load 0 (fst r)) (a_user ada_id) ''tenant.members'' ''/tenants/t'' None)
     (put_member 1 (load 0 routes_db) routes_db (a_user joe_id) a_tenant_id ADA_ID ''viewer'') = Inr False"
  by code_simp+

lemma root_demoted: "is_ok (put_member 1 (load 0 routes_db) routes_db (a_user ada_id) a_tenant_id joe_id ''owner'')"
  by code_simp

theorem last_owner_kept_witness:
  "\<exists>d' c v. put_member 1 (load 0 routes_db) routes_db (a_user ada_id) a_tenant_id joe_id ''owner'' = Inr (d', c, v) \<and> owners_of d' a_tenant_id \<noteq> []"
proof -
  obtain d' c v where p: "put_member 1 (load 0 routes_db) routes_db (a_user ada_id) a_tenant_id joe_id ''owner'' = Inr (d', c, v)"
    using root_demoted by (auto simp: is_ok_iff)
  have "distinct (map tm_key (db_tenantMembers routes_db))" "owners_of routes_db a_tenant_id \<noteq> []" by code_simp+
  from last_owner_kept[OF this disjI1[OF p]] p show ?thesis by blast
qed

theorem member_set_guarded_witness:
  "(\<exists>m\<in>set (owners_of routes_db a_tenant_id). tm_userId m = p_id (a_user ada_id)) \<or> can (load 0 routes_db) (a_user ada_id) ''platform.users'' ''/'' None"
proof -
  obtain d' c v where p: "put_member 1 (load 0 routes_db) routes_db (a_user ada_id) a_tenant_id joe_id ''owner'' = Inr (d', c, v)"
    using root_demoted by (auto simp: is_ok_iff)
  have u: "uuid_of joe_id = joe_id" "uuid_of a_tenant_id = a_tenant_id" by code_simp+
  from member_set_guarded[OF p u(1), unfolded u(2)] show ?thesis by (elim bexE conjE) (simp, elim disjE conjE; simp)
qed

definition a_share :: user_quotas where
  "a_share = \<lparr>uq_instances = Some 2, uq_cpu = None, uq_memory = None, uq_backups = None\<rparr>"

theorem user_quota_set_witness:
  "\<exists>d' c v. set_user_quota (load 0 routes_db) routes_db (a_user ada_id) a_tenant_id joe_id a_share = Inr (d', c, v) \<and>
     userQuotaOf d' a_tenant_id joe_id = a_share"
proof -
  have "is_ok (set_user_quota (load 0 routes_db) routes_db (a_user ada_id) a_tenant_id joe_id a_share)" by code_simp
  then obtain d' c v where p: "set_user_quota (load 0 routes_db) routes_db (a_user ada_id) a_tenant_id joe_id a_share = Inr (d', c, v)"
    by (auto simp: is_ok_iff)
  have u: "uuid_of joe_id = joe_id" "uuid_of a_tenant_id = a_tenant_id" by code_simp+
  from user_quota_set[OF p] p show ?thesis unfolding u by auto
qed

theorem tenant_deleted_witness:
  "\<exists>d' c v. delete_tenant (load 0 routes_db) routes_db (a_user ada_id) a_tenant_id = Inr (d', c, v) \<and> refs_ok d' \<and> administrators d' \<noteq> []"
proof -
  have "is_ok (delete_tenant (load 0 routes_db) routes_db (a_user ada_id) a_tenant_id)" by code_simp
  then obtain d' c v where p: "delete_tenant (load 0 routes_db) routes_db (a_user ada_id) a_tenant_id = Inr (d', c, v)"
    by (auto simp: is_ok_iff)
  have ok: "refs_ok routes_db" "keys_ok routes_db" "administrators routes_db \<noteq> []" by code_simp+
  from tenant_deleted[OF p ok] p show ?thesis by blast
qed

end
