(* ===== verification/Grants.thy ===== *)
theory Grants
  imports Tenants Catalog
begin

text \<open>
  What the reconciler writes to a cluster: the relations a subject's permissions give there and the
  OpenFGA tuples that hold them (\<^verbatim>\<open>reconcile/grants.ts\<close>), the tenants' restricted projects and
  default profiles (\<^verbatim>\<open>reconcile/projects.ts\<close>) and the server's configuration
  (\<^verbatim>\<open>reconcile/incus-config.ts\<close>). \<open>hash\<close> stands for the first twelve digits of SHA-256; what Incus
  answers is an argument, and what the code asks of it a value.
\<close>

section \<open>Relations\<close>

type_synonym config = "(string, string) jsmap"

record tuple =
  tu_user :: string
  tu_relation :: string
  tu_object :: string

definition PREFIX :: string where
  "PREFIX = ''incuscloud-''"

definition tenant_group :: "string \<Rightarrow> string \<Rightarrow> string" where
  "tenant_group a b = PREFIX @ ''tenant-'' @ a @ ''-'' @ b"

definition platform_group :: "string \<Rightarrow> string" where
  "platform_group a = PREFIX @ ''platform-'' @ a"

definition PROJECT_RELATION :: config where
  "PROJECT_RELATION = [(''owner'', ''operator''), (''admin'', ''operator''), (''member'', ''operator''), (''viewer'', ''viewer'')]"

definition TENANT_ROLES :: "string list" where
  "TENANT_ROLES = map fst PROJECT_RELATION"

definition projectRelation :: "string \<Rightarrow> string" where
  "projectRelation r = (case m_get PROJECT_RELATION r of None \<Rightarrow> [] | Some x \<Rightarrow> x)"

definition PLATFORM_ROLES :: "string list" where
  "PLATFORM_ROLES = [''admin'', ''operator'', ''viewer'']"

definition serverRelation :: "string \<Rightarrow> string" where
  "serverRelation r = (if r \<in> set PLATFORM_ROLES then r else [])"

record grant_placement =
  gp_tenantId :: string
  gp_project :: string

record grant_member =
  gm_tenantId :: string
  gm_subject :: string
  gm_role :: string

record grant_platform =
  gl_subject :: string
  gl_role :: string

record grant_acl =
  ga_subject :: string
  ga_relation :: string
  ga_object :: string

record grant_facts =
  gf_placements :: "grant_placement list"
  gf_members :: "grant_member list"
  gf_platform :: "grant_platform list"
  gf_acl :: "grant_acl list"

definition aclGroup :: "(string \<Rightarrow> string) \<Rightarrow> string \<Rightarrow> string \<Rightarrow> string" where
  "aclGroup hash relation obj = PREFIX @ ''acl-'' @ hash (relation @ ''|'' @ obj)"

definition RANK :: "string \<Rightarrow> nat" where
  "RANK r = (if r = ''viewer'' then 1 else if r = ''operator'' then 2 else if r = ''admin'' then 3 else 0)"

fun SERVER :: "role_id \<Rightarrow> string" where
  "SERVER Administrator = ''admin''"
| "SERVER ClusterOwner = ''admin''"
| "SERVER Operator = ''operator''"
| "SERVER Auditor = ''viewer''"
| "SERVER _ = []"

fun PROJECT :: "role_id \<Rightarrow> string" where
  "PROJECT Administrator = ''operator''"
| "PROJECT ClusterOwner = ''operator''"
| "PROJECT Operator = ''operator''"
| "PROJECT UnrestrictedUser = ''operator''"
| "PROJECT TenantAdmin = ''operator''"
| "PROJECT Auditor = ''viewer''"
| "PROJECT _ = []"

definition strongest :: "(role_id \<Rightarrow> string) \<Rightarrow> role_id list \<Rightarrow> string" where
  "strongest m roles =
     foldl (\<lambda>a b. if RANK b > RANK a then b else a) [] (map m (if NoAccess \<in> set roles then [] else roles))"

definition roleRelation :: "role_id \<Rightarrow> bool \<Rightarrow> string" where
  "roleRelation r on_server = strongest (if on_server then SERVER else PROJECT) [r]"

record project_facts =
  pf_name :: string
  pf_instances :: "string list"
  pf_shared :: "string list"

record decision =
  de_roles :: "role_id list"
  de_at :: "string option"
  de_privileges :: "privilege set option"

definition USER_PROJECT :: "string list" where
  "USER_PROJECT = [''can_create_instances'', ''can_create_storage_volumes'', ''can_create_storage_buckets'', ''can_view_events'',
     ''can_view_operations'']"

definition instanceRelation :: "privilege set \<Rightarrow> string" where
  "instanceRelation p = (if ''instance.configure'' \<in> p then ''operator''
     else if ''instance.console'' \<in> p then ''user''
     else if ''instance.view'' \<in> p then ''viewer'' else [])"

definition IRANK :: "string \<Rightarrow> nat" where
  "IRANK r = (if r = ''viewer'' then 1 else if r = ''user'' then 2 else if r = ''operator'' then 3 else 0)"

definition asInstance :: "string \<Rightarrow> string" where
  "asInstance r = (if r = ''admin'' then ''operator'' else r)"

section \<open>A subject's relations on one cluster\<close>

definition cluster_path :: "string \<Rightarrow> string" where
  "cluster_path cluster = ''/clusters/'' @ cluster"

definition project_path_of :: "string \<Rightarrow> string \<Rightarrow> string" where
  "project_path_of cluster p = cluster_path cluster @ ''/projects/'' @ p"

definition privs_of :: "decision \<Rightarrow> privilege set" where
  "privs_of d = (case de_privileges d of None \<Rightarrow> {} | Some p \<Rightarrow> p)"

definition decided_instance :: "string \<Rightarrow> (string \<Rightarrow> decision) \<Rightarrow> string \<Rightarrow> string \<Rightarrow> string" where
  "decided_instance cluster decide p i = instanceRelation (privs_of (decide (project_path_of cluster p @ ''/instances/'' @ i)))"

record per_project =
  pp_facts :: project_facts
  pp_relation :: string
  pp_narrowed :: bool
  pp_instances :: "(string \<times> string) list"
  pp_user :: bool

definition per_project_of :: "string \<Rightarrow> (string \<Rightarrow> decision) \<Rightarrow> string \<Rightarrow> project_facts \<Rightarrow> per_project" where
  "per_project_of cluster decide base f =
    (let d = decide (project_path_of cluster (pf_name f));
         below = truthy (de_at d) \<and> de_at d \<noteq> Some ''/'' \<and> de_at d \<noteq> Some (cluster_path cluster);
         relation = (if below then strongest PROJECT (de_roles d) else base);
         instances = map (\<lambda>n. (n, decided_instance cluster decide (pf_name f) n)) (pf_instances f);
         narrowed = list_ex (\<lambda>(_, r). IRANK r < IRANK (asInstance relation)) instances;
         user = (relation = [] \<and> ''instance.create'' \<in> privs_of d)
     in \<lparr>pp_facts = f, pp_relation = (if narrowed then [] else relation), pp_narrowed = narrowed,
         pp_instances = instances, pp_user = user\<rparr>)"

definition project_grants :: "bool \<Rightarrow> string \<Rightarrow> per_project \<Rightarrow> (string \<times> string) list" where
  "project_grants whole base x =
    (let p = pf_name (pp_facts x);
         given = (if pp_narrowed x then []
                  else asInstance (if pp_relation x \<noteq> [] then pp_relation x else if whole then base else []))
     in (if pp_relation x \<noteq> [] \<and> (\<not> whole \<or> RANK (pp_relation x) > RANK base) then [(pp_relation x, ''project:'' @ p)] else [])
        @ (if pp_user x then map (\<lambda>r. (r, ''project:'' @ p)) USER_PROJECT @ map (\<lambda>ob. (''can_view'', ob)) (pf_shared (pp_facts x)) else [])
        @ concat (map (\<lambda>(n, r). if IRANK r > IRANK given then [(r, ''instance:'' @ p @ ''/'' @ n)] else []) (pp_instances x)))"

definition explicitRelations :: "string \<Rightarrow> project_facts list \<Rightarrow> (string \<Rightarrow> decision) \<Rightarrow> (string \<times> string) list" where
  "explicitRelations cluster projects decide =
    (let top = de_roles (decide (cluster_path cluster));
         server = strongest SERVER top;
         base = strongest PROJECT top;
         per = map (per_project_of cluster decide base) projects;
         narrowed = list_ex (\<lambda>x. pp_narrowed x \<or> RANK (pp_relation x) < RANK base) per;
         whole = (\<not> narrowed \<and> server \<noteq> [])
     in (if whole then [(server, ''server:incus'')] else []) @ concat (map (project_grants whole base) per))"

section \<open>The tuples of a cluster's store\<close>

definition placement_tuples :: "grant_placement \<Rightarrow> tuple list" where
  "placement_tuples p = map (\<lambda>role. \<lparr>tu_user = ''group:'' @ tenant_group (gp_tenantId p) role @ ''#member'',
     tu_relation = projectRelation role, tu_object = ''project:'' @ gp_project p\<rparr>) TENANT_ROLES"

definition member_tuples :: "grant_facts \<Rightarrow> tuple list" where
  "member_tuples f = concat (map (\<lambda>m. if gm_tenantId m \<in> gp_tenantId ` set (gf_placements f) \<and> gm_role m \<in> set TENANT_ROLES
     then [\<lparr>tu_user = ''user:'' @ gm_subject m, tu_relation = ''member'',
            tu_object = ''group:'' @ tenant_group (gm_tenantId m) (gm_role m)\<rparr>] else []) (gf_members f))"

definition platform_tuples :: "grant_facts \<Rightarrow> tuple list" where
  "platform_tuples f =
     map (\<lambda>role. \<lparr>tu_user = ''group:'' @ platform_group role @ ''#member'', tu_relation = role, tu_object = ''server:incus''\<rparr>) PLATFORM_ROLES
     @ concat (map (\<lambda>p. if gl_role p \<in> set PLATFORM_ROLES
         then [\<lparr>tu_user = ''user:'' @ gl_subject p, tu_relation = ''member'', tu_object = ''group:'' @ platform_group (gl_role p)\<rparr>]
         else []) (gf_platform f))"

fun acl_tuples :: "(string \<Rightarrow> string) \<Rightarrow> string set \<Rightarrow> grant_acl list \<Rightarrow> tuple list" where
  "acl_tuples hash defined [] = []"
| "acl_tuples hash defined (a # as) =
    (let group = aclGroup hash (ga_relation a) (ga_object a) in
     (if group \<in> defined then []
      else [\<lparr>tu_user = ''group:'' @ group @ ''#member'', tu_relation = ga_relation a, tu_object = ga_object a\<rparr>])
     @ \<lparr>tu_user = ''user:'' @ ga_subject a, tu_relation = ''member'', tu_object = ''group:'' @ group\<rparr>
     # acl_tuples hash (insert group defined) as)"

definition desiredGrants :: "(string \<Rightarrow> string) \<Rightarrow> grant_facts \<Rightarrow> tuple list" where
  "desiredGrants hash f = concat (map placement_tuples (gf_placements f)) @ member_tuples f @ platform_tuples f
     @ acl_tuples hash {} (gf_acl f)"

definition isManaged :: "tuple \<Rightarrow> bool" where
  "isManaged t \<longleftrightarrow> startsWith (tu_user t) (''group:'' @ PREFIX) \<or> startsWith (tu_object t) (''group:'' @ PREFIX)"

definition tuple_key :: "tuple \<Rightarrow> string" where
  "tuple_key t = tu_user t @ ''|'' @ tu_relation t @ ''|'' @ tu_object t"

definition diffTuples :: "tuple list \<Rightarrow> tuple list \<Rightarrow> tuple list \<times> tuple list" where
  "diffTuples desired current =
    (let want = m_of (map (\<lambda>t. (tuple_key t, t)) desired); have' = m_of (map (\<lambda>t. (tuple_key t, t)) current)
     in (map snd (filter (\<lambda>(k, _). m_get have' k = None) want),
         map snd (filter (\<lambda>(k, t). m_get want k = None \<and> isManaged t) have')))"

section \<open>What relations give on an instance\<close>

text \<open>
  How Incus reads the relations a subject holds: one on the server counts on every instance, one on
  a project on the project's instances, \<open>admin\<close> as \<open>operator\<close>; the direct entitlements give none.
\<close>

definition gives :: "string \<Rightarrow> string \<Rightarrow> string \<times> string \<Rightarrow> nat" where
  "gives p i g = (if snd g \<in> {''server:incus'', ''project:'' @ p, ''instance:'' @ p @ ''/'' @ i}
     then IRANK (asInstance (fst g)) else 0)"

definition effective :: "(string \<times> string) list \<Rightarrow> string \<Rightarrow> string \<Rightarrow> nat" where
  "effective out p i = Max (insert 0 (gives p i ` set out))"

lemma effective_le: "effective out p i \<le> n \<longleftrightarrow> (\<forall>g\<in>set out. gives p i g \<le> n)"
  by (simp add: effective_def)

lemma effective_ge: "n \<le> effective out p i \<longleftrightarrow> n = 0 \<or> (\<exists>g\<in>set out. n \<le> gives p i g)"
  by (auto simp: effective_def Max_ge_iff)

lemma strongest_cases: "strongest m roles = [] \<or> (\<exists>r\<in>set roles. strongest m roles = m r)"
proof -
  have "foldl (\<lambda>a b. if RANK b > RANK a then b else a) a (map m rs) = a
      \<or> (\<exists>r\<in>set rs. foldl (\<lambda>a b. if RANK b > RANK a then b else a) a (map m rs) = m r)" for a rs
  proof (induction rs arbitrary: a)
    case (Cons x rs)
    show ?case using Cons[of a] Cons[of "m x"] by auto
  qed simp
  then show ?thesis by (auto simp: strongest_def)
qed

lemma strongest_rank:
  assumes "NoAccess \<notin> set roles" and "r \<in> set roles"
  shows "RANK (m r) \<le> RANK (strongest m roles)"
proof -
  have ge: "RANK a \<le> RANK (foldl (\<lambda>a b. if RANK b > RANK a then b else a) a xs)" for a xs
  proof (induction xs arbitrary: a)
    case (Cons x xs)
    show ?case using Cons[of a] Cons[of x] by auto
  qed simp
  have "RANK x \<le> RANK (foldl (\<lambda>a b. if RANK b > RANK a then b else a) a xs)" if "x \<in> set xs" for x a xs
    using that
  proof (induction xs arbitrary: a)
    case (Cons y ys)
    have "RANK y \<le> RANK (foldl (\<lambda>a b. if RANK b > RANK a then b else a) (if RANK y > RANK a then y else a) ys)"
      using ge[of "if RANK y > RANK a then y else a" ys] by (auto split: if_splits)
    with Cons show ?case by auto
  qed simp
  from this[of "m r" "map m roles" "[]"] assms show ?thesis by (simp add: strongest_def)
qed

lemma strongest_no_access: "NoAccess \<in> set roles \<Longrightarrow> strongest m roles = []"
  by (simp add: strongest_def)

definition relations :: "string set" where
  "relations = {[], ''viewer'', ''operator'', ''admin''}"

lemma SERVER_relation: "SERVER r \<in> relations" and PROJECT_relation: "PROJECT r \<in> relations"
  by (cases r; simp add: relations_def)+

lemma strongest_relation: "(\<And>r. m r \<in> relations) \<Longrightarrow> strongest m roles \<in> relations"
  using strongest_cases[of m roles] by (metis insertI1 relations_def)

lemma irank_mono: "x \<in> relations \<Longrightarrow> y \<in> relations \<Longrightarrow> RANK x \<le> RANK y \<Longrightarrow> IRANK (asInstance x) \<le> IRANK (asInstance y)"
  unfolding relations_def by (elim insertE emptyE; simp add: RANK_def IRANK_def asInstance_def)

lemma server_le_base: "IRANK (asInstance (strongest SERVER roles)) \<le> IRANK (asInstance (strongest PROJECT roles))"
proof (cases "strongest SERVER roles = []")
  case False
  then obtain r where r: "r \<in> set roles" "strongest SERVER roles = SERVER r" and na: "NoAccess \<notin> set roles"
    using strongest_cases[of SERVER roles] strongest_no_access by blast
  have "IRANK (asInstance (SERVER r)) \<le> IRANK (asInstance (PROJECT r))"
    by (cases r) (simp_all add: IRANK_def asInstance_def)
  also have "\<dots> \<le> IRANK (asInstance (strongest PROJECT roles))"
    using strongest_rank[OF na r(1)] by (intro irank_mono PROJECT_relation strongest_relation)
  finally show ?thesis using r(2) by simp
qed (simp add: IRANK_def asInstance_def)

text \<open>What one project's part of the pass says, and what it keeps within.\<close>

lemma irank_Nil [simp]: "IRANK [] = 0" "asInstance [] = []" "RANK [] = 0"
  by (simp_all add: IRANK_def asInstance_def RANK_def)

lemma pp_simps [simp]:
  "pp_facts (per_project_of c decide base f) = f"
  "pp_instances (per_project_of c decide base f) = map (\<lambda>n. (n, decided_instance c decide (pf_name f) n)) (pf_instances f)"
  "pp_narrowed (per_project_of c decide base f) \<Longrightarrow> pp_relation (per_project_of c decide base f) = []"
  by (simp_all add: per_project_of_def Let_def)

lemma pp_relation_in: "base \<in> relations \<Longrightarrow> pp_relation (per_project_of c decide base f) \<in> relations"
  using strongest_relation[of PROJECT] PROJECT_relation
  by (simp add: per_project_of_def Let_def) (simp add: relations_def)

lemma pp_relation_le:
  assumes "n \<in> set (pf_instances f)"
  shows "IRANK (asInstance (pp_relation (per_project_of c decide base f))) \<le> IRANK (decided_instance c decide (pf_name f) n)"
  using assms by (auto simp: per_project_of_def Let_def list_ex_iff not_less)

lemma project_grants_cases:
  assumes "(r, ob) \<in> set (project_grants whole base (per_project_of c decide base f))"
  shows "(ob = ''project:'' @ pf_name f \<and> (r = pp_relation (per_project_of c decide base f) \<or> r \<in> set USER_PROJECT))
    \<or> r = ''can_view'' \<or> (\<exists>n. ob = ''instance:'' @ pf_name f @ ''/'' @ n \<and> r = decided_instance c decide (pf_name f) n)"
  using assms by (auto simp: project_grants_def Let_def split: if_splits)

lemma slash_split: "CHR ''/'' \<notin> set p \<Longrightarrow> CHR ''/'' \<notin> set p' \<Longrightarrow> p @ CHR ''/'' # n = p' @ CHR ''/'' # n' \<longleftrightarrow> p = p' \<and> n = n'"
proof (induction p arbitrary: p')
  case Nil
  then show ?case by (cases p') auto
next
  case (Cons x p)
  then show ?case by (cases p') auto
qed

lemma asInstance_instance: "asInstance (instanceRelation p) = instanceRelation p"
  by (simp add: instanceRelation_def asInstance_def)

lemma grants_within:
  assumes "distinct (map pf_name projects)" and "\<forall>f\<in>set projects. CHR ''/'' \<notin> set (pf_name f)"
    and "f \<in> set projects" and "f' \<in> set projects" and "i \<in> set (pf_instances f)"
    and "g \<in> set (project_grants whole base (per_project_of c decide base f'))"
  shows "gives (pf_name f) i g \<le> IRANK (decided_instance c decide (pf_name f) i)"
proof -
  obtain r ob where g: "g = (r, ob)" by (cases g)
  have zero: "r \<in> insert ''can_view'' (set USER_PROJECT) \<Longrightarrow> IRANK (asInstance r) = 0"
    by (auto simp: USER_PROJECT_def IRANK_def asInstance_def)
  from assms(6) g consider (rel) "ob = ''project:'' @ pf_name f'" "r = pp_relation (per_project_of c decide base f')"
    | (zero) "r \<in> insert ''can_view'' (set USER_PROJECT)"
    | (inst) n where "ob = ''instance:'' @ pf_name f' @ ''/'' @ n" "r = decided_instance c decide (pf_name f') n"
    using project_grants_cases[of r ob whole base c decide f'] by auto
  then show ?thesis
  proof cases
    case rel
    show ?thesis
    proof (cases "pf_name f' = pf_name f")
      case True
      with assms(1,3,4) have "f' = f" by (auto simp: distinct_map inj_on_def)
      with rel g pp_relation_le[OF assms(5)] show ?thesis by (simp add: gives_def)
    qed (use rel g in \<open>simp add: gives_def\<close>)
  next
    case inst
    have "pf_name f' = pf_name f \<and> n = i" if "ob = ''instance:'' @ pf_name f @ ''/'' @ i"
      using that inst assms(2-4) slash_split[of "pf_name f'" "pf_name f" n i] by simp
    moreover have "asInstance r = r" using inst(2) by (simp add: decided_instance_def asInstance_instance)
    moreover have "ob \<noteq> ''server:incus''" "ob \<noteq> ''project:'' @ pf_name f" using inst(1) by simp_all
    ultimately show ?thesis using inst(2) g unfolding gives_def by (cases "ob = ''instance:'' @ pf_name f @ ''/'' @ i") simp_all
  qed (use g zero in \<open>simp add: gives_def\<close>)
qed

lemma explicitRelations_set:
  obtains whole base where
    "base = strongest PROJECT (de_roles (decide (cluster_path c)))"
    and "whole \<longrightarrow> (\<forall>f\<in>set projects. \<not> pp_narrowed (per_project_of c decide base f)
           \<and> RANK base \<le> RANK (pp_relation (per_project_of c decide base f)))"
    and "set (explicitRelations c projects decide) =
      (if whole then {(strongest SERVER (de_roles (decide (cluster_path c))), ''server:incus'')} else {})
      \<union> (\<Union>f\<in>set projects. set (project_grants whole base (per_project_of c decide base f)))"
    and "whole \<longrightarrow> strongest SERVER (de_roles (decide (cluster_path c))) \<noteq> []"
proof -
  let ?base = "strongest PROJECT (de_roles (decide (cluster_path c)))"
  let ?whole = "\<not> list_ex (\<lambda>x. pp_narrowed x \<or> RANK (pp_relation x) < RANK ?base) (map (per_project_of c decide ?base) projects)
    \<and> strongest SERVER (de_roles (decide (cluster_path c))) \<noteq> []"
  show thesis
  proof (rule that[of ?base ?whole, OF refl])
    show "set (explicitRelations c projects decide) =
      (if ?whole then {(strongest SERVER (de_roles (decide (cluster_path c))), ''server:incus'')} else {})
      \<union> (\<Union>f\<in>set projects. set (project_grants ?whole ?base (per_project_of c decide ?base f)))"
      by (simp add: explicitRelations_def Let_def)
  qed (auto simp: list_ex_iff not_less)
qed

lemma server_within:
  assumes "base = strongest PROJECT (de_roles (decide (cluster_path c)))"
    and "RANK base \<le> RANK (pp_relation (per_project_of c decide base f))" and "i \<in> set (pf_instances f)"
  shows "IRANK (asInstance (strongest SERVER (de_roles (decide (cluster_path c))))) \<le> IRANK (decided_instance c decide (pf_name f) i)"
proof -
  have base: "base \<in> relations" using assms(1) by (simp add: strongest_relation PROJECT_relation)
  have "IRANK (asInstance (strongest SERVER (de_roles (decide (cluster_path c))))) \<le> IRANK (asInstance base)"
    using server_le_base assms(1) by simp
  also have "\<dots> \<le> IRANK (asInstance (pp_relation (per_project_of c decide base f)))"
    using assms(2) base by (intro irank_mono pp_relation_in)
  also have "\<dots> \<le> IRANK (decided_instance c decide (pf_name f) i)" by (rule pp_relation_le[OF assms(3)])
  finally show ?thesis .
qed

lemma leak_free:
  assumes "distinct (map pf_name projects)" and "\<forall>f\<in>set projects. CHR ''/'' \<notin> set (pf_name f)"
    and "f \<in> set projects" and "i \<in> set (pf_instances f)"
  shows "effective (explicitRelations c projects decide) (pf_name f) i \<le> IRANK (decided_instance c decide (pf_name f) i)"
proof -
  obtain whole base where base: "base = strongest PROJECT (de_roles (decide (cluster_path c)))"
    and whole: "whole \<longrightarrow> (\<forall>f\<in>set projects. \<not> pp_narrowed (per_project_of c decide base f)
           \<and> RANK base \<le> RANK (pp_relation (per_project_of c decide base f)))"
    and out: "set (explicitRelations c projects decide) =
      (if whole then {(strongest SERVER (de_roles (decide (cluster_path c))), ''server:incus'')} else {})
      \<union> (\<Union>f\<in>set projects. set (project_grants whole base (per_project_of c decide base f)))"
    by (rule explicitRelations_set)
  show ?thesis
    unfolding effective_le
  proof
    fix g assume "g \<in> set (explicitRelations c projects decide)"
    with out consider (server) "whole" "g = (strongest SERVER (de_roles (decide (cluster_path c))), ''server:incus'')"
      | (own) f' where "f' \<in> set projects" "g \<in> set (project_grants whole base (per_project_of c decide base f'))"
      by (auto split: if_splits)
    then show "gives (pf_name f) i g \<le> IRANK (decided_instance c decide (pf_name f) i)"
    proof cases
      case server
      with whole assms(3,4) base show ?thesis by (simp add: gives_def server_within)
    next
      case own
      then show ?thesis using grants_within[OF assms(1-3) _ assms(4)] by simp
    qed
  qed
qed


lemma project_grant_covers:
  assumes "i \<in> set (pf_instances f)"
    and "x = per_project_of c decide base f"
    and "n = IRANK (decided_instance c decide (pf_name f) i)" and "n \<noteq> 0"
    and "\<not> (whole \<and> n \<le> IRANK (asInstance (if pp_relation x \<noteq> [] then pp_relation x else base))
          \<and> \<not> pp_narrowed x \<and> RANK (pp_relation x) \<le> RANK base)"
  shows "\<exists>g\<in>set (project_grants whole base x). n \<le> gives (pf_name f) i g"
proof -
  let ?given = "if pp_narrowed x then [] else asInstance (if pp_relation x \<noteq> [] then pp_relation x else if whole then base else [])"
  show ?thesis
  proof (cases "n > IRANK ?given")
    case True
    have "(i, decided_instance c decide (pf_name f) i) \<in> set (pp_instances x)"
      using assms(1,2) by simp
    with True assms(2,3) have "(decided_instance c decide (pf_name f) i, ''instance:'' @ pf_name f @ ''/'' @ i)
        \<in> set (project_grants whole base x)"
      unfolding project_grants_def Let_def by force
    moreover have "gives (pf_name f) i (decided_instance c decide (pf_name f) i, ''instance:'' @ pf_name f @ ''/'' @ i) = n"
      using assms(3) by (simp add: gives_def decided_instance_def asInstance_instance)
    ultimately show ?thesis by force
  next
    case False
    with assms(4) have not_narrowed: "\<not> pp_narrowed x" by (auto split: if_splits)
    with False assms(4,5) have rel: "pp_relation x \<noteq> []" "\<not> whole \<or> RANK (pp_relation x) > RANK base"
      by (auto split: if_splits)
    then have "(pp_relation x, ''project:'' @ pf_name f) \<in> set (project_grants whole base x)"
      using assms(2) by (simp add: project_grants_def Let_def)
    moreover have "n \<le> gives (pf_name f) i (pp_relation x, ''project:'' @ pf_name f)"
      using False not_narrowed rel(1) by (simp add: gives_def)
    ultimately show ?thesis by blast
  qed
qed

section \<open>Properties\<close>

definition joe_decides :: "role_id list \<Rightarrow> privilege set \<Rightarrow> string \<Rightarrow> decision" where
  "joe_decides roles privs path = \<lparr>de_roles = roles, de_at = Some ''/clusters/c1'', de_privileges = Some privs\<rparr>"

definition web_project :: project_facts where
  "web_project = \<lparr>pf_name = ''web'', pf_instances = [''vm1''], pf_shared = []\<rparr>"

text \<open>
  C3: No grant leaks past a decision. Whatever mix of server, project and instance relations a
  subject is given on a cluster, what they amount to on each listed instance is at most what its
  permissions decide there: a project or an instance decided lower than what is above it is
  never reached through the relation above.
\<close>

theorem no_relation_leak:
  assumes "distinct (map pf_name projects)" and "\<forall>f\<in>set projects. CHR ''/'' \<notin> set (pf_name f)"
    and "f \<in> set projects" and "i \<in> set (pf_instances f)"
  shows "effective (explicitRelations c projects decide) (pf_name f) i \<le> IRANK (decided_instance c decide (pf_name f) i)"
  using assms by (rule leak_free)

theorem no_relation_leak_witness:
  "effective (explicitRelations ''c1'' [web_project] (joe_decides [Operator] {''instance.view''})) ''web'' ''vm1'' \<le> 1"
proof -
  have "effective (explicitRelations ''c1'' [web_project] (joe_decides [Operator] {''instance.view''})) (pf_name web_project) ''vm1''
      \<le> IRANK (decided_instance ''c1'' (joe_decides [Operator] {''instance.view''}) (pf_name web_project) ''vm1'')"
    by (rule no_relation_leak) (simp_all add: web_project_def)
  then show ?thesis
    by (simp add: web_project_def decided_instance_def joe_decides_def privs_of_def instanceRelation_def IRANK_def)
qed

text \<open>
  The grants give exactly what is decided, on every listed instance, whenever the subject's
  roles on the cluster give as much on the server as on its projects (or nothing on the server):
  what the server relation gives is then what every project starts from.
\<close>

theorem relations_exact:
  assumes "distinct (map pf_name projects)" and "\<forall>f\<in>set projects. CHR ''/'' \<notin> set (pf_name f)"
    and "f \<in> set projects" and "i \<in> set (pf_instances f)"
    and "strongest SERVER (de_roles (decide (cluster_path c))) = []
      \<or> IRANK (asInstance (strongest SERVER (de_roles (decide (cluster_path c)))))
        = IRANK (asInstance (strongest PROJECT (de_roles (decide (cluster_path c)))))"
  shows "effective (explicitRelations c projects decide) (pf_name f) i = IRANK (decided_instance c decide (pf_name f) i)"
proof (rule antisym)
  obtain whole base where base: "base = strongest PROJECT (de_roles (decide (cluster_path c)))"
    and out: "set (explicitRelations c projects decide) =
      (if whole then {(strongest SERVER (de_roles (decide (cluster_path c))), ''server:incus'')} else {})
      \<union> (\<Union>f\<in>set projects. set (project_grants whole base (per_project_of c decide base f)))"
    and server: "whole \<longrightarrow> strongest SERVER (de_roles (decide (cluster_path c))) \<noteq> []"
    by (rule explicitRelations_set)
  let ?n = "IRANK (decided_instance c decide (pf_name f) i)" and ?x = "per_project_of c decide base f"
  have rels: "base \<in> relations" using base by (simp add: strongest_relation PROJECT_relation)
  show "?n \<le> effective (explicitRelations c projects decide) (pf_name f) i"
    unfolding effective_ge
  proof (cases "?n = 0")
    case n: False
    have "\<exists>g\<in>set (explicitRelations c projects decide). ?n \<le> gives (pf_name f) i g"
    proof (cases "whole \<and> ?n \<le> IRANK (asInstance (if pp_relation ?x \<noteq> [] then pp_relation ?x else base))
          \<and> \<not> pp_narrowed ?x \<and> RANK (pp_relation ?x) \<le> RANK base")
      case True
      then have "?n \<le> IRANK (asInstance base)"
        using irank_mono[OF pp_relation_in[OF rels] rels] by (auto split: if_splits intro: order_trans)
      with True server assms(5) base
      have "?n \<le> gives (pf_name f) i (strongest SERVER (de_roles (decide (cluster_path c))), ''server:incus'')"
        by (simp add: gives_def)
      with True out show ?thesis by auto
    next
      case False
      with project_grant_covers[OF assms(4) refl refl n] out assms(3) show ?thesis by blast
    qed
    then show "?n = 0 \<or> (\<exists>g\<in>set (explicitRelations c projects decide). ?n \<le> gives (pf_name f) i g)" ..
  qed simp
qed (use assms leak_free in blast)

theorem relations_exact_witness:
  "effective (explicitRelations ''c1'' [web_project] (joe_decides [Operator] {''instance.view'', ''instance.console''})) ''web'' ''vm1'' = 2"
proof -
  let ?d = "joe_decides [Operator] {''instance.view'', ''instance.console''}"
  have "effective (explicitRelations ''c1'' [web_project] ?d) (pf_name web_project) ''vm1''
      = IRANK (decided_instance ''c1'' ?d (pf_name web_project) ''vm1'')"
    by (rule relations_exact)
      (simp_all add: web_project_def joe_decides_def strongest_def RANK_def IRANK_def asInstance_def)
  then show ?thesis
    by (simp add: web_project_def decided_instance_def joe_decides_def privs_of_def instanceRelation_def IRANK_def)
qed

text \<open>
  Where the roles on the cluster give more on its projects than on the server, the grants fall
  short: Auditor and Tenant admin together on the cluster decide every privilege a tenant's
  operator has on an instance, and the subject is left with the server's \<open>viewer\<close> alone.
\<close>

theorem auditor_hides_operator:
  "explicitRelations ''c1'' [web_project] (joe_decides [Auditor, TenantAdmin] {''instance.view'', ''instance.console'', ''instance.configure''})
     = [(''viewer'', ''server:incus'')]
   \<and> decided_instance ''c1'' (joe_decides [Auditor, TenantAdmin] {''instance.view'', ''instance.console'', ''instance.configure''}) ''web'' ''vm1''
     = ''operator''"
  by (simp add: explicitRelations_def per_project_of_def project_grants_def web_project_def joe_decides_def decided_instance_def
    privs_of_def instanceRelation_def strongest_def RANK_def IRANK_def asInstance_def cluster_path_def project_path_of_def)

end
