(* ===== verification/Cluster_Routes.thy ===== *)
theory Cluster_Routes
  imports Accounts Grants
begin

text \<open>
  The registry of clusters and the tenants placed on them (\<^verbatim>\<open>api/clusters.ts\<close>). Enrolling a cluster is an argument; the two requests
  a deletion makes of the cluster itself may fail without effect on what follows and are not part of the model. A handler answers as
  in \<open>Accounts\<close>: the database, the cached snapshot afterwards and its reply.
\<close>

section \<open>Guards and views\<close>

record cluster_view =
  cv_id :: string
  cv_name :: string
  cv_url :: string
  cv_addresses :: "string list"
  cv_fingerprint :: string
  cv_status :: string
  cv_statusMessage :: string
  cv_labels :: "(string, string) jsmap"
  cv_createdAt :: int
  cv_updatedAt :: int
  cv_lastSeenAt :: "int option"
  cv_reconciledAt :: "int option"
  cv_reconcileRequestedAt :: "int option"

definition view_cluster :: "cluster_row \<Rightarrow> cluster_view" where
  "view_cluster c = \<lparr>cv_id = cl_id c, cv_name = cl_name c, cv_url = cl_url c, cv_addresses = cl_addresses c, cv_fingerprint = cl_fingerprint c,
     cv_status = cl_status c, cv_statusMessage = cl_statusMessage c, cv_labels = cl_labels c, cv_createdAt = cl_createdAt c,
     cv_updatedAt = cl_updatedAt c, cv_lastSeenAt = cl_lastSeenAt c, cv_reconciledAt = cl_reconciledAt c,
     cv_reconcileRequestedAt = cl_reconcileRequestedAt c\<rparr>"

text \<open>\<open>None\<close> asks only whether the caller sees the cluster.\<close>

definition load_cluster :: "snapshot \<Rightarrow> db \<Rightarrow> principal \<Rightarrow> string \<Rightarrow> privilege option \<Rightarrow> cluster_row result" where
  "load_cluster s d p i privilege =
     then_do (uuidParam i ''Not found'') (\<lambda>i.
     case t_lookup cl_id (db_clusters d) (uuid_of i) of
       None \<Rightarrow> Inl (notFound ''Not found'')
     | Some row \<Rightarrow>
         (let path = ''/clusters/'' @ cl_name row
          in then_do (case privilege of
               None \<Rightarrow> check_that (sees s p path) (notFound ''Not found'')
             | Some x \<Rightarrow> needPriv s p x path ''Not found'') (\<lambda>_. Inr row)))"

definition needSettings :: "snapshot \<Rightarrow> principal \<Rightarrow> unit result" where
  "needSettings s p = check_that (can s p ''platform.settings'' ''/'' None) forbidden"

definition list_clusters :: "snapshot \<Rightarrow> db \<Rightarrow> principal \<Rightarrow> cluster_view list" where
  "list_clusters s d p = map view_cluster (filter (\<lambda>c. sees s p (''/clusters/'' @ cl_name c)) (sort_key cl_name (db_clusters d)))"

definition get_cluster :: "snapshot \<Rightarrow> db \<Rightarrow> principal \<Rightarrow> string \<Rightarrow> cluster_view result" where
  "get_cluster s d p i = map_sum id view_cluster (load_cluster s d p i None)"

section \<open>The registry\<close>

definition enroll_cluster :: "int \<Rightarrow> (db \<Rightarrow> (db \<times> cluster_row) result) \<Rightarrow> snapshot \<Rightarrow> db \<Rightarrow> principal \<Rightarrow> cluster_view handled" where
  "enroll_cluster now enrollCluster s d p =
     then_do (needSettings s p) (\<lambda>_.
     then_do (enrollCluster d) (\<lambda>(d1, row).
     Inr (requestReconcile now d1 (Clusters [cl_id row]), invalidate (Some s), view_cluster row)))"

definition update_cluster :: "int \<Rightarrow> snapshot \<Rightarrow> db \<Rightarrow> principal \<Rightarrow> string \<Rightarrow> (string, string) jsmap \<Rightarrow> cluster_view handled" where
  "update_cluster now s d p i labels =
     then_do (load_cluster s d p i (Some ''cluster.configure'')) (\<lambda>row.
     let f = (\<lambda>c. c\<lparr>cl_labels := labels, cl_updatedAt := now\<rparr>)
     in Inr (d\<lparr>db_clusters := t_update (\<lambda>c. cl_id c = uuid_of i) f (db_clusters d)\<rparr>, Some s, view_cluster (f row)))"

text \<open>What a cluster takes along; Kubernetes clusters hold it (restrict), and backups outlive it.\<close>

definition drop_cluster :: "string \<Rightarrow> db \<Rightarrow> db result" where
  "drop_cluster c d =
     (if \<exists>k\<in>set (db_k8sClusters d). kc_clusterId k = c then Inl (OtherError ''foreign key violation'')
      else Inr (d\<lparr>db_clusters := t_remove cl_id (db_clusters d) c,
        db_instanceLeases := filter (\<lambda>l. il_clusterId l \<noteq> c) (db_instanceLeases d),
        db_instanceOwners := filter (\<lambda>r. io_clusterId r \<noteq> c) (db_instanceOwners d),
        db_placements := filter (\<lambda>x. pl_clusterId x \<noteq> c) (db_placements d),
        db_clusterMembers := filter (\<lambda>m. cm_clusterId m \<noteq> c) (db_clusterMembers d),
        db_instances := filter (\<lambda>r. in_clusterId r \<noteq> c) (db_instances d),
        db_backups := t_update (\<lambda>b. ba_clusterId b = Some c) (\<lambda>b. b\<lparr>ba_clusterId := None\<rparr>) (db_backups d)\<rparr>))"

definition delete_cluster :: "snapshot \<Rightarrow> db \<Rightarrow> principal \<Rightarrow> string \<Rightarrow> string option \<Rightarrow> unit handled" where
  "delete_cluster s d p i force =
     then_do (load_cluster s d p i None) (\<lambda>row.
     then_do (needSettings s p) (\<lambda>_.
     let placed = filter (\<lambda>x. pl_clusterId x = cl_id row) (db_placements d);
         k8s = filter (\<lambda>k. kc_clusterId k = cl_id row) (db_k8sClusters d)
     in if k8s \<noteq> [] then Inl (ApiError 409 ''cluster_in_use'' (show_nat (length k8s) @ '' Kubernetes cluster(s) run on this cluster; delete them first''))
        else if placed \<noteq> [] \<and> force \<noteq> Some ''true''
        then Inl (ApiError 409 ''cluster_in_use'' (show_nat (length placed) @ '' tenant(s) are placed on this cluster; remove them or pass force=true''))
        else then_do (drop_cluster (cl_id row) d) (\<lambda>d1.
          Inr (d1\<lparr>db_aclEntries := filter (\<lambda>e. \<not> entriesUnder (''/clusters/'' @ cl_name row) e) (db_aclEntries d1)\<rparr>, invalidate (Some s), ()))))"

section \<open>Tenants on a cluster\<close>

definition list_placed :: "snapshot \<Rightarrow> db \<Rightarrow> principal \<Rightarrow> string \<Rightarrow> (tenant_row \<times> placement_row) list result" where
  "list_placed s d p i =
     then_do (load_cluster s d p i (Some ''cluster.view'')) (\<lambda>_.
     Inr (sort_key (\<lambda>x. te_slug (fst x)) [(t, x). x \<leftarrow> db_placements d, pl_clusterId x = uuid_of i, t \<leftarrow> db_tenants d, te_id t = pl_tenantId x]))"

definition placement_key :: "placement_row \<Rightarrow> string \<times> string" where
  "placement_key x = (pl_tenantId x, pl_clusterId x)"

definition place_tenant :: "int \<Rightarrow> snapshot \<Rightarrow> db \<Rightarrow> principal \<Rightarrow> string \<Rightarrow> string \<Rightarrow> placement_row handled" where
  "place_tenant now s d p i tenantId =
     then_do (load_cluster s d p i (Some ''cluster.configure'')) (\<lambda>_.
     then_do (uuidParam tenantId ''No such tenant'') (\<lambda>t.
     case t_lookup te_id (db_tenants d) (uuid_of t) of
       None \<Rightarrow> Inl (notFound ''No such tenant'')
     | Some tenant \<Rightarrow>
         (let row = \<lparr>pl_tenantId = te_id tenant, pl_clusterId = uuid_of i, pl_project = te_slug tenant, pl_status = ''pending'', pl_statusMessage = [],
                pl_usage = None, pl_limits = None, pl_createdAt = now\<rparr>;
              rows = (if placement_key row \<in> placement_key ` set (db_placements d) then db_placements d else db_placements d @ [row])
          in Inr (requestReconcile now (d\<lparr>db_placements := rows\<rparr>) (Clusters [uuid_of i]), invalidate (Some s),
                the (t_lookup placement_key rows (placement_key row))))))"

definition remove_placement :: "int \<Rightarrow> snapshot \<Rightarrow> db \<Rightarrow> principal \<Rightarrow> string \<Rightarrow> string \<Rightarrow> unit handled" where
  "remove_placement now s d p i tenantId =
     then_do (load_cluster s d p i (Some ''cluster.configure'')) (\<lambda>_.
     then_do (uuidParam tenantId ''Not found'') (\<lambda>t.
     let k8s = filter (\<lambda>x. te_id (fst x) = kc_tenantId (snd x)) [(tt, k). k \<leftarrow> db_k8sClusters d, kc_clusterId k = uuid_of i \<and> kc_tenantId k = uuid_of t, tt \<leftarrow> db_tenants d];
         gone = (\<lambda>x. pl_clusterId x = uuid_of i \<and> pl_tenantId x = uuid_of t)
     in if k8s \<noteq> []
        then Inl (ApiError 409 ''tenant_in_use'' (te_slug (fst (hd k8s)) @ '' has '' @ show_nat (length k8s) @ '' Kubernetes cluster(s) on this cluster; delete them first''))
        else if \<not> list_ex gone (db_placements d) then Inl (notFound ''This tenant is not on this cluster'')
        else Inr (requestReconcile now (d\<lparr>db_placements := filter (\<lambda>x. \<not> gone x) (db_placements d)\<rparr>) (Clusters [uuid_of i]), invalidate (Some s), ())))"

definition post_reconcile :: "int \<Rightarrow> snapshot \<Rightarrow> db \<Rightarrow> principal \<Rightarrow> string \<Rightarrow> unit handled" where
  "post_reconcile now s d p i =
     then_do (load_cluster s d p i (Some ''cluster.configure'')) (\<lambda>_. Inr (requestReconcile now d (Clusters [uuid_of i]), Some s, ()))"

section \<open>What holds\<close>

lemma load_clusterD:
  assumes "load_cluster s d p i privilege = Inr row"
  shows "t_lookup cl_id (db_clusters d) (uuid_of i) = Some row" "sees s p (''/clusters/'' @ cl_name row)"
    "privilege = Some x \<Longrightarrow> can s p x (''/clusters/'' @ cl_name row) None"
proof -
  from assms show "t_lookup cl_id (db_clusters d) (uuid_of i) = Some row"
    by (auto simp: load_cluster_def then_do_Inr_iff uuidParam_def Let_def split: if_splits option.splits)
  with assms show "privilege = Some x \<Longrightarrow> can s p x (''/clusters/'' @ cl_name row) None"
    by (auto simp: load_cluster_def then_do_Inr_iff uuidParam_def Let_def needPriv_def acl_guard.need_ok_iff split: if_splits)
  show "sees s p (''/clusters/'' @ cl_name row)"
    using assms \<open>t_lookup cl_id (db_clusters d) (uuid_of i) = Some row\<close> acl_guard.held_seen
    by (auto simp: load_cluster_def then_do_Inr_iff uuidParam_def Let_def needPriv_def acl_guard.need_ok_iff check_that_Inr split: if_splits option.splits)
qed

text \<open>
  C25: Deleting a cluster takes the right to the platform's settings, is refused while Kubernetes clusters run on it, even by force, and without force while
  tenants are placed on it. Afterwards nothing names the cluster: no row of it, of its instances, members, owners, leases or placements, no
  permission entry on its paths; its backups are kept without it, the other clusters and the entries elsewhere are as they were, and the next decision reads the
  database again.
\<close>

theorem cluster_deleted:
  assumes "delete_cluster s d p i force = Inr (d', c, u)"
  shows "\<exists>row. t_lookup cl_id (db_clusters d) (uuid_of i) = Some row \<and> sees s p (''/clusters/'' @ cl_name row) \<and> can s p ''platform.settings'' ''/'' None \<and>
    (\<forall>k\<in>set (db_k8sClusters d). kc_clusterId k \<noteq> cl_id row) \<and>
    (force = Some ''true'' \<or> (\<forall>x\<in>set (db_placements d). pl_clusterId x \<noteq> cl_id row)) \<and>
    (\<forall>k. t_lookup cl_id (db_clusters d') k = (if k = cl_id row then None else t_lookup cl_id (db_clusters d) k)) \<and>
    cl_id row \<notin> in_clusterId ` set (db_instances d') \<union> cm_clusterId ` set (db_clusterMembers d') \<union> io_clusterId ` set (db_instanceOwners d') \<union>
      il_clusterId ` set (db_instanceLeases d') \<union> pl_clusterId ` set (db_placements d') \<and>
    Some (cl_id row) \<notin> ba_clusterId ` set (db_backups d') \<and> map ba_id (db_backups d') = map ba_id (db_backups d) \<and>
    db_aclEntries d' = filter (\<lambda>e. \<not> entriesUnder (''/clusters/'' @ cl_name row) e) (db_aclEntries d) \<and> c = None"
proof -
  from assms obtain row d1 where l: "load_cluster s d p i None = Inr row" and n: "can s p ''platform.settings'' ''/'' None"
    and k: "filter (\<lambda>k. kc_clusterId k = cl_id row) (db_k8sClusters d) = []"
    and f: "filter (\<lambda>x. pl_clusterId x = cl_id row) (db_placements d) = [] \<or> force = Some ''true''"
    and d1: "drop_cluster (cl_id row) d = Inr d1" and c: "c = None"
    and d': "d' = d1\<lparr>db_aclEntries := filter (\<lambda>e. \<not> entriesUnder (''/clusters/'' @ cl_name row) e) (db_aclEntries d1)\<rparr>"
    by (auto simp: delete_cluster_def then_do_Inr_iff needSettings_def check_that_Inr Let_def invalidate_def split: if_splits)
  note L = load_clusterD[OF l]
  have D: "db_clusters d' = t_remove cl_id (db_clusters d) (cl_id row)"
    "db_aclEntries d' = filter (\<lambda>e. \<not> entriesUnder (''/clusters/'' @ cl_name row) e) (db_aclEntries d)"
    "cl_id row \<notin> in_clusterId ` set (db_instances d') \<union> cm_clusterId ` set (db_clusterMembers d') \<union> io_clusterId ` set (db_instanceOwners d') \<union>
      il_clusterId ` set (db_instanceLeases d') \<union> pl_clusterId ` set (db_placements d')"
    "Some (cl_id row) \<notin> ba_clusterId ` set (db_backups d')" "map ba_id (db_backups d') = map ba_id (db_backups d)"
    using d1 unfolding d' by (auto simp: drop_cluster_def t_update_def split: if_splits)
  show ?thesis
    using L(1,2) n k f D(2-5) c by (intro exI[of _ row]) (auto simp: D(1) t_lookup_remove filter_empty_conv)
qed

text \<open>
  Placing a tenant and removing one take the right to configure the cluster; the tenant keeps one placement there, in the project of its
  slug, or none, and other placements stay.
\<close>

theorem placements_guarded:
  assumes "t_wf placement_key (db_placements d)"
  shows "place_tenant now s d p i t = Inr (d', c, row) \<Longrightarrow>
      (\<exists>k. t_lookup cl_id (db_clusters d) (uuid_of i) = Some k \<and> can s p ''cluster.configure'' (''/clusters/'' @ cl_name k) None) \<and>
      t_lookup placement_key (db_placements d') (uuid_of t, uuid_of i) = Some row \<and> t_wf placement_key (db_placements d') \<and>
      (\<forall>x. x \<noteq> (uuid_of t, uuid_of i) \<longrightarrow> t_lookup placement_key (db_placements d') x = t_lookup placement_key (db_placements d) x)"
    "remove_placement now s d p i t = Inr (d', c, ()) \<Longrightarrow>
      (\<exists>k. t_lookup cl_id (db_clusters d) (uuid_of i) = Some k \<and> can s p ''cluster.configure'' (''/clusters/'' @ cl_name k) None) \<and>
      (\<forall>x. t_lookup placement_key (db_placements d') x = (if x = (uuid_of t, uuid_of i) then None else t_lookup placement_key (db_placements d) x))"
proof -
  have same: "db_placements (requestReconcile now d2 (Clusters ids)) = db_placements d2" for d2 ids by (simp add: requestReconcile_def)
  show "(\<exists>k. t_lookup cl_id (db_clusters d) (uuid_of i) = Some k \<and> can s p ''cluster.configure'' (''/clusters/'' @ cl_name k) None) \<and>
      t_lookup placement_key (db_placements d') (uuid_of t, uuid_of i) = Some row \<and> t_wf placement_key (db_placements d') \<and>
      (\<forall>x. x \<noteq> (uuid_of t, uuid_of i) \<longrightarrow> t_lookup placement_key (db_placements d') x = t_lookup placement_key (db_placements d) x)"
    if r: "place_tenant now s d p i t = Inr (d', c, row)"
  proof -
    from r obtain k tenant where l: "load_cluster s d p i (Some ''cluster.configure'') = Inr k"
      and t: "t_lookup te_id (db_tenants d) (uuid_of t) = Some tenant"
      by (auto simp: place_tenant_def then_do_Inr_iff uuidParam_def split: if_splits option.splits)
    define new where "new = \<lparr>pl_tenantId = te_id tenant, pl_clusterId = uuid_of i, pl_project = te_slug tenant, pl_status = ''pending'', pl_statusMessage = [],
                pl_usage = None, pl_limits = None, pl_createdAt = now\<rparr>"
    define rows where "rows = (if placement_key new \<in> placement_key ` set (db_placements d) then db_placements d else db_placements d @ [new])"
    have e: "db_placements d' = rows" "row = the (t_lookup placement_key rows (placement_key new))"
      using r t by (auto simp: place_tenant_def then_do_Inr_iff uuidParam_def Let_def new_def[symmetric] rows_def[symmetric] same split: if_splits)
    have k: "placement_key new = (uuid_of t, uuid_of i)" using t_lookup_SomeD[OF t] by (simp add: new_def placement_key_def)
    have up: "rows = t_upsert placement_key (db_placements d) new id (\<lambda>_. False)"
      by (auto simp: rows_def t_upsert_def image_iff)
    have look: "t_lookup placement_key rows x = (if x = placement_key new then Some (case t_lookup placement_key (db_placements d) x of None \<Rightarrow> new | Some r \<Rightarrow> r)
        else t_lookup placement_key (db_placements d) x)" for x
      unfolding up by (subst t_lookup_upsert) (auto split: option.splits)
    have "t_wf placement_key rows" unfolding up by (rule t_wf_upsert[OF _ assms]) simp
    then show ?thesis using load_clusterD(1,3)[OF l] by (simp add: e look k)
  qed
  show "(\<exists>k. t_lookup cl_id (db_clusters d) (uuid_of i) = Some k \<and> can s p ''cluster.configure'' (''/clusters/'' @ cl_name k) None) \<and>
      (\<forall>x. t_lookup placement_key (db_placements d') x = (if x = (uuid_of t, uuid_of i) then None else t_lookup placement_key (db_placements d) x))"
    if r: "remove_placement now s d p i t = Inr (d', c, ())"
  proof -
    from r obtain k where l: "load_cluster s d p i (Some ''cluster.configure'') = Inr k"
      and e: "db_placements d' = t_remove placement_key (db_placements d) (uuid_of t, uuid_of i)"
      by (auto simp: remove_placement_def then_do_Inr_iff uuidParam_def Let_def same t_remove_def placement_key_def conj_commute split: if_splits)
    show ?thesis using load_clusterD(1,3)[OF l] by (simp add: e t_lookup_remove)
  qed
qed

section \<open>A registry\<close>

definition lab_id :: string where
  "lab_id = ''00000000-0000-0000-0000-0000000000d1''"

definition registry_db :: db where
  "registry_db = lone_db\<lparr>db_clusters := [a_cluster\<lparr>cl_id := lab_id\<rparr>], db_instances := [(an_instance ''web'')\<lparr>in_clusterId := lab_id\<rparr>],
     db_placements := [\<lparr>pl_tenantId = ''T'', pl_clusterId = lab_id, pl_project = ''t'', pl_status = ''ready'', pl_statusMessage = [],
       pl_usage = None, pl_limits = None, pl_createdAt = 0\<rparr>]\<rparr>"

lemma lab_deleted: "is_ok (delete_cluster (load 0 registry_db) registry_db (a_user ada_id) lab_id (Some ''true''))" "lab_id \<in> in_clusterId ` set (db_instances registry_db)"
  "uuid_of lab_id = lab_id"
  by code_simp+

theorem cluster_deleted_witness:
  "lab_id \<in> in_clusterId ` set (db_instances registry_db) \<and>
   (\<exists>d' c. delete_cluster (load 0 registry_db) registry_db (a_user ada_id) lab_id (Some ''true'') = Inr (d', c, ()) \<and> lab_id \<notin> in_clusterId ` set (db_instances d'))"
proof -
  obtain d' c u where r: "delete_cluster (load 0 registry_db) registry_db (a_user ada_id) lab_id (Some ''true'') = Inr (d', c, u)"
    using lab_deleted(1) by (auto simp: is_ok_iff)
  from cluster_deleted[OF r] obtain row where "t_lookup cl_id (db_clusters registry_db) (uuid_of lab_id) = Some row"
    "cl_id row \<notin> in_clusterId ` set (db_instances d')" by blast
  moreover from this(1) have "cl_id row = lab_id" using t_lookup_SomeD[of cl_id] lab_deleted(3) by force
  ultimately show ?thesis using r lab_deleted(2) by auto
qed

end
