(* ===== verification/Reconcile.thy ===== *)
theory Reconcile
  imports Grants
begin

text \<open>
  What reaching the desired state means for a cluster: the grant tuples after a pass
  (\<open>desiredGrants\<close>, \<open>diffTuples\<close>), the tenants' projects and default profiles
  (\<^verbatim>\<open>reconcile/projects.ts\<close>) and the server's configuration (\<^verbatim>\<open>reconcile/incus-config.ts\<close>).
  What Incus answers is an argument; the request the code makes is part of the result.
\<close>

section \<open>Tuples\<close>

definition no_bar :: "tuple \<Rightarrow> bool" where
  "no_bar t \<longleftrightarrow> CHR ''|'' \<notin> set (tu_user t) \<and> CHR ''|'' \<notin> set (tu_relation t)"

lemma sep_split: "c \<notin> set p \<Longrightarrow> c \<notin> set p' \<Longrightarrow> p @ c # n = p' @ c # n' \<longleftrightarrow> p = p' \<and> n = n'"
proof (induction p arbitrary: p')
  case Nil
  then show ?case by (cases p') auto
next
  case (Cons x p)
  then show ?case by (cases p') auto
qed

lemma last_sep_split: "(c :: char) \<notin> set n \<Longrightarrow> c \<notin> set n' \<Longrightarrow> p @ c # n = p' @ c # n' \<longleftrightarrow> p = p' \<and> n = n'"
  using after_last_append[of c n p] after_last_append[of c n' p'] before_last_append[of c n p] before_last_append[of c n' p']
  by auto

lemma tuple_key_inj: "no_bar t \<Longrightarrow> no_bar t' \<Longrightarrow> tuple_key t = tuple_key t' \<longleftrightarrow> t = t'"
  by (auto simp: no_bar_def tuple_key_def sep_split)

lemma m_wf_of: "m_wf (m_of es)"
proof -
  have "m_wf (fold (\<lambda>e m. m_set m (fst e) (snd e)) es m)" if "m_wf m" for m :: "('a, 'b) jsmap"
    using that by (induction es arbitrary: m) (simp_all add: jm.invar_put)
  then show ?thesis by (simp add: m_of_def m_wf_def)
qed

lemma m_wf_mem: "m_wf m \<Longrightarrow> (k, v) \<in> set m \<longleftrightarrow> m_get m k = Some v"
  by (simp add: m_wf_def m_get_def)

lemma find_map_pair: "find (\<lambda>e. fst e = k) (map (\<lambda>t. (f t, t)) ts) = map_option (\<lambda>t. (f t, t)) (find (\<lambda>t. f t = k) ts)"
  by (induction ts) auto

lemma m_get_index:
  assumes "inj_on f (set ts)"
  shows "m_get (m_of (map (\<lambda>t. (f t, t)) ts)) k = Some v \<longleftrightarrow> v \<in> set ts \<and> k = f v"
proof -
  have "find (\<lambda>e. fst e = k) (rev (map (\<lambda>t. (f t, t)) ts)) = map_option (\<lambda>t. (f t, t)) (find (\<lambda>t. f t = k) (rev ts))"
    unfolding rev_map by (rule find_map_pair)
  then have eq: "m_get (m_of (map (\<lambda>t. (f t, t)) ts)) k = find (\<lambda>t. f t = k) (rev ts)"
    by (simp add: m_get_of option.map_comp o_def option.map_ident)
  have "find (\<lambda>t. f t = k) (rev ts) = Some v" if "v \<in> set ts" "k = f v"
  proof -
    have "find (\<lambda>t. f t = k) (rev ts) \<noteq> None" using that by (auto simp: find_None_iff)
    then obtain u where u: "find (\<lambda>t. f t = k) (rev ts) = Some u" by blast
    from find_mem[OF u] that assms have "u = v" by (auto simp: inj_on_def)
    with u show ?thesis by simp
  qed
  with find_mem[of "\<lambda>t. f t = k" "rev ts" v] show ?thesis unfolding eq by auto
qed

lemma diff_sets:
  assumes "\<forall>t\<in>set desired \<union> set current. no_bar t"
  shows "set (fst (diffTuples desired current)) = set desired - set current"
    and "set (snd (diffTuples desired current)) = {t \<in> set current - set desired. isManaged t}"
proof -
  let ?m = "\<lambda>ts. m_of (map (\<lambda>t. (tuple_key t, t)) ts)"
  have inj: "inj_on tuple_key (set ts)" if "set ts \<subseteq> set desired \<union> set current" for ts
    using assms that tuple_key_inj unfolding inj_on_def by blast
  have get: "m_get (?m ts) k = Some t \<longleftrightarrow> t \<in> set ts \<and> k = tuple_key t"
    if "set ts \<subseteq> set desired \<union> set current" for ts k t
    by (rule m_get_index[OF inj[OF that]])
  have mem: "(k, t) \<in> set (?m ts) \<longleftrightarrow> t \<in> set ts \<and> k = tuple_key t"
    if "set ts \<subseteq> set desired \<union> set current" for ts k t
    using get[OF that] by (simp add: m_wf_mem[OF m_wf_of])
  have none: "m_get (?m ts) (tuple_key t) = None \<longleftrightarrow> t \<notin> set ts"
    if "set ts \<subseteq> set desired \<union> set current" "t \<in> set desired \<union> set current" for ts t
    using get[OF that(1), of "tuple_key t"] assms that(1) tuple_key_inj that(2)
    by (metis (no_types, lifting) not_None_eq subsetD)
  have sub: "set desired \<subseteq> set desired \<union> set current" "set current \<subseteq> set desired \<union> set current" by auto
  show "set (fst (diffTuples desired current)) = set desired - set current"
    using mem[OF sub(1)] none[OF sub(2)] by (force simp: diffTuples_def Let_def image_iff)
  show "set (snd (diffTuples desired current)) = {t \<in> set current - set desired. isManaged t}"
    using mem[OF sub(2)] none[OF sub(1)] by (force simp: diffTuples_def Let_def image_iff)
qed

text \<open>A subject holds a relation through a group it is a member of.\<close>

definition granted :: "tuple set \<Rightarrow> string \<Rightarrow> string \<Rightarrow> string \<Rightarrow> bool" where
  "granted ts u r ob \<longleftrightarrow> (\<exists>g. \<lparr>tu_user = ''user:'' @ u, tu_relation = ''member'', tu_object = ''group:'' @ g\<rparr> \<in> ts
     \<and> \<lparr>tu_user = ''group:'' @ g @ ''#member'', tu_relation = r, tu_object = ob\<rparr> \<in> ts)"

definition acl_def_tuple :: "(string \<Rightarrow> string) \<Rightarrow> grant_acl \<Rightarrow> tuple" where
  "acl_def_tuple hash a = \<lparr>tu_user = ''group:'' @ aclGroup hash (ga_relation a) (ga_object a) @ ''#member'',
     tu_relation = ga_relation a, tu_object = ga_object a\<rparr>"

definition acl_user_tuple :: "(string \<Rightarrow> string) \<Rightarrow> grant_acl \<Rightarrow> tuple" where
  "acl_user_tuple hash a = \<lparr>tu_user = ''user:'' @ ga_subject a, tu_relation = ''member'',
     tu_object = ''group:'' @ aclGroup hash (ga_relation a) (ga_object a)\<rparr>"

definition acl_names :: "grant_acl list \<Rightarrow> (string \<times> string) set" where
  "acl_names as = (\<lambda>a. (ga_relation a, ga_object a)) ` set as"

definition acl_key :: "(string \<Rightarrow> string) \<Rightarrow> string \<times> string \<Rightarrow> string" where
  "acl_key hash g = hash (fst g @ ''|'' @ snd g)"

lemma aclGroup_inj:
  assumes "inj_on (acl_key hash) (acl_names as)" and "a \<in> set as" and "b \<in> set as"
    and "aclGroup hash (ga_relation a) (ga_object a) = aclGroup hash (ga_relation b) (ga_object b)"
  shows "ga_relation a = ga_relation b \<and> ga_object a = ga_object b"
proof -
  from assms(4) have "acl_key hash (ga_relation a, ga_object a) = acl_key hash (ga_relation b, ga_object b)"
    by (simp add: aclGroup_def acl_key_def)
  with assms(1-3) have "(ga_relation a, ga_object a) = (ga_relation b, ga_object b)"
    by (intro inj_onD[OF assms(1)]) (auto simp: acl_names_def)
  then show ?thesis by simp
qed

lemma acl_tuples_subset: "set (acl_tuples hash D as) \<subseteq> acl_def_tuple hash ` set as \<union> acl_user_tuple hash ` set as"
  by (induction hash D as rule: acl_tuples.induct) (auto simp: Let_def acl_def_tuple_def acl_user_tuple_def)

lemma acl_tuples_user: "a \<in> set as \<Longrightarrow> acl_user_tuple hash a \<in> set (acl_tuples hash D as)"
  by (induction hash D as rule: acl_tuples.induct) (auto simp: Let_def acl_user_tuple_def)

lemma acl_tuples_def:
  assumes "inj_on (acl_key hash) (acl_names bs)" and "set as \<subseteq> set bs" and "a \<in> set as"
    and "aclGroup hash (ga_relation a) (ga_object a) \<notin> D"
  shows "acl_def_tuple hash a \<in> set (acl_tuples hash D as)"
  using assms(2-4)
proof (induction as arbitrary: D)
  case (Cons b as)
  let ?g = "\<lambda>a. aclGroup hash (ga_relation a) (ga_object a)"
  show ?case
  proof (cases "?g a = ?g b")
    case True
    with aclGroup_inj[OF assms(1), of a b] Cons.prems have "acl_def_tuple hash a = acl_def_tuple hash b"
      by (auto simp: acl_def_tuple_def)
    with True Cons.prems(3) show ?thesis by (simp add: Let_def acl_def_tuple_def)
  next
    case False
    with Cons.prems have "a \<in> set as" by auto
    with False Cons.prems Cons.IH[of "insert (?g b) D"] show ?thesis by (simp add: Let_def)
  qed
qed simp

lemma desired_member:
  "\<lparr>tu_user = ''user:'' @ u, tu_relation = ''member'', tu_object = ''group:'' @ g\<rparr> \<in> set (desiredGrants hash f) \<longleftrightarrow>
     (\<exists>m\<in>set (gf_members f). gm_subject m = u \<and> gm_tenantId m \<in> gp_tenantId ` set (gf_placements f) \<and> gm_role m \<in> set TENANT_ROLES
        \<and> g = tenant_group (gm_tenantId m) (gm_role m))
     \<or> (\<exists>p\<in>set (gf_platform f). gl_subject p = u \<and> gl_role p \<in> set PLATFORM_ROLES \<and> g = platform_group (gl_role p))
     \<or> (\<exists>a\<in>set (gf_acl f). ga_subject a = u \<and> g = aclGroup hash (ga_relation a) (ga_object a))" (is "?t \<in> _ \<longleftrightarrow> ?m \<or> ?p \<or> ?a")
proof -
  have "?t \<notin> set (concat (map placement_tuples (gf_placements f)))" by (auto simp: placement_tuples_def)
  moreover have "?t \<in> set (member_tuples f) \<longleftrightarrow> ?m" by (auto simp: member_tuples_def)
  moreover have "?t \<in> set (platform_tuples f) \<longleftrightarrow> ?p" by (auto simp: platform_tuples_def)
  moreover have "?t \<in> set (acl_tuples hash {} (gf_acl f)) \<longleftrightarrow> ?a"
    using acl_tuples_subset[of hash "{}" "gf_acl f"] acl_tuples_user[of _ "gf_acl f" hash "{}"]
    by (auto simp: acl_def_tuple_def acl_user_tuple_def)
  ultimately show ?thesis by (simp add: desiredGrants_def)
qed

lemma desired_group:
  assumes "inj_on (acl_key hash) (acl_names (gf_acl f))"
  shows "\<lparr>tu_user = ''group:'' @ g @ ''#member'', tu_relation = r, tu_object = ob\<rparr> \<in> set (desiredGrants hash f) \<longleftrightarrow>
     (\<exists>p\<in>set (gf_placements f). \<exists>role\<in>set TENANT_ROLES. g = tenant_group (gp_tenantId p) role \<and> r = projectRelation role
        \<and> ob = ''project:'' @ gp_project p)
     \<or> (\<exists>role\<in>set PLATFORM_ROLES. g = platform_group role \<and> r = role \<and> ob = ''server:incus'')
     \<or> (\<exists>a\<in>set (gf_acl f). g = aclGroup hash (ga_relation a) (ga_object a) \<and> r = ga_relation a \<and> ob = ga_object a)"
    (is "?t \<in> _ \<longleftrightarrow> ?p \<or> ?s \<or> ?a")
proof -
  have "?t \<in> set (concat (map placement_tuples (gf_placements f))) \<longleftrightarrow> ?p" by (auto simp: placement_tuples_def)
  moreover have "?t \<notin> set (member_tuples f)" by (auto simp: member_tuples_def)
  moreover have "?t \<in> set (platform_tuples f) \<longleftrightarrow> ?s" by (auto simp: platform_tuples_def)
  moreover have "?t \<in> set (acl_tuples hash {} (gf_acl f)) \<longleftrightarrow> ?a"
    using acl_tuples_subset[of hash "{}" "gf_acl f"] acl_tuples_def[OF assms subset_refl, where D = "{}"]
    by (auto simp: acl_def_tuple_def acl_user_tuple_def)
  ultimately show ?thesis by (simp add: desiredGrants_def)
qed

lemma group_names:
  "r \<in> set TENANT_ROLES \<Longrightarrow> r' \<in> set TENANT_ROLES \<Longrightarrow> tenant_group t r = tenant_group t' r' \<longleftrightarrow> t = t' \<and> r = r'"
  "platform_group a = platform_group b \<longleftrightarrow> a = b"
  "tenant_group t r \<noteq> platform_group a" "platform_group a \<noteq> tenant_group t r"
  "tenant_group t r \<noteq> aclGroup hash x y" "aclGroup hash x y \<noteq> tenant_group t r"
  "platform_group a \<noteq> aclGroup hash x y" "aclGroup hash x y \<noteq> platform_group a"
proof -
  assume "r \<in> set TENANT_ROLES" "r' \<in> set TENANT_ROLES"
  then have "CHR ''-'' \<notin> set r" "CHR ''-'' \<notin> set r'" by (auto simp: TENANT_ROLES_def PROJECT_RELATION_def)
  then show "tenant_group t r = tenant_group t' r' \<longleftrightarrow> t = t' \<and> r = r'"
    by (simp add: tenant_group_def last_sep_split)
qed (simp_all add: platform_group_def tenant_group_def aclGroup_def PREFIX_def)

lemma desired_managed: "t \<in> set (desiredGrants hash f) \<Longrightarrow> isManaged t"
  using acl_tuples_subset[of hash "{}" "gf_acl f"]
  by (auto simp: desiredGrants_def placement_tuples_def member_tuples_def platform_tuples_def isManaged_def
    acl_def_tuple_def acl_user_tuple_def tenant_group_def platform_group_def aclGroup_def PREFIX_def split: if_splits)

section \<open>Projects\<close>

definition TENANT_KEY :: string where
  "TENANT_KEY = ''user.incuscloud.tenant''"

definition limit_entries :: "limits \<Rightarrow> config" where
  "limit_entries l = concat (map (\<lambda>k. case l_at l k of None \<Rightarrow> [] | Some n \<Rightarrow> [(''limits.'' @ key_name k, show_int n)]) KEYS)"

definition projectConfigFor :: "string \<Rightarrow> limits \<Rightarrow> config" where
  "projectConfigFor tenantId l = [
     (''restricted'', ''true''),
     (''restricted.backups'', ''allow''),
     (''restricted.containers.nesting'', ''allow''),
     (''restricted.cluster.target'', ''allow''),
     (''features.images'', ''true''),
     (''features.profiles'', ''true''),
     (''features.storage.volumes'', ''true''),
     (''features.storage.buckets'', ''true''),
     (''features.networks'', ''false''),
     (TENANT_KEY, tenantId)] @ limit_entries l"

definition UPDATABLE :: "string \<Rightarrow> bool" where
  "UPDATABLE k \<longleftrightarrow> startsWith k ''restricted'' \<or> startsWith k ''limits.'' \<or> k = TENANT_KEY"

definition wanted_config :: "string \<Rightarrow> limits \<Rightarrow> string list \<Rightarrow> bool \<Rightarrow> config" where
  "wanted_config tenantId l clusterGroups snapshotsFull =
    (let want = m_set (projectConfigFor tenantId l) ''restricted.snapshots'' (if snapshotsFull then ''block'' else ''allow'')
     in if clusterGroups \<noteq> [] then m_set want ''restricted.cluster.groups'' (join_with '','' (sort clusterGroups)) else want)"

record project =
  pr_config :: config
  pr_description :: string

datatype project_change = Created project | Updated project | Unchanged

definition removable :: "string \<Rightarrow> bool" where
  "removable k \<longleftrightarrow> startsWith k ''limits.'' \<or> k = ''restricted.cluster.groups''"

definition config_patch :: "config \<Rightarrow> config \<Rightarrow> config" where
  "config_patch want current =
     fold (\<lambda>k p. if removable k \<and> m_get want k = None then m_set p k [] else p) (map fst current)
       (fold (\<lambda>(k, v) p. if UPDATABLE k \<and> m_get current k \<noteq> Some v then m_set p k v else p) want [])"

definition apply_patch :: "config \<Rightarrow> config \<Rightarrow> config" where
  "apply_patch patch current = fold (\<lambda>(k, v) c. if v = [] then m_del c k else m_set c k v) patch current"

text \<open>
  \<open>reading\<close> is what the project's GET gives: the project, nothing for a 404, or another error.
  The result is the project the request writes (POST or PUT), if any.
\<close>

definition ensureProject ::
  "project option result \<Rightarrow> string \<Rightarrow> string \<Rightarrow> string \<Rightarrow> limits \<Rightarrow> string list \<Rightarrow> bool \<Rightarrow> project_change result" where
  "ensureProject reading name tenantId slug l clusterGroups snapshotsFull =
    (let want = wanted_config tenantId l clusterGroups snapshotsFull in
     case reading of
       Inl e \<Rightarrow> Inl e
     | Inr None \<Rightarrow> Inr (Created \<lparr>pr_config = want, pr_description = ''IncusCloud tenant '' @ slug\<rparr>)
     | Inr (Some p) \<Rightarrow>
         if m_get (pr_config p) TENANT_KEY \<noteq> Some tenantId
         then Inl (ApiError 409 ''project_exists''
           (''Project \"'' @ name @ ''\" already exists on the cluster and does not belong to this tenant''))
         else let patch = config_patch want (pr_config p) in
           if patch = [] then Inr Unchanged
           else Inr (Updated \<lparr>pr_config = apply_patch patch (pr_config p), pr_description = pr_description p\<rparr>))"

text \<open>\<open>state\<close> is the project's resources as its \<open>/state\<close> gives them; nothing for a 404.\<close>

definition projectUsage :: "(string, int) jsmap option result \<Rightarrow> usage option result" where
  "projectUsage state =
    (case state of
       Inl e \<Rightarrow> Inl e
     | Inr None \<Rightarrow> Inr None
     | Inr (Some r) \<Rightarrow> Inr (Some (usage_of (\<lambda>k. case m_get r (key_name k) of None \<Rightarrow> 0 | Some n \<Rightarrow> n))))"

type_synonym devices = "(string, config) jsmap"

definition rootOf :: "devices \<Rightarrow> (string \<times> config) option" where
  "rootOf d = find (\<lambda>(_, v). m_get v ''type'' = Some ''disk'' \<and> m_get v ''path'' = Some ''/'') d"

definition nicOf :: "devices \<Rightarrow> (string \<times> config) option" where
  "nicOf d = find (\<lambda>(_, v). m_get v ''type'' = Some ''nic'') d"

record profile =
  po_config :: config
  po_devices :: devices
  po_description :: string

record network =
  nw_name :: string
  nw_type :: string
  nw_managed :: bool

text \<open>Each step carries the flag \<open>changed\<close> beside what it may change.\<close>

definition fill_root :: "devices \<Rightarrow> string list result \<Rightarrow> devices \<times> bool \<Rightarrow> (devices \<times> bool) result" where
  "fill_root source pools dc =
    (if rootOf (fst dc) \<noteq> None then Inr dc
     else case rootOf source of
       Some (k, v) \<Rightarrow> Inr (m_set (fst dc) k v, True)
     | None \<Rightarrow> then_do pools (\<lambda>ps. Inr (case ps of [] \<Rightarrow> fst dc
         | p # _ \<Rightarrow> m_set (fst dc) ''root'' [(''type'', ''disk''), (''path'', ''/''), (''pool'', p)], True)))"

definition fill_nic :: "devices \<Rightarrow> network list result \<Rightarrow> devices \<times> bool \<Rightarrow> (devices \<times> bool) result" where
  "fill_nic source networks dc =
    (if nicOf (fst dc) \<noteq> None then Inr dc
     else case nicOf source of
       Some (k, v) \<Rightarrow> Inr (m_set (fst dc) k v, True)
     | None \<Rightarrow> then_do networks (\<lambda>ns. Inr (case find (\<lambda>n. nw_managed n \<and> nw_type n = ''bridge'') ns of None \<Rightarrow> fst dc
         | Some b \<Rightarrow> m_set (fst dc) ''eth0'' [(''type'', ''nic''), (''name'', ''eth0''), (''network'', nw_name b)], True)))"

definition fill_devices :: "devices result \<Rightarrow> string list result \<Rightarrow> network list result \<Rightarrow> devices \<Rightarrow> (devices \<times> bool) result" where
  "fill_devices source pools networks d =
    (if rootOf d = None \<or> nicOf d = None
     then then_do source (\<lambda>src. then_do (fill_root src pools (d, False)) (fill_nic src networks)) else Inr (d, False))"

definition DEFAULT_CPU :: int where "DEFAULT_CPU = 1"
definition DEFAULT_MEMORY_GIB :: int where "DEFAULT_MEMORY_GIB = 1"
definition DEFAULT_DISK_GIB :: int where "DEFAULT_DISK_GIB = 10"

definition default_limit :: "string \<Rightarrow> int option \<Rightarrow> (int \<Rightarrow> string) \<Rightarrow> config \<times> bool \<Rightarrow> config \<times> bool" where
  "default_limit k quota f cf = (case quota of None \<Rightarrow> cf
     | Some q \<Rightarrow> if truthy (m_get (fst cf) k) then cf else (m_set (fst cf) k (f q), True))"

definition size_root :: "int option \<Rightarrow> devices \<times> bool \<Rightarrow> devices \<times> bool" where
  "size_root quota dc = (case (quota, rootOf (fst dc)) of
     (Some q, Some (k, v)) \<Rightarrow> if truthy (m_get v ''size'') then dc
       else (m_set (fst dc) k (m_set v ''size'' (show_int (min DEFAULT_DISK_GIB q) @ ''GiB'')), True)
   | _ \<Rightarrow> dc)"

text \<open>The profile the PUT writes; nothing when it is as it should be.\<close>

definition ensureDefaultProfile ::
  "profile result \<Rightarrow> devices result \<Rightarrow> string list result \<Rightarrow> network list result \<Rightarrow> quotas \<Rightarrow> profile option result" where
  "ensureDefaultProfile reading source pools networks q =
    then_do reading (\<lambda>p. then_do (fill_devices source pools networks (po_devices p)) (\<lambda>dc.
      let cf = default_limit ''limits.memory'' (q_memory q) (\<lambda>m. show_int (min DEFAULT_MEMORY_GIB m) @ ''GiB'')
                 (default_limit ''limits.cpu'' (q_cpu q) (\<lambda>n. show_int (min DEFAULT_CPU n)) (po_config p, False));
          dc' = size_root (q_disk q) dc
      in Inr (if snd cf \<or> snd dc'
        then Some \<lparr>po_config = fst cf, po_devices = fst dc', po_description = po_description p\<rparr> else None)))"

section \<open>The server's configuration\<close>

record cluster_oidc =
  co_issuer :: string
  co_clientId :: string
  co_audience :: string
  co_openfgaUrl :: string
  co_openfgaToken :: "string option"
  co_storeId :: string

definition clusterConfigFor :: "cluster_oidc \<Rightarrow> config" where
  "clusterConfigFor c = [
     (''oidc.issuer'', co_issuer c),
     (''oidc.client.id'', co_clientId c),
     (''oidc.audience'', co_audience c),
     (''oidc.claim'', ''sub''),
     (''authorization.openfga.api.url'', co_openfgaUrl c)]
     @ (if truthy (co_openfgaToken c) then [(''authorization.openfga.api.token'', the (co_openfgaToken c))] else [])
     @ [(''authorization.openfga.store.id'', co_storeId c),
        (''authorization.client.oidc'', ''openfga''),
        (''authorization.client.tls'', ''allow'')]"

text \<open>The names of the keys that differ, and the body of the PATCH when there are any.\<close>

definition ensureServerConfig :: "config \<Rightarrow> config \<Rightarrow> string list \<times> config option" where
  "ensureServerConfig current want =
    (let changed = filter (\<lambda>k. m_get current k \<noteq> m_get want k) (map fst want)
     in (changed, if changed = [] then None else Some (map (\<lambda>k. (k, the (m_get want k))) changed)))"

definition MANAGED_KEYS :: "string list" where
  "MANAGED_KEYS = map fst (clusterConfigFor \<lparr>co_issuer = [], co_clientId = [], co_audience = [], co_openfgaUrl = [],
     co_openfgaToken = Some ''x'', co_storeId = []\<rparr>)"

definition releaseServerConfig :: "config \<Rightarrow> config option" where
  "releaseServerConfig current =
    (let set' = filter (\<lambda>k. m_get current k \<noteq> None) MANAGED_KEYS
     in if set' = [] then None else Some (map (\<lambda>k. (k, [])) set'))"

section \<open>Facts about projects\<close>

lemma fold_put_if:
  "m_wf m \<Longrightarrow> m_get (fold (\<lambda>(k, v) p. if P k v then m_set p k v else p) m q) k
     = (case m_get m k of Some v \<Rightarrow> if P k v then Some v else m_get q k | None \<Rightarrow> m_get q k)"
proof (induction m arbitrary: q)
  case (Cons e m)
  obtain k' v' where e: "e = (k', v')" by (cases e)
  from Cons.prems have wf: "m_wf m" and out: "m_get m k' = None" by (auto simp: e m_wf_def m_get_None_iff)
  from Cons.IH[OF wf] out show ?case by (auto simp: e m_get_Cons split: option.splits)
qed simp

lemma fold_unset:
  "m_get (fold (\<lambda>k p. if P k then m_set p k [] else p) ks q) k = (if k \<in> set ks \<and> P k then Some [] else m_get q k)"
  by (induction ks arbitrary: q) auto

lemma m_get_apply_patch:
  "m_wf patch \<Longrightarrow> m_get (apply_patch patch c) k
     = (case m_get patch k of None \<Rightarrow> m_get c k | Some v \<Rightarrow> if v = [] then None else Some v)"
  unfolding apply_patch_def
proof (induction patch arbitrary: c)
  case (Cons e m)
  obtain k' v' where e: "e = (k', v')" by (cases e)
  from Cons.prems have wf: "m_wf m" and out: "m_get m k' = None" by (auto simp: e m_wf_def m_get_None_iff)
  from Cons.IH[OF wf] out show ?case by (auto simp: e m_get_Cons split: option.splits)
qed simp

lemma m_get_config_patch:
  "m_wf want \<Longrightarrow> m_get (config_patch want current) k =
     (if m_get current k \<noteq> None \<and> removable k \<and> m_get want k = None then Some []
      else case m_get want k of Some v \<Rightarrow> if UPDATABLE k \<and> m_get current k \<noteq> Some v then Some v else None | None \<Rightarrow> None)"
  unfolding config_patch_def
  by (auto simp: fold_unset fold_put_if[where P = "\<lambda>k v. UPDATABLE k \<and> m_get current k \<noteq> Some v"] jm.keys_get
    simp del: set_map split: option.splits)

lemma m_wf_config_patch: "m_wf (config_patch want current)"
proof -
  have inner: "m_wf (fold (\<lambda>(k, v) p. if UPDATABLE k \<and> m_get current k \<noteq> Some v then m_set p k v else p) es q)"
    if "m_wf q" for es q
    using that by (induction es arbitrary: q) (auto simp: jm.invar_put)
  have "m_wf (fold (\<lambda>k p. if removable k \<and> m_get want k = None then m_set p k [] else p) ks q)" if "m_wf q" for ks and q :: config
    using that by (induction ks arbitrary: q) (auto simp: jm.invar_put)
  with inner[OF jm.invar_empty] show ?thesis unfolding config_patch_def by blast
qed

lemma config_patch_Nil: "config_patch want current = [] \<longleftrightarrow> (\<forall>k. m_get (config_patch want current) k = None)"
  by (cases "config_patch want current") (auto simp: m_get_None_iff)

text \<open>The configuration a pass leaves: what is wanted, less the limits no quota asks for any more.\<close>

definition settled :: "config \<Rightarrow> config \<Rightarrow> string \<Rightarrow> string option" where
  "settled want current k =
    (if UPDATABLE k \<and> m_get want k \<noteq> None then m_get want k
     else if removable k \<and> m_get want k = None then None else m_get current k)"

definition config_after :: "project \<Rightarrow> project_change \<Rightarrow> config" where
  "config_after p c = (case c of Created p' \<Rightarrow> pr_config p' | Updated p' \<Rightarrow> pr_config p' | Unchanged \<Rightarrow> pr_config p)"

lemma patch_settles:
  assumes "m_wf want" and "\<And>k v. m_get want k = Some v \<Longrightarrow> v \<noteq> []"
  shows "m_get (apply_patch (config_patch want current) current) k = settled want current k"
  using assms(2)[of k]
  by (auto simp: m_get_apply_patch[OF m_wf_config_patch] m_get_config_patch[OF assms(1)] settled_def split: option.splits)

lemma settled_no_patch:
  assumes "m_wf want" and "\<And>k. m_get current k = settled want current k"
  shows "config_patch want current = []"
  unfolding config_patch_Nil m_get_config_patch[OF assms(1)]
proof
  fix k
  show "(if m_get current k \<noteq> None \<and> removable k \<and> m_get want k = None then Some []
      else case m_get want k of Some v \<Rightarrow> if UPDATABLE k \<and> m_get current k \<noteq> Some v then Some v else None | None \<Rightarrow> None) = None"
    using assms(2)[of k] by (auto simp: settled_def split: option.splits if_splits)
qed

lemma settled_settled: "m_get c' = settled want current \<Longrightarrow> settled want c' = settled want current"
  by (auto simp: settled_def fun_eq_iff)

lemma show_nat_nonempty: "show_nat n \<noteq> []"
  by (subst show_nat.simps) simp

lemma show_int_nonempty: "show_int i \<noteq> []"
  by (simp add: show_int_def show_nat_nonempty)

lemma limit_entries_mem: "e \<in> set (limit_entries l) \<Longrightarrow> \<exists>k n. e = (''limits.'' @ key_name k, show_int n)"
  by (auto simp: limit_entries_def split: option.splits)

lemma wf_limit_entries: "m_wf (limit_entries l)"
  by (auto simp: m_wf_def limit_entries_def KEYS_def split: option.splits)

lemma wf_projectConfig: "m_wf (projectConfigFor tid l)"
proof -
  have "fst ` set (limit_entries l) \<inter> set [''restricted'', ''restricted.backups'', ''restricted.containers.nesting'',
      ''restricted.cluster.target'', ''features.images'', ''features.profiles'', ''features.storage.volumes'',
      ''features.storage.buckets'', ''features.networks'', TENANT_KEY] = {}"
    using limit_entries_mem by (fastforce simp: TENANT_KEY_def)
  with wf_limit_entries[of l] show ?thesis
    unfolding m_wf_def projectConfigFor_def by (auto simp: TENANT_KEY_def)
qed

lemma wf_wanted: "m_wf (wanted_config tid l groups full)"
  by (simp add: wanted_config_def Let_def wf_projectConfig jm.invar_put)

lemma wanted_values:
  assumes "tid \<noteq> []" and "groups \<noteq> [[]]" and "m_get (wanted_config tid l groups full) k = Some v"
  shows "v \<noteq> []"
proof -
  have base: "v \<noteq> []" if "m_get (projectConfigFor tid l) k = Some v" for k v
  proof -
    have "(k, v) \<in> set (projectConfigFor tid l)" using that by (simp add: m_get_def map_of_SomeD)
    then show ?thesis
      using assms(1) limit_entries_mem[of "(k, v)" l] by (auto simp: projectConfigFor_def show_int_nonempty show_int_nonempty[THEN not_sym])
  qed
  have joined: "join_with '','' (sort groups) \<noteq> []" if "groups \<noteq> []"
  proof (cases "sort groups")
    case Nil
    with that show ?thesis by (metis length_0_conv length_sort)
  next
    case (Cons x xs)
    show ?thesis
    proof (cases xs)
      case Nil
      with Cons have "groups = [x]"
        by (metis length_Suc_conv length_0_conv length_sort list.set_intros(1) set_ConsD set_sort empty_iff empty_set)
      with assms(2) Cons Nil show ?thesis by auto
    qed (use Cons in simp)
  qed
  from assms(3) show ?thesis
    using base joined by (auto simp: wanted_config_def Let_def split: if_splits)
qed

lemma wanted_fixed:
  "m_get (wanted_config tid l groups full) ''restricted'' = Some ''true''"
  "m_get (wanted_config tid l groups full) TENANT_KEY = Some tid"
  by (simp_all add: wanted_config_def projectConfigFor_def Let_def TENANT_KEY_def m_get_Cons)

section \<open>Properties\<close>

definition web_facts :: grant_facts where
  "web_facts = \<lparr>gf_placements = [\<lparr>gp_tenantId = ''t1'', gp_project = ''web''\<rparr>],
     gf_members = [\<lparr>gm_tenantId = ''t1'', gm_subject = ''joe'', gm_role = ''viewer''\<rparr>],
     gf_platform = [], gf_acl = [\<lparr>ga_subject = ''ann'', ga_relation = ''user'', ga_object = ''instance:web/vm1''\<rparr>]\<rparr>"

text \<open>
  C26: The store a cluster should hold grants exactly what the facts call for: a subject holds a
  relation there just when it is a member, in a tenant role, of a tenant placed with that
  project, or has that platform role, or an explicit permission gives it that relation. That is
  so whatever the ids are, as long as SHA-256's digits tell the relations of the explicit
  permissions apart.
\<close>

theorem grants_exact:
  assumes "inj_on (acl_key hash) (acl_names (gf_acl f))"
  shows "granted (set (desiredGrants hash f)) u r ob \<longleftrightarrow>
     (\<exists>m\<in>set (gf_members f). \<exists>p\<in>set (gf_placements f). gm_subject m = u \<and> gm_tenantId m = gp_tenantId p
        \<and> gm_role m \<in> set TENANT_ROLES \<and> r = projectRelation (gm_role m) \<and> ob = ''project:'' @ gp_project p)
     \<or> (\<exists>p\<in>set (gf_platform f). gl_subject p = u \<and> serverRelation (gl_role p) \<noteq> [] \<and> r = serverRelation (gl_role p) \<and> ob = ''server:incus'')
     \<or> (\<exists>a\<in>set (gf_acl f). ga_subject a = u \<and> r = ga_relation a \<and> ob = ga_object a)"
    (is "?g \<longleftrightarrow> ?m \<or> ?p \<or> ?a")
proof
  assume ?g
  then obtain g where mem: "\<lparr>tu_user = ''user:'' @ u, tu_relation = ''member'', tu_object = ''group:'' @ g\<rparr> \<in> set (desiredGrants hash f)"
    and grp: "\<lparr>tu_user = ''group:'' @ g @ ''#member'', tu_relation = r, tu_object = ob\<rparr> \<in> set (desiredGrants hash f)"
    by (auto simp: granted_def)
  from mem[unfolded desired_member] show "?m \<or> ?p \<or> ?a"
  proof (elim disjE bexE conjE)
    fix m assume m: "m \<in> set (gf_members f)" "gm_subject m = u" "gm_role m \<in> set TENANT_ROLES" "g = tenant_group (gm_tenantId m) (gm_role m)"
    with grp[unfolded desired_group[OF assms]] have ?m by (auto simp: group_names)
    then show ?thesis ..
  next
    fix p assume p: "p \<in> set (gf_platform f)" "gl_subject p = u" "gl_role p \<in> set PLATFORM_ROLES" "g = platform_group (gl_role p)"
    with grp[unfolded desired_group[OF assms]] have "r = gl_role p" "ob = ''server:incus''" by (auto simp: group_names)
    with p have ?p by (auto simp: serverRelation_def PLATFORM_ROLES_def)
    then show ?thesis by blast
  next
    fix a assume a: "a \<in> set (gf_acl f)" "ga_subject a = u" "g = aclGroup hash (ga_relation a) (ga_object a)"
    with grp[unfolded desired_group[OF assms]] obtain b where b: "b \<in> set (gf_acl f)"
      "aclGroup hash (ga_relation a) (ga_object a) = aclGroup hash (ga_relation b) (ga_object b)" "r = ga_relation b" "ob = ga_object b"
      by (auto simp: group_names)
    with aclGroup_inj[OF assms a(1) b(1,2)] a show ?thesis by auto
  qed
next
  note granted = granted_def desired_member desired_group[OF assms]
  assume "?m \<or> ?p \<or> ?a"
  then consider (m) ?m | (p) ?p | (a) ?a by blast
  then show ?g
  proof cases
    case m
    then obtain m p where "m \<in> set (gf_members f)" "p \<in> set (gf_placements f)" "gm_subject m = u" "gm_tenantId m = gp_tenantId p"
      "gm_role m \<in> set TENANT_ROLES" "r = projectRelation (gm_role m)" "ob = ''project:'' @ gp_project p" by blast
    then show ?thesis unfolding granted
      by (intro exI[of _ "tenant_group (gm_tenantId m) (gm_role m)"] conjI disjI1) (blast, metis)
  next
    case p
    then obtain p where "p \<in> set (gf_platform f)" "gl_subject p = u" "gl_role p \<in> set PLATFORM_ROLES" "r = gl_role p"
      "ob = ''server:incus''" by (auto simp: serverRelation_def split: if_splits)
    then show ?thesis unfolding granted by (intro exI[of _ "platform_group r"] conjI disjI2[OF disjI1]) blast+
  next
    case a
    then obtain a where "a \<in> set (gf_acl f)" "ga_subject a = u" "r = ga_relation a" "ob = ga_object a" by blast
    then show ?thesis unfolding granted by (intro exI[of _ "aclGroup hash r ob"] conjI disjI2[OF disjI2]) blast+
  qed
qed

theorem grants_exact_witness:
  "inj_on (acl_key (\<lambda>s. s)) (acl_names (gf_acl web_facts))
   \<and> granted (set (desiredGrants (\<lambda>s. s) web_facts)) ''joe'' ''viewer'' ''project:web''
   \<and> \<not> granted (set (desiredGrants (\<lambda>s. s) web_facts)) ''joe'' ''user'' ''instance:web/vm1''"
proof -
  have i: "inj_on (acl_key (\<lambda>s. s)) (acl_names (gf_acl web_facts))" by (simp add: acl_names_def web_facts_def)
  show ?thesis
    using i grants_exact[OF i, of "''joe''" "''viewer''" "''project:web''"]
      grants_exact[OF i, of "''joe''" "''user''" "''instance:web/vm1''"]
    by (simp add: web_facts_def TENANT_ROLES_def PROJECT_RELATION_def projectRelation_def m_get_Cons)
qed

text \<open>
  C27: A pass over a cluster's store brings it to the desired grants and touches nothing else: once
  the writes are made and the deletes undone, the tuples that are IncusCloud's are exactly the
  desired ones, and every other tuple is where it was. A store that is there already is left
  alone. (No user or relation has a bar in its name, which separates the parts of a key.)
\<close>

theorem store_reaches_desired:
  assumes "\<forall>t\<in>set (desiredGrants hash f) \<union> set current. no_bar t"
  shows "let (writes, deletes) = diffTuples (desiredGrants hash f) current; after = set current - set deletes \<union> set writes in
     {t \<in> after. isManaged t} = set (desiredGrants hash f)
     \<and> {t \<in> after. \<not> isManaged t} = {t \<in> set current. \<not> isManaged t}
     \<and> ({t \<in> set current. isManaged t} = set (desiredGrants hash f) \<longrightarrow> writes = [] \<and> deletes = [])"
proof -
  obtain w d where wd: "diffTuples (desiredGrants hash f) current = (w, d)" by fastforce
  with diff_sets[OF assms] have sets: "set w = set (desiredGrants hash f) - set current"
    "set d = {t \<in> set current - set (desiredGrants hash f). isManaged t}" by simp_all
  have "w = [] \<and> d = []" if same: "{t \<in> set current. isManaged t} = set (desiredGrants hash f)"
  proof -
    have "set w = {}" "set d = {}" using sets same by auto
    then show ?thesis by simp
  qed
  then show ?thesis unfolding wd Let_def prod.case sets using desired_managed by auto
qed

definition bob_tuple :: tuple where
  "bob_tuple = \<lparr>tu_user = ''user:bob'', tu_relation = ''viewer'', tu_object = ''project:web''\<rparr>"

theorem store_reaches_desired_witness:
  "let (writes, deletes) = diffTuples (desiredGrants (\<lambda>s. ''0'') web_facts) [bob_tuple]; after = set [bob_tuple] - set deletes \<union> set writes
   in {t \<in> after. isManaged t} = set (desiredGrants (\<lambda>s. ''0'') web_facts) \<and> bob_tuple \<in> after"
proof -
  have n: "\<forall>t\<in>set (desiredGrants (\<lambda>s. ''0'') web_facts) \<union> set [bob_tuple]. no_bar t"
    by (simp add: desiredGrants_def placement_tuples_def member_tuples_def platform_tuples_def web_facts_def TENANT_ROLES_def
      PROJECT_RELATION_def projectRelation_def PLATFORM_ROLES_def m_get_Cons no_bar_def tenant_group_def platform_group_def
      aclGroup_def PREFIX_def Let_def bob_tuple_def)
  have "\<not> isManaged bob_tuple" by (simp add: isManaged_def bob_tuple_def)
  with store_reaches_desired[OF n] show ?thesis by (auto simp: Let_def split: prod.splits)
qed

text \<open>
  Bringing a tenant's project in line. On a project that is the tenant's, every restriction, limit and
  the tenant's mark end as wanted, limits and cluster groups no longer wanted are gone, all
  other keys are as they were; the project stays restricted and the tenant's, and a second
  pass finds nothing to do. A project of another tenant's is refused untouched.
\<close>

theorem project_in_line:
  assumes "tid \<noteq> []" and "groups \<noteq> [[]]"
  shows "if m_get (pr_config p) TENANT_KEY = Some tid
    then \<exists>c. ensureProject (Inr (Some p)) name tid slug l groups full = Inr c
      \<and> (\<forall>k. m_get (config_after p c) k = settled (wanted_config tid l groups full) (pr_config p) k)
      \<and> m_get (config_after p c) ''restricted'' = Some ''true'' \<and> m_get (config_after p c) TENANT_KEY = Some tid
      \<and> ensureProject (Inr (Some (p\<lparr>pr_config := config_after p c\<rparr>))) name tid slug l groups full = Inr Unchanged
    else \<exists>msg. ensureProject (Inr (Some p)) name tid slug l groups full = Inl (ApiError 409 ''project_exists'' msg)"
proof (cases "m_get (pr_config p) TENANT_KEY = Some tid")
  case True
  let ?want = "wanted_config tid l groups full"
  let ?patch = "config_patch ?want (pr_config p)"
  let ?c = "if ?patch = [] then Unchanged
    else Updated \<lparr>pr_config = apply_patch ?patch (pr_config p), pr_description = pr_description p\<rparr>"
  have run: "ensureProject (Inr (Some p)) name tid slug l groups full = Inr ?c"
    using True by (simp add: ensureProject_def Let_def)
  have after: "config_after p ?c = apply_patch ?patch (pr_config p)"
    by (simp add: config_after_def apply_patch_def)
  have set': "m_get (config_after p ?c) k = settled ?want (pr_config p) k" for k
    unfolding after by (rule patch_settles[OF wf_wanted wanted_values[OF assms]])
  then have fixed: "m_get (config_after p ?c) ''restricted'' = Some ''true''" "m_get (config_after p ?c) TENANT_KEY = Some tid"
    by (simp_all add: settled_def wanted_fixed UPDATABLE_def)
  have "m_get (config_after p ?c) = settled ?want (pr_config p)" using set' by blast
  from settled_settled[OF this] set' have "config_patch ?want (config_after p ?c) = []"
    by (intro settled_no_patch[OF wf_wanted]) simp
  with fixed(2) have "ensureProject (Inr (Some (p\<lparr>pr_config := config_after p ?c\<rparr>))) name tid slug l groups full = Inr Unchanged"
    by (simp add: ensureProject_def Let_def)
  with run set' fixed True show ?thesis by metis
qed (simp add: ensureProject_def Let_def)

theorem project_in_line_witness:
  "m_get (pr_config \<lparr>pr_config = [(TENANT_KEY, ''t1'')], pr_description = []\<rparr>) TENANT_KEY = Some ''t1''
   \<and> (\<exists>c. ensureProject (Inr (Some \<lparr>pr_config = [(TENANT_KEY, ''t1'')], pr_description = []\<rparr>)) ''web'' ''t1'' ''web'' (quotaBytes two_cpus) [] False = Inr c)"
  using project_in_line[of "''t1''" "[]" "\<lparr>pr_config = [(TENANT_KEY, ''t1'')], pr_description = []\<rparr>" "''web''" "''web''" "quotaBytes two_cpus" False]
  by (auto simp: m_get_Cons)

end
