(* ===== verification/Throttle.thy ===== *)
theory Throttle
  imports Js_Data
begin

text \<open>
  \<^verbatim>\<open>identity/throttle.ts\<close>: failed sign-ins counted per key (an email, a client's address) in a
  sliding window. The state is the \<open>Map\<close> of hits in insertion order; the clock is an argument
  \<open>now\<close>, the same throughout one call. The map is used through the interface \<open>ordered_map\<close>.
\<close>

record throttle_opts =
  th_limit :: nat
  th_windowMs :: int
  th_maxKeys :: nat

type_synonym hits = "(string, int list) jsmap"

definition recent_hits :: "throttle_opts \<Rightarrow> int \<Rightarrow> hits \<Rightarrow> string \<Rightarrow> int list" where
  "recent_hits o' now h k = filter (\<lambda>t. t > now - th_windowMs o') (m_list h k)"

definition recent :: "throttle_opts \<Rightarrow> int \<Rightarrow> string \<Rightarrow> hits \<Rightarrow> int list \<times> hits" where
  "recent o' now k h =
    (let kept = recent_hits o' now h k in (kept, if kept \<noteq> [] then m_set h k kept else m_del h k))"

text \<open>\<open>Math.ceil(x / 1000)\<close>.\<close>

definition seconds :: "int \<Rightarrow> int" where
  "seconds ms = \<lceil>of_int ms / (1000 :: rat)\<rceil>"

definition wait_of :: "throttle_opts \<Rightarrow> int \<Rightarrow> int list \<Rightarrow> int \<Rightarrow> int" where
  "wait_of o' now r wait =
    (if length r \<ge> th_limit o' then max wait (seconds (r ! (length r - th_limit o') + th_windowMs o' - now)) else wait)"

definition retryAfterS :: "throttle_opts \<Rightarrow> int \<Rightarrow> string list \<Rightarrow> hits \<Rightarrow> int \<times> hits" where
  "retryAfterS o' now keys h =
     fold (\<lambda>k (wait, h). let (r, h') = recent o' now k h in (wait_of o' now r wait, h')) keys (0, h)"

definition fail_one :: "throttle_opts \<Rightarrow> int \<Rightarrow> string \<Rightarrow> hits \<Rightarrow> hits" where
  "fail_one o' now k h =
    (let h1 = (if m_get h k = None \<and> length h \<ge> th_maxKeys o' \<and> h \<noteq> [] then m_del h (fst (hd h)) else h);
         (r, h2) = recent o' now k h1
     in m_set h2 k (r @ [now]))"

definition fail :: "throttle_opts \<Rightarrow> int \<Rightarrow> string list \<Rightarrow> hits \<Rightarrow> hits" where
  "fail o' now keys h = fold (fail_one o' now) keys h"

definition clear :: "string list \<Rightarrow> hits \<Rightarrow> hits" where
  "clear keys h = fold (\<lambda>k h. m_del h k) keys h"

text \<open>One call of the class.\<close>

datatype throttle_call = Fail "string list" | Retry "string list" | Clear "string list"

fun throttle_step :: "throttle_opts \<Rightarrow> int \<times> throttle_call \<Rightarrow> hits \<Rightarrow> hits" where
  "throttle_step o' (now, Fail ks) h = fail o' now ks h"
| "throttle_step o' (now, Retry ks) h = snd (retryAfterS o' now ks h)"
| "throttle_step o' (now, Clear ks) h = clear ks h"

section \<open>Facts\<close>

lemma recent_simps [simp]:
  "fst (recent o' now k h) = recent_hits o' now h k"
  "m_list (snd (recent o' now k h)) k' = (if k' = k then recent_hits o' now h k else m_list h k')"
  by (auto simp: recent_def Let_def m_list_def)

lemma size_m_set: "length (m_set h k v) = length h + (if m_get h k = None then 1 else 0)"
  using jm.size_put[of h k v] by simp

lemma size_m_del: "m_wf h \<Longrightarrow> length (m_del h k) = length h - (if m_get h k = None then 0 else 1)"
  using jm.size_del[of h k] by simp

lemma size_m_del_le: "length (m_del h k) \<le> length h"
  by (simp add: m_del_def)

lemma m_get_hd: "h \<noteq> [] \<Longrightarrow> m_get h (fst (hd h)) \<noteq> None"
  by (cases h) (auto simp: m_get_def)

lemma recent_kept: "recent_hits o' now h k \<noteq> [] \<Longrightarrow> m_get h k \<noteq> None"
  by (auto simp: recent_hits_def m_list_def split: option.splits)

text \<open>What holds of the map between calls: keys once, never more than allowed, times in order and past.\<close>

definition throttle_inv :: "throttle_opts \<Rightarrow> int \<Rightarrow> hits \<Rightarrow> bool" where
  "throttle_inv o' now h \<longleftrightarrow> m_wf h \<and> length h \<le> th_maxKeys o' \<and>
     (\<forall>k. sorted (m_list h k) \<and> (\<forall>t\<in>set (m_list h k). t \<le> now))"

lemma inv_later: "throttle_inv o' now h \<Longrightarrow> now \<le> now' \<Longrightarrow> throttle_inv o' now' h"
  by (force simp: throttle_inv_def)

lemma recent_hits_ordered:
  "throttle_inv o' now h \<Longrightarrow> sorted (recent_hits o' now' h k) \<and> (\<forall>t\<in>set (recent_hits o' now' h k). t \<le> now)"
  by (auto simp: throttle_inv_def recent_hits_def sorted_wrt_filter)

lemma inv_recent:
  assumes "throttle_inv o' now h"
  shows "throttle_inv o' now (snd (recent o' now' k h))"
proof -
  have "m_wf (snd (recent o' now' k h)) \<and> length (snd (recent o' now' k h)) \<le> length h"
    using assms recent_kept[of o' now' h k] size_m_del_le[of h k]
    by (cases "recent_hits o' now' h k = []")
      (auto simp: recent_def Let_def throttle_inv_def jm.invar_put jm.invar_del size_m_set)
  with assms recent_hits_ordered[OF assms, of now' k] show ?thesis by (auto simp: throttle_inv_def)
qed

lemma inv_clear: "throttle_inv o' now h \<Longrightarrow> throttle_inv o' now (clear ks h)"
  unfolding clear_def
proof (induction ks arbitrary: h)
  case (Cons k ks)
  have "length (m_del h k) \<le> length h" by (rule size_m_del_le)
  with Cons.prems have "throttle_inv o' now (m_del h k)"
    by (auto simp: throttle_inv_def jm.invar_del m_list_def)
  with Cons.IH show ?case by simp
qed simp

lemma inv_fail_one:
  assumes inv: "throttle_inv o' now h" and "th_maxKeys o' > 0"
  shows "throttle_inv o' now (fail_one o' now k h)"
proof -
  define h1 where "h1 = (if m_get h k = None \<and> length h \<ge> th_maxKeys o' \<and> h \<noteq> [] then m_del h (fst (hd h)) else h)"
  have inv1: "throttle_inv o' now h1"
    using inv_clear[OF inv, of "[fst (hd h)]"] inv by (simp add: h1_def clear_def)
  have room: "m_get h1 k = None \<Longrightarrow> length h1 < th_maxKeys o'"
    using inv assms(2) m_get_hd[of h] by (auto simp: h1_def throttle_inv_def size_m_del not_less_eq_eq split: if_splits)
  let ?h2 = "snd (recent o' now k h1)"
  have "length (m_set ?h2 k v) \<le> th_maxKeys o'" for v
  proof (cases "recent_hits o' now h1 k = []")
    case True
    have "m_wf h1" using inv1 by (simp add: throttle_inv_def)
    moreover have "length h1 - 1 < th_maxKeys o'" using inv1 assms(2) by (auto simp: throttle_inv_def)
    ultimately show ?thesis
      using True room by (cases "m_get h1 k") (auto simp: recent_def Let_def size_m_set size_m_del)
  next
    case False
    with recent_kept[OF False] inv1 show ?thesis by (auto simp: recent_def Let_def size_m_set throttle_inv_def)
  qed
  moreover note inv_recent[OF inv1, of now k] recent_hits_ordered[OF inv1, of now k]
  moreover have "fail_one o' now k h = m_set ?h2 k (recent_hits o' now h1 k @ [now])"
    by (simp add: fail_one_def Let_def h1_def recent_def)
  ultimately show ?thesis
    by (auto simp: throttle_inv_def jm.invar_put m_list_def sorted_append split: if_splits)
qed

lemma retry_fold:
  "fold (\<lambda>k (wait, h). let (r, h') = recent o' now k h in (wait_of o' now r wait, h')) keys (w, h)
     = (fold (\<lambda>k. wait_of o' now (recent_hits o' now h k)) keys w, fold (\<lambda>k h. snd (recent o' now k h)) keys h)"
proof (induction keys arbitrary: w h)
  case (Cons k keys)
  have same: "recent_hits o' now (snd (recent o' now k h)) k' = recent_hits o' now h k'" for k'
    by (simp add: recent_hits_def)
  show ?case using Cons[of "wait_of o' now (recent_hits o' now h k) w" "snd (recent o' now k h)"]
    by (simp add: same case_prod_beta Let_def)
qed simp

lemma inv_step:
  assumes "throttle_inv o' now h" and "th_maxKeys o' > 0"
  shows "throttle_inv o' now (throttle_step o' (now, c) h)"
proof (cases c)
  case (Fail ks)
  have "throttle_inv o' now (fold (fail_one o' now) ks h)"
    using assms by (induction ks arbitrary: h) (simp_all add: inv_fail_one)
  with Fail show ?thesis by (simp add: fail_def)
next
  case (Retry ks)
  have "throttle_inv o' now (fold (\<lambda>k h. snd (recent o' now k h)) ks h)"
    using assms(1) by (induction ks arbitrary: h) (simp_all add: inv_recent)
  with Retry show ?thesis by (simp only: throttle_step.simps retryAfterS_def retry_fold snd_conv)
qed (use assms in \<open>simp add: inv_clear\<close>)

lemma seconds_covers: "ms \<le> 1000 * seconds ms"
proof -
  have "(of_int ms :: rat) / 1000 \<le> of_int (seconds ms)" unfolding seconds_def by (rule le_of_int_ceiling)
  then have "(of_int ms :: rat) \<le> of_int (1000 * seconds ms)" by simp
  then show ?thesis by (simp only: of_int_le_iff)
qed

lemma seconds_pos: "0 < ms \<Longrightarrow> 0 < seconds ms"
  using seconds_covers[of ms] by linarith

lemma seconds_mono: "a \<le> b \<Longrightarrow> seconds a \<le> seconds b"
  unfolding seconds_def by (rule ceiling_mono) (simp add: divide_right_mono)

definition blocked :: "throttle_opts \<Rightarrow> int \<Rightarrow> hits \<Rightarrow> string \<Rightarrow> bool" where
  "blocked o' now h k \<longleftrightarrow> th_limit o' \<le> length (recent_hits o' now h k)"

definition own_wait :: "throttle_opts \<Rightarrow> int \<Rightarrow> hits \<Rightarrow> string \<Rightarrow> int" where
  "own_wait o' now h k = (let r = recent_hits o' now h k in seconds (r ! (length r - th_limit o') + th_windowMs o' - now))"

lemma fst_retry: "fst (retryAfterS o' now keys h) = fold (\<lambda>k w. if blocked o' now h k then max w (own_wait o' now h k) else w) keys 0"
  unfolding retryAfterS_def retry_fold fst_conv
  by (rule fold_cong) (simp_all add: wait_of_def blocked_def own_wait_def Let_def fun_eq_iff)

lemma fold_max_if:
  fixes f :: "'a \<Rightarrow> int"
  shows "fold (\<lambda>k w. if P k then max w (f k) else w) ks w \<le> b \<longleftrightarrow> w \<le> b \<and> (\<forall>k\<in>set ks. P k \<longrightarrow> f k \<le> b)"
  by (induction ks arbitrary: w) auto

lemma retry_le: "fst (retryAfterS o' now keys h) \<le> b \<longleftrightarrow> 0 \<le> b \<and> (\<forall>k\<in>set keys. blocked o' now h k \<longrightarrow> own_wait o' now h k \<le> b)"
  unfolding fst_retry by (rule fold_max_if)

lemma retry_nonneg: "0 \<le> fst (retryAfterS o' now keys h)"
  using retry_le[of o' now keys h "fst (retryAfterS o' now keys h)"] by simp

lemma own_wait_hit:
  assumes "th_limit o' > 0" and "blocked o' now h k"
  obtains t where "t \<in> set (recent_hits o' now h k)" and "own_wait o' now h k = seconds (t + th_windowMs o' - now)"
  using assms that[of "recent_hits o' now h k ! (length (recent_hits o' now h k) - th_limit o')"]
  by (auto simp: own_wait_def blocked_def Let_def)

lemma sorted_drop_old:
  fixes r :: "int list"
  assumes "sorted r" and "i < length r" and "r ! i \<le> c"
  shows "length (filter (\<lambda>t. t > c) r) \<le> length r - Suc i"
proof -
  have "\<forall>t\<in>set (take (Suc i) r). \<not> t > c"
  proof
    fix t assume "t \<in> set (take (Suc i) r)"
    then obtain j where "j \<le> i" "t = r ! j" using assms(2) by (auto simp: in_set_conv_nth less_Suc_eq_le)
    with assms show "\<not> t > c" using sorted_nth_mono[of r j i] by auto
  qed
  then have "filter (\<lambda>t. t > c) (take (Suc i) r) = []" by (simp add: filter_empty_conv)
  moreover have "filter (\<lambda>t. t > c) r = filter (\<lambda>t. t > c) (take (Suc i) r) @ filter (\<lambda>t. t > c) (drop (Suc i) r)"
    by (metis append_take_drop_id filter_append)
  ultimately show ?thesis by (metis append_Nil length_drop length_filter_le)
qed

lemma recent_after:
  assumes "now \<le> now'"
  shows "recent_hits o' now' (snd (retryAfterS o' now keys h)) k = recent_hits o' now' h k"
proof -
  have "recent_hits o' now' (fold (\<lambda>k h. snd (recent o' now k h)) keys h) k = recent_hits o' now' h k"
  proof (induction keys arbitrary: h)
    case (Cons x keys)
    have "filter (\<lambda>t. now' - th_windowMs o' < t) (recent_hits o' now h x) = recent_hits o' now' h x"
      using assms unfolding recent_hits_def filter_filter by (intro filter_cong refl) auto
    then have "recent_hits o' now' (snd (recent o' now x h)) k = recent_hits o' now' h k"
      by (simp add: recent_hits_def)
    with Cons show ?case by simp
  qed simp
  then show ?thesis by (simp only: retryAfterS_def retry_fold snd_conv)
qed

section \<open>Properties\<close>

text \<open>
  The throttle's memory is bounded and its record in order, whatever is called on it and in
  whatever order: after any sequence of calls under a clock that does not go back, no more than
  \<open>maxKeys\<close> keys are kept, each once, with its hits in order of time and none in the future.
\<close>

theorem throttle_bounded:
  assumes "th_maxKeys o' > 0" and "sorted (map fst calls)" and "\<forall>c\<in>set calls. fst c \<le> now"
  shows "throttle_inv o' now (fold (throttle_step o') calls [])"
proof -
  have run: "throttle_inv o' now (fold (throttle_step o') calls h)"
    if "throttle_inv o' t h" "\<forall>c\<in>set calls. t \<le> fst c" "t \<le> now" for t h
    using that assms(2,3)
  proof (induction calls arbitrary: t h)
    case (Cons c calls)
    then have "throttle_inv o' (fst c) (throttle_step o' (fst c, snd c) h)"
      by (intro inv_step[OF inv_later assms(1)]) auto
    with Cons show ?case by (auto intro!: Cons.IH[of "fst c"])
  qed (simp add: inv_later)
  have empty: "throttle_inv o' t []" for t by (simp add: throttle_inv_def m_wf_def)
  show ?thesis
  proof (cases calls)
    case (Cons c cs)
    with assms(2,3) show ?thesis by (intro run[OF empty, of "fst c"]) auto
  qed (use empty in simp)
qed

definition three_tries :: throttle_opts where
  "three_tries = \<lparr>th_limit = 3, th_windowMs = 60000, th_maxKeys = 2\<rparr>"

theorem throttle_bounded_witness:
  "throttle_inv three_tries 9 (fold (throttle_step three_tries) [(1, Fail [''a'', ''b'']), (2, Fail [''c'']), (9, Retry [''a''])] [])"
  by (rule throttle_bounded) (simp_all add: three_tries_def)

text \<open>
  What \<open>retryAfterS\<close> answers. It is 0 exactly when none of the keys has had the limit's number of failures
  within the window; it is never more than the window; and it is enough: once that many
  seconds have passed without another failure, none of the keys is blocked.
\<close>

theorem retry_exact:
  assumes "throttle_inv o' now h" and "th_limit o' > 0"
  shows "(fst (retryAfterS o' now keys h) = 0 \<longleftrightarrow> (\<forall>k\<in>set keys. length (recent_hits o' now h k) < th_limit o'))
    \<and> fst (retryAfterS o' now keys h) \<le> max 0 (seconds (th_windowMs o'))
    \<and> fst (retryAfterS o' (now + 1000 * fst (retryAfterS o' now keys h)) keys (snd (retryAfterS o' now keys h))) = 0"
proof -
  note hits = recent_hits_ordered[OF assms(1), of now]
  let ?w = "fst (retryAfterS o' now keys h)"
  have wait: "0 < own_wait o' now h k \<and> own_wait o' now h k \<le> seconds (th_windowMs o')" if b: "blocked o' now h k" for k
  proof -
    obtain t where t: "t \<in> set (recent_hits o' now h k)" "own_wait o' now h k = seconds (t + th_windowMs o' - now)"
      using own_wait_hit[OF assms(2) b] by blast
    have "0 < t + th_windowMs o' - now" "t \<le> now" using t(1) hits[of k] by (auto simp: recent_hits_def)
    then show ?thesis using t(2) seconds_pos seconds_mono by auto
  qed
  have "?w = 0 \<longleftrightarrow> ?w \<le> 0" using retry_nonneg[of o' now keys h] by linarith
  also have "\<dots> \<longleftrightarrow> (\<forall>k\<in>set keys. \<not> blocked o' now h k)" unfolding retry_le using wait by fastforce
  finally have zero: "?w = 0 \<longleftrightarrow> (\<forall>k\<in>set keys. length (recent_hits o' now h k) < th_limit o')" by (simp add: blocked_def not_le)
  have bound: "?w \<le> max 0 (seconds (th_windowMs o'))" unfolding retry_le using wait by (auto simp: le_max_iff_disj)
  let ?later = "now + 1000 * ?w"
  have later: "now \<le> ?later" using retry_nonneg[of o' now keys h] by simp
  have "\<not> blocked o' ?later h k" if "k \<in> set keys" for k
  proof -
    let ?r = "recent_hits o' now h k"
    have again: "recent_hits o' ?later h k = filter (\<lambda>t. t > ?later - th_windowMs o') ?r"
      using later unfolding recent_hits_def filter_filter by (intro filter_cong refl) auto
    show ?thesis
    proof (cases "blocked o' now h k")
      case True
      let ?i = "length ?r - th_limit o'"
      have "own_wait o' now h k \<le> ?w" using retry_le[of o' now keys h ?w] True that by simp
      with seconds_covers[of "?r ! ?i + th_windowMs o' - now"] have "?r ! ?i \<le> ?later - th_windowMs o'"
        by (simp add: own_wait_def Let_def)
      moreover have "?i < length ?r" using True assms(2) by (auto simp: blocked_def)
      ultimately have "length (recent_hits o' ?later h k) \<le> length ?r - Suc ?i"
        unfolding again using hits[of k] by (intro sorted_drop_old) auto
      with True assms(2) show ?thesis by (auto simp: blocked_def)
    next
      case False
      then show ?thesis unfolding blocked_def again by (metis le_trans length_filter_le)
    qed
  qed
  then have "\<not> blocked o' ?later (snd (retryAfterS o' now keys h)) k" if "k \<in> set keys" for k
    using that by (simp add: blocked_def recent_after[OF later])
  then have "fst (retryAfterS o' ?later keys (snd (retryAfterS o' now keys h))) \<le> 0" unfolding retry_le by simp
  with zero bound retry_nonneg show ?thesis by (meson antisym)
qed

theorem retry_exact_witness:
  "throttle_inv three_tries 5 [(''a'', [1, 2, 5])]
   \<and> fst (retryAfterS three_tries (5 + 1000 * fst (retryAfterS three_tries 5 [''a''] [(''a'', [1, 2, 5])])) [''a'']
        (snd (retryAfterS three_tries 5 [''a''] [(''a'', [1, 2, 5])]))) = 0"
proof -
  have i: "throttle_inv three_tries 5 [(''a'', [1, 2, 5])]"
    by (auto simp: throttle_inv_def three_tries_def m_wf_def m_list_def m_get_def)
  show ?thesis using i retry_exact[OF i, of "[''a'']"] by (simp add: three_tries_def)
qed

end
