(* ===== verification/Engine.thy ===== *)
theory Engine
  imports Db "HOL-Library.Char_ord" "HOL-Library.List_Lexorder"
begin

text \<open>
  \<^verbatim>\<open>balancing/engine.ts\<close>: the planner that balances one cluster's members. Its working state is the
  record \<open>plan_state\<close> (the class \<open>State\<close> with its two maps, and the variables of \<open>plan\<close>); every
  phase is a fold over the guests or groups in the source's order, and the last one, an endless
  loop in the source, takes fuel. Loads and percentages are exact rationals; \<open>lc\<close> stands for
  \<open>localeCompare\<close>. Trying a move and moving back is trying it on a copy of the state.
\<close>

section \<open>The planner's input\<close>

datatype meth = Memory | Cpu | Disk
datatype mode = Used | Assigned

record resources =
  rs_memory :: rat
  rs_cpu :: rat
  rs_disk :: rat

fun rs_at :: "resources \<Rightarrow> meth \<Rightarrow> rat" where
  "rs_at x Memory = rs_memory x"
| "rs_at x Cpu = rs_cpu x"
| "rs_at x Disk = rs_disk x"

definition rs_of :: "(meth \<Rightarrow> rat) \<Rightarrow> resources" where
  "rs_of f = \<lparr>rs_memory = f Memory, rs_cpu = f Cpu, rs_disk = f Disk\<rparr>"

lemma rs_at_of [simp]: "rs_at (rs_of f) r = f r"
  by (cases r) (simp_all add: rs_of_def)

declare rs_at.simps [simp del]

record member =
  mb_name :: string
  mb_maintenance :: bool
  mb_total :: resources
  mb_used :: resources

text \<open>The members a hint pins to (none: it does not), and whether it lets the guest be moved.\<close>

definition pins :: "hints \<Rightarrow> string list" where
  "pins h = (case h_pin h of None \<Rightarrow> [] | Some p \<Rightarrow> p)"

definition may_balance :: "hints \<Rightarrow> bool" where
  "may_balance h \<longleftrightarrow> h_balance h \<noteq> Some False"

record guest =
  gu_project :: string
  gu_name :: string
  gu_member :: string
  gu_type :: string
  gu_running :: bool
  gu_movable :: bool
  gu_used :: resources
  gu_assigned :: resources
  gu_hints :: hints

record plan_input =
  pi_members :: "member list"
  pi_guests :: "guest list"
  pi_method :: meth
  pi_mode :: mode
  pi_balanciness :: rat
  pi_maxMoves :: int

datatype move_reason = Pin | AntiAffinity | Affinity | Balance

record move =
  mv_project :: string
  mv_name :: string
  mv_from :: string
  mv_to :: string
  mv_reason :: move_reason

record plan =
  pn_before :: rat
  pn_after :: rat
  pn_moves :: "move list"
  pn_notes :: "string list"

definition gkey :: "guest \<Rightarrow> string" where
  "gkey g = gu_project g @ ''/'' @ gu_name g"

section \<open>The working state\<close>

record state =
  st_members :: "member list"
  st_guests :: "guest list"
  st_mode :: mode
  st_load :: "(string, resources) jsmap"
  st_where :: "(string, string) jsmap"

definition add_load :: "string \<Rightarrow> (meth \<Rightarrow> rat) \<Rightarrow> (string, resources) jsmap \<Rightarrow> (string, resources) jsmap" where
  "add_load m amount load = (case m_get load m of None \<Rightarrow> load | Some l \<Rightarrow> m_set load m (rs_of (\<lambda>r. rs_at l r + amount r)))"

definition new_state :: "member list \<Rightarrow> guest list \<Rightarrow> mode \<Rightarrow> state" where
  "new_state ms gs mode = \<lparr>st_members = ms, st_guests = gs, st_mode = mode,
     st_load = fold (\<lambda>g l. if mode = Assigned then add_load (gu_member g) (rs_at (gu_assigned g)) l else l) gs
       (fold (\<lambda>m l. m_set l (mb_name m) (if mode = Used then mb_used m else rs_of (\<lambda>_. 0))) ms []),
     st_where = fold (\<lambda>g w. m_set w (gkey g) (gu_member g)) gs []\<rparr>"

definition size_of :: "state \<Rightarrow> guest \<Rightarrow> meth \<Rightarrow> rat" where
  "size_of s g r = (if st_mode s = Used then rs_at (gu_used g) r else rs_at (gu_assigned g) r)"

definition member_of :: "member list \<Rightarrow> string \<Rightarrow> member option" where
  "member_of ms n = find (\<lambda>m. mb_name m = n) ms"

definition load_of :: "state \<Rightarrow> string \<Rightarrow> meth \<Rightarrow> rat" where
  "load_of s m = (case m_get (st_load s) m of None \<Rightarrow> (\<lambda>_. 0) | Some l \<Rightarrow> rs_at l)"

definition total_of :: "member list \<Rightarrow> string \<Rightarrow> meth \<Rightarrow> rat" where
  "total_of ms m = (case member_of ms m of None \<Rightarrow> (\<lambda>_. 0) | Some x \<Rightarrow> rs_at (mb_total x))"

definition percent :: "state \<Rightarrow> string \<Rightarrow> meth \<Rightarrow> rat" where
  "percent s m r = (if total_of (st_members s) m r > 0 then load_of s m r / total_of (st_members s) m r * 100 else 0)"

definition active :: "member list \<Rightarrow> member list" where
  "active ms = filter (\<lambda>m. \<not> mb_maintenance m) ms"

definition state_spread :: "state \<Rightarrow> meth \<Rightarrow> rat" where
  "state_spread s r =
    (let p = map (\<lambda>m. percent s (mb_name m) r) (active (st_members s))
     in if p \<noteq> [] then Max (set p) - Min (set p) else 0)"

definition where_is :: "state \<Rightarrow> guest \<Rightarrow> string" where
  "where_is s g = (case m_get (st_where s) (gkey g) of None \<Rightarrow> [] | Some m \<Rightarrow> m)"

definition move_guest :: "guest \<Rightarrow> string \<Rightarrow> state \<Rightarrow> state" where
  "move_guest g to s = s\<lparr>
     st_load := add_load to (size_of s g) (add_load (where_is s g) (\<lambda>r. - size_of s g r) (st_load s)),
     st_where := m_set (st_where s) (gkey g) to\<rparr>"

definition fits :: "state \<Rightarrow> guest list \<Rightarrow> string \<Rightarrow> meth \<Rightarrow> bool" where
  "fits s unit to r \<longleftrightarrow> load_of s to r + sum_list (map (\<lambda>g. size_of s g r) unit) \<le> total_of (st_members s) to r"

definition antiConflict :: "state \<Rightarrow> guest \<Rightarrow> string \<Rightarrow> string set \<Rightarrow> bool" where
  "antiConflict s g m ignore \<longleftrightarrow> truthy (h_antiAffinity (gu_hints g)) \<and>
     list_ex (\<lambda>x. x \<noteq> g \<and> gkey x \<notin> ignore \<and> gu_project x = gu_project g
       \<and> h_antiAffinity (gu_hints x) = h_antiAffinity (gu_hints g) \<and> where_is s x = m) (st_guests s)"

definition spread :: "member list \<Rightarrow> guest list \<Rightarrow> meth \<Rightarrow> mode \<Rightarrow> rat" where
  "spread ms gs r mode = state_spread (new_state ms gs mode) r"

section \<open>The steps of a plan\<close>

record plan_state =
  ps_state :: state
  ps_moves :: "move list"
  ps_notes :: "string list"
  ps_moved :: "string set"
  ps_capped :: bool

definition activeNames :: "plan_input \<Rightarrow> string list" where
  "activeNames inp = map mb_name (active (pi_members inp))"

definition allowed :: "plan_input \<Rightarrow> plan_state \<Rightarrow> guest \<Rightarrow> string list" where
  "allowed inp ps g =
    (if \<not> gu_movable g \<or> \<not> may_balance (gu_hints g) \<or> gkey g \<in> ps_moved ps then []
     else let here = where_is (ps_state ps) g in
       if (case member_of (pi_members inp) here of Some m \<Rightarrow> mb_maintenance m | None \<Rightarrow> False) then []
       else filter (\<lambda>m. m \<noteq> here \<and> (pins (gu_hints g) = [] \<or> m \<in> set (pins (gu_hints g)))) (activeNames inp))"

definition add_note :: "string \<Rightarrow> plan_state \<Rightarrow> plan_state" where
  "add_note n ps = ps\<lparr>ps_notes := ps_notes ps @ [n]\<rparr>"

definition do_move :: "guest \<Rightarrow> string \<Rightarrow> move_reason \<Rightarrow> plan_state \<Rightarrow> plan_state" where
  "do_move g to reason ps = ps\<lparr>
     ps_moves := ps_moves ps @ [\<lparr>mv_project = gu_project g, mv_name = gu_name g, mv_from = where_is (ps_state ps) g,
       mv_to = to, mv_reason = reason\<rparr>],
     ps_state := move_guest g to (ps_state ps),
     ps_moved := insert (gkey g) (ps_moved ps)\<rparr>"

definition record_move :: "plan_input \<Rightarrow> guest \<Rightarrow> string \<Rightarrow> move_reason \<Rightarrow> plan_state \<Rightarrow> bool \<times> plan_state" where
  "record_move inp g to reason ps =
    (if int (length (ps_moves ps)) \<ge> pi_maxMoves inp then (False, ps\<lparr>ps_capped := True\<rparr>)
     else (True, do_move g to reason ps))"

definition leastLoaded :: "(string \<Rightarrow> string \<Rightarrow> rat) \<Rightarrow> plan_input \<Rightarrow> plan_state \<Rightarrow> guest \<Rightarrow> string list \<Rightarrow> string option" where
  "leastLoaded lc inp ps g targets =
    (let s = ps_state ps; r = pi_method inp;
         ok = filter (\<lambda>t. fits s [g] t r \<and> \<not> antiConflict s g t {}) targets
     in case sort_by (\<lambda>a b. if percent s a r - percent s b r \<noteq> 0 then percent s a r - percent s b r else lc a b) ok of
          [] \<Rightarrow> None | t # _ \<Rightarrow> Some t)"

definition sorted_guests :: "(string \<Rightarrow> string \<Rightarrow> rat) \<Rightarrow> plan_input \<Rightarrow> guest list" where
  "sorted_guests lc inp = sort_by (\<lambda>a b. lc (gkey a) (gkey b)) (pi_guests inp)"

subsection \<open>Pins\<close>

definition pin_step :: "(string \<Rightarrow> string \<Rightarrow> rat) \<Rightarrow> plan_input \<Rightarrow> guest \<Rightarrow> plan_state \<Rightarrow> plan_state" where
  "pin_step lc inp g ps =
    (let pin = pins (gu_hints g) in
     if pin = [] \<or> where_is (ps_state ps) g \<in> set pin then ps
     else case leastLoaded lc inp ps g (allowed inp ps g) of
       Some to \<Rightarrow> snd (record_move inp g to Pin ps)
     | None \<Rightarrow> add_note (gkey g @ '' is pinned to '' @ join_with '', '' pin @ '' but cannot go there now'') ps)"

subsection \<open>Anti-affinity\<close>

definition groupBy :: "('a \<Rightarrow> string) \<Rightarrow> 'a list \<Rightarrow> (string, 'a list) jsmap" where
  "groupBy k xs = fold (\<lambda>x m. m_push m (k x) x) xs []"

definition anti_step :: "(string \<Rightarrow> string \<Rightarrow> rat) \<Rightarrow> plan_input \<Rightarrow> guest \<Rightarrow> string set \<times> plan_state \<Rightarrow> string set \<times> plan_state" where
  "anti_step lc inp g = (\<lambda>(seen, ps).
    let here = where_is (ps_state ps) g in
    if here \<notin> seen then (insert here seen, ps)
    else case leastLoaded lc inp ps g (filter (\<lambda>t. t \<notin> seen) (allowed inp ps g)) of
      None \<Rightarrow> (seen, ps)
    | Some to \<Rightarrow> (let (ok, ps') = record_move inp g to AntiAffinity ps in (if ok then insert to seen else seen, ps')))"

definition anti_group :: "(string \<Rightarrow> string \<Rightarrow> rat) \<Rightarrow> plan_input \<Rightarrow> string \<times> guest list \<Rightarrow> plan_state \<Rightarrow> plan_state" where
  "anti_group lc inp grp ps =
    (let ms = snd grp; g0 = hd ms; n = length (activeNames inp);
         ps1 = (if length ms > n
           then add_note (''Anti-affinity group \"'' @ the (h_antiAffinity (gu_hints g0)) @ ''\" in '' @ gu_project g0 @ '' has ''
             @ show_int (int (length ms)) @ '' instances but only '' @ show_int (int n) @ '' members'') ps
           else ps)
     in snd (fold (anti_step lc inp) ms ({}, ps1)))"

definition antiGroups :: "(string \<Rightarrow> string \<Rightarrow> rat) \<Rightarrow> plan_input \<Rightarrow> (string, guest list) jsmap" where
  "antiGroups lc inp = groupBy (\<lambda>g. gu_project g @ ''/'' @ the (h_antiAffinity (gu_hints g)))
     (filter (\<lambda>g. truthy (h_antiAffinity (gu_hints g))) (sorted_guests lc inp))"

subsection \<open>Affinity\<close>

definition counts :: "state \<Rightarrow> guest list \<Rightarrow> (string, nat) jsmap" where
  "counts s gs = fold (\<lambda>g c. m_set c (where_is s g) (Suc (case m_get c (where_is s g) of None \<Rightarrow> 0 | Some n \<Rightarrow> n))) gs []"

definition home_of :: "(string \<Rightarrow> string \<Rightarrow> rat) \<Rightarrow> plan_input \<Rightarrow> (string, nat) jsmap \<Rightarrow> string option" where
  "home_of lc inp cnt =
    (case sort_by (\<lambda>a b. if snd b \<noteq> snd a then of_nat (snd b) - of_nat (snd a) else lc (fst a) (fst b))
       (filter (\<lambda>e. fst e \<in> set (activeNames inp)) cnt) of [] \<Rightarrow> None | e # _ \<Rightarrow> Some (fst e))"

definition aff_step :: "plan_input \<Rightarrow> string \<Rightarrow> guest \<Rightarrow> plan_state \<Rightarrow> plan_state" where
  "aff_step inp home g ps =
    (let s = ps_state ps in
     if where_is s g = home then ps
     else if home \<in> set (allowed inp ps g) \<and> fits s [g] home (pi_method inp) \<and> \<not> antiConflict s g home {}
     then snd (record_move inp g home Affinity ps)
     else add_note (gkey g @ '' could not join its affinity group \"'' @ the (h_affinity (gu_hints g)) @ ''\" on '' @ home) ps)"

definition aff_group :: "(string \<Rightarrow> string \<Rightarrow> rat) \<Rightarrow> plan_input \<Rightarrow> string \<times> guest list \<Rightarrow> plan_state \<Rightarrow> plan_state" where
  "aff_group lc inp grp ps =
    (let cnt = counts (ps_state ps) (snd grp) in
     if length cnt < 2 then ps
     else case home_of lc inp cnt of
       None \<Rightarrow> ps
     | Some home \<Rightarrow> if home = [] then ps else fold (aff_step inp home) (snd grp) ps)"

definition affGroups :: "(string \<Rightarrow> string \<Rightarrow> rat) \<Rightarrow> plan_input \<Rightarrow> (string, guest list) jsmap" where
  "affGroups lc inp = groupBy (\<lambda>g. gu_project g @ ''/'' @ the (h_affinity (gu_hints g)))
     (filter (\<lambda>g. truthy (h_affinity (gu_hints g))) (sorted_guests lc inp))"

subsection \<open>Balance\<close>

definition unit_step :: "plan_input \<Rightarrow> plan_state \<Rightarrow> guest list \<Rightarrow> string \<Rightarrow> guest \<Rightarrow> string set \<times> guest list list \<Rightarrow> string set \<times> guest list list" where
  "unit_step inp ps guests source g = (\<lambda>(seen, units).
    if gkey g \<in> seen then (seen, units)
    else if truthy (h_affinity (gu_hints g)) then
      (let group = filter (\<lambda>x. gu_project x = gu_project g \<and> h_affinity (gu_hints x) = h_affinity (gu_hints g)) guests in
       if list_all (\<lambda>x. where_is (ps_state ps) x = source \<and> allowed inp ps x \<noteq> []) group
       then (seen \<union> gkey ` set group, units @ [group]) else (seen, units))
    else (insert (gkey g) seen, units @ [[g]]))"

definition units_of :: "plan_input \<Rightarrow> plan_state \<Rightarrow> guest list \<Rightarrow> string \<Rightarrow> guest list list" where
  "units_of inp ps guests source =
     snd (fold (unit_step inp ps guests source)
       (filter (\<lambda>g. where_is (ps_state ps) g = source \<and> allowed inp ps g \<noteq> []) guests) ({}, []))"

record best =
  be_unit :: "guest list"
  be_to :: string
  be_spread :: rat
  be_size :: rat

definition EPS :: rat where
  "EPS = 1 / 10 ^ 9"

definition better :: "best \<Rightarrow> best option \<Rightarrow> bool" where
  "better c b = (case b of None \<Rightarrow> True
    | Some x \<Rightarrow> be_spread c < be_spread x - EPS
        \<or> (\<bar>be_spread c - be_spread x\<bar> < EPS
           \<and> (be_size c > be_size x \<or> (be_size c = be_size x \<and> gkey (hd (be_unit c)) < gkey (hd (be_unit x))))))"

definition try_move :: "plan_input \<Rightarrow> plan_state \<Rightarrow> rat \<Rightarrow> guest list \<times> string \<Rightarrow> best option \<Rightarrow> best option" where
  "try_move inp ps current = (\<lambda>(unit, to) b.
    let s = ps_state ps; r = pi_method inp in
    if \<not> fits s unit to r \<or> list_ex (\<lambda>g. antiConflict s g to (gkey ` set unit)) unit then b
    else let after = state_spread (fold (\<lambda>g. move_guest g to) unit s) r in
      if after \<ge> current - EPS then b
      else let c = \<lparr>be_unit = unit, be_to = to, be_spread = after, be_size = sum_list (map (\<lambda>g. size_of s g r) unit)\<rparr> in
        if better c b then Some c else b)"

definition unit_targets :: "plan_input \<Rightarrow> plan_state \<Rightarrow> guest list \<Rightarrow> string list" where
  "unit_targets inp ps unit = filter (\<lambda>t. list_all (\<lambda>g. t \<in> set (allowed inp ps g)) unit) (activeNames inp)"

definition bestMove :: "plan_input \<Rightarrow> plan_state \<Rightarrow> guest list \<Rightarrow> string \<Rightarrow> rat \<Rightarrow> best option" where
  "bestMove inp ps guests source current =
     fold (try_move inp ps current)
       (concat (map (\<lambda>u. map (\<lambda>t. (u, t)) (unit_targets inp ps u)) (units_of inp ps guests source))) None"

fun first_best :: "plan_input \<Rightarrow> plan_state \<Rightarrow> guest list \<Rightarrow> rat \<Rightarrow> string list \<Rightarrow> best option" where
  "first_best inp ps guests current [] = None"
| "first_best inp ps guests current (src # rest) =
    (case bestMove inp ps guests src current of
       Some b \<Rightarrow> Some b
     | None \<Rightarrow> first_best inp ps guests current rest)"

definition sources :: "(string \<Rightarrow> string \<Rightarrow> rat) \<Rightarrow> plan_input \<Rightarrow> plan_state \<Rightarrow> string list" where
  "sources lc inp ps =
    (let s = ps_state ps; r = pi_method inp in
     sort_by (\<lambda>a b. if percent s b r - percent s a r \<noteq> 0 then percent s b r - percent s a r else lc a b) (activeNames inp))"

fun balance_loop :: "nat \<Rightarrow> (string \<Rightarrow> string \<Rightarrow> rat) \<Rightarrow> plan_input \<Rightarrow> guest list \<Rightarrow> plan_state \<Rightarrow> plan_state option" where
  "balance_loop 0 lc inp guests ps = None"
| "balance_loop (Suc fuel) lc inp guests ps =
    (let current = state_spread (ps_state ps) (pi_method inp) in
     if current \<le> pi_balanciness inp \<or> ps_capped ps then Some ps
     else case first_best inp ps guests current (sources lc inp ps) of
       None \<Rightarrow> Some (add_note (''No move improves the balance further ('' @ toFixed1 current @ '' points of spread left)'') ps)
     | Some b \<Rightarrow>
         if int (length (ps_moves ps)) + int (length (be_unit b)) > pi_maxMoves inp then Some (ps\<lparr>ps_capped := True\<rparr>)
         else balance_loop fuel lc inp guests (fold (\<lambda>g ps. snd (record_move inp g (be_to b) Balance ps)) (be_unit b) ps))"

section \<open>The plan\<close>

definition start :: "plan_input \<Rightarrow> plan_state" where
  "start inp = \<lparr>ps_state = new_state (pi_members inp) (pi_guests inp) (pi_mode inp), ps_moves = [], ps_notes = [],
     ps_moved = {}, ps_capped = False\<rparr>"

definition placed :: "(string \<Rightarrow> string \<Rightarrow> rat) \<Rightarrow> plan_input \<Rightarrow> plan_state" where
  "placed lc inp =
     fold (aff_group lc inp) (affGroups lc inp)
       (fold (anti_group lc inp) (antiGroups lc inp)
         (fold (pin_step lc inp) (sorted_guests lc inp) (start inp)))"

definition finish_plan :: "plan_input \<Rightarrow> plan_state \<Rightarrow> plan" where
  "finish_plan inp ps =
    (let ps' = (if ps_capped ps then add_note (''Stopped after '' @ show_int (int (length (ps_moves ps))) @ '' moves (the policy''
           @ [CHR 0x27] @ ''s maximum)'') ps else ps)
     in \<lparr>pn_before = state_spread (ps_state (start inp)) (pi_method inp), pn_after = state_spread (ps_state ps') (pi_method inp),
         pn_moves = ps_moves ps', pn_notes = ps_notes ps'\<rparr>)"

text \<open>Every turn of the last phase moves a guest not moved before, so one turn per guest and a last one are enough.\<close>

definition plan_of :: "(string \<Rightarrow> string \<Rightarrow> rat) \<Rightarrow> plan_input \<Rightarrow> plan option" where
  "plan_of lc inp = map_option (finish_plan inp)
     (balance_loop (Suc (length (pi_guests inp))) lc inp (sorted_guests lc inp) (placed lc inp))"

end
