(* ===== verification/Engine_Steps.thy ===== *)
theory Engine_Steps
  imports Engine
begin

text \<open>
  Every change of a plan is the move of a unit (one guest, or a whole affinity group) that was
  legal when it was made. The locale \<open>plan_invariant\<close> says so once: what holds at the start and is
  kept by notes, by the cap and by legal moves holds of the finished plan.
\<close>

section \<open>The frame of a plan\<close>

definition input_wf :: "plan_input \<Rightarrow> bool" where
  "input_wf inp \<longleftrightarrow> distinct (map gkey (pi_guests inp)) \<and> distinct (map mb_name (pi_members inp))"

definition frame :: "plan_input \<Rightarrow> plan_state \<Rightarrow> bool" where
  "frame inp ps \<longleftrightarrow> st_members (ps_state ps) = pi_members inp \<and> st_guests (ps_state ps) = pi_guests inp
     \<and> st_mode (ps_state ps) = pi_mode inp
     \<and> (\<forall>m\<in>set (pi_members inp). m_get (st_load (ps_state ps)) (mb_name m) \<noteq> None)
     \<and> (\<forall>g\<in>set (pi_guests inp). m_get (st_where (ps_state ps)) (gkey g) \<noteq> None)"

lemma gkey_inj: "input_wf inp \<Longrightarrow> g \<in> set (pi_guests inp) \<Longrightarrow> h \<in> set (pi_guests inp) \<Longrightarrow> gkey g = gkey h \<longleftrightarrow> g = h"
  by (auto simp: input_wf_def distinct_map inj_on_def)

lemma add_load_get: "m_get (add_load m a l) k = None \<longleftrightarrow> m_get l k = None"
  by (simp add: add_load_def split: option.splits)

lemma move_simps [simp]:
  "st_members (move_guest g to s) = st_members s" "st_guests (move_guest g to s) = st_guests s"
  "st_mode (move_guest g to s) = st_mode s"
  "where_is (move_guest g to s) x = (if gkey x = gkey g then to else where_is s x)"
  "size_of (move_guest g to s) x = size_of s x"
  by (simp_all add: move_guest_def where_is_def size_of_def fun_eq_iff)

lemma frame_move: "frame inp ps \<Longrightarrow> frame inp (do_move g to reason ps)"
  by (simp add: frame_def do_move_def del: not_None_eq) (simp add: move_guest_def add_load_get del: not_None_eq)

lemma frame_note [simp]: "frame inp (add_note n ps) = frame inp ps"
  by (simp add: frame_def add_note_def)

lemma frame_cap [simp]: "frame inp (ps\<lparr>ps_capped := b\<rparr>) = frame inp ps"
  by (simp add: frame_def)

lemma fold_add_load_get:
  "m_get (fold (\<lambda>g l. if P then add_load (f g) (a g) l else l) gs l) k = None \<longleftrightarrow> m_get l k = None"
  by (induction gs arbitrary: l) (auto simp: add_load_get)

lemma fold_set_get: "m_get (fold (\<lambda>x m. m_set m (f x) (v x)) xs m) k \<noteq> None \<longleftrightarrow> k \<in> f ` set xs \<or> m_get m k \<noteq> None"
  by (induction xs arbitrary: m) auto

lemma frame_start: "frame inp (start inp)"
  by (auto simp: frame_def start_def new_state_def fold_add_load_get fold_set_get simp del: not_None_eq)

section \<open>Legal moves of a unit\<close>

definition legal :: "plan_input \<Rightarrow> plan_state \<Rightarrow> guest list \<Rightarrow> string \<Rightarrow> bool" where
  "legal inp ps unit to \<longleftrightarrow> unit \<noteq> [] \<and> distinct unit \<and> set unit \<subseteq> set (pi_guests inp)
     \<and> (\<forall>g\<in>set unit. to \<in> set (allowed inp ps g)) \<and> fits (ps_state ps) unit to (pi_method inp)
     \<and> (\<forall>g\<in>set unit. \<not> antiConflict (ps_state ps) g to (gkey ` set unit))
     \<and> (\<forall>g\<in>set unit. where_is (ps_state ps) g = where_is (ps_state ps) (hd unit))"

definition move_unit :: "guest list \<Rightarrow> string \<Rightarrow> move_reason \<Rightarrow> plan_state \<Rightarrow> plan_state" where
  "move_unit unit to reason ps = fold (\<lambda>g. do_move g to reason) unit ps"

lemma move_unit_single: "move_unit [g] to reason ps = do_move g to reason ps"
  by (simp add: move_unit_def)

lemma frame_unit: "frame inp ps \<Longrightarrow> frame inp (move_unit unit to reason ps)"
  unfolding move_unit_def by (induction unit arbitrary: ps) (simp_all add: frame_move)

lemma record_unit:
  "int (length (ps_moves ps)) + int (length unit) \<le> pi_maxMoves inp \<Longrightarrow>
     fold (\<lambda>g ps. snd (record_move inp g to reason ps)) unit ps = move_unit unit to reason ps"
  unfolding move_unit_def
proof (induction unit arbitrary: ps)
  case (Cons g unit)
  then have "snd (record_move inp g to reason ps) = do_move g to reason ps" by (simp add: record_move_def)
  moreover have "length (ps_moves (do_move g to reason ps)) = Suc (length (ps_moves ps))" by (simp add: do_move_def)
  ultimately show ?case using Cons by simp
qed simp

lemma state_unit: "ps_state (move_unit unit to reason ps) = fold (\<lambda>g. move_guest g to) unit (ps_state ps)"
  unfolding move_unit_def by (induction unit arbitrary: ps) (simp_all add: do_move_def)

lemma moved_unit: "ps_moved (move_unit unit to reason ps) = gkey ` set unit \<union> ps_moved ps"
  unfolding move_unit_def by (induction unit arbitrary: ps) (auto simp: do_move_def)

lemma set_sorted_guests [simp]: "set (sorted_guests lc inp) = set (pi_guests inp)"
  by (simp add: sorted_guests_def)

lemma antiConflict_mono: "antiConflict s g m A \<Longrightarrow> B \<subseteq> A \<Longrightarrow> antiConflict s g m B"
  by (auto simp: antiConflict_def list_ex_iff)

lemma legal_single:
  assumes "g \<in> set (pi_guests inp)" and "to \<in> set (allowed inp ps g)"
    and "fits (ps_state ps) [g] to (pi_method inp)" and "\<not> antiConflict (ps_state ps) g to {}"
  shows "legal inp ps [g] to"
  using assms antiConflict_mono[of "ps_state ps" g to _ "{}"] by (auto simp: legal_def)

lemma leastLoaded_legal:
  assumes "leastLoaded lc inp ps g targets = Some to" and "g \<in> set (pi_guests inp)" and "set targets \<subseteq> set (allowed inp ps g)"
  shows "legal inp ps [g] to"
proof -
  let ?ok = "filter (\<lambda>t. fits (ps_state ps) [g] t (pi_method inp) \<and> \<not> antiConflict (ps_state ps) g t {}) targets"
  from assms(1) have "to \<in> set ?ok"
    unfolding leastLoaded_def Let_def by (metis (no_types, lifting) list.case_eq_if list.set_sel(1) option.inject option.simps(3) set_sort_by)
  with assms(2,3) show ?thesis by (intro legal_single) auto
qed

lemma allowed_fresh: "to \<in> set (allowed inp ps g) \<Longrightarrow> gkey g \<notin> ps_moved ps"
  by (auto simp: allowed_def split: if_splits)

lemma groupBy_mem: "(k, gs) \<in> set (groupBy f xs) \<Longrightarrow> set gs \<subseteq> set xs"
proof -
  have wf: "m_wf (fold (\<lambda>x m. m_push m (f x) x) xs m)" if "m_wf m" for m :: "(string, 'a list) jsmap"
    using that by (induction xs arbitrary: m) (simp_all add: m_push_def jm.invar_put)
  assume "(k, gs) \<in> set (groupBy f xs)"
  with wf[OF jm.invar_empty] have "m_get (groupBy f xs) k = Some gs"
    by (simp add: groupBy_def m_wf_def m_get_def)
  then have "gs = m_list (groupBy f xs) k" by (simp add: m_list_def)
  then show "set gs \<subseteq> set xs" by (auto simp: groupBy_def m_list_fold_push)
qed

section \<open>Units and the best move\<close>

lemma units_shape:
  assumes "u \<in> set (units_of inp ps guests source)" and "distinct guests"
  shows "u \<noteq> [] \<and> distinct u \<and> set u \<subseteq> set guests \<and> (\<forall>g\<in>set u. where_is (ps_state ps) g = source)"
proof -
  define ok where "ok u \<longleftrightarrow> u \<noteq> [] \<and> distinct u \<and> set u \<subseteq> set guests \<and> (\<forall>g\<in>set u. where_is (ps_state ps) g = source)" for u
  let ?here = "filter (\<lambda>g. where_is (ps_state ps) g = source \<and> allowed inp ps g \<noteq> []) guests"
  have "\<forall>u\<in>set (snd (fold (unit_step inp ps guests source) ?here ({}, []))). ok u"
  proof (rule fold_invariant[where Q = "\<lambda>g. g \<in> set ?here" and P = "\<lambda>st. \<forall>u\<in>set (snd st). ok u"])
    fix g :: guest and st :: "string set \<times> guest list list"
    assume g: "g \<in> set ?here" and st: "\<forall>u\<in>set (snd st). ok u"
    let ?group = "filter (\<lambda>x. gu_project x = gu_project g \<and> h_affinity (gu_hints x) = h_affinity (gu_hints g)) guests"
    have "ok [g]" using g by (simp add: ok_def)
    moreover have "ok ?group" if all: "list_all (\<lambda>x. where_is (ps_state ps) x = source \<and> allowed inp ps x \<noteq> []) ?group"
    proof -
      have "g \<in> set ?group" using g by simp
      with all assms(2) show ?thesis unfolding ok_def list_all_iff by (metis (no_types, lifting) distinct_filter filter_is_subset list.set_cases list.distinct(1))
    qed
    moreover obtain seen units where "st = (seen, units)" by (cases st)
    ultimately show "\<forall>u\<in>set (snd (unit_step inp ps guests source g st)). ok u"
      using st by (simp add: unit_step_def Let_def)
  qed auto
  then have "ok u" using assms(1)[unfolded units_of_def] by blast
  then show ?thesis unfolding ok_def .
qed

definition good_move :: "plan_input \<Rightarrow> plan_state \<Rightarrow> rat \<Rightarrow> best \<Rightarrow> bool" where
  "good_move inp ps current b \<longleftrightarrow> legal inp ps (be_unit b) (be_to b)
     \<and> be_spread b = state_spread (fold (\<lambda>g. move_guest g (be_to b)) (be_unit b) (ps_state ps)) (pi_method inp)
     \<and> be_spread b < current - EPS"

lemma try_move_good:
  assumes "case b of None \<Rightarrow> True | Some x \<Rightarrow> good_move inp ps current x"
    and "u \<in> set (units_of inp ps guests source)" and "to \<in> set (unit_targets inp ps u)"
    and "distinct guests" and "set guests = set (pi_guests inp)"
  shows "case try_move inp ps current (u, to) b of None \<Rightarrow> True | Some x \<Rightarrow> good_move inp ps current x"
proof -
  have "legal inp ps u to"
    if "fits (ps_state ps) u to (pi_method inp)" "\<not> list_ex (\<lambda>g. antiConflict (ps_state ps) g to (gkey ` set u)) u"
    using that units_shape[OF assms(2,4)] assms(3,5)
    by (auto simp: legal_def unit_targets_def list_all_iff list_ex_iff)
  with assms(1) show ?thesis by (auto simp: try_move_def Let_def good_move_def split: option.splits)
qed

lemma bestMove_good:
  assumes "bestMove inp ps guests source current = Some b" and "distinct guests" and "set guests = set (pi_guests inp)"
  shows "good_move inp ps current b"
proof -
  let ?cands = "concat (map (\<lambda>u. map (\<lambda>t. (u, t)) (unit_targets inp ps u)) (units_of inp ps guests source))"
  have "case fold (try_move inp ps current) ?cands None of None \<Rightarrow> True | Some x \<Rightarrow> good_move inp ps current x"
    by (rule fold_invariant[where Q = "\<lambda>c. c \<in> set ?cands"]) (use assms(2,3) try_move_good in auto)
  with assms(1) show ?thesis by (simp add: bestMove_def)
qed

lemma first_best_good:
  assumes "first_best inp ps guests current srcs = Some b" and "distinct guests" and "set guests = set (pi_guests inp)"
  shows "good_move inp ps current b"
  using assms(1)
  by (induction srcs) (auto split: option.splits dest: bestMove_good[OF _ assms(2,3)])

lemma distinct_sorted_guests: "input_wf inp \<Longrightarrow> distinct (sorted_guests lc inp)"
  by (simp add: sorted_guests_def input_wf_def distinct_map)

section \<open>Invariants of a plan\<close>

locale plan_invariant =
  fixes inp :: plan_input
    and I :: "plan_state \<Rightarrow> bool"
  assumes I_start: "input_wf inp \<Longrightarrow> I (start inp)"
    and I_note: "I ps \<Longrightarrow> I (add_note n ps)"
    and I_cap: "I ps \<Longrightarrow> I (ps\<lparr>ps_capped := True\<rparr>)"
    and I_unit: "input_wf inp \<Longrightarrow> I ps \<Longrightarrow> frame inp ps \<Longrightarrow> legal inp ps unit to \<Longrightarrow>
      int (length (ps_moves ps)) + int (length unit) \<le> pi_maxMoves inp \<Longrightarrow> I (move_unit unit to reason ps)"
begin

definition J :: "plan_state \<Rightarrow> bool" where
  "J ps \<longleftrightarrow> input_wf inp \<and> frame inp ps \<and> I ps"

lemma J_note: "J ps \<Longrightarrow> J (add_note n ps)"
  by (simp add: J_def I_note)

lemma J_cap: "J ps \<Longrightarrow> J (ps\<lparr>ps_capped := True\<rparr>)"
  by (simp add: J_def I_cap)

lemma J_unit:
  "J ps \<Longrightarrow> legal inp ps unit to \<Longrightarrow> int (length (ps_moves ps)) + int (length unit) \<le> pi_maxMoves inp \<Longrightarrow> J (move_unit unit to reason ps)"
  by (simp add: J_def I_unit frame_unit)

lemma J_record: "J ps \<Longrightarrow> legal inp ps [g] to \<Longrightarrow> J (snd (record_move inp g to reason ps))"
  using J_unit[of ps "[g]" to reason] by (simp add: record_move_def J_cap move_unit_single)

lemma J_pin: "J ps \<Longrightarrow> g \<in> set (pi_guests inp) \<Longrightarrow> J (pin_step lc inp g ps)"
  by (auto simp: pin_step_def Let_def J_note split: option.splits intro!: J_record dest: leastLoaded_legal)

lemma J_anti_step: "J (snd st) \<Longrightarrow> g \<in> set (pi_guests inp) \<Longrightarrow> J (snd (anti_step lc inp g st))"
proof (cases st)
  case (Pair seen ps)
  assume J: "J (snd st)" and g: "g \<in> set (pi_guests inp)"
  have "J (snd (record_move inp g to AntiAffinity ps))"
    if "leastLoaded lc inp ps g (filter (\<lambda>t. t \<notin> seen) (allowed inp ps g)) = Some to" for to
    using leastLoaded_legal[OF that g] J Pair by (auto intro: J_record)
  then show ?thesis using J Pair by (auto simp: anti_step_def Let_def split: option.splits prod.splits)
qed

lemma J_anti_group: "J ps \<Longrightarrow> set (snd grp) \<subseteq> set (pi_guests inp) \<Longrightarrow> J (anti_group lc inp grp ps)"
proof -
  assume J: "J ps" and sub: "set (snd grp) \<subseteq> set (pi_guests inp)"
  have "J (snd (fold (anti_step lc inp) (snd grp) (seen, ps)))" if "J ps" for seen ps
    by (rule fold_invariant[where Q = "\<lambda>g. g \<in> set (pi_guests inp)" and P = "\<lambda>st. J (snd st)"])
      (use sub that J_anti_step in auto)
  then show ?thesis using J by (simp add: anti_group_def Let_def J_note)
qed

lemma J_aff_step: "J ps \<Longrightarrow> g \<in> set (pi_guests inp) \<Longrightarrow> J (aff_step inp home g ps)"
  by (auto simp: aff_step_def Let_def J_note intro!: J_record legal_single)

lemma J_aff_group: "J ps \<Longrightarrow> set (snd grp) \<subseteq> set (pi_guests inp) \<Longrightarrow> J (aff_group lc inp grp ps)"
proof -
  assume J: "J ps" and sub: "set (snd grp) \<subseteq> set (pi_guests inp)"
  have "J (fold (aff_step inp home) (snd grp) ps)" for home
    by (rule fold_invariant[where Q = "\<lambda>g. g \<in> set (pi_guests inp)"]) (use sub J J_aff_step in auto)
  then show ?thesis using J by (simp add: aff_group_def Let_def split: option.splits)
qed

lemma J_placed:
  assumes "input_wf inp"
  shows "J (placed lc inp)"
proof -
  have "J (fold (pin_step lc inp) (sorted_guests lc inp) (start inp))"
    by (rule fold_invariant[where Q = "\<lambda>g. g \<in> set (pi_guests inp)"]) (use assms J_pin in \<open>auto simp: J_def frame_start I_start\<close>)
  moreover have anti: "set (snd grp) \<subseteq> set (pi_guests inp)" if "grp \<in> set (antiGroups lc inp)" for grp
    using groupBy_mem[of "fst grp" "snd grp"] that by (force simp: antiGroups_def)
  moreover have aff: "set (snd grp) \<subseteq> set (pi_guests inp)" if "grp \<in> set (affGroups lc inp)" for grp
    using groupBy_mem[of "fst grp" "snd grp"] that by (force simp: affGroups_def)
  ultimately have "J (fold (anti_group lc inp) (antiGroups lc inp) (fold (pin_step lc inp) (sorted_guests lc inp) (start inp)))"
    by (intro fold_invariant[where Q = "\<lambda>grp. set (snd grp) \<subseteq> set (pi_guests inp)" and P = J]) (auto intro: J_anti_group)
  then show ?thesis
    unfolding placed_def
    by (rule fold_invariant[where Q = "\<lambda>grp. set (snd grp) \<subseteq> set (pi_guests inp)" and P = J, rotated]) (erule aff | blast intro: J_aff_group)+
qed

lemma J_loop:
  "balance_loop fuel lc inp (sorted_guests lc inp) ps = Some ps' \<Longrightarrow> J ps \<Longrightarrow> J ps'"
proof (induction fuel arbitrary: ps)
  case (Suc fuel)
  let ?current = "state_spread (ps_state ps) (pi_method inp)"
  show ?case
  proof (cases "?current \<le> pi_balanciness inp \<or> ps_capped ps")
    case False
    show ?thesis
    proof (cases "first_best inp ps (sorted_guests lc inp) ?current (sources lc inp ps)")
      case None
      with False Suc.prems show ?thesis by (auto simp: Let_def J_note)
    next
      case (Some b)
      from Suc.prems have "distinct (sorted_guests lc inp)" by (simp add: J_def distinct_sorted_guests)
      from first_best_good[OF Some this] have "legal inp ps (be_unit b) (be_to b)" by (simp add: good_move_def)
      with Some False Suc show ?thesis
        by (auto simp: Let_def J_cap record_unit J_unit split: if_splits)
    qed
  qed (use Suc.prems in \<open>auto simp: Let_def\<close>)
qed simp

lemma J_final:
  assumes "input_wf inp" and "plan_of lc inp = Some p"
  obtains ps where "I ps" and "frame inp ps" and "p = finish_plan inp ps"
  using assms J_loop[OF _ J_placed] unfolding J_def plan_of_def by blast

end

end
