(* ===== verification/Engine_Plan.thy ===== *)
theory Engine_Plan
  imports Engine_Steps
begin

text \<open>
  What a finished plan of the balancing engine promises: who moves and where, how full the members
  get, that no anti-affinity is broken, that the spread does not grow in the last phase, and that
  planning ends. Each is an interpretation of \<open>plan_invariant\<close>.
\<close>

section \<open>Who moves where\<close>

definition mkey :: "move \<Rightarrow> string" where
  "mkey m = mv_project m @ ''/'' @ mv_name m"

definition good_for :: "plan_input \<Rightarrow> move \<Rightarrow> guest \<Rightarrow> bool" where
  "good_for inp m g \<longleftrightarrow> g \<in> set (pi_guests inp) \<and> mv_project m = gu_project g \<and> mv_name m = gu_name g
     \<and> mv_from m = gu_member g \<and> mv_to m \<noteq> mv_from m \<and> mv_to m \<in> set (activeNames inp)
     \<and> gu_movable g \<and> may_balance (gu_hints g)
     \<and> (pins (gu_hints g) = [] \<or> mv_to m \<in> set (pins (gu_hints g)))
     \<and> \<not> (\<exists>x. member_of (pi_members inp) (gu_member g) = Some x \<and> mb_maintenance x)"

definition moves_ok :: "plan_input \<Rightarrow> plan_state \<Rightarrow> bool" where
  "moves_ok inp ps \<longleftrightarrow> distinct (map mkey (ps_moves ps)) \<and> ps_moved ps = mkey ` set (ps_moves ps)
     \<and> int (length (ps_moves ps)) \<le> max 0 (pi_maxMoves inp)
     \<and> (\<forall>m\<in>set (ps_moves ps). \<exists>g. good_for inp m g)
     \<and> (\<forall>g\<in>set (pi_guests inp). gkey g \<notin> ps_moved ps \<longrightarrow> where_is (ps_state ps) g = gu_member g)"

definition move_of :: "plan_state \<Rightarrow> string \<Rightarrow> move_reason \<Rightarrow> guest \<Rightarrow> move" where
  "move_of ps to reason g = \<lparr>mv_project = gu_project g, mv_name = gu_name g, mv_from = where_is (ps_state ps) g,
     mv_to = to, mv_reason = reason\<rparr>"

lemma moves_unit:
  assumes "distinct (map gkey unit)"
  shows "ps_moves (move_unit unit to reason ps) = ps_moves ps @ map (move_of ps to reason) unit"
  using assms unfolding move_unit_def
proof (induction unit arbitrary: ps)
  case (Cons g unit)
  have "map (move_of (do_move g to reason ps) to reason) unit = map (move_of ps to reason) unit"
  proof (intro map_cong refl)
    fix x assume "x \<in> set unit"
    then have "gkey x \<in> set (map gkey unit)" by simp
    with Cons.prems have "gkey x \<noteq> gkey g" by auto
    then show "move_of (do_move g to reason ps) to reason x = move_of ps to reason x" by (simp add: move_of_def do_move_def)
  qed
  with Cons show ?case by (simp add: do_move_def move_of_def)
qed simp

lemma where_unit:
  "where_is (ps_state (move_unit unit to reason ps)) x = (if gkey x \<in> gkey ` set unit then to else where_is (ps_state ps) x)"
  unfolding state_unit by (induction unit arbitrary: ps rule: rev_induct) auto

lemma where_start:
  assumes "input_wf inp" and "g \<in> set (pi_guests inp)"
  shows "where_is (ps_state (start inp)) g = gu_member g"
proof -
  let ?found = "find (\<lambda>x. gkey x = gkey g) (rev (pi_guests inp))"
  have "?found \<noteq> None" using assms(2) by (auto simp: find_None_iff)
  then obtain x where x: "?found = Some x" by blast
  with find_mem[OF x] gkey_inj[OF assms(1) _ assms(2)] have "x = g" by auto
  with x show ?thesis by (simp add: where_is_def start_def new_state_def jm.fold_put_get)
qed

lemma allowedD:
  assumes "to \<in> set (allowed inp ps g)"
  shows "to \<in> set (activeNames inp)" "to \<noteq> where_is (ps_state ps) g" "gu_movable g" "may_balance (gu_hints g)"
    "pins (gu_hints g) = [] \<or> to \<in> set (pins (gu_hints g))"
    "\<not> (\<exists>x. member_of (pi_members inp) (where_is (ps_state ps) g) = Some x \<and> mb_maintenance x)"
  using assms by (auto simp: allowed_def Let_def split: if_splits option.splits)

lemma legal_keys: "input_wf inp \<Longrightarrow> legal inp ps unit to \<Longrightarrow> distinct (map gkey unit)"
  by (auto simp: legal_def distinct_map input_wf_def intro: inj_on_subset)

lemma mkey_move_of [simp]: "mkey (move_of ps to reason g) = gkey g"
  by (simp add: mkey_def move_of_def gkey_def)

lemma moves_ok_unit:
  assumes wf: "input_wf inp" and ok: "moves_ok inp ps" and legal: "legal inp ps unit to"
    and room: "int (length (ps_moves ps)) + int (length unit) \<le> pi_maxMoves inp"
  shows "moves_ok inp (move_unit unit to reason ps)"
proof -
  note keys = legal_keys[OF wf legal]
  have fresh: "gkey g \<notin> ps_moved ps" "g \<in> set (pi_guests inp)" "to \<in> set (allowed inp ps g)" if "g \<in> set unit" for g
    using legal that allowed_fresh[of to inp ps g] by (auto simp: legal_def)
  have good: "good_for inp (move_of ps to reason g) g" if "g \<in> set unit" for g
  proof -
    have "where_is (ps_state ps) g = gu_member g" using ok fresh[OF that] by (auto simp: moves_ok_def)
    with allowedD[OF fresh(3)[OF that]] fresh(2)[OF that] show ?thesis by (auto simp: good_for_def move_of_def)
  qed
  have dist: "distinct (map mkey (ps_moves (move_unit unit to reason ps)))"
  proof -
    have "map mkey (map (move_of ps to reason) unit) = map gkey unit" by simp
    moreover have "set (map mkey (ps_moves ps)) \<inter> set (map gkey unit) = {}" 
    proof -
      have moved: "ps_moved ps = set (map mkey (ps_moves ps))" using ok by (simp add: moves_ok_def)
      show ?thesis unfolding moved[symmetric] using fresh(1) by auto
    qed
    moreover have "distinct (map mkey (ps_moves ps))" using ok by (simp add: moves_ok_def)
    ultimately show ?thesis using keys by (simp only: moves_unit[OF keys] map_append distinct_append simp_thms)
  qed
  have where': "where_is (ps_state (move_unit unit to reason ps)) g = gu_member g"
    if "g \<in> set (pi_guests inp)" "gkey g \<notin> ps_moved (move_unit unit to reason ps)" for g
    using that ok by (auto simp: where_unit moved_unit moves_ok_def)
  show ?thesis
    using ok good dist where' room
    by (auto simp: moves_ok_def moves_unit[OF keys] moved_unit image_Un image_image)
qed

interpretation plan_moves: plan_invariant inp "moves_ok inp" for inp
proof unfold_locales
  show "input_wf inp \<Longrightarrow> moves_ok inp (start inp)"
    using where_start[of inp] by (auto simp: moves_ok_def start_def)
  show "moves_ok inp ps \<Longrightarrow> moves_ok inp (add_note n ps)" for ps n by (simp add: moves_ok_def add_note_def)
  show "moves_ok inp ps \<Longrightarrow> moves_ok inp (ps\<lparr>ps_capped := True\<rparr>)" for ps by (simp add: moves_ok_def)
qed (rule moves_ok_unit)

section \<open>How full members get\<close>

lemma load_add:
  "(case m_get (add_load k a l) m of None \<Rightarrow> (\<lambda>_. 0) | Some x \<Rightarrow> rs_at x) r
     = (case m_get l m of None \<Rightarrow> (\<lambda>_. 0) | Some x \<Rightarrow> rs_at x) r + (if m = k \<and> m_get l k \<noteq> None then a r else 0)"
  by (auto simp: add_load_def split: option.splits)

lemma load_move:
  "load_of (move_guest g to s) m r = load_of s m r
     - (if m = where_is s g \<and> m_get (st_load s) m \<noteq> None then size_of s g r else 0)
     + (if m = to \<and> m_get (st_load s) m \<noteq> None then size_of s g r else 0)"
  by (auto simp: load_of_def move_guest_def load_add add_load_get simp del: not_None_eq)

lemma load_dom: "m_get (st_load (move_guest g to s)) m = None \<longleftrightarrow> m_get (st_load s) m = None"
  by (simp add: move_guest_def add_load_get)

lemma load_unit:
  assumes "distinct (map gkey unit)" and "\<forall>g\<in>set unit. where_is s g = src"
  shows "load_of (fold (\<lambda>g. move_guest g to) unit s) m r = load_of s m r
     - (if m = src \<and> m_get (st_load s) m \<noteq> None then sum_list (map (\<lambda>g. size_of s g r) unit) else 0)
     + (if m = to \<and> m_get (st_load s) m \<noteq> None then sum_list (map (\<lambda>g. size_of s g r) unit) else 0)"
  using assms
proof (induction unit arbitrary: s)
  case (Cons g unit)
  let ?s = "move_guest g to s"
  have here: "\<forall>x\<in>set unit. where_is ?s x = src"
  proof
    fix x assume x: "x \<in> set unit"
    then have "gkey x \<in> set (map gkey unit)" by simp
    with Cons.prems(1) have "gkey x \<noteq> gkey g" by auto
    with x Cons.prems(2) show "where_is ?s x = src" by simp
  qed
  from Cons.prems(1) have keys: "distinct (map gkey unit)" by simp
  have IH: "load_of (fold (\<lambda>g. move_guest g to) unit ?s) m r = load_of ?s m r
     - (if m = src \<and> m_get (st_load s) m \<noteq> None then sum_list (map (\<lambda>g. size_of s g r) unit) else 0)
     + (if m = to \<and> m_get (st_load s) m \<noteq> None then sum_list (map (\<lambda>g. size_of s g r) unit) else 0)"
    using Cons.IH[OF keys here] by (simp only: load_dom move_simps)
  have "where_is s g = src" using Cons.prems(2) by simp
  then show ?case unfolding fold_simps IH load_move
    by (cases "m = to"; cases "m = src"; cases "m_get (st_load s) m = None") simp_all
qed simp

definition sizes_ok :: "plan_input \<Rightarrow> bool" where
  "sizes_ok inp \<longleftrightarrow> (\<forall>g\<in>set (pi_guests inp). \<forall>r. rs_at (gu_used g) r \<ge> 0 \<and> rs_at (gu_assigned g) r \<ge> 0)"

definition loads_ok :: "plan_input \<Rightarrow> plan_state \<Rightarrow> bool" where
  "loads_ok inp ps \<longleftrightarrow> (sizes_ok inp \<longrightarrow> (\<forall>m. load_of (ps_state ps) m (pi_method inp)
     \<le> max (load_of (ps_state (start inp)) m (pi_method inp)) (total_of (pi_members inp) m (pi_method inp))))"

lemma loads_ok_unit:
  assumes "input_wf inp" and "loads_ok inp ps" and "frame inp ps" and "legal inp ps unit to"
  shows "loads_ok inp (move_unit unit to reason ps)"
  unfolding loads_ok_def
proof (intro impI allI)
  fix m
  let ?r = "pi_method inp" and ?s = "ps_state ps" and ?src = "where_is (ps_state ps) (hd unit)"
  assume sizes: "sizes_ok inp"
  let ?sum = "sum_list (map (\<lambda>g. size_of ?s g ?r) unit)"
  have legal: "unit \<noteq> []" "set unit \<subseteq> set (pi_guests inp)" "fits ?s unit to ?r" "\<forall>g\<in>set unit. where_is ?s g = ?src"
    "to \<in> set (allowed inp ps (hd unit))"
    using assms(4) unfolding legal_def by (blast, blast, blast, blast, metis hd_in_set)
  have "0 \<le> ?sum" using sizes legal(2) by (intro sum_list_nonneg) (auto simp: sizes_ok_def size_of_def)
  moreover have "load_of (ps_state (move_unit unit to reason ps)) m ?r = load_of ?s m ?r
     - (if m = ?src \<and> m_get (st_load ?s) m \<noteq> None then ?sum else 0) + (if m = to \<and> m_get (st_load ?s) m \<noteq> None then ?sum else 0)"
    unfolding state_unit by (rule load_unit[OF legal_keys[OF assms(1,4)] legal(4)])
  moreover have "load_of ?s to ?r + ?sum \<le> total_of (pi_members inp) to ?r"
    using legal(3) assms(3) by (simp add: fits_def frame_def)
  moreover have "to \<noteq> ?src" using allowedD(2)[OF legal(5)] .
  moreover have "load_of ?s m ?r \<le> max (load_of (ps_state (start inp)) m ?r) (total_of (pi_members inp) m ?r)"
    using assms(2) sizes by (simp add: loads_ok_def)
  ultimately show "load_of (ps_state (move_unit unit to reason ps)) m ?r
      \<le> max (load_of (ps_state (start inp)) m ?r) (total_of (pi_members inp) m ?r)"
    by (cases "m = to") (auto split: if_splits)
qed

interpretation plan_loads: plan_invariant inp "loads_ok inp" for inp
proof unfold_locales
  show "loads_ok inp (start inp)" by (simp add: loads_ok_def)
  show "loads_ok inp ps \<Longrightarrow> loads_ok inp (add_note n ps)" for ps n by (simp add: loads_ok_def add_note_def)
  show "loads_ok inp ps \<Longrightarrow> loads_ok inp (ps\<lparr>ps_capped := True\<rparr>)" for ps by (simp add: loads_ok_def)
qed (rule loads_ok_unit)

section \<open>Anti-affinity\<close>

definition apart :: "guest \<Rightarrow> guest \<Rightarrow> bool" where
  "apart g h \<longleftrightarrow> g \<noteq> h \<and> gu_project h = gu_project g \<and> truthy (h_antiAffinity (gu_hints g))
     \<and> h_antiAffinity (gu_hints h) = h_antiAffinity (gu_hints g)"

lemma apart_sym: "apart g h \<longleftrightarrow> apart h g"
  by (auto simp: apart_def)

definition anti_ok :: "plan_input \<Rightarrow> plan_state \<Rightarrow> bool" where
  "anti_ok inp ps \<longleftrightarrow> (\<forall>g\<in>set (pi_guests inp). \<forall>h\<in>set (pi_guests inp). apart g h
     \<longrightarrow> where_is (ps_state ps) g = where_is (ps_state ps) h \<longrightarrow> gu_member g = gu_member h)"

lemma anti_ok_unit:
  assumes "input_wf inp" and "anti_ok inp ps" and "frame inp ps" and "legal inp ps unit to"
  shows "anti_ok inp (move_unit unit to reason ps)"
  unfolding anti_ok_def
proof (intro ballI impI)
  fix g h assume gh: "g \<in> set (pi_guests inp)" "h \<in> set (pi_guests inp)" "apart g h"
    and same: "where_is (ps_state (move_unit unit to reason ps)) g = where_is (ps_state (move_unit unit to reason ps)) h"
  let ?s = "ps_state ps"
  have unit: "gkey x \<in> gkey ` set unit \<longleftrightarrow> x \<in> set unit" if "x \<in> set (pi_guests inp)" for x
    using gkey_inj[OF assms(1)] that assms(4) by (auto simp: legal_def)
  have free: "\<not> (apart x y \<and> x \<in> set unit \<and> y \<in> set (pi_guests inp) \<and> y \<notin> set unit \<and> where_is ?s y = to)" for x y
  proof
    assume xy: "apart x y \<and> x \<in> set unit \<and> y \<in> set (pi_guests inp) \<and> y \<notin> set unit \<and> where_is ?s y = to"
    then have "\<not> antiConflict ?s x to (gkey ` set unit)" using assms(4) by (simp add: legal_def)
    moreover have "antiConflict ?s x to (gkey ` set unit)"
      unfolding antiConflict_def list_ex_iff using xy unit[of y] assms(3)
      by (intro conjI bexI[of _ y]) (auto simp: apart_def frame_def)
    ultimately show False ..
  qed
  have together: "where_is ?s g = where_is ?s h" if "g \<in> set unit" "h \<in> set unit"
    using that assms(4) unfolding legal_def by metis
  have "where_is ?s g = where_is ?s h"
    using same together free[of g h] free[of h g] gh apart_sym[of g h]
    unfolding where_unit unit[OF gh(1)] unit[OF gh(2)] by (cases "g \<in> set unit"; cases "h \<in> set unit") simp_all
  with assms(2) gh show "gu_member g = gu_member h" by (auto simp: anti_ok_def)
qed

interpretation plan_anti: plan_invariant inp "anti_ok inp" for inp
proof unfold_locales
  show "input_wf inp \<Longrightarrow> anti_ok inp (start inp)" using where_start[of inp] by (auto simp: anti_ok_def)
  show "anti_ok inp ps \<Longrightarrow> anti_ok inp (add_note n ps)" for ps n by (simp add: anti_ok_def add_note_def)
  show "anti_ok inp ps \<Longrightarrow> anti_ok inp (ps\<lparr>ps_capped := True\<rparr>)" for ps by (simp add: anti_ok_def)
qed (rule anti_ok_unit)

section \<open>The last phase\<close>

lemma note_irrelevant:
  "allowed inp (add_note n ps) g = allowed inp ps g" "ps_state (add_note n ps) = ps_state ps"
  by (simp_all add: allowed_def add_note_def)

lemma first_best_None: "first_best inp ps guests current srcs = None \<longleftrightarrow> (\<forall>s\<in>set srcs. bestMove inp ps guests s current = None)"
  by (induction srcs) (auto split: option.splits)

lemma try_moves_None:
  "fold (try_move inp ps current) cands b = None \<Longrightarrow> b = None \<and> (\<forall>c\<in>set cands. try_move inp ps current c None = None)"
proof (induction cands arbitrary: b)
  case (Cons c cands)
  then have t: "try_move inp ps current c b = None" "\<forall>c\<in>set cands. try_move inp ps current c None = None" by auto
  have "b = None" using t(1) by (auto simp: try_move_def Let_def split: prod.splits if_splits)
  with t show ?case by simp
qed simp

text \<open>No unit of any active member has a legal move that would lower the spread by more than the tolerance.\<close>

definition stuck :: "(string \<Rightarrow> string \<Rightarrow> rat) \<Rightarrow> plan_input \<Rightarrow> plan_state \<Rightarrow> bool" where
  "stuck lc inp ps \<longleftrightarrow> (\<forall>src\<in>set (activeNames inp). \<forall>u\<in>set (units_of inp ps (sorted_guests lc inp) src). \<forall>to\<in>set (unit_targets inp ps u).
     legal inp ps u to \<longrightarrow> state_spread (fold (\<lambda>g. move_guest g to) u (ps_state ps)) (pi_method inp)
       \<ge> state_spread (ps_state ps) (pi_method inp) - EPS)"

lemma stuck_if_none:
  assumes "first_best inp ps (sorted_guests lc inp) (state_spread (ps_state ps) (pi_method inp)) (sources lc inp ps) = None"
  shows "stuck lc inp ps"
  unfolding stuck_def
proof (intro ballI impI)
  fix src u to assume src: "src \<in> set (activeNames inp)" and u: "u \<in> set (units_of inp ps (sorted_guests lc inp) src)"
    and to: "to \<in> set (unit_targets inp ps u)" and legal: "legal inp ps u to"
  let ?current = "state_spread (ps_state ps) (pi_method inp)"
  have "src \<in> set (sources lc inp ps)" using src by (simp add: sources_def Let_def)
  with assms have "bestMove inp ps (sorted_guests lc inp) src ?current = None" by (simp add: first_best_None)
  from try_moves_None[OF this[unfolded bestMove_def]] u to have "try_move inp ps ?current (u, to) None = None" by auto
  moreover have "fits (ps_state ps) u to (pi_method inp)" "\<not> list_ex (\<lambda>g. antiConflict (ps_state ps) g to (gkey ` set u)) u"
    using legal by (auto simp: legal_def list_ex_iff)
  ultimately show "state_spread (fold (\<lambda>g. move_guest g to) u (ps_state ps)) (pi_method inp) \<ge> ?current - EPS"
    by (auto simp: try_move_def Let_def better_def split: if_splits)
qed

lemma stuck_note: "stuck lc inp (add_note n ps) \<longleftrightarrow> stuck lc inp ps"
proof -
  have "units_of inp (add_note n ps) = units_of inp ps" "unit_targets inp (add_note n ps) = unit_targets inp ps"
    "legal inp (add_note n ps) = legal inp ps"
    unfolding fun_eq_iff units_of_def unit_step_def unit_targets_def legal_def note_irrelevant by blast+
  then show ?thesis by (simp add: stuck_def note_irrelevant)
qed

lemma loop_stops:
  assumes "input_wf inp" and "balance_loop fuel lc inp (sorted_guests lc inp) ps = Some ps'"
  shows "state_spread (ps_state ps') (pi_method inp) \<le> state_spread (ps_state ps) (pi_method inp)
    \<and> (ps_capped ps' \<or> state_spread (ps_state ps') (pi_method inp) \<le> pi_balanciness inp \<or> stuck lc inp ps')"
  using assms(2)
proof (induction fuel arbitrary: ps)
  case (Suc fuel)
  let ?sp = "\<lambda>ps. state_spread (ps_state ps) (pi_method inp)"
  show ?case
  proof (cases "?sp ps \<le> pi_balanciness inp \<or> ps_capped ps")
    case False
    show ?thesis
    proof (cases "first_best inp ps (sorted_guests lc inp) (?sp ps) (sources lc inp ps)")
      case None
      with False Suc.prems stuck_if_none[OF None] show ?thesis by (auto simp: Let_def stuck_note note_irrelevant)
    next
      case (Some b)
      show ?thesis
      proof (cases "int (length (ps_moves ps)) + int (length (be_unit b)) > pi_maxMoves inp")
        case True
        with False Some Suc.prems show ?thesis by (auto simp: Let_def)
      next
        case room: False
        let ?next = "move_unit (be_unit b) (be_to b) Balance ps"
        from first_best_good[OF Some distinct_sorted_guests[OF assms(1)]] have "?sp ?next < ?sp ps - EPS"
          by (simp add: good_move_def state_unit)
        moreover have "balance_loop fuel lc inp (sorted_guests lc inp) ?next = Some ps'"
          using False Some room Suc.prems by (simp add: Let_def record_unit)
        ultimately show ?thesis using Suc.IH[of ?next] by (simp add: EPS_def)
      qed
    qed
  qed (use Suc.prems in \<open>auto simp: Let_def\<close>)
qed simp

lemma loop_total:
  assumes "input_wf inp"
  shows "card (gkey ` set (pi_guests inp) - ps_moved ps) < fuel \<Longrightarrow>
    \<exists>ps'. balance_loop fuel lc inp (sorted_guests lc inp) ps = Some ps'"
proof (induction fuel arbitrary: ps)
  case (Suc fuel)
  let ?sp = "state_spread (ps_state ps) (pi_method inp)"
  show ?case
  proof (cases "first_best inp ps (sorted_guests lc inp) ?sp (sources lc inp ps)")
    case (Some b)
    let ?next = "move_unit (be_unit b) (be_to b) Balance ps"
    from first_best_good[OF Some distinct_sorted_guests[OF assms]] have legal: "legal inp ps (be_unit b) (be_to b)"
      by (simp add: good_move_def)
    then have first: "hd (be_unit b) \<in> set (be_unit b)" "set (be_unit b) \<subseteq> set (pi_guests inp)" by (auto simp: legal_def)
    then have "be_to b \<in> set (allowed inp ps (hd (be_unit b)))" using legal by (auto simp: legal_def)
    then have "gkey (hd (be_unit b)) \<notin> ps_moved ps" by (rule allowed_fresh)
    with first have "gkey ` set (pi_guests inp) - ps_moved ?next \<subset> gkey ` set (pi_guests inp) - ps_moved ps"
      unfolding moved_unit by blast
    then have "card (gkey ` set (pi_guests inp) - ps_moved ?next) < card (gkey ` set (pi_guests inp) - ps_moved ps)"
      by (intro psubset_card_mono) auto
    with Suc.prems have "card (gkey ` set (pi_guests inp) - ps_moved ?next) < fuel" by linarith
    from Suc.IH[OF this] Some show ?thesis by (auto simp: Let_def record_unit not_less)
  qed (simp add: Let_def)
qed simp

section \<open>Properties\<close>

definition res3 :: "rat \<Rightarrow> resources" where
  "res3 x = \<lparr>rs_memory = x, rs_cpu = 0, rs_disk = 0\<rparr>"

definition two_members :: plan_input where
  "two_members = \<lparr>pi_members = [\<lparr>mb_name = ''a'', mb_maintenance = False, mb_total = res3 100, mb_used = res3 80\<rparr>,
       \<lparr>mb_name = ''b'', mb_maintenance = False, mb_total = res3 100, mb_used = res3 0\<rparr>],
     pi_guests = [\<lparr>gu_project = ''p'', gu_name = ''vm'', gu_member = ''a'', gu_type = ''container'', gu_running = True, gu_movable = True,
       gu_used = res3 40, gu_assigned = res3 40, gu_hints = \<lparr>h_affinity = None, h_antiAffinity = None, h_pin = None, h_balance = None\<rparr>\<rparr>],
     pi_method = Memory, pi_mode = Used, pi_balanciness = 10, pi_maxMoves = 5\<rparr>"

lemma two_members_wf: "input_wf two_members"
  by (simp add: input_wf_def two_members_def)

lemma plan_total: "input_wf inp \<Longrightarrow> \<exists>p. plan_of lc inp = Some p"
proof -
  assume wf: "input_wf inp"
  have "card (gkey ` set (pi_guests inp) - ps_moved (placed lc inp)) \<le> card (gkey ` set (pi_guests inp))"
    by (intro card_mono) auto
  also have "\<dots> \<le> length (pi_guests inp)" by (metis card_length list.set_map length_map)
  finally show ?thesis using loop_total[OF wf, of "placed lc inp" "Suc (length (pi_guests inp))" lc] by (auto simp: plan_of_def)
qed

lemma finish_moves [simp]: "pn_moves (finish_plan inp ps) = ps_moves ps"
  by (simp add: finish_plan_def Let_def add_note_def)

lemma plan_good:
  assumes "input_wf inp" and "plan_of lc inp = Some p" and "m \<in> set (pn_moves p)"
  shows "\<exists>g. good_for inp m g"
proof -
  obtain ps where "moves_ok inp ps" "p = finish_plan inp ps" by (rule plan_moves.J_final[OF assms(1,2)])
  with assms(3) show ?thesis by (simp add: moves_ok_def)
qed

text \<open>
  C34: Planning ends, with a plan whose last phase has done its work. For any members and guests the
  endless loop returns within one turn per guest and one more; it never raises the spread the
  earlier phases left, and stops only when the spread is within the threshold, when the
  policy's maximum is reached, or when no unit of any member has a legal move that lowers the spread.
\<close>

theorem plan_ends:
  assumes "input_wf inp"
  shows "\<exists>ps. plan_of lc inp = Some (finish_plan inp ps)
    \<and> state_spread (ps_state ps) (pi_method inp) \<le> state_spread (ps_state (placed lc inp)) (pi_method inp)
    \<and> (ps_capped ps \<or> state_spread (ps_state ps) (pi_method inp) \<le> pi_balanciness inp \<or> stuck lc inp ps)"
proof -
  from plan_total[OF assms, of lc] obtain ps where
    ps: "balance_loop (Suc (length (pi_guests inp))) lc inp (sorted_guests lc inp) (placed lc inp) = Some ps"
    by (auto simp: plan_of_def)
  then have "plan_of lc inp = Some (finish_plan inp ps)" by (simp add: plan_of_def)
  with loop_stops[OF assms ps] show ?thesis by blast
qed

theorem plan_ends_witness:
  "input_wf two_members \<and> (\<exists>ps. plan_of (\<lambda>_ _. 0) two_members = Some (finish_plan two_members ps))"
  using plan_ends[OF two_members_wf, of "\<lambda>_ _. 0"] two_members_wf by blast

text \<open>
  C35: Who a plan moves. It has at most the policy's number of moves and moves no guest twice; each
  move takes a guest that may be moved off the member it is on, which is not in maintenance, to
  another active member, one of those it is pinned to if it is pinned.
\<close>

theorem plan_moves_sound:
  assumes "input_wf inp" and "plan_of lc inp = Some p"
  shows "distinct (map mkey (pn_moves p)) \<and> int (length (pn_moves p)) \<le> max 0 (pi_maxMoves inp)
    \<and> (\<forall>m\<in>set (pn_moves p). \<exists>g. good_for inp m g)"
proof -
  obtain ps where "moves_ok inp ps" "p = finish_plan inp ps" by (rule plan_moves.J_final[OF assms])
  then show ?thesis by (simp add: moves_ok_def)
qed

theorem plan_moves_sound_witness:
  "\<exists>p. plan_of (\<lambda>_ _. 0) two_members = Some p \<and> int (length (pn_moves p)) \<le> 5"
proof -
  obtain p where p: "plan_of (\<lambda>_ _. 0) two_members = Some p" using plan_total[OF two_members_wf] by blast
  from plan_moves_sound[OF two_members_wf p] p show ?thesis by (simp add: two_members_def)
qed

text \<open>
  C36: A plan overfills no member and splits no pair: once its moves are made no member holds more
  of the balanced resource than its capacity, unless it did before; and no two guests of one
  anti-affinity group share a member unless they did before.
\<close>

theorem plan_keeps_limits:
  assumes "input_wf inp" and "sizes_ok inp"
    and "balance_loop fuel lc inp (sorted_guests lc inp) (placed lc inp) = Some ps"
  shows "(\<forall>m. load_of (ps_state ps) m (pi_method inp)
       \<le> max (load_of (ps_state (start inp)) m (pi_method inp)) (total_of (pi_members inp) m (pi_method inp)))
    \<and> (\<forall>g\<in>set (pi_guests inp). \<forall>h\<in>set (pi_guests inp). apart g h
         \<longrightarrow> where_is (ps_state ps) g = where_is (ps_state ps) h \<longrightarrow> gu_member g = gu_member h)"
proof -
  have "loads_ok inp ps"
    using plan_loads.J_loop[OF assms(3) plan_loads.J_placed[OF assms(1)]] by (simp add: plan_loads.J_def)
  moreover have "anti_ok inp ps"
    using plan_anti.J_loop[OF assms(3) plan_anti.J_placed[OF assms(1)]] by (simp add: plan_anti.J_def)
  ultimately show ?thesis using assms(2) by (simp add: loads_ok_def anti_ok_def)
qed

theorem plan_keeps_limits_witness:
  "\<exists>ps. balance_loop 2 (\<lambda>_ _. 0) two_members (sorted_guests (\<lambda>_ _. 0) two_members) (placed (\<lambda>_ _. 0) two_members) = Some ps
     \<and> load_of (ps_state ps) ''b'' Memory \<le> max (load_of (ps_state (start two_members)) ''b'' Memory) (total_of (pi_members two_members) ''b'' Memory)"
proof -
  have sizes: "sizes_ok two_members"
  proof -
    have "0 \<le> rs_at (res3 40) r" for r by (cases r) (simp_all add: res3_def rs_at.simps)
    then show ?thesis by (simp add: sizes_ok_def two_members_def)
  qed
  obtain ps where ps: "balance_loop 2 (\<lambda>_ _. 0) two_members (sorted_guests (\<lambda>_ _. 0) two_members) (placed (\<lambda>_ _. 0) two_members) = Some ps"
    using plan_total[OF two_members_wf, of "\<lambda>_ _. 0"] by (auto simp: plan_of_def two_members_def numeral_2_eq_2)
  have "pi_method two_members = Memory" by (simp add: two_members_def)
  with plan_keeps_limits[OF two_members_wf sizes ps] ps show ?thesis by auto
qed

end
