(* ===== verification/Inventory.thy ===== *)
theory Inventory
  imports Engine_Plan Tenants
begin

text \<open>
  What an inventory pass reads (the types, \<open>hintsOf\<close>, \<open>instanceOf\<close> and \<open>memberOf\<close> of
  \<^verbatim>\<open>fleet/collect.ts\<close>), the engine's view of it under a policy (\<^verbatim>\<open>balancing/model.ts\<close>), the plan of a
  cluster (\<open>planCluster\<close> of \<^verbatim>\<open>balancing/jobs.ts\<close>) and the suggestions across clusters
  (\<^verbatim>\<open>balancing/suggest.ts\<close>).
\<close>

section \<open>A pass over a cluster\<close>

record member_snapshot =
  ms_name :: string
  ms_url :: string
  ms_status :: string
  ms_roles :: "string list"
  ms_groups :: "string list"
  ms_architecture :: string
  ms_cpuThreads :: int
  ms_memoryTotal :: int
  ms_memoryUsed :: int
  ms_load1 :: "rat option"
  ms_uptimeS :: "int option"

record instance_snapshot =
  is_project :: string
  is_name :: string
  is_type :: string
  is_status :: string
  is_location :: string
  is_description :: string
  is_architecture :: string
  is_createdAt :: string
  is_imageOs :: string
  is_imageRelease :: string
  is_limitsCpu :: string
  is_limitsMemory :: string
  is_cpuNs :: "int option"
  is_memoryUsed :: "int option"
  is_memoryTotal :: "int option"
  is_diskUsed :: "int option"
  is_netRx :: "int option"
  is_netTx :: "int option"
  is_addresses :: "string list"
  is_hints :: hints
  is_stateful :: bool
  is_snapshots :: int

record pool_snapshot =
  po_member :: string
  po_name :: string
  po_driver :: string
  po_status :: string
  po_spaceTotal :: "int option"
  po_spaceUsed :: "int option"

record network_snapshot =
  ns_project :: string
  ns_name :: string
  ns_type :: string
  ns_managed :: bool
  ns_status :: string
  ns_description :: string

record snapshot_of =
  sp_clustered :: bool
  sp_members :: "member_snapshot list"
  sp_instances :: "instance_snapshot list"
  sp_pools :: "pool_snapshot list"
  sp_networks :: "network_snapshot list"

text \<open>The parts of Incus's JSON read here: absent fields and nulls are \<open>None\<close>.\<close>

record incus_nic =
  nc_type :: string
  nc_received :: "int option"
  nc_sent :: "int option"
  nc_addresses :: "string list"

record incus_state =
  ic_cpu :: "int option"
  ic_memory :: "int option"
  ic_memoryTotal :: "int option"
  ic_disk :: "(string, int option) jsmap"
  ic_network :: "(string, incus_nic) jsmap"

record incus_instance =
  ii_name :: string
  ii_project :: string
  ii_type :: string
  ii_status :: string
  ii_location :: string
  ii_description :: "string option"
  ii_architecture :: "string option"
  ii_created_at :: string
  ii_expanded_config :: "(string, string) jsmap"
  ii_snapshots :: "nat option"
  ii_state :: "incus_state option"

definition trim :: "string \<Rightarrow> string" where
  "trim s = rev (dropWhile is_space (rev (dropWhile is_space s)))"

definition cfg_text :: "(string, string) jsmap \<Rightarrow> string \<Rightarrow> string" where
  "cfg_text cfg k = (case m_get cfg k of None \<Rightarrow> [] | Some v \<Rightarrow> v)"

definition nonempty :: "string \<Rightarrow> string option" where
  "nonempty s = (if s = [] then None else Some s)"

definition hintsOf :: "(string, string) jsmap \<Rightarrow> hints" where
  "hintsOf cfg = \<lparr>
     h_affinity = nonempty (trim (cfg_text cfg ''user.incuscloud.affinity'')),
     h_antiAffinity = nonempty (trim (cfg_text cfg ''user.incuscloud.anti-affinity'')),
     h_pin = (let pin = filter (\<lambda>m. m \<noteq> []) (map trim (split_on CHR '','' (cfg_text cfg ''user.incuscloud.pin'')))
              in if pin = [] then None else Some pin),
     h_balance = (let b = map to_lower (trim (cfg_text cfg ''user.incuscloud.balance''))
                  in if b = ''false'' then Some False else if b = ''true'' then Some True else None)\<rparr>"

definition ACTIVE_STATES :: "string set" where
  "ACTIVE_STATES = {''Running'', ''Frozen''}"

definition linkLocal :: "string \<Rightarrow> bool" where
  "linkLocal a \<longleftrightarrow> length a \<ge> 5 \<and> map to_lower (take 2 a) = ''fe'' \<and> to_lower (a ! 2) \<in> set ''89ab'' \<and> hex_digit (a ! 3) \<and> a ! 4 = CHR '':''"

definition opt0 :: "int option \<Rightarrow> int" where
  "opt0 v = (case v of None \<Rightarrow> 0 | Some n \<Rightarrow> n)"

definition instanceOf :: "incus_instance \<Rightarrow> instance_snapshot" where
  "instanceOf i =
    (let cfg = ii_expanded_config i;
         st = (if ii_status i \<in> ACTIVE_STATES then ii_state i else None);
         disks = filter (\<lambda>u. u \<ge> 0) (map (\<lambda>d. case snd d of None \<Rightarrow> - 1 | Some u \<Rightarrow> u) (case st of None \<Rightarrow> [] | Some x \<Rightarrow> ic_disk x));
         nics = filter (\<lambda>n. nc_type n \<noteq> ''loopback'') (map snd (case st of None \<Rightarrow> [] | Some x \<Rightarrow> ic_network x))
     in \<lparr>is_project = ii_project i, is_name = ii_name i, is_type = ii_type i, is_status = ii_status i,
         is_location = (if ii_location i \<noteq> [] \<and> ii_location i \<noteq> ''none'' then ii_location i else []),
         is_description = (case ii_description i of None \<Rightarrow> [] | Some d \<Rightarrow> d),
         is_architecture = (case ii_architecture i of None \<Rightarrow> [] | Some a \<Rightarrow> a),
         is_createdAt = ii_created_at i,
         is_imageOs = cfg_text cfg ''image.os'', is_imageRelease = cfg_text cfg ''image.release'',
         is_limitsCpu = cfg_text cfg ''limits.cpu'', is_limitsMemory = cfg_text cfg ''limits.memory'',
         is_cpuNs = Option.bind st ic_cpu, is_memoryUsed = Option.bind st ic_memory,
         is_memoryTotal = (case Option.bind st ic_memoryTotal of Some n \<Rightarrow> if n = 0 then None else Some n | None \<Rightarrow> None),
         is_diskUsed = (if disks = [] then None else Some (sum_list disks)),
         is_netRx = (if st = None then None else Some (sum_list (map (\<lambda>n. opt0 (nc_received n)) nics))),
         is_netTx = (if st = None then None else Some (sum_list (map (\<lambda>n. opt0 (nc_sent n)) nics))),
         is_addresses = filter (\<lambda>a. \<not> linkLocal a) (concat (map nc_addresses nics)),
         is_hints = hintsOf cfg,
         is_stateful = (ii_type i = ''virtual-machine'' \<and> m_get cfg ''migration.stateful'' = Some ''true''),
         is_snapshots = (case ii_snapshots i of None \<Rightarrow> 0 | Some n \<Rightarrow> int n)\<rparr>)"

section \<open>The engine's view of a pass\<close>

record policy =
  py_method :: meth
  py_mode :: mode
  py_balanciness :: rat
  py_maxMoves :: int
  py_allowRestart :: bool
  py_excludeMembers :: "string list"
  py_excludeProjects :: "string list"

definition DEFAULT_POLICY :: policy where
  "DEFAULT_POLICY = \<lparr>py_method = Memory, py_mode = Used, py_balanciness = 10, py_maxMoves = 5, py_allowRestart = False,
     py_excludeMembers = [], py_excludeProjects = []\<rparr>"

definition UNITS :: "(string, rat) jsmap" where
  "UNITS = [([], 1), (''B'', 1), (''kB'', 1000), (''MB'', 10 ^ 6), (''GB'', 10 ^ 9), (''TB'', 10 ^ 12),
     (''KiB'', 1024), (''MiB'', 1024 ^ 2), (''GiB'', 1024 ^ 3), (''TiB'', 1024 ^ 4)]"

definition unit_matches :: "string \<Rightarrow> bool" where
  "unit_matches u \<longleftrightarrow> u \<in> set [[], ''B''] \<or>
     (\<exists>c\<in>set ''kMGT''. u = [c, CHR ''B''] \<or> u = [c, CHR ''i'', CHR ''B''])"

definition size_bytes :: "string \<Rightarrow> int option" where
  "size_bytes v =
    (case decimal_of (dropWhile is_space v) of
       None \<Rightarrow> None
     | Some (n, rest) \<Rightarrow>
         let u = trim rest in
         if \<not> unit_matches u then None else map_option (\<lambda>f. js_round (n * f)) (m_get UNITS u))"

definition cpu_part :: "string \<Rightarrow> int option" where
  "cpu_part p =
    (let t = trim p; a = takeWhile is_digit t; rest = dropWhile is_digit t in
     if a = [] then None
     else case rest of
       [] \<Rightarrow> Some 1
     | c # b \<Rightarrow> if c = CHR ''-'' \<and> b \<noteq> [] \<and> list_all is_digit b
         then Some (int (digits_value b) - int (digits_value a) + 1) else None)"

fun cpu_parts :: "string list \<Rightarrow> int option" where
  "cpu_parts [] = Some 0"
| "cpu_parts (p # ps) = (case cpu_part p of None \<Rightarrow> None | Some n \<Rightarrow> map_option (\<lambda>m. n + m) (cpu_parts ps))"

definition cpusOf :: "string \<Rightarrow> int option" where
  "cpusOf v =
    (let s = trim v in
     if s = [] then None
     else if list_all is_digit s then Some (int (digits_value s))
     else cpu_parts (split_on CHR '','' s))"

definition movable :: "policy \<Rightarrow> instance_snapshot \<Rightarrow> bool" where
  "movable p i =
    (if is_project i \<in> set (py_excludeProjects p) then False
     else if is_status i = ''Stopped'' then True
     else if is_status i \<noteq> ''Running'' then False
     else is_stateful i \<or> py_allowRestart p)"

definition model_member :: "snapshot_of \<Rightarrow> policy \<Rightarrow> member_snapshot \<Rightarrow> member" where
  "model_member s p m =
    (let pools = filter (\<lambda>x. po_member x = ms_name m) (sp_pools s) in \<lparr>
       mb_name = ms_name m,
       mb_maintenance = (ms_status m \<noteq> ''Online'' \<or> ms_name m \<in> set (py_excludeMembers p)),
       mb_total = \<lparr>rs_memory = of_int (ms_memoryTotal m), rs_cpu = of_int (ms_cpuThreads m),
         rs_disk = of_int (sum_list (map (\<lambda>x. opt0 (po_spaceTotal x)) pools))\<rparr>,
       mb_used = \<lparr>rs_memory = of_int (ms_memoryUsed m), rs_cpu = (case ms_load1 m of None \<Rightarrow> 0 | Some l \<Rightarrow> l),
         rs_disk = of_int (sum_list (map (\<lambda>x. opt0 (po_spaceUsed x)) pools))\<rparr>\<rparr>)"

definition model_guest :: "policy \<Rightarrow> (string, rat) jsmap \<Rightarrow> instance_snapshot \<Rightarrow> guest" where
  "model_guest p cpuRates i =
    (let running = (is_status i = ''Running''); disk = of_int (opt0 (is_diskUsed i)) in \<lparr>
       gu_project = is_project i, gu_name = is_name i, gu_member = is_location i, gu_type = is_type i,
       gu_running = running, gu_movable = movable p i,
       gu_used = \<lparr>rs_memory = (if running then of_int (opt0 (is_memoryUsed i)) else 0),
         rs_cpu = (if running then (case m_get cpuRates (is_project i @ ''/'' @ is_name i) of None \<Rightarrow> 0 | Some r \<Rightarrow> r) else 0),
         rs_disk = disk\<rparr>,
       gu_assigned = \<lparr>rs_memory = of_int (case size_bytes (is_limitsMemory i) of Some n \<Rightarrow> n | None \<Rightarrow> opt0 (is_memoryUsed i)),
         rs_cpu = of_int (case cpusOf (is_limitsCpu i) of Some n \<Rightarrow> n | None \<Rightarrow> 1), rs_disk = disk\<rparr>,
       gu_hints = is_hints i\<rparr>)"

definition modelOf :: "snapshot_of \<Rightarrow> policy \<Rightarrow> (string, rat) jsmap \<Rightarrow> member list \<times> guest list" where
  "modelOf s p cpuRates =
    (let members = map (model_member s p) (sp_members s) in
     (members, map (model_guest p cpuRates) (filter (\<lambda>i. is_location i \<in> mb_name ` set members) (sp_instances s))))"

text \<open>\<open>snap\<close> is what \<open>collectInventory\<close> read, \<open>rates\<close> the CPU rates the inventory holds.\<close>

definition plan_input_of :: "snapshot_of \<Rightarrow> policy \<Rightarrow> (string, rat) jsmap \<Rightarrow> plan_input" where
  "plan_input_of s p rates = \<lparr>pi_members = fst (modelOf s p rates), pi_guests = snd (modelOf s p rates),
     pi_method = py_method p, pi_mode = py_mode p, pi_balanciness = py_balanciness p, pi_maxMoves = py_maxMoves p\<rparr>"

definition planCluster :: "(string \<Rightarrow> string \<Rightarrow> rat) \<Rightarrow> snapshot_of result \<Rightarrow> policy \<Rightarrow> (string, rat) jsmap \<Rightarrow> (plan option \<times> snapshot_of) result" where
  "planCluster lc snap p rates = then_do snap (\<lambda>s.
    if \<not> sp_clustered s
    then Inl (ApiError 409 ''not_a_cluster'' ''This is a standalone server, not a cluster: there is nothing to balance between'')
    else let restartOnly = length (filter (\<lambda>i. is_status i = ''Running'' \<and> \<not> is_stateful i \<and> \<not> py_allowRestart p
                 \<and> is_project i \<notin> set (py_excludeProjects p)) (sp_instances s));
             note = show_int (int restartOnly) @ '' running instance'' @ (if restartOnly = 1 then [] else ''s'')
                @ '' can only move with a restart, which the policy does not allow''
      in Inr (map_option (\<lambda>r. if restartOnly \<noteq> 0 then r\<lparr>pn_notes := pn_notes r @ [note]\<rparr> else r) (plan_of lc (plan_input_of s p rates)), s))"

section \<open>Suggestions across clusters\<close>

record sg_cluster =
  sc_id :: string
  sc_name :: string
  sc_memoryTotal :: int
  sc_memoryUsed :: int

record sg_placement =
  sg_tenantId :: string
  sg_tenantSlug :: string
  sg_clusterId :: string
  sg_project :: string

record sg_instance =
  si_id :: string
  si_clusterId :: string
  si_project :: string
  si_name :: string
  si_status :: string
  si_memoryUsed :: "int option"

record suggest_input =
  su_threshold :: rat
  su_clusters :: "sg_cluster list"
  su_placements :: "sg_placement list"
  su_instances :: "sg_instance list"

record suggestion =
  sn_tenantId :: string
  sn_tenantSlug :: string
  sn_instanceId :: string
  sn_project :: string
  sn_name :: string
  sn_memoryBytes :: int
  sn_fromClusterId :: string
  sn_fromClusterName :: string
  sn_toClusterId :: string
  sn_toClusterName :: string
  sn_toProject :: string
  sn_reason :: string

definition PER_TENANT :: nat where
  "PER_TENANT = 5"

definition pct :: "int \<Rightarrow> int \<Rightarrow> rat" where
  "pct used cap = of_int used / of_int cap * 100"

definition sized_clusters :: "suggest_input \<Rightarrow> (string, sg_cluster) jsmap" where
  "sized_clusters inp = m_of (map (\<lambda>c. (sc_id c, c)) (filter (\<lambda>c. sc_memoryTotal c > 0) (su_clusters inp)))"

definition byTenant :: "suggest_input \<Rightarrow> (string, sg_placement list) jsmap" where
  "byTenant inp = fold (\<lambda>p m. if m_get (sized_clusters inp) (sg_clusterId p) \<noteq> None then m_push m (sg_tenantId p) p else m)
     (su_placements inp) []"

definition gap :: "sg_cluster \<Rightarrow> sg_cluster \<Rightarrow> int \<Rightarrow> int \<Rightarrow> rat" where
  "gap hot cool hotUsed coolUsed = pct hotUsed (sc_memoryTotal hot) - pct coolUsed (sc_memoryTotal cool)"

text \<open>The loop over a tenant's candidates: which it takes, given how many it took and the use so far.\<close>

fun narrow :: "sg_cluster \<Rightarrow> sg_cluster \<Rightarrow> rat \<Rightarrow> nat \<Rightarrow> int \<Rightarrow> int \<Rightarrow> sg_instance list \<Rightarrow> sg_instance list" where
  "narrow hot cool thr n hu cu [] = []"
| "narrow hot cool thr n hu cu (i # rest) =
    (if n \<ge> PER_TENANT \<or> \<bar>gap hot cool hu cu\<bar> \<le> thr then []
     else let m = opt0 (si_memoryUsed i) in
       if \<bar>gap hot cool (hu - m) (cu + m)\<bar> \<ge> \<bar>gap hot cool hu cu\<bar> then narrow hot cool thr n hu cu rest
       else i # narrow hot cool thr (Suc n) (hu - m) (cu + m) rest)"

definition ranked :: "(string \<Rightarrow> string \<Rightarrow> rat) \<Rightarrow> (string, sg_cluster) jsmap \<Rightarrow> sg_placement list \<Rightarrow> sg_placement list" where
  "ranked lc clusters places =
    (let p = (\<lambda>x. let c = the (m_get clusters (sg_clusterId x)) in pct (sc_memoryUsed c) (sc_memoryTotal c)) in
     sort_by (\<lambda>a b. if p b - p a \<noteq> 0 then p b - p a else lc (sg_clusterId a) (sg_clusterId b)) places)"

definition hot_candidates :: "(string \<Rightarrow> string \<Rightarrow> rat) \<Rightarrow> suggest_input \<Rightarrow> sg_cluster \<Rightarrow> string \<Rightarrow> sg_instance list" where
  "hot_candidates lc inp hot project =
     sort_by (\<lambda>a b. if opt0 (si_memoryUsed b) - opt0 (si_memoryUsed a) \<noteq> 0 then of_int (opt0 (si_memoryUsed b) - opt0 (si_memoryUsed a))
         else lc (si_name a) (si_name b))
       (filter (\<lambda>i. si_clusterId i = sc_id hot \<and> si_project i = project \<and> si_status i = ''Running'' \<and> opt0 (si_memoryUsed i) > 0)
         (su_instances inp))"

definition tenant_suggestions :: "(string \<Rightarrow> string \<Rightarrow> rat) \<Rightarrow> suggest_input \<Rightarrow> string \<times> sg_placement list \<Rightarrow> suggestion list" where
  "tenant_suggestions lc inp t =
    (let places = snd t; clusters = sized_clusters inp in
     if length places < 2 then []
     else let r = ranked lc clusters places; hotP = hd r; coolP = last r;
              hot = the (m_get clusters (sg_clusterId hotP)); cool = the (m_get clusters (sg_clusterId coolP)) in
       if gap hot cool (sc_memoryUsed hot) (sc_memoryUsed cool) \<le> su_threshold inp then []
       else let reason = sc_name hot @ '' is at '' @ show_int (js_round (pct (sc_memoryUsed hot) (sc_memoryTotal hot)))
              @ ''% memory, '' @ sc_name cool @ '' at '' @ show_int (js_round (pct (sc_memoryUsed cool) (sc_memoryTotal cool))) @ ''%''
         in map (\<lambda>i. \<lparr>sn_tenantId = fst t, sn_tenantSlug = sg_tenantSlug hotP, sn_instanceId = si_id i, sn_project = si_project i,
              sn_name = si_name i, sn_memoryBytes = opt0 (si_memoryUsed i), sn_fromClusterId = sc_id hot, sn_fromClusterName = sc_name hot,
              sn_toClusterId = sc_id cool, sn_toClusterName = sc_name cool, sn_toProject = sg_project coolP, sn_reason = reason\<rparr>)
            (narrow hot cool (su_threshold inp) 0 (sc_memoryUsed hot) (sc_memoryUsed cool) (hot_candidates lc inp hot (sg_project hotP))))"

definition suggest :: "(string \<Rightarrow> string \<Rightarrow> rat) \<Rightarrow> suggest_input \<Rightarrow> suggestion list" where
  "suggest lc inp = concat (map (tenant_suggestions lc inp) (sort_by (\<lambda>a b. lc (fst a) (fst b)) (byTenant inp)))"

section \<open>Facts\<close>

lemma narrow_subset: "set (narrow hot cool thr n hu cu is) \<subseteq> set is"
  by (induction hot cool thr n hu cu "is" rule: narrow.induct) (auto simp: Let_def)

lemma narrow_length: "length (narrow hot cool thr n hu cu is) \<le> PER_TENANT - n"
proof (induction hot cool thr n hu cu "is" rule: narrow.induct)
  case (2 hot cool thr n hu cu i rest)
  then show ?case by (auto simp: Let_def not_le)
qed simp

definition moved_bytes :: "sg_instance list \<Rightarrow> int" where
  "moved_bytes is = sum_list (map (\<lambda>i. opt0 (si_memoryUsed i)) is)"

lemma narrow_gap:
  "let b = moved_bytes (narrow hot cool thr n hu cu is) in
     \<bar>gap hot cool (hu - b) (cu + b)\<bar> \<le> \<bar>gap hot cool hu cu\<bar>
     \<and> (narrow hot cool thr n hu cu is \<noteq> [] \<longrightarrow> \<bar>gap hot cool (hu - b) (cu + b)\<bar> < \<bar>gap hot cool hu cu\<bar>)"
proof (induction hot cool thr n hu cu "is" rule: narrow.induct)
  case (2 hot cool thr n hu cu i rest)
  let ?m = "opt0 (si_memoryUsed i)"
  show ?case
  proof (cases "n \<ge> PER_TENANT \<or> \<bar>gap hot cool hu cu\<bar> \<le> thr")
    case False
    show ?thesis
    proof (cases "\<bar>gap hot cool (hu - ?m) (cu + ?m)\<bar> \<ge> \<bar>gap hot cool hu cu\<bar>")
      case True
      with False 2 show ?thesis by (simp add: Let_def)
    next
      case less: False
      let ?t = "narrow hot cool thr (Suc n) (hu - ?m) (cu + ?m) rest"
      have "\<bar>gap hot cool (hu - ?m - moved_bytes ?t) (cu + ?m + moved_bytes ?t)\<bar> \<le> \<bar>gap hot cool (hu - ?m) (cu + ?m)\<bar>"
        using 2(2) False less by (simp add: Let_def)
      moreover have "narrow hot cool thr n hu cu (i # rest) = i # ?t" using False less by (simp add: Let_def)
      moreover have "moved_bytes (i # ?t) = ?m + moved_bytes ?t" by (simp add: moved_bytes_def)
      ultimately show ?thesis using less by (simp add: Let_def algebra_simps)
    qed
  qed (simp add: moved_bytes_def)
qed (simp add: moved_bytes_def)

lemma byTenant_eq:
  "byTenant inp = groupBy sg_tenantId (filter (\<lambda>p. m_get (sized_clusters inp) (sg_clusterId p) \<noteq> None) (su_placements inp))"
proof -
  have "fold (\<lambda>p m. if P p then m_push m (sg_tenantId p) p else m) ps m = fold (\<lambda>p m. m_push m (sg_tenantId p) p) (filter P ps) m"
    for P ps and m :: "(string, sg_placement list) jsmap" by (induction ps arbitrary: m) simp_all
  then show ?thesis unfolding byTenant_def groupBy_def .
qed

lemma byTenant_placed: "t \<in> set (byTenant inp) \<Longrightarrow> p \<in> set (snd t) \<Longrightarrow> m_get (sized_clusters inp) (sg_clusterId p) \<noteq> None"
  using groupBy_mem[of "fst t" "snd t"] unfolding byTenant_eq by force

lemma sized_id: "m_get (sized_clusters inp) k = Some c \<Longrightarrow> sc_id c = k \<and> c \<in> set (su_clusters inp) \<and> sc_memoryTotal c > 0"
  by (auto simp: sized_clusters_def m_get_of dest!: find_mem)

lemma model_names: "map mb_name (fst (modelOf s p rates)) = map ms_name (sp_members s)"
  by (simp add: modelOf_def Let_def model_member_def o_def)

lemma model_gkey: "gkey (model_guest p rates i) = is_project i @ ''/'' @ is_name i"
  by (simp add: gkey_def model_guest_def Let_def)

definition snapshot_wf :: "snapshot_of \<Rightarrow> bool" where
  "snapshot_wf s \<longleftrightarrow> distinct (map ms_name (sp_members s)) \<and> distinct (map (\<lambda>i. is_project i @ ''/'' @ is_name i) (sp_instances s))"

lemma plan_input_wf: "snapshot_wf s \<Longrightarrow> input_wf (plan_input_of s p rates)"
  unfolding input_wf_def plan_input_of_def plan_input.simps model_names
  by (auto simp: snapshot_wf_def modelOf_def Let_def o_def model_gkey distinct_map inj_on_def)

section \<open>Properties\<close>

definition two_clusters :: suggest_input where
  "two_clusters = \<lparr>su_threshold = 10,
     su_clusters = [\<lparr>sc_id = ''c1'', sc_name = ''one'', sc_memoryTotal = 100, sc_memoryUsed = 90\<rparr>,
       \<lparr>sc_id = ''c2'', sc_name = ''two'', sc_memoryTotal = 100, sc_memoryUsed = 10\<rparr>],
     su_placements = [\<lparr>sg_tenantId = ''t'', sg_tenantSlug = ''t'', sg_clusterId = ''c1'', sg_project = ''p''\<rparr>,
       \<lparr>sg_tenantId = ''t'', sg_tenantSlug = ''t'', sg_clusterId = ''c2'', sg_project = ''q''\<rparr>],
     su_instances = [\<lparr>si_id = ''i'', si_clusterId = ''c1'', si_project = ''p'', si_name = ''vm'', si_status = ''Running'', si_memoryUsed = Some 30\<rparr>]\<rparr>"

definition hot_tenant :: "string \<times> sg_placement list" where
  "hot_tenant = (''t'', [\<lparr>sg_tenantId = ''t'', sg_tenantSlug = ''t'', sg_clusterId = ''c1'', sg_project = ''p''\<rparr>,
     \<lparr>sg_tenantId = ''t'', sg_tenantSlug = ''t'', sg_clusterId = ''c2'', sg_project = ''q''\<rparr>])"

definition one_vm :: snapshot_of where
  "one_vm = \<lparr>sp_clustered = True,
     sp_members = map (\<lambda>(n, u). \<lparr>ms_name = n, ms_url = [], ms_status = ''Online'', ms_roles = [], ms_groups = [], ms_architecture = [],
       ms_cpuThreads = 8, ms_memoryTotal = 100, ms_memoryUsed = u, ms_load1 = None, ms_uptimeS = None\<rparr>) [(''a'', 80), (''b'', 0)],
     sp_instances = [\<lparr>is_project = ''p'', is_name = ''vm'', is_type = ''container'', is_status = ''Stopped'', is_location = ''a'',
       is_description = [], is_architecture = [], is_createdAt = [], is_imageOs = [], is_imageRelease = [], is_limitsCpu = [], is_limitsMemory = [],
       is_cpuNs = None, is_memoryUsed = None, is_memoryTotal = None, is_diskUsed = None, is_netRx = None, is_netTx = None, is_addresses = [],
       is_hints = hintsOf [], is_stateful = False, is_snapshots = 0\<rparr>],
     sp_pools = [], sp_networks = []\<rparr>"

text \<open>
  A cluster's plan respects its policy: whatever was read from the cluster, a move takes an
  instance that was read there, of a project the policy does not exclude, that is stopped, can
  move live, or may be restarted; and takes it to an online member the policy does not exclude.
  A standalone server is refused.
\<close>

theorem plan_respects_policy:
  assumes "snapshot_wf s" and "planCluster lc (Inr s) p rates = r"
  shows "if \<not> sp_clustered s then \<exists>msg. r = Inl (ApiError 409 ''not_a_cluster'' msg)
    else \<exists>pl. r = Inr (Some pl, s) \<and> (\<forall>m\<in>set (pn_moves pl).
      (\<exists>i\<in>set (sp_instances s). is_project i = mv_project m \<and> is_name i = mv_name m \<and> is_location i = mv_from m
         \<and> is_project i \<notin> set (py_excludeProjects p)
         \<and> (is_status i = ''Stopped'' \<or> (is_status i = ''Running'' \<and> (is_stateful i \<or> py_allowRestart p))))
      \<and> (\<exists>x\<in>set (sp_members s). ms_name x = mv_to m \<and> ms_status x = ''Online'' \<and> ms_name x \<notin> set (py_excludeMembers p)))"
proof (cases "sp_clustered s")
  case True
  let ?inp = "plan_input_of s p rates"
  note wf = plan_input_wf[OF assms(1), of p rates]
  obtain q where q: "plan_of lc ?inp = Some q" using plan_total[OF wf] by blast
  then obtain pl where r: "r = Inr (Some pl, s)" and moves: "pn_moves pl = pn_moves q"
    using True assms(2) by (auto simp: planCluster_def Let_def)
  have "(\<exists>i\<in>set (sp_instances s). is_project i = mv_project m \<and> is_name i = mv_name m \<and> is_location i = mv_from m
         \<and> is_project i \<notin> set (py_excludeProjects p)
         \<and> (is_status i = ''Stopped'' \<or> (is_status i = ''Running'' \<and> (is_stateful i \<or> py_allowRestart p))))
      \<and> (\<exists>x\<in>set (sp_members s). ms_name x = mv_to m \<and> ms_status x = ''Online'' \<and> ms_name x \<notin> set (py_excludeMembers p))"
    if m: "m \<in> set (pn_moves q)" for m
  proof -
    obtain g where g: "good_for ?inp m g" using plan_good[OF wf q m] by blast
    then obtain i where i: "i \<in> set (sp_instances s)" "g = model_guest p rates i"
      by (auto simp: good_for_def plan_input_of_def modelOf_def Let_def)
    from g obtain x where x: "x \<in> set (sp_members s)" "mv_to m = ms_name x" "\<not> mb_maintenance (model_member s p x)"
      by (auto simp: good_for_def plan_input_of_def modelOf_def Let_def activeNames_def active_def model_member_def)
    have "\<exists>x\<in>set (sp_members s). ms_name x = mv_to m \<and> ms_status x = ''Online'' \<and> ms_name x \<notin> set (py_excludeMembers p)"
      using x by (intro bexI[of _ x]) (simp_all add: model_member_def Let_def)
    moreover have "movable p i" "is_project i = mv_project m" "is_name i = mv_name m" "is_location i = mv_from m"
      using g i(2) by (simp_all add: good_for_def model_guest_def Let_def)
    ultimately show ?thesis using i(1) by (auto simp: movable_def split: if_splits)
  qed
  then show ?thesis using True r moves by simp
qed (use assms(2) in \<open>auto simp: planCluster_def\<close>)

theorem plan_respects_policy_witness:
  "snapshot_wf one_vm \<and> (\<exists>pl. planCluster (\<lambda>_ _. 0) (Inr one_vm) DEFAULT_POLICY [] = Inr (Some pl, one_vm))"
proof -
  have wf: "snapshot_wf one_vm" and c: "sp_clustered one_vm" by (simp_all add: snapshot_wf_def one_vm_def)
  from plan_respects_policy[OF wf refl, of "\<lambda>_ _. 0" DEFAULT_POLICY "[]"] c wf show ?thesis by auto
qed

text \<open>
  Suggestions narrow a real gap. A tenant gets suggestions only when it is on two sized clusters
  whose memory use differs by more than the threshold; at most five, each a running instance of
  its project on the fuller one, for its project on the emptier one; and carrying them all out leaves
  the two strictly closer together than they were.
\<close>

theorem suggest_narrows:
  assumes "t \<in> set (byTenant inp)" and "tenant_suggestions lc inp t \<noteq> []"
  shows "\<exists>hotP coolP hot cool. hotP \<in> set (snd t) \<and> coolP \<in> set (snd t)
    \<and> hot \<in> set (su_clusters inp) \<and> cool \<in> set (su_clusters inp) \<and> sc_id hot = sg_clusterId hotP \<and> sc_id cool = sg_clusterId coolP
    \<and> gap hot cool (sc_memoryUsed hot) (sc_memoryUsed cool) > su_threshold inp
    \<and> length (tenant_suggestions lc inp t) \<le> 5
    \<and> (\<forall>x\<in>set (tenant_suggestions lc inp t). sn_fromClusterId x = sc_id hot \<and> sn_toClusterId x = sc_id cool \<and> sn_toProject x = sg_project coolP
         \<and> (\<exists>i\<in>set (su_instances inp). si_id i = sn_instanceId x \<and> si_clusterId i = sc_id hot \<and> si_project i = sg_project hotP
              \<and> si_status i = ''Running'' \<and> opt0 (si_memoryUsed i) = sn_memoryBytes x))
    \<and> (let b = sum_list (map sn_memoryBytes (tenant_suggestions lc inp t)) in
         \<bar>gap hot cool (sc_memoryUsed hot - b) (sc_memoryUsed cool + b)\<bar> < \<bar>gap hot cool (sc_memoryUsed hot) (sc_memoryUsed cool)\<bar>)"
proof -
  define r where "r = ranked lc (sized_clusters inp) (snd t)"
  define hot where "hot = the (m_get (sized_clusters inp) (sg_clusterId (hd r)))"
  define cool where "cool = the (m_get (sized_clusters inp) (sg_clusterId (last r)))"
  define taken where "taken = narrow hot cool (su_threshold inp) 0 (sc_memoryUsed hot) (sc_memoryUsed cool)
    (hot_candidates lc inp hot (sg_project (hd r)))"
  have two: "\<not> length (snd t) < 2" using assms(2) by (auto simp: tenant_suggestions_def)
  then have "r \<noteq> []" by (auto simp: r_def ranked_def Let_def)
  moreover have set_r: "set r = set (snd t)" by (simp add: r_def ranked_def Let_def)
  ultimately have ends: "hd r \<in> set (snd t)" "last r \<in> set (snd t)" by (metis hd_in_set, metis last_in_set)
  have sized: "m_get (sized_clusters inp) (sg_clusterId (hd r)) = Some hot" "m_get (sized_clusters inp) (sg_clusterId (last r)) = Some cool"
    using byTenant_placed[OF assms(1)] ends unfolding hot_def cool_def by auto
  have body: "\<exists>reason. tenant_suggestions lc inp t =
      (if gap hot cool (sc_memoryUsed hot) (sc_memoryUsed cool) \<le> su_threshold inp then [] else map (\<lambda>i. \<lparr>sn_tenantId = fst t, sn_tenantSlug = sg_tenantSlug (hd r), sn_instanceId = si_id i,
      sn_project = si_project i, sn_name = si_name i, sn_memoryBytes = opt0 (si_memoryUsed i), sn_fromClusterId = sc_id hot,
      sn_fromClusterName = sc_name hot, sn_toClusterId = sc_id cool, sn_toClusterName = sc_name cool, sn_toProject = sg_project (last r),
      sn_reason = reason\<rparr>) taken)"
    unfolding tenant_suggestions_def Let_def r_def[symmetric] hot_def[symmetric] cool_def[symmetric] taken_def[symmetric] if_not_P[OF two]
    by blast
  then have more: "gap hot cool (sc_memoryUsed hot) (sc_memoryUsed cool) > su_threshold inp"
    using assms(2) by (auto split: if_splits)
  with body have out: "\<exists>reason. tenant_suggestions lc inp t = map (\<lambda>i. \<lparr>sn_tenantId = fst t, sn_tenantSlug = sg_tenantSlug (hd r), sn_instanceId = si_id i,
      sn_project = si_project i, sn_name = si_name i, sn_memoryBytes = opt0 (si_memoryUsed i), sn_fromClusterId = sc_id hot,
      sn_fromClusterName = sc_name hot, sn_toClusterId = sc_id cool, sn_toClusterName = sc_name cool, sn_toProject = sg_project (last r),
      sn_reason = reason\<rparr>) taken"
    by (simp add: not_le[symmetric])
  then have len: "length (tenant_suggestions lc inp t) = length taken" and bytes: "map sn_memoryBytes (tenant_suggestions lc inp t) = map (\<lambda>i. opt0 (si_memoryUsed i)) taken"
    by (auto simp: o_def)
  have from_hot: "set taken \<subseteq> set (hot_candidates lc inp hot (sg_project (hd r)))" unfolding taken_def by (rule narrow_subset)
  have "length taken \<le> 5" using narrow_length[of hot cool "su_threshold inp" 0] by (simp add: taken_def PER_TENANT_def)
  moreover have "\<bar>gap hot cool (sc_memoryUsed hot - moved_bytes taken) (sc_memoryUsed cool + moved_bytes taken)\<bar>
      < \<bar>gap hot cool (sc_memoryUsed hot) (sc_memoryUsed cool)\<bar>"
    using narrow_gap[of hot cool "su_threshold inp" 0] len assms(2) unfolding taken_def[symmetric] Let_def by (metis (full_types) length_0_conv taken_def)
  moreover have "\<forall>x\<in>set (tenant_suggestions lc inp t). sn_fromClusterId x = sc_id hot \<and> sn_toClusterId x = sc_id cool \<and> sn_toProject x = sg_project (last r)
         \<and> (\<exists>i\<in>set (su_instances inp). si_id i = sn_instanceId x \<and> si_clusterId i = sc_id hot \<and> si_project i = sg_project (hd r)
              \<and> si_status i = ''Running'' \<and> opt0 (si_memoryUsed i) = sn_memoryBytes x)"
    using out from_hot by (fastforce simp: hot_candidates_def)
  ultimately show ?thesis
    using ends sized_id[OF sized(1)] sized_id[OF sized(2)] more
    unfolding len bytes moved_bytes_def Let_def
    by (intro exI[of _ "hd r"] exI[of _ "last r"] exI[of _ hot] exI[of _ cool]) blast
qed

theorem suggest_narrows_witness:
  "hot_tenant \<in> set (byTenant two_clusters) \<and> tenant_suggestions (\<lambda>_ _. 0) two_clusters hot_tenant \<noteq> []
   \<and> length (tenant_suggestions (\<lambda>_ _. 0) two_clusters hot_tenant) \<le> 5"
proof -
  have sized: "sized_clusters two_clusters = [(''c1'', \<lparr>sc_id = ''c1'', sc_name = ''one'', sc_memoryTotal = 100, sc_memoryUsed = 90\<rparr>),
      (''c2'', \<lparr>sc_id = ''c2'', sc_name = ''two'', sc_memoryTotal = 100, sc_memoryUsed = 10\<rparr>)]"
    by (simp add: sized_clusters_def two_clusters_def m_of_def)
  have mem: "hot_tenant \<in> set (byTenant two_clusters)"
    by (simp add: byTenant_def sized, simp add: two_clusters_def hot_tenant_def m_get_Cons m_push_def)
  have some: "tenant_suggestions (\<lambda>_ _. 0) two_clusters hot_tenant \<noteq> []"
    by (simp add: tenant_suggestions_def sized Let_def ranked_def hot_candidates_def hot_tenant_def m_get_Cons sort_by_def pct_def gap_def)
      (simp add: two_clusters_def opt0_def PER_TENANT_def gap_def pct_def Let_def)
  show ?thesis using suggest_narrows[OF mem some] mem some by blast
qed

text \<open>
  A limit in KiB is not read: \<open>UNITS\<close> has the unit, the pattern that comes before it knows only a
  small k, so such a limit counts as unknown, while the same amount in kB or MiB is read.
\<close>

theorem kib_unread:
  "size_bytes ''2048KiB'' = None \<and> m_get UNITS ''KiB'' = Some 1024 \<and> size_bytes ''2MiB'' = Some 2097152 \<and> size_bytes ''2kB'' = Some 2000"
  using js_round_int[of 2097152] js_round_int[of 2000]
  by (simp add: size_bytes_def decimal_of_def digits_value_def is_digit_def cc_def is_space_def trim_def unit_matches_def UNITS_def m_get_Cons)

end
