(* ===== verification/Fleet.thy ===== *)
theory Fleet
  imports Inventory Leases
begin

text \<open>
  The inventory the control plane keeps of its clusters: a pass stored (\<^verbatim>\<open>fleet/store.ts\<close>) and the
  worker that makes one pass per cluster and interval (\<open>tick\<close> and \<open>stop\<close> of \<^verbatim>\<open>fleet/worker.ts\<close>). The collection of a
  snapshot, new identifiers and the reading of a date are arguments; columns of type \<open>real\<close> are exact.
\<close>

section \<open>Tables of the inventory\<close>

record pool_row =
  pw_clusterId :: string
  pw_pool :: pool_snapshot

record network_row =
  nw_clusterId :: string
  nw_network :: network_snapshot

datatype sample_kind = OfInstance | OfMember

record sample_row =
  sa_at :: int
  sa_clusterId :: string
  sa_kind :: sample_kind
  sa_ref :: string
  sa_cpuCores :: "rat option"
  sa_memoryUsed :: "int option"
  sa_netRxBps :: "rat option"
  sa_netTxBps :: "rat option"
  sa_load1 :: "rat option"

record fleet =
  fl_db :: db
  fl_pools :: "pool_row list"
  fl_networks :: "network_row list"
  fl_samples :: "sample_row list"

section \<open>Storing a pass\<close>

definition rate :: "int option \<Rightarrow> int option \<Rightarrow> rat \<Rightarrow> rat \<Rightarrow> rat option" where
  "rate now prev seconds scale = (case (now, prev) of
     (Some n, Some p) \<Rightarrow> if seconds \<le> 0 \<or> n < p then None else Some (of_int (n - p) / seconds / scale)
   | _ \<Rightarrow> None)"

definition searchText :: "string \<Rightarrow> instance_snapshot \<Rightarrow> string" where
  "searchText clusterName i = map to_lower (join_with '' '' (filter (\<lambda>t. t \<noteq> [])
     ([instance_snapshot.is_name i, is_project i, clusterName, is_location i, is_description i, is_imageOs i, is_imageRelease i, is_type i, is_status i] @ is_addresses i)))"

definition CHUNK :: nat where
  "CHUNK = 500"

definition inst_key :: "instance_row \<Rightarrow> string \<times> string \<times> string" where
  "inst_key r = (in_clusterId r, in_project r, in_name r)"

text \<open>The row of an instance, without its identifier; \<open>p\<close> is what the previous pass stored of it.\<close>

definition seen_row :: "(string \<Rightarrow> int option) \<Rightarrow> string \<Rightarrow> string \<Rightarrow> int \<Rightarrow> instance_row option \<Rightarrow> instance_snapshot \<Rightarrow> instance_row" where
  "seen_row parseDate clusterId clusterName now p i =
    (let seconds = (case p of None \<Rightarrow> 0 | Some r \<Rightarrow> of_int (now - in_seenAt r) / 1000)
     in \<lparr>in_id = [], in_clusterId = clusterId, in_project = is_project i, in_name = instance_snapshot.is_name i, in_type = is_type i, in_status = is_status i,
         in_location = is_location i, in_description = is_description i, in_architecture = is_architecture i,
         in_createdAtIncus = (if is_createdAt i = [] then None else parseDate (is_createdAt i)),
         in_imageOs = is_imageOs i, in_imageRelease = is_imageRelease i, in_limitsCpu = is_limitsCpu i, in_limitsMemory = is_limitsMemory i,
         in_cpuNs = is_cpuNs i, in_memoryUsed = is_memoryUsed i, in_memoryTotal = is_memoryTotal i, in_diskUsed = is_diskUsed i,
         in_netRx = is_netRx i, in_netTx = is_netTx i,
         in_cpuCores = rate (is_cpuNs i) (Option.bind p in_cpuNs) seconds 1000000000,
         in_netRxBps = rate (is_netRx i) (Option.bind p in_netRx) seconds 1,
         in_netTxBps = rate (is_netTx i) (Option.bind p in_netTx) seconds 1,
         in_addresses = is_addresses i, in_hints = is_hints i, in_snapshots = is_snapshots i,
         in_search = searchText clusterName i, in_seenAt = now\<rparr>)"

text \<open>The previous pass, by project and name.\<close>

definition prev_pass :: "string \<Rightarrow> instance_row list \<Rightarrow> (string, instance_row) jsmap" where
  "prev_pass clusterId rows = m_of (map (\<lambda>r. (in_project r @ ''/'' @ in_name r, r)) (filter (\<lambda>r. in_clusterId r = clusterId) rows))"

definition seen_rows :: "(string \<Rightarrow> int option) \<Rightarrow> string \<Rightarrow> string \<Rightarrow> int \<Rightarrow> instance_row list \<Rightarrow> instance_snapshot list \<Rightarrow> instance_row list" where
  "seen_rows parseDate clusterId clusterName now rows is =
     map (\<lambda>i. seen_row parseDate clusterId clusterName now (m_get (prev_pass clusterId rows) (is_project i @ ''/'' @ instance_snapshot.is_name i)) i) is"

text \<open>\<open>insert \<dots> on conflict do update \<dots> returning\<close>: the table and the rows returned so far.\<close>

definition put_row :: "(instance_row list \<Rightarrow> string) \<Rightarrow> instance_row \<Rightarrow> instance_row list \<times> instance_row list \<Rightarrow> instance_row list \<times> instance_row list" where
  "put_row newId row = (\<lambda>(rows, kept). case t_lookup inst_key rows (inst_key row) of
     None \<Rightarrow> let r = row\<lparr>in_id := newId rows\<rparr> in (rows @ [r], kept @ [r])
   | Some old \<Rightarrow> let r = row\<lparr>in_id := in_id old\<rparr> in (map (\<lambda>x. if inst_key x = inst_key row then r else x) rows, kept @ [r]))"

function chunks :: "'a list \<Rightarrow> 'a list list" where
  "chunks xs = (if xs = [] then [] else take CHUNK xs # chunks (drop CHUNK xs))"
  by auto

termination chunks
  by (relation "measure length") (auto simp: CHUNK_def)

declare chunks.simps [simp del]

fun put_chunks :: "(instance_row list \<Rightarrow> string) \<Rightarrow> instance_row list list \<Rightarrow> instance_row list \<times> instance_row list \<Rightarrow> (instance_row list \<times> instance_row list) result" where
  "put_chunks newId [] st = Inr st"
| "put_chunks newId (chunk # cs) st =
     (if distinct (map inst_key chunk) then put_chunks newId cs (fold (put_row newId) chunk st)
      else Inl (OtherError ''ON CONFLICT DO UPDATE command cannot affect row a second time''))"

text \<open>A timestamp that cannot be read fails when its row is written.\<close>

definition dates_readable :: "(string \<Rightarrow> int option) \<Rightarrow> instance_snapshot list \<Rightarrow> bool" where
  "dates_readable parseDate is \<longleftrightarrow> list_all (\<lambda>i. is_createdAt i = [] \<or> parseDate (is_createdAt i) \<noteq> None) is"

definition member_row :: "string \<Rightarrow> int \<Rightarrow> member_snapshot \<Rightarrow> cluster_member_row" where
  "member_row clusterId now m = \<lparr>cm_clusterId = clusterId, cm_name = ms_name m, cm_url = ms_url m, cm_status = ms_status m, cm_roles = ms_roles m,
     cm_groups = ms_groups m, cm_architecture = ms_architecture m, cm_cpuThreads = ms_cpuThreads m, cm_memoryTotal = ms_memoryTotal m,
     cm_memoryUsed = ms_memoryUsed m, cm_load1 = ms_load1 m, cm_uptimeS = ms_uptimeS m, cm_updatedAt = now\<rparr>"

definition instance_sample :: "string \<Rightarrow> int \<Rightarrow> instance_row \<Rightarrow> sample_row" where
  "instance_sample clusterId now k = \<lparr>sa_at = now, sa_clusterId = clusterId, sa_kind = OfInstance, sa_ref = in_id k, sa_cpuCores = in_cpuCores k,
     sa_memoryUsed = in_memoryUsed k, sa_netRxBps = in_netRxBps k, sa_netTxBps = in_netTxBps k, sa_load1 = None\<rparr>"

definition member_sample :: "string \<Rightarrow> int \<Rightarrow> member_snapshot \<Rightarrow> sample_row" where
  "member_sample clusterId now m = \<lparr>sa_at = now, sa_clusterId = clusterId, sa_kind = OfMember, sa_ref = ms_name m, sa_cpuCores = None,
     sa_memoryUsed = Some (ms_memoryUsed m), sa_netRxBps = None, sa_netTxBps = None, sa_load1 = ms_load1 m\<rparr>"

text \<open>Members, pools and networks are replaced; a primary key that comes twice fails the transaction.\<close>

definition keys_once :: "snapshot_of \<Rightarrow> bool" where
  "keys_once snap \<longleftrightarrow> distinct (map ms_name (sp_members snap)) \<and> distinct (map (\<lambda>p. (po_member p, po_name p)) (sp_pools snap)) \<and>
     distinct (map (\<lambda>n. (ns_project n, ns_name n)) (sp_networks snap))"

definition applySnapshot ::
  "(instance_row list \<Rightarrow> string) \<Rightarrow> (string \<Rightarrow> int option) \<Rightarrow> string \<Rightarrow> string \<Rightarrow> snapshot_of \<Rightarrow> int \<Rightarrow> int \<Rightarrow> fleet \<Rightarrow> (fleet \<times> nat) result" where
  "applySnapshot newId parseDate clusterId clusterName snap now retentionMs s =
    (let d = fl_db s; rows = seen_rows parseDate clusterId clusterName now (db_instances d) (sp_instances snap)
     in if \<not> dates_readable parseDate (sp_instances snap) then Inl (OtherError ''Invalid time value'')
        else case put_chunks newId (chunks rows) (db_instances d, []) of
          Inl e \<Rightarrow> Inl e
        | Inr (stored, kept) \<Rightarrow>
          if \<not> keys_once snap then Inl UniqueViolation
          else let keptIds = map in_id kept;
                   samples = map (instance_sample clusterId now) (filter (\<lambda>k. in_status k = ''Running'') kept) @ map (member_sample clusterId now) (sp_members snap)
            in Inr (s\<lparr>fl_db := d\<lparr>
                  db_instances := filter (\<lambda>r. \<not> (in_clusterId r = clusterId \<and> in_id r \<notin> set keptIds)) stored,
                  db_clusterMembers := filter (\<lambda>m. cm_clusterId m \<noteq> clusterId) (db_clusterMembers d) @ map (member_row clusterId now) (sp_members snap),
                  db_clusters := t_update (\<lambda>c. cl_id c = clusterId) (\<lambda>c. c\<lparr>cl_inventoryAt := Some now, cl_inventoryError := []\<rparr>) (db_clusters d)\<rparr>,
                fl_pools := filter (\<lambda>p. pw_clusterId p \<noteq> clusterId) (fl_pools s) @ map (\<lambda>p. \<lparr>pw_clusterId = clusterId, pw_pool = p\<rparr>) (sp_pools snap),
                fl_networks := filter (\<lambda>n. nw_clusterId n \<noteq> clusterId) (fl_networks s) @ map (\<lambda>n. \<lparr>nw_clusterId = clusterId, nw_network = n\<rparr>) (sp_networks snap),
                fl_samples := filter (\<lambda>x. \<not> sa_at x < now - retentionMs) (fl_samples s @ samples)\<rparr>,
              length kept))"

section \<open>The worker\<close>

text \<open>
  \<open>collect n\<close> is what reading a cluster gives at the \<open>n\<close>-th visit, \<open>clock n\<close> the time of that visit and \<open>stopped n\<close> whether the
  worker was stopped before it. The clusters are visited in the order of their names.
\<close>

definition inventory_due :: "int \<Rightarrow> cluster_row \<Rightarrow> bool" where
  "inventory_due staleBefore c \<longleftrightarrow> cl_status c \<noteq> ''disabled'' \<and> (case cl_inventoryAt c of None \<Rightarrow> True | Some t \<Rightarrow> t < staleBefore)"

definition inventory_failed :: "string \<Rightarrow> int \<Rightarrow> failure \<Rightarrow> db \<Rightarrow> db" where
  "inventory_failed i now e d = d\<lparr>db_clusters := t_update (\<lambda>c. cl_id c = i)
     (\<lambda>c. c\<lparr>cl_inventoryAt := Some now, cl_inventoryError := take 500 (error_message e)\<rparr>) (db_clusters d)\<rparr>"

definition inventory_visit ::
  "(instance_row list \<Rightarrow> string) \<Rightarrow> (string \<Rightarrow> int option) \<Rightarrow> int \<Rightarrow> snapshot_of result \<Rightarrow> int \<Rightarrow> cluster_row \<Rightarrow> fleet \<Rightarrow> fleet" where
  "inventory_visit newId parseDate retentionMs collected now c s =
    (case then_do collected (\<lambda>snap. applySnapshot newId parseDate (cl_id c) (cl_name c) snap now retentionMs s) of
       Inl e \<Rightarrow> s\<lparr>fl_db := inventory_failed (cl_id c) now e (fl_db s)\<rparr>
     | Inr (s1, _) \<Rightarrow>
         (case sweepInstanceEntries (fl_db s1) (cl_id c) (cl_name c) of (d1, swept) \<Rightarrow>
          case backfillOwners now d1 (cl_id c) of (d2, filled) \<Rightarrow>
            s1\<lparr>fl_db := if filled \<noteq> 0 \<or> swept \<noteq> 0 then requestReconcile now d2 (Clusters [cl_id c]) else d2\<rparr>))"

fun inventory_visits ::
  "(nat \<Rightarrow> cluster_row \<Rightarrow> fleet \<Rightarrow> fleet) \<Rightarrow> (nat \<Rightarrow> int) \<Rightarrow> (nat \<Rightarrow> bool) \<Rightarrow> string \<Rightarrow> rat \<Rightarrow> nat \<Rightarrow> cluster_row list \<Rightarrow> fleet \<Rightarrow> fleet" where
  "inventory_visits visit clock stopped holder leaseMs n [] s = s"
| "inventory_visits visit clock stopped holder leaseMs n (c # cs) s =
     (if stopped n then s
      else case acquireLease (clock n) (fl_db s) ''inventory'' holder leaseMs of
        (d1, False) \<Rightarrow> s\<lparr>fl_db := d1\<rparr>
      | (d1, True) \<Rightarrow> inventory_visits visit clock stopped holder leaseMs (Suc n) cs (visit n c (s\<lparr>fl_db := d1\<rparr>)))"

definition fleet_tick ::
  "(nat \<Rightarrow> cluster_row \<Rightarrow> fleet \<Rightarrow> fleet) \<Rightarrow> (nat \<Rightarrow> int) \<Rightarrow> (nat \<Rightarrow> bool) \<Rightarrow> string \<Rightarrow> rat \<Rightarrow> int \<Rightarrow> fleet \<Rightarrow> fleet" where
  "fleet_tick visit clock stopped holder leaseMs intervalMs s =
    (case acquireLease (clock 0) (fl_db s) ''inventory'' holder leaseMs of
       (d1, False) \<Rightarrow> s\<lparr>fl_db := d1\<rparr>
     | (d1, True) \<Rightarrow> inventory_visits visit clock stopped holder leaseMs 1
         (sort_key cl_name (filter (inventory_due (clock 0 - intervalMs)) (db_clusters d1))) (s\<lparr>fl_db := d1\<rparr>))"

definition fleet_stop :: "string \<Rightarrow> fleet \<Rightarrow> fleet" where
  "fleet_stop holder s = s\<lparr>fl_db := releaseLease (fl_db s) ''inventory'' holder\<rparr>"

section \<open>What a stored pass holds\<close>

lemma concat_chunks: "concat (chunks xs) = xs"
  by (induction xs rule: chunks.induct) (subst chunks.simps, simp)

text \<open>The chunks do not matter.\<close>

lemma put_chunks_fold: "put_chunks newId cs st = Inr st' \<Longrightarrow> st' = fold (put_row newId) (concat cs) st"
  by (induction cs arbitrary: st) (auto split: if_splits)

lemma put_row_ok:
  assumes "t_wf inst_key rows" "t_wf in_id rows" "newId rows \<notin> in_id ` set rows" "put_row newId row (rows, kept) = (rows', kept')"
  shows "\<exists>i. kept' = kept @ [row\<lparr>in_id := i\<rparr>] \<and>
    (\<forall>k. t_lookup inst_key rows' k = (if k = inst_key row then Some (row\<lparr>in_id := i\<rparr>) else t_lookup inst_key rows k)) \<and>
    (\<forall>old. t_lookup inst_key rows (inst_key row) = Some old \<longrightarrow> i = in_id old) \<and> t_wf inst_key rows' \<and> t_wf in_id rows'"
proof (cases "t_lookup inst_key rows (inst_key row)")
  case None
  let ?r = "row\<lparr>in_id := newId rows\<rparr>"
  have r: "rows' = rows @ [?r]" "kept' = kept @ [?r]" using assms(4) None by (simp_all add: put_row_def Let_def)
  have k: "inst_key ?r = inst_key row" by (simp add: inst_key_def)
  have "t_wf inst_key rows'" using assms(1) None by (auto simp: r t_wf_def k t_lookup_None)
  moreover have "t_wf in_id rows'" using assms(2,3) by (auto simp: r t_wf_def)
  moreover have "t_lookup inst_key rows' k' = (if k' = inst_key row then Some ?r else t_lookup inst_key rows k')" for k'
    using None unfolding r t_lookup_append by (auto simp: t_lookup_def[of _ "[row\<lparr>in_id := newId rows\<rparr>]"] k split: option.splits)
  ultimately show ?thesis using None r by (intro exI[of _ "newId rows"]) simp
next
  case (Some old)
  let ?r = "row\<lparr>in_id := in_id old\<rparr>"
  let ?f = "\<lambda>x. if inst_key x = inst_key row then ?r else x"
  have r: "rows' = map ?f rows" "kept' = kept @ [?r]" using assms(4) Some by (simp_all add: put_row_def Let_def)
  have k: "inst_key (?f x) = inst_key x" for x by (simp add: inst_key_def)
  have only: "x = old" if "x \<in> set rows" "inst_key x = inst_key row" for x
  proof -
    from that have "t_lookup inst_key rows (inst_key row) = Some x" by (simp add: t_lookup_Some_iff[OF assms(1)])
    with Some show ?thesis by simp
  qed
  have keys: "map inst_key rows' = map inst_key rows" by (simp add: r k)
  have ids: "map in_id rows' = map in_id rows" using only by (auto simp: r)
  have "t_lookup inst_key rows' k' = map_option ?f (t_lookup inst_key rows k')" for k' unfolding r by (rule t_lookup_map_same) (rule k)
  then have "t_lookup inst_key rows' k' = (if k' = inst_key row then Some ?r else t_lookup inst_key rows k')" for k'
    using Some by (cases "t_lookup inst_key rows k'") (auto dest: t_lookup_SomeD)
  moreover have "t_wf inst_key rows'" "t_wf in_id rows'" using assms(1,2) by (simp_all add: t_wf_def keys ids)
  ultimately show ?thesis using Some r by (intro exI[of _ "in_id old"]) simp
qed

text \<open>The last row written for a key.\<close>

definition last_of :: "'k \<Rightarrow> ('r \<Rightarrow> 'k) \<Rightarrow> 'r list \<Rightarrow> 'r option" where
  "last_of k key xs = find (\<lambda>x. key x = k) (rev xs)"

lemma last_of_snoc: "last_of k key (xs @ [x]) = (if key x = k then Some x else last_of k key xs)"
  by (simp add: last_of_def)

lemma last_of_None: "last_of k key xs = None \<longleftrightarrow> k \<notin> key ` set xs"
  by (auto simp: last_of_def find_None_iff)

definition written :: "instance_row list \<Rightarrow> instance_row list \<Rightarrow> instance_row list \<times> instance_row list \<Rightarrow> bool" where
  "written xs rows st = (case st of (rows', kept) \<Rightarrow>
     t_wf inst_key rows' \<and> t_wf in_id rows' \<and>
     (\<forall>k. case last_of k inst_key xs of
        None \<Rightarrow> t_lookup inst_key rows' k = t_lookup inst_key rows k
      | Some row \<Rightarrow> \<exists>i. t_lookup inst_key rows' k = Some (row\<lparr>in_id := i\<rparr>) \<and> (\<forall>old. t_lookup inst_key rows k = Some old \<longrightarrow> i = in_id old)) \<and>
     (\<forall>i. i \<in> in_id ` set kept \<longleftrightarrow> (\<exists>k\<in>inst_key ` set xs. map_option in_id (t_lookup inst_key rows' k) = Some i)))"

lemma writtenD:
  assumes "written xs rows (rows', kept)"
  shows "t_wf inst_key rows'" "t_wf in_id rows'"
    "last_of k inst_key xs = None \<Longrightarrow> t_lookup inst_key rows' k = t_lookup inst_key rows k"
    "last_of k inst_key xs = Some row \<Longrightarrow>
      \<exists>i. t_lookup inst_key rows' k = Some (row\<lparr>in_id := i\<rparr>) \<and> (\<forall>old. t_lookup inst_key rows k = Some old \<longrightarrow> i = in_id old)"
    "i \<in> in_id ` set kept \<longleftrightarrow> (\<exists>k\<in>inst_key ` set xs. map_option in_id (t_lookup inst_key rows' k) = Some i)"
proof -
  note W = assms[unfolded written_def prod.case]
  from W show "t_wf inst_key rows'" "t_wf in_id rows'" by blast+
  from W have C: "case last_of k inst_key xs of None \<Rightarrow> t_lookup inst_key rows' k = t_lookup inst_key rows k
      | Some row \<Rightarrow> \<exists>i. t_lookup inst_key rows' k = Some (row\<lparr>in_id := i\<rparr>) \<and> (\<forall>old. t_lookup inst_key rows k = Some old \<longrightarrow> i = in_id old)" by blast
  show "last_of k inst_key xs = None \<Longrightarrow> t_lookup inst_key rows' k = t_lookup inst_key rows k" using C by simp
  show "last_of k inst_key xs = Some row \<Longrightarrow>
      \<exists>i. t_lookup inst_key rows' k = Some (row\<lparr>in_id := i\<rparr>) \<and> (\<forall>old. t_lookup inst_key rows k = Some old \<longrightarrow> i = in_id old)" using C by simp
  show "i \<in> in_id ` set kept \<longleftrightarrow> (\<exists>k\<in>inst_key ` set xs. map_option in_id (t_lookup inst_key rows' k) = Some i)" using W by blast
qed

lemma ex_updated:
  "(L kx = Some j \<Longrightarrow> j = i) \<Longrightarrow> (\<exists>k\<in>insert kx K. (if k = kx then Some i else L k) = Some j) \<longleftrightarrow> (\<exists>k\<in>K. L k = Some j) \<or> j = i"
  by (metis insert_iff option.inject)

lemma fold_put_row:
  assumes "t_wf inst_key rows" "t_wf in_id rows" "\<And>rows. newId rows \<notin> in_id ` set rows"
  shows "written xs rows (fold (put_row newId) xs (rows, []))"
proof (induction xs rule: rev_induct)
  case Nil
  show ?case using assms(1,2) by (simp add: written_def last_of_def)
next
  case (snoc x xs)
  obtain rows1 kept1 where one: "fold (put_row newId) xs (rows, []) = (rows1, kept1)" by fastforce
  obtain rows2 kept2 where two: "put_row newId x (rows1, kept1) = (rows2, kept2)" by fastforce
  note W = writtenD[OF snoc.IH[unfolded one]]
  from put_row_ok[OF W(1,2) assms(3) two] obtain i where
    i: "kept2 = kept1 @ [x\<lparr>in_id := i\<rparr>]" "\<And>old. t_lookup inst_key rows1 (inst_key x) = Some old \<Longrightarrow> i = in_id old"
      "t_wf inst_key rows2" "t_wf in_id rows2"
    and look: "\<And>k. t_lookup inst_key rows2 k = (if k = inst_key x then Some (x\<lparr>in_id := i\<rparr>) else t_lookup inst_key rows1 k)" by blast
  have old: "i = in_id old" if o: "t_lookup inst_key rows (inst_key x) = Some old" for old
  proof (cases "last_of (inst_key x) inst_key xs")
    case None
    with W(3) o i(2) show ?thesis by simp
  next
    case (Some row)
    from W(4)[OF this] o i(2) show ?thesis by auto
  qed
  have ids: "j \<in> in_id ` set kept2 \<longleftrightarrow> (\<exists>k\<in>inst_key ` set (xs @ [x]). map_option in_id (t_lookup inst_key rows2 k) = Some j)" for j
  proof -
    have "j \<in> in_id ` set kept2 \<longleftrightarrow> j \<in> in_id ` set kept1 \<or> j = i" by (auto simp: i(1))
    also have "\<dots> \<longleftrightarrow> (\<exists>k\<in>inst_key ` set xs. map_option in_id (t_lookup inst_key rows1 k) = Some j) \<or> j = i" unfolding W(5) ..
    also have "\<dots> \<longleftrightarrow> (\<exists>k\<in>insert (inst_key x) (inst_key ` set xs). (if k = inst_key x then Some i else map_option in_id (t_lookup inst_key rows1 k)) = Some j)"
      by (rule ex_updated[symmetric]) (use i(2) in auto)
    also have "(\<lambda>k. if k = inst_key x then Some i else map_option in_id (t_lookup inst_key rows1 k)) = (\<lambda>k. map_option in_id (t_lookup inst_key rows2 k))"
      by (auto simp: look)
    finally show ?thesis by simp
  qed
  have "written (xs @ [x]) rows (rows2, kept2)"
    unfolding written_def prod.case
  proof (intro conjI allI)
    fix k
    show "case last_of k inst_key (xs @ [x]) of None \<Rightarrow> t_lookup inst_key rows2 k = t_lookup inst_key rows k
      | Some row \<Rightarrow> \<exists>i. t_lookup inst_key rows2 k = Some (row\<lparr>in_id := i\<rparr>) \<and> (\<forall>old. t_lookup inst_key rows k = Some old \<longrightarrow> i = in_id old)"
    proof (cases "k = inst_key x")
      case True
      with old look show ?thesis by (simp add: last_of_snoc) (rule exI[of _ i], simp)
    next
      case False
      then have "last_of k inst_key (xs @ [x]) = last_of k inst_key xs" by (auto simp: last_of_snoc)
      with W(3,4)[of k] False look show ?thesis by (simp split: option.split)
    qed
  qed (use i(3,4) ids in blast)+
  then show ?case using one two by simp
qed

lemma lookup_filter:
  assumes "t_wf key rows"
  shows "t_lookup key (filter P rows) k = (case t_lookup key rows k of None \<Rightarrow> None | Some r \<Rightarrow> if P r then Some r else None)"
proof -
  have wf: "t_wf key (filter P rows)" using assms unfolding t_wf_def by (rule distinct_map_filter)
  have iff: "t_lookup key (filter P rows) k = Some r \<longleftrightarrow> t_lookup key rows k = Some r \<and> P r" for r
    unfolding t_lookup_Some_iff[OF wf] t_lookup_Some_iff[OF assms] by auto
  show ?thesis
  proof (cases "t_lookup key (filter P rows) k")
    case None
    with iff have "\<not> (t_lookup key rows k = Some r \<and> P r)" for r by (metis option.distinct(1))
    with None show ?thesis by (auto split: option.split)
  next
    case (Some r)
    with iff[of r] show ?thesis by simp
  qed
qed

lemma kept_iff:
  assumes "written xs rows (rows', kept)" "t_lookup inst_key rows' k = Some r"
  shows "in_id r \<in> in_id ` set kept \<longleftrightarrow> k \<in> inst_key ` set xs"
proof -
  note W = writtenD[OF assms(1)]
  have r: "r \<in> set rows'" using t_lookup_SomeD[OF assms(2)] by simp
  have "k' = k" if "map_option in_id (t_lookup inst_key rows' k') = Some (in_id r)" for k'
  proof -
    from that obtain r' where r': "t_lookup inst_key rows' k' = Some r'" "in_id r' = in_id r" by auto
    with r W(2) have "r' = r" using t_lookup_SomeD[OF r'(1)] unfolding t_wf_def by (metis distinct_map inj_on_eq_iff)
    with assms(2) r'(1) show ?thesis using t_lookup_SomeD by metis
  qed
  moreover have "map_option in_id (t_lookup inst_key rows' k) = Some (in_id r)" using assms(2) by simp
  ultimately show ?thesis unfolding W(5) by blast
qed

definition snap_key :: "string \<Rightarrow> instance_snapshot \<Rightarrow> string \<times> string \<times> string" where
  "snap_key clusterId i = (clusterId, is_project i, instance_snapshot.is_name i)"

lemma seen_key: "inst_key (seen_row parseDate clusterId clusterName now p i) = snap_key clusterId i"
  by (simp add: inst_key_def seen_row_def snap_key_def Let_def)

lemma find_map_by: "find P (map f xs) = map_option f (find (\<lambda>x. P (f x)) xs)"
  by (induction xs) auto

lemma last_seen:
  "last_of k inst_key (seen_rows parseDate clusterId clusterName now rows is) =
   map_option (\<lambda>i. seen_row parseDate clusterId clusterName now (m_get (prev_pass clusterId rows) (is_project i @ ''/'' @ instance_snapshot.is_name i)) i)
     (last_of k (snap_key clusterId) is)"
  unfolding last_of_def seen_rows_def by (simp add: rev_map find_map_by seen_key)

text \<open>The instances' table after a pass.\<close>

lemma apply_instances:
  assumes "applySnapshot newId parseDate c name snap now retentionMs s = Inr (s', n)"
    and xs: "xs = seen_rows parseDate c name now (db_instances (fl_db s)) (sp_instances snap)"
  obtains stored kept where "fold (put_row newId) xs (db_instances (fl_db s), []) = (stored, kept)"
    "db_instances (fl_db s') = filter (\<lambda>r. \<not> (in_clusterId r = c \<and> in_id r \<notin> in_id ` set kept)) stored"
proof -
  from assms obtain stored kept where put: "put_chunks newId (chunks xs) (db_instances (fl_db s), []) = Inr (stored, kept)"
    by (auto simp: applySnapshot_def Let_def split: if_splits sum.splits)
  have "fold (put_row newId) xs (db_instances (fl_db s), []) = (stored, kept)"
    using put_chunks_fold[OF put] by (simp add: concat_chunks)
  moreover have "db_instances (fl_db s') = filter (\<lambda>r. \<not> (in_clusterId r = c \<and> in_id r \<notin> in_id ` set kept)) stored"
    using assms(1) put by (auto simp: applySnapshot_def Let_def xs split: if_splits)
  ultimately show thesis by (rule that)
qed

text \<open>
  C23: Storing a pass makes the inventory of the cluster what the pass has read: each instance it read has one row with what was read
  last, under the identifier it had before if it was known; whatever it did not read is gone; the other clusters' rows are as they
  were; and neither keys nor identifiers come twice, however the rows were divided into statements.
\<close>

theorem inventory_replaced:
  assumes "t_wf inst_key (db_instances (fl_db s))" "t_wf in_id (db_instances (fl_db s))" "\<And>rows. newId rows \<notin> in_id ` set rows"
    "applySnapshot newId parseDate c name snap now retentionMs s = Inr (s', n)"
  shows "t_wf inst_key (db_instances (fl_db s')) \<and> t_wf in_id (db_instances (fl_db s')) \<and>
    (\<forall>k. case last_of k (snap_key c) (sp_instances snap) of
       None \<Rightarrow> t_lookup inst_key (db_instances (fl_db s')) k = (if fst k = c then None else t_lookup inst_key (db_instances (fl_db s)) k)
     | Some i \<Rightarrow> \<exists>row. t_lookup inst_key (db_instances (fl_db s')) k = Some row \<and>
         row\<lparr>in_id := []\<rparr> = seen_row parseDate c name now (m_get (prev_pass c (db_instances (fl_db s))) (is_project i @ ''/'' @ instance_snapshot.is_name i)) i \<and>
         (\<forall>old. t_lookup inst_key (db_instances (fl_db s)) k = Some old \<longrightarrow> in_id row = in_id old))"
proof -
  let ?rows = "db_instances (fl_db s)" and ?rows' = "db_instances (fl_db s')"
  let ?seen = "\<lambda>i. seen_row parseDate c name now (m_get (prev_pass c ?rows) (is_project i @ ''/'' @ instance_snapshot.is_name i)) i"
  define xs where "xs = seen_rows parseDate c name now ?rows (sp_instances snap)"
  from assms(4) xs_def obtain stored kept where f: "fold (put_row newId) xs (?rows, []) = (stored, kept)"
    and r: "?rows' = filter (\<lambda>r. \<not> (in_clusterId r = c \<and> in_id r \<notin> in_id ` set kept)) stored" by (rule apply_instances)
  have W: "written xs ?rows (stored, kept)" using fold_put_row[OF assms(1-3), of xs] f by simp
  note D = writtenD[OF W]
  have last: "last_of k inst_key xs = map_option ?seen (last_of k (snap_key c) (sp_instances snap))" for k unfolding xs_def by (rule last_seen)
  have look: "t_lookup inst_key ?rows' k = (case t_lookup inst_key stored k of None \<Rightarrow> None
      | Some r \<Rightarrow> if fst k = c \<and> k \<notin> inst_key ` set xs then None else Some r)" for k
    unfolding r lookup_filter[OF D(1)]
    using kept_iff[OF W, of k] t_lookup_SomeD[of inst_key stored k] by (auto simp: inst_key_def split: option.splits)
  have wf: "t_wf inst_key ?rows'" "t_wf in_id ?rows'" using D(1,2) unfolding r t_wf_def by (simp_all add: distinct_map_filter)
  show ?thesis
  proof (intro conjI wf allI)
    fix k
    show "case last_of k (snap_key c) (sp_instances snap) of
       None \<Rightarrow> t_lookup inst_key ?rows' k = (if fst k = c then None else t_lookup inst_key ?rows k)
     | Some i \<Rightarrow> \<exists>row. t_lookup inst_key ?rows' k = Some row \<and> row\<lparr>in_id := []\<rparr> = ?seen i \<and>
         (\<forall>old. t_lookup inst_key ?rows k = Some old \<longrightarrow> in_id row = in_id old)"
    proof (cases "last_of k (snap_key c) (sp_instances snap)")
      case None
      then have none: "last_of k inst_key xs = None" by (simp add: last)
      moreover from none have "k \<notin> inst_key ` set xs" by (simp add: last_of_None)
      ultimately show ?thesis unfolding None option.case look D(3)[OF none] by (simp split: option.split)
    next
      case (Some i)
      then have some: "last_of k inst_key xs = Some (?seen i)" by (simp add: last)
      from D(4)[OF this] obtain j where j: "t_lookup inst_key stored k = Some (?seen i\<lparr>in_id := j\<rparr>)"
        "\<forall>old. t_lookup inst_key ?rows k = Some old \<longrightarrow> j = in_id old" by blast
      have "k \<in> inst_key ` set xs" using some last_of_None[of k inst_key xs] by auto
      with j have "t_lookup inst_key ?rows' k = Some (?seen i\<lparr>in_id := j\<rparr>)" unfolding look by simp
      moreover have "(?seen i\<lparr>in_id := j\<rparr>)\<lparr>in_id := []\<rparr> = ?seen i" by (simp add: seen_row_def Let_def)
      ultimately show ?thesis using Some j(2) by simp
    qed
  qed
qed

section \<open>A pass over all clusters\<close>

lemma backfill_keeps: "db_clusters (fst (backfillOwners now d c)) = db_clusters d" "db_leases (fst (backfillOwners now d c)) = db_leases d"
proof -
  have "db_clusters (fst (fold (backfill_step now) os st)) = db_clusters (fst st) \<and> db_leases (fst (fold (backfill_step now) os st)) = db_leases (fst st)" for os st
    by (induction os arbitrary: st) (auto simp: backfill_step_def recordOwner_def Let_def split: prod.splits)
  then show "db_clusters (fst (backfillOwners now d c)) = db_clusters d" "db_leases (fst (backfillOwners now d c)) = db_leases d"
    by (simp_all add: backfillOwners_def case_prod_unfold)
qed

text \<open>What the choice of the clusters that are due depends on.\<close>

definition due_view :: "cluster_row \<Rightarrow> string \<times> string \<times> int option" where
  "due_view c = (cl_id c, cl_status c, cl_inventoryAt c)"

definition attempted :: "string \<Rightarrow> int \<Rightarrow> string \<times> string \<times> int option \<Rightarrow> string \<times> string \<times> int option" where
  "attempted i now v = (case v of (j, st, t) \<Rightarrow> (j, st, if j = i then Some now else t))"

lemma apply_keeps:
  assumes "applySnapshot newId parseDate c name snap now retentionMs s = Inr (s', n)"
  shows "map due_view (db_clusters (fl_db s')) = map (attempted c now \<circ> due_view) (db_clusters (fl_db s)) \<and> db_leases (fl_db s') = db_leases (fl_db s)"
  using assms by (auto simp: applySnapshot_def Let_def t_update_def due_view_def attempted_def split: if_splits sum.splits)

lemma visit_keeps:
  "map due_view (db_clusters (fl_db (inventory_visit newId parseDate retentionMs got now c s))) = map (attempted (cl_id c) now \<circ> due_view) (db_clusters (fl_db s)) \<and>
   db_leases (fl_db (inventory_visit newId parseDate retentionMs got now c s)) = db_leases (fl_db s)"
proof (cases "then_do got (\<lambda>snap. applySnapshot newId parseDate (cl_id c) (cl_name c) snap now retentionMs s)")
  case (Inl e)
  then show ?thesis by (simp add: inventory_visit_def inventory_failed_def t_update_def due_view_def attempted_def)
next
  case (Inr r)
  obtain s1 n where r: "r = (s1, n)" by fastforce
  with Inr have a: "map due_view (db_clusters (fl_db s1)) = map (attempted (cl_id c) now \<circ> due_view) (db_clusters (fl_db s)) \<and> db_leases (fl_db s1) = db_leases (fl_db s)"
    by (auto simp: then_do_Inr_iff dest: apply_keeps)
  obtain d1 k1 where d1: "sweepInstanceEntries (fl_db s1) (cl_id c) (cl_name c) = (d1, k1)" by fastforce
  obtain d2 k2 where d2: "backfillOwners now d1 (cl_id c) = (d2, k2)" by fastforce
  have "db_clusters d1 = db_clusters (fl_db s1)" "db_leases d1 = db_leases (fl_db s1)"
    using d1 by (auto simp: sweepInstanceEntries_def Let_def)
  then have d: "db_clusters d2 = db_clusters (fl_db s1)" "db_leases d2 = db_leases (fl_db s1)"
    using backfill_keeps[of now d1 "cl_id c"] d2 by simp_all
  have "map due_view (db_clusters (requestReconcile now d2 (Clusters [cl_id c]))) = map due_view (db_clusters d2)"
    "db_leases (requestReconcile now d2 (Clusters [cl_id c])) = db_leases d2"
    by (simp_all add: requestReconcile_def t_update_def due_view_def ask_def)
  with a d show ?thesis by (simp add: inventory_visit_def Inr r d1 d2)
qed

lemma due_by_view: "due_view c = due_view c' \<Longrightarrow> inventory_due t c = inventory_due t c'"
  by (simp add: due_view_def inventory_due_def)

lemma visits_due:
  assumes "\<And>n. \<not> stopped n" "\<And>n. t \<le> clock n"
    and visit: "visit = (\<lambda>n c. inventory_visit newId parseDate retentionMs (collect n c) (clock n) c)"
  shows "held_by ''inventory'' holder (fl_db s) \<Longrightarrow> c' \<in> set (db_clusters (fl_db (inventory_visits visit clock stopped holder leaseMs n cs s))) \<Longrightarrow>
    inventory_due t c' \<Longrightarrow> \<exists>c\<in>set (db_clusters (fl_db s)). due_view c = due_view c' \<and> cl_id c \<notin> cl_id ` set cs"
proof (induction cs arbitrary: n s)
  case Nil
  then show ?case by auto
next
  case (Cons c cs)
  let ?a = "acquireLease (clock n) (fl_db s) ''inventory'' holder leaseMs"
  let ?s1 = "visit n c (s\<lparr>fl_db := fst ?a\<rparr>)"
  have a: "snd ?a" by (rule held_again[OF Cons.prems(1)])
  have k: "map due_view (db_clusters (fl_db ?s1)) = map (attempted (cl_id c) (clock n) \<circ> due_view) (db_clusters (fl_db s))"
    "db_leases (fl_db ?s1) = db_leases (fst ?a)"
    using visit_keeps[of newId parseDate retentionMs "collect n c" "clock n" c "s\<lparr>fl_db := fst ?a\<rparr>"] by (simp_all add: visit)
  have held: "held_by ''inventory'' holder (fl_db ?s1)" using held_still[OF Cons.prems(1), of "clock n" leaseMs] k(2) by simp
  have "inventory_visits visit clock stopped holder leaseMs n (c # cs) s = inventory_visits visit clock stopped holder leaseMs (Suc n) cs ?s1"
    using a assms(1) by (simp add: case_prod_unfold split: bool.splits)
  with Cons.IH[OF held _ Cons.prems(3), of "Suc n"] Cons.prems(2) obtain c1 where
    c1: "c1 \<in> set (db_clusters (fl_db ?s1))" "due_view c1 = due_view c'" "cl_id c1 \<notin> cl_id ` set cs" by auto
  from c1(1) have "due_view c1 \<in> set (map due_view (db_clusters (fl_db ?s1)))" by simp
  then obtain c0 where c0: "c0 \<in> set (db_clusters (fl_db s))" "due_view c1 = attempted (cl_id c) (clock n) (due_view c0)" unfolding k(1) by auto
  have "inventory_due t c1" using Cons.prems(3) due_by_view[OF c1(2)] by simp
  then have "cl_id c0 \<noteq> cl_id c" using c0(2) assms(2)[of n] by (auto simp: due_view_def attempted_def inventory_due_def)
  with c0(2) have "due_view c0 = due_view c1" by (auto simp: due_view_def attempted_def)
  with c0(1) c1(2,3) \<open>cl_id c0 \<noteq> cl_id c\<close> show ?case by (intro bexI[of _ c0]) (auto simp: due_view_def)
qed

text \<open>
  C24: A pass of the fleet worker that is not stopped attempts every cluster that is due when it begins and leaves none due, whatever
  collecting or storing a snapshot gave, provided no other replica takes its lease meanwhile. So a cluster that
  fails is not tried again before its interval has passed, and does not keep the others from being read.
\<close>

theorem none_left_due:
  assumes "snd (acquireLease (clock 0) (fl_db s) ''inventory'' holder leaseMs)" "\<And>n. \<not> stopped n" "\<And>n. clock 0 \<le> clock n" "0 \<le> intervalMs"
  shows "filter (inventory_due (clock 0 - intervalMs)) (db_clusters (fl_db (fleet_tick
    (\<lambda>n c. inventory_visit newId parseDate retentionMs (collect n c) (clock n) c) clock stopped holder leaseMs intervalMs s))) = []"
proof -
  let ?visit = "\<lambda>n c. inventory_visit newId parseDate retentionMs (collect n c) (clock n) c"
  let ?a = "acquireLease (clock 0) (fl_db s) ''inventory'' holder leaseMs"
  let ?t = "clock 0 - intervalMs"
  let ?dues = "sort_key cl_name (filter (inventory_due ?t) (db_clusters (fst ?a)))"
  have tick: "fleet_tick ?visit clock stopped holder leaseMs intervalMs s = inventory_visits ?visit clock stopped holder leaseMs 1 ?dues (s\<lparr>fl_db := fst ?a\<rparr>)"
    using assms(1) by (simp add: fleet_tick_def case_prod_unfold split: bool.splits)
  have t: "?t \<le> clock n" for n using assms(3)[of n] assms(4) by simp
  have h: "held_by ''inventory'' holder (fl_db (s\<lparr>fl_db := fst ?a\<rparr>))" using held_acquired[OF assms(1)] by simp
  have "False" if c': "c' \<in> set (db_clusters (fl_db (fleet_tick ?visit clock stopped holder leaseMs intervalMs s)))" "inventory_due ?t c'" for c'
  proof -
    from visits_due[where visit = ?visit, OF assms(2) t refl h c'(1)[unfolded tick] c'(2)] obtain c where
      c: "c \<in> set (db_clusters (fst ?a))" "due_view c = due_view c'" "cl_id c \<notin> cl_id ` set ?dues" by auto
    with c'(2) due_by_view[OF c(2)] show False by auto
  qed
  then show ?thesis by (auto simp: filter_empty_conv)
qed

section \<open>Two passes\<close>

definition unused_id :: "instance_row list \<Rightarrow> string" where
  "unused_id rows = ''i'' @ concat (map in_id rows)"

lemma unused_id: "unused_id rows \<notin> in_id ` set rows"
proof
  assume "unused_id rows \<in> in_id ` set rows"
  then obtain r where r: "r \<in> set rows" "unused_id rows = in_id r" by blast
  from r(1) have "length (in_id r) \<le> length (concat (map in_id rows))" by (auto simp: length_concat intro: member_le_sum_list)
  with r(2) show False by (simp add: unused_id_def flip: r(2))
qed

definition a_fleet :: fleet where
  "a_fleet = \<lparr>fl_db = empty_db\<lparr>db_clusters := [a_cluster], db_instances := [an_instance ''vm'', an_instance ''gone'']\<rparr>,
     fl_pools = [], fl_networks = [], fl_samples = []\<rparr>"

definition a_pass :: "(fleet \<times> nat) result" where
  "a_pass = applySnapshot unused_id (\<lambda>_. None) ''C1'' ''c'' one_vm 5 100 a_fleet"

lemma a_pass_facts:
  "is_ok a_pass" "t_wf inst_key (db_instances (fl_db a_fleet))" "t_wf in_id (db_instances (fl_db a_fleet))"
  "last_of (''C1'', ''p'', ''gone'') (snap_key ''C1'') (sp_instances one_vm) = None"
  "map_option is_status (last_of (''C1'', ''p'', ''vm'') (snap_key ''C1'') (sp_instances one_vm)) = Some ''Stopped''"
  "map_option in_id (t_lookup inst_key (db_instances (fl_db a_fleet)) (''C1'', ''p'', ''vm'')) = Some ''vm''"
  "inventory_due 5 a_cluster"
  by code_simp+

theorem inventory_replaced_witness:
  "\<exists>s' n. a_pass = Inr (s', n) \<and> t_lookup inst_key (db_instances (fl_db s')) (''C1'', ''p'', ''gone'') = None \<and>
     map_option in_id (t_lookup inst_key (db_instances (fl_db s')) (''C1'', ''p'', ''vm'')) = Some ''vm''"
proof -
  from a_pass_facts(1) obtain s' n where p: "a_pass = Inr (s', n)" by (auto simp: is_ok_iff)
  note k = inventory_replaced[OF a_pass_facts(2,3) unused_id p[unfolded a_pass_def], THEN conjunct2, THEN conjunct2, THEN spec]
  have "t_lookup inst_key (db_instances (fl_db s')) (''C1'', ''p'', ''gone'') = None"
    using k[of "(''C1'', ''p'', ''gone'')"] a_pass_facts(4) by simp
  moreover have "map_option in_id (t_lookup inst_key (db_instances (fl_db s')) (''C1'', ''p'', ''vm'')) = Some ''vm''"
    using k[of "(''C1'', ''p'', ''vm'')"] a_pass_facts(5,6) by (auto split: option.splits)
  ultimately show ?thesis using p by blast
qed

theorem none_left_due_witness:
  "inventory_due 5 a_cluster \<and> filter (inventory_due 5) (db_clusters (fl_db (fleet_tick
    (\<lambda>n c. inventory_visit unused_id (\<lambda>_. None) 100 (Inl (OtherError ''down'')) (int n + 5) c) (\<lambda>n. int n + 5) (\<lambda>_. False) ''w'' 30000 0 a_fleet))) = []"
proof -
  have "snd (acquireLease (int 0 + 5) (fl_db a_fleet) ''inventory'' ''w'' 30000)" by code_simp
  from none_left_due[of "\<lambda>n. int n + 5", OF this, of "\<lambda>_. False" 0 unused_id "\<lambda>_. None" 100 "\<lambda>_ _. Inl (OtherError ''down'')"] a_pass_facts(7)
  show ?thesis by simp
qed

end
