(* ===== verification/Preflight.thy ===== *)
theory Preflight
  imports Leases
begin

text \<open>
  The check before an instance goes to another cluster (\<^verbatim>\<open>mobility/preflight.ts\<close>): what blocks it, what is
  worth knowing, and the request that creates it on the target. The parser of JSON is an argument; of the
  boot record only its numbers count, anything else in their place is not a number.
\<close>

section \<open>What is asked\<close>

type_synonym config = "(string, string) jsmap"
type_synonym devices = "(string, config) jsmap"

record source_instance =
  si_name :: string
  si_type :: string
  si_status :: string
  si_architecture :: string
  si_config :: config
  si_expandedConfig :: "config option"
  si_devices :: devices
  si_profiles :: "string list"
  si_expandedDevices :: devices
  si_snapshots :: nat
  si_apiExtensions :: "string list"

record target_facts =
  tf_projectExists :: bool
  tf_architectures :: "string list"
  tf_pools :: "string list"
  tf_networks :: "string list"
  tf_profiles :: "string list"
  tf_instanceNames :: "string list"
  tf_defaultProfileDevices :: devices
  tf_apiExtensions :: "string list"
  tf_dropsBootState :: bool

datatype mode = Copy | Move

record preflight_input =
  pi_source :: source_instance
  pi_target :: target_facts
  pi_targetName :: string
  pi_mode :: mode
  pi_live :: bool
  pi_pool :: "string option"

record target_request =
  tr_name :: string
  tr_type :: string
  tr_architecture :: string
  tr_config :: config
  tr_devices :: devices
  tr_profiles :: "string list"

record preflight_result =
  pf_ok :: bool
  pf_problems :: "string list"
  pf_warnings :: "string list"
  pf_request :: target_request

section \<open>Devices and the boot record\<close>

definition is_root :: "config \<Rightarrow> bool" where
  "is_root d \<longleftrightarrow> m_get d ''type'' = Some ''disk'' \<and> m_get d ''path'' = Some ''/''"

definition rootOf :: "devices \<Rightarrow> (string \<times> config) option" where
  "rootOf ds = find (\<lambda>(_, d). is_root d) ds"

definition bootState :: "(string \<Rightarrow> json option) \<Rightarrow> string option \<Rightarrow> json option" where
  "bootState parse raw = parse (case raw of None \<Rightarrow> [] | Some s \<Rightarrow> s)"

text \<open>A field of a value that may be missing, null or no object; null is as good as missing.\<close>

definition field :: "json option \<Rightarrow> string \<Rightarrow> json option" where
  "field j k = (case j of Some (JObj m) \<Rightarrow> (case m_get m k of Some JNull \<Rightarrow> None | v \<Rightarrow> v) | _ \<Rightarrow> None)"

fun truthy_json :: "json option \<Rightarrow> bool" where
  "truthy_json None = False"
| "truthy_json (Some JNull) = False"
| "truthy_json (Some (JBool b)) = b"
| "truthy_json (Some (JNum n)) = (n \<noteq> 0)"
| "truthy_json (Some (JStr s)) = (s \<noteq> [])"
| "truthy_json (Some _) = True"

definition bootMachine :: "(string \<Rightarrow> json option) \<Rightarrow> string option \<Rightarrow> json option" where
  "bootMachine parse raw = (let m = field (bootState parse raw) ''machine_type'' in if truthy_json m then m else None)"

definition number_or_1 :: "json option \<Rightarrow> rat option" where
  "number_or_1 j = (case j of None \<Rightarrow> Some 1 | Some (JNum n) \<Rightarrow> Some n | Some _ \<Rightarrow> None)"

definition bootCpus :: "(string \<Rightarrow> json option) \<Rightarrow> string option \<Rightarrow> rat option" where
  "bootCpus parse raw =
    (let t = field (bootState parse raw) ''cpu_topology'' in
     case (number_or_1 (field t ''sockets''), number_or_1 (field t ''cores''), number_or_1 (field t ''threads'')) of
       (Some a, Some b, Some c) \<Rightarrow> Some (a * b * c)
     | _ \<Rightarrow> None)"

section \<open>The check, part by part\<close>

definition quoted :: "string \<Rightarrow> string" where
  "quoted s = ''\"'' @ s @ ''\"''"

definition place_problems :: "preflight_input \<Rightarrow> string list" where
  "place_problems i =
    (let s = pi_source i; t = pi_target i in
     (if tf_projectExists t then [] else [''The target project does not exist''])
     @ (if pi_targetName i \<in> set (tf_instanceNames t) then [''An instance named '' @ quoted (pi_targetName i) @ '' already exists on the target''] else [])
     @ (if tf_architectures t \<noteq> [] \<and> si_architecture s \<notin> set (tf_architectures t) then [''The target has no '' @ si_architecture s @ '' members''] else [])
     @ map (\<lambda>p. ''Profile '' @ quoted p @ '' does not exist on the target'') (filter (\<lambda>p. p \<notin> set (tf_profiles t)) (si_profiles s)))"

text \<open>The pool the root disk goes to, and what is wrong with it.\<close>

definition profile_pool :: "target_facts \<Rightarrow> string option" where
  "profile_pool t = (case rootOf (tf_defaultProfileDevices t) of None \<Rightarrow> None | Some (_, d) \<Rightarrow> m_get d ''pool'')"

definition chosen_pool :: "preflight_input \<Rightarrow> string option" where
  "chosen_pool i =
    (let t = pi_target i in
     if truthy (pi_pool i) then pi_pool i
     else if truthy (profile_pool t) \<and> the (profile_pool t) \<in> set (tf_pools t) then profile_pool t
     else (case tf_pools t of [p] \<Rightarrow> Some p | _ \<Rightarrow> None))"

definition pool_problems :: "preflight_input \<Rightarrow> string list" where
  "pool_problems i =
    (if truthy (pi_pool i) then
       (if the (pi_pool i) \<in> set (tf_pools (pi_target i)) then [] else [''Storage pool '' @ quoted (the (pi_pool i)) @ '' does not exist on the target''])
     else if truthy (chosen_pool i) then [] else [''Choose a storage pool on the target''])"

definition root_device :: "preflight_input \<Rightarrow> devices" where
  "root_device i =
    (case rootOf (si_expandedDevices (pi_source i)) of
       Some (name, d) \<Rightarrow> if truthy (chosen_pool i) then [(name, m_set d ''pool'' (the (chosen_pool i)))] else []
     | None \<Rightarrow> [])"

text \<open>One device: whether it goes along, its problems and its warnings.\<close>

definition one_device :: "preflight_input \<Rightarrow> string \<Rightarrow> config \<Rightarrow> bool \<times> string list \<times> string list" where
  "one_device i name d =
    (let s = pi_source i; t = pi_target i; local = m_get (si_devices s) name \<noteq> None; type = m_get d ''type'' in
     if type = Some ''nic'' then
       (if \<not> local then
          (False, [], if ''default'' \<in> set (si_profiles s) \<and> m_get (tf_defaultProfileDevices t) name = None
             then [''The target's default profile has no '' @ quoted name @ '': the instance will have no such NIC there''] else [])
        else if truthy (m_get d ''network'') then
          (True, if the (m_get d ''network'') \<in> set (tf_networks t) then []
             else [''Network '' @ quoted (the (m_get d ''network'')) @ '' ('' @ name @ '') does not exist on the target''], [])
        else (True, [], [name @ '' (nic) is copied as is'']))
     else if \<not> local then (False, [], [])
     else if type = Some ''disk'' \<and> truthy (m_get d ''pool'') \<and> truthy (m_get d ''source'') then
       (False, [''Volume '' @ quoted (the (m_get d ''source'')) @ '' ('' @ name @ '') is not migrated; detach it first''], [])
     else if type = Some ''disk'' \<and> (case m_get d ''source'' of None \<Rightarrow> False | Some src \<Rightarrow> startsWith src ''/'') then
       (True, [], [''Host path '' @ quoted (the (m_get d ''source'')) @ '' ('' @ name @ '') must exist on the target''])
     else if type \<noteq> Some ''none'' \<and> type \<noteq> Some ''disk'' then
       (True, [], [name @ '' ('' @ (case type of None \<Rightarrow> ''undefined'' | Some x \<Rightarrow> x) @ '') is copied as is''])
     else (True, [], []))"

definition other_devices :: "preflight_input \<Rightarrow> devices" where
  "other_devices i =
    (let s = pi_source i in
     filter (\<lambda>(name, _). map_option fst (rootOf (si_expandedDevices s)) \<noteq> Some name) (si_expandedDevices s))"

definition request_devices :: "preflight_input \<Rightarrow> devices" where
  "request_devices i =
     fold (\<lambda>(name, d) ds. if fst (one_device i name d) then m_set ds name d else ds) (other_devices i) (root_device i)"

definition device_problems :: "preflight_input \<Rightarrow> string list" where
  "device_problems i = concat (map (\<lambda>(name, d). fst (snd (one_device i name d))) (other_devices i))"

definition device_warnings :: "preflight_input \<Rightarrow> string list" where
  "device_warnings i = concat (map (\<lambda>(name, d). snd (snd (one_device i name d))) (other_devices i))"

definition boot_record :: "source_instance \<Rightarrow> string option" where
  "boot_record s = m_get (si_config s) ''volatile.vm.boot_state''"

definition more_than_one :: "rat option \<Rightarrow> bool" where
  "more_than_one n = (case n of None \<Rightarrow> False | Some x \<Rightarrow> x > 1)"

definition state_problems :: "(string \<Rightarrow> json option) \<Rightarrow> preflight_input \<Rightarrow> string list \<times> string list" where
  "state_problems parse i =
    (let s = pi_source i; t = pi_target i; cfg = (case si_expandedConfig s of None \<Rightarrow> si_config s | Some c \<Rightarrow> c) in
     if m_get cfg ''migration.stateful'' \<noteq> Some ''true'' then ([''Live moves need migration.stateful=true on the instance''], [])
     else if si_status s = ''Running'' \<and> bootMachine parse (boot_record s) = None then
       ([''Restart this VM before moving it live: Incus has no record of how it booted (as after a live move into a tenant project)''], [])
     else if tf_dropsBootState t then
       (if more_than_one (bootCpus parse (boot_record s)) then
          ([''Incus can't move a VM with more than one vCPU live into a tenant project: the restricted project drops the VM's boot record and the restore fails. Move it with a restart instead''], [])
        else ([], [''The VM must be restarted on the target before it can move live again: the tenant project drops its boot record'']))
     else ([], []))"

definition live_checks :: "(string \<Rightarrow> json option) \<Rightarrow> preflight_input \<Rightarrow> string list \<times> string list" where
  "live_checks parse i =
    (let s = pi_source i; t = pi_target i in
     if pi_live i then
       (if si_type s = ''container'' then ([''Containers cannot move live''], [])
        else ((if si_status s \<noteq> ''Running'' then [''Only a running instance moves live''] else [])
            @ fst (state_problems parse i)
            @ (if ''migration_vm_live'' \<in> set (si_apiExtensions s) then [] else [''The source does not support live VM migration''])
            @ (if ''migration_vm_live'' \<in> set (tf_apiExtensions t) then [] else [''The target does not support live VM migration'']),
          snd (state_problems parse i)))
     else if si_status s = ''Running'' then
       ([], if pi_mode i = Move then [''The '' @ (if si_type s = ''container'' then ''container'' else ''instance'') @ '' is stopped for the move and started again on the target'']
            else [''The copy is not started''])
     else ([], []))"

definition snapshot_warnings :: "source_instance \<Rightarrow> string list" where
  "snapshot_warnings s =
    (if si_snapshots s > 0 then [show_nat (si_snapshots s) @ '' snapshot'' @ (if si_snapshots s = 1 then '' is'' else ''s are'') @ '' copied too''] else [])"

definition keep :: "mode \<Rightarrow> string \<Rightarrow> bool" where
  "keep m k \<longleftrightarrow> k \<noteq> ''volatile.last_state.power'' \<and> (m = Move \<or> \<not> startsWith k ''volatile.'' \<or> k = ''volatile.base_image'')"

definition preflight :: "(string \<Rightarrow> json option) \<Rightarrow> preflight_input \<Rightarrow> preflight_result" where
  "preflight parse i =
    (let s = pi_source i;
         problems = place_problems i @ pool_problems i @ device_problems i @ fst (live_checks parse i);
         warnings = device_warnings i @ snd (live_checks parse i) @ snapshot_warnings s
     in \<lparr>pf_ok = (problems = []), pf_problems = problems, pf_warnings = warnings,
         pf_request = \<lparr>tr_name = pi_targetName i, tr_type = si_type s, tr_architecture = si_architecture s,
           tr_config = filter (\<lambda>(k, _). keep (pi_mode i) k) (si_config s), tr_devices = request_devices i, tr_profiles = si_profiles s\<rparr>\<rparr>)"

section \<open>What blocks a device, a pool and a live move\<close>

definition attached_volume :: "config \<Rightarrow> bool" where
  "attached_volume d \<longleftrightarrow> m_get d ''type'' = Some ''disk'' \<and> truthy (m_get d ''pool'') \<and> truthy (m_get d ''source'')"

definition network_missing :: "target_facts \<Rightarrow> config \<Rightarrow> bool" where
  "network_missing t d \<longleftrightarrow> m_get d ''type'' = Some ''nic'' \<and> truthy (m_get d ''network'') \<and> the (m_get d ''network'') \<notin> set (tf_networks t)"

definition is_local :: "source_instance \<Rightarrow> string \<Rightarrow> bool" where
  "is_local s name \<longleftrightarrow> m_get (si_devices s) name \<noteq> None"

lemma one_device_problems:
  "fst (snd (one_device i name d)) = [] \<longleftrightarrow>
     (is_local (pi_source i) name \<longrightarrow> \<not> attached_volume d \<and> \<not> network_missing (pi_target i) d)"
  by (auto simp: one_device_def attached_volume_def network_missing_def is_local_def Let_def)

lemma one_device_goes:
  "fst (one_device i name d) \<longleftrightarrow> is_local (pi_source i) name \<and> \<not> attached_volume d"
  by (auto simp: one_device_def attached_volume_def is_local_def Let_def)

lemma device_problems_none:
  "device_problems i = [] \<longleftrightarrow> (\<forall>(name, d)\<in>set (other_devices i).
     is_local (pi_source i) name \<longrightarrow> \<not> attached_volume d \<and> \<not> network_missing (pi_target i) d)"
  unfolding device_problems_def concat_eq_Nil_conv using one_device_problems by fastforce

lemma place_problems_none:
  "place_problems i = [] \<longleftrightarrow>
     tf_projectExists (pi_target i) \<and> pi_targetName i \<notin> set (tf_instanceNames (pi_target i)) \<and>
     (tf_architectures (pi_target i) = [] \<or> si_architecture (pi_source i) \<in> set (tf_architectures (pi_target i))) \<and>
     set (si_profiles (pi_source i)) \<subseteq> set (tf_profiles (pi_target i))"
  by (auto simp: place_problems_def Let_def filter_empty_conv)

lemma chosen_pool_exists:
  assumes "\<not> truthy (pi_pool i)" "chosen_pool i = Some p" shows "p \<in> set (tf_pools (pi_target i))"
  using assms by (auto simp: chosen_pool_def Let_def split: if_splits list.splits)

lemma pool_problems_none:
  "pool_problems i = [] \<longleftrightarrow> (\<exists>p. chosen_pool i = Some p \<and> p \<noteq> [] \<and> p \<in> set (tf_pools (pi_target i)))"
proof (cases "truthy (pi_pool i)")
  case True
  then show ?thesis by (cases "pi_pool i") (auto simp: pool_problems_def chosen_pool_def)
next
  case False
  with chosen_pool_exists[OF this] show ?thesis by (cases "chosen_pool i") (auto simp: pool_problems_def)
qed

definition live_ready :: "(string \<Rightarrow> json option) \<Rightarrow> source_instance \<Rightarrow> target_facts \<Rightarrow> bool" where
  "live_ready parse s t \<longleftrightarrow> si_type s \<noteq> ''container'' \<and> si_status s = ''Running'' \<and>
     m_get (case si_expandedConfig s of None \<Rightarrow> si_config s | Some c \<Rightarrow> c) ''migration.stateful'' = Some ''true'' \<and>
     bootMachine parse (boot_record s) \<noteq> None \<and>
     (tf_dropsBootState t \<longrightarrow> \<not> more_than_one (bootCpus parse (boot_record s))) \<and>
     ''migration_vm_live'' \<in> set (si_apiExtensions s) \<and> ''migration_vm_live'' \<in> set (tf_apiExtensions t)"

lemma live_checks_none: "fst (live_checks parse i) = [] \<longleftrightarrow> (pi_live i \<longrightarrow> live_ready parse (pi_source i) (pi_target i))"
  by (auto simp: live_checks_def live_ready_def state_problems_def Let_def split: option.splits)

lemma preflight_simps:
  "pf_ok (preflight parse i) \<longleftrightarrow> place_problems i = [] \<and> pool_problems i = [] \<and> device_problems i = [] \<and> fst (live_checks parse i) = []"
  "pf_problems (preflight parse i) = place_problems i @ pool_problems i @ device_problems i @ fst (live_checks parse i)"
  "pf_request (preflight parse i) = \<lparr>tr_name = pi_targetName i, tr_type = si_type (pi_source i), tr_architecture = si_architecture (pi_source i),
     tr_config = filter (\<lambda>(k, _). keep (pi_mode i) k) (si_config (pi_source i)), tr_devices = request_devices i, tr_profiles = si_profiles (pi_source i)\<rparr>"
  by (auto simp: preflight_def Let_def)

section \<open>The devices of the request\<close>

lemma m_get_filter_key: "m_get (filter (\<lambda>(k, _). P k) m) k = (if P k then m_get m k else None)"
  by (induction m) (auto simp: m_get_Cons split: if_splits)

lemma carried_get:
  assumes "distinct (map fst ds)"
  shows "m_get (fold (\<lambda>(n, d) acc. if P n d then m_set acc n d else acc) ds acc) name =
    (case m_get ds name of Some d \<Rightarrow> if P name d then Some d else m_get acc name | None \<Rightarrow> m_get acc name)"
  using assms
proof (induction ds arbitrary: acc)
  case (Cons x ds)
  obtain n d where x: "x = (n, d)" by (cases x)
  from Cons.prems x have "distinct (map fst ds)" and none: "n = name \<Longrightarrow> m_get ds name = None"
    by (auto simp: m_get_None_iff)
  from Cons.IH[OF this(1)] none show ?case
    by (cases "n = name") (auto simp: x m_get_Cons split: option.splits)
qed simp

lemma other_get:
  "m_get (other_devices i) name =
     (if map_option fst (rootOf (si_expandedDevices (pi_source i))) = Some name then None else m_get (si_expandedDevices (pi_source i)) name)"
  unfolding other_devices_def Let_def m_get_filter_key by simp

lemma other_distinct: "m_wf (si_expandedDevices (pi_source i)) \<Longrightarrow> distinct (map fst (other_devices i))"
  unfolding m_wf_def other_devices_def Let_def by (rule distinct_map_filter)

lemma m_get_mem: "m_wf m \<Longrightarrow> (k, v) \<in> set m \<longleftrightarrow> m_get m k = Some v"
  unfolding m_wf_def by (simp add: m_get_def)

lemma root_mem: "rootOf ds = Some (n, d) \<Longrightarrow> (n, d) \<in> set ds \<and> is_root d"
  unfolding rootOf_def using find_mem by fastforce

text \<open>The device of a name in the request: the root disk on its pool, or a local device that is no attached volume.\<close>

lemma request_device:
  assumes "m_wf (si_expandedDevices (pi_source i))"
  shows "m_get (request_devices i) name =
    (if map_option fst (rootOf (si_expandedDevices (pi_source i))) = Some name then m_get (root_device i) name
     else case m_get (si_expandedDevices (pi_source i)) name of
       Some d \<Rightarrow> if is_local (pi_source i) name \<and> \<not> attached_volume d then Some d else None
     | None \<Rightarrow> None)"
proof -
  have root: "m_get (root_device i) name = None" if "map_option fst (rootOf (si_expandedDevices (pi_source i))) \<noteq> Some name"
    using that unfolding root_device_def by (auto simp: m_get_Cons split: option.splits)
  have "m_get (request_devices i) name =
    (case m_get (other_devices i) name of Some d \<Rightarrow> if fst (one_device i name d) then Some d else m_get (root_device i) name
     | None \<Rightarrow> m_get (root_device i) name)"
    unfolding request_devices_def by (rule carried_get[OF other_distinct[OF assms]])
  then show ?thesis unfolding other_get one_device_goes using root by (auto split: option.splits)
qed

lemma clear_device:
  assumes "device_problems i = []" "m_get (si_expandedDevices (pi_source i)) name = Some d" "is_local (pi_source i) name"
    "map_option fst (rootOf (si_expandedDevices (pi_source i))) \<noteq> Some name"
  shows "\<not> attached_volume d \<and> \<not> network_missing (pi_target i) d"
proof -
  have "(name, d) \<in> set (other_devices i)" using assms(2,4) other_get[of i name] by (auto simp: m_get_def dest: map_of_SomeD)
  from bspec[OF assms(1)[unfolded device_problems_none] this] assms(3) show ?thesis by simp
qed

section \<open>Properties\<close>

text \<open>
  C14: The check lets an instance go exactly when nothing stands against it: the project exists and the name is
  free, the architecture and every profile are there, the root disk has an existing pool to go to, no local
  device is a volume of its own or needs a network that is missing, and for a live move the instance
  is a running, stateful VM whose boot is on record, fits the target project and is supported by both sides.
\<close>

theorem preflight_exact:
  "pf_ok (preflight parse i) \<longleftrightarrow>
     tf_projectExists (pi_target i) \<and> pi_targetName i \<notin> set (tf_instanceNames (pi_target i)) \<and>
     (tf_architectures (pi_target i) = [] \<or> si_architecture (pi_source i) \<in> set (tf_architectures (pi_target i))) \<and>
     set (si_profiles (pi_source i)) \<subseteq> set (tf_profiles (pi_target i)) \<and>
     (\<exists>p. chosen_pool i = Some p \<and> p \<noteq> [] \<and> p \<in> set (tf_pools (pi_target i))) \<and>
     (\<forall>(name, d)\<in>set (other_devices i). is_local (pi_source i) name \<longrightarrow> \<not> attached_volume d \<and> \<not> network_missing (pi_target i) d) \<and>
     (pi_live i \<longrightarrow> live_ready parse (pi_source i) (pi_target i))"
  unfolding preflight_simps place_problems_none pool_problems_none device_problems_none live_checks_none by (simp only: conj_assoc)

text \<open>
  What a successful check asks the target to create fits it: every device of the request is the source's
  root disk, moved to a pool the target has, or a device of the instance's own, unchanged, that
  is no attached volume and whose network exists; a device of the instance's own is never left out; and of the
  configuration exactly the last power state and, in a copy, what is volatile but the base image stays behind.
\<close>

theorem request_fits:
  assumes "m_wf (si_expandedDevices (pi_source i))" "pf_ok (preflight parse i)"
    and "r = pf_request (preflight parse i)"
  shows "(\<forall>name d. m_get (tr_devices r) name = Some d \<longrightarrow>
      (if map_option fst (rootOf (si_expandedDevices (pi_source i))) = Some name
       then \<exists>d0 p. m_get (si_expandedDevices (pi_source i)) name = Some d0 \<and> is_root d0 \<and> p \<in> set (tf_pools (pi_target i)) \<and> d = m_set d0 ''pool'' p
       else m_get (si_expandedDevices (pi_source i)) name = Some d \<and> is_local (pi_source i) name \<and> \<not> attached_volume d \<and> \<not> network_missing (pi_target i) d)) \<and>
    (\<forall>name d. m_get (si_expandedDevices (pi_source i)) name = Some d \<longrightarrow> is_local (pi_source i) name \<or> rootOf (si_expandedDevices (pi_source i)) = Some (name, d)
      \<longrightarrow> m_get (tr_devices r) name \<noteq> None) \<and>
    (\<forall>k. m_get (tr_config r) k = (if k = ''volatile.last_state.power'' \<or> pi_mode i = Copy \<and> startsWith k ''volatile.'' \<and> k \<noteq> ''volatile.base_image''
      then None else m_get (si_config (pi_source i)) k))"
proof (intro conjI allI impI)
  let ?x = "si_expandedDevices (pi_source i)"
  have ok: "pool_problems i = []" "device_problems i = []" using assms(2) by (simp_all add: preflight_simps)
  from ok(1) obtain p where p: "chosen_pool i = Some p" "p \<noteq> []" "p \<in> set (tf_pools (pi_target i))" unfolding pool_problems_none by blast
  have r: "tr_devices r = request_devices i" "tr_config r = filter (\<lambda>(k, _). keep (pi_mode i) k) (si_config (pi_source i))"
    using assms(3) by (simp_all add: preflight_simps)
  note dev = request_device[OF assms(1)]
  have root: "\<exists>d0. rootOf ?x = Some (name, d0) \<and> m_get ?x name = Some d0 \<and> is_root d0 \<and> m_get (root_device i) name = Some (m_set d0 ''pool'' p)"
    if "map_option fst (rootOf ?x) = Some name" for name
  proof -
    from that obtain d0 where d0: "rootOf ?x = Some (name, d0)" by auto
    with root_mem[OF d0] m_get_mem[OF assms(1)] p show ?thesis by (simp add: root_device_def m_get_Cons)
  qed
  {
    fix name d assume d: "m_get (tr_devices r) name = Some d"
    show "if map_option fst (rootOf ?x) = Some name
       then \<exists>d0 p. m_get ?x name = Some d0 \<and> is_root d0 \<and> p \<in> set (tf_pools (pi_target i)) \<and> d = m_set d0 ''pool'' p
       else m_get ?x name = Some d \<and> is_local (pi_source i) name \<and> \<not> attached_volume d \<and> \<not> network_missing (pi_target i) d"
    proof (cases "map_option fst (rootOf ?x) = Some name")
      case True
      with root[OF True] d p(3) dev[of name] show ?thesis by (auto simp: r)
    next
      case False
      with d dev[of name] have own: "m_get ?x name = Some d" "is_local (pi_source i) name" "\<not> attached_volume d"
        by (auto simp: r split: option.splits if_splits)
      with False clear_device[OF ok(2) own(1,2) False] show ?thesis by simp
    qed
  next
    fix name d assume d: "m_get ?x name = Some d" "is_local (pi_source i) name \<or> rootOf ?x = Some (name, d)"
    show "m_get (tr_devices r) name \<noteq> None"
    proof (cases "map_option fst (rootOf ?x) = Some name")
      case True
      with root[OF True] dev[of name] show ?thesis by (auto simp: r)
    next
      case False
      with d have l: "is_local (pi_source i) name" by auto
      from clear_device[OF ok(2) d(1) l False] l False d(1) dev[of name] show ?thesis by (simp add: r)
    qed
  next
    fix k show "m_get (tr_config r) k = (if k = ''volatile.last_state.power'' \<or> pi_mode i = Copy \<and> startsWith k ''volatile.'' \<and> k \<noteq> ''volatile.base_image''
      then None else m_get (si_config (pi_source i)) k)"
      unfolding r(2) m_get_filter_key keep_def by (cases "pi_mode i") auto
  }
qed

section \<open>An instance to go\<close>

definition a_source :: source_instance where
  "a_source = \<lparr>si_name = ''web'', si_type = ''virtual-machine'', si_status = ''Running'', si_architecture = ''x86_64'',
     si_config = [(''volatile.uuid'', ''u1''), (''limits.cpu'', ''1''), (''volatile.last_state.power'', ''RUNNING'')], si_expandedConfig = None,
     si_devices = [(''eth0'', [(''type'', ''nic''), (''network'', ''n1'')])], si_profiles = [''default''],
     si_expandedDevices = [(''eth0'', [(''type'', ''nic''), (''network'', ''n1'')]), (''root'', [(''type'', ''disk''), (''path'', ''/''), (''pool'', ''old'')])],
     si_snapshots = 1, si_apiExtensions = []\<rparr>"

definition a_target :: target_facts where
  "a_target = \<lparr>tf_projectExists = True, tf_architectures = [''x86_64''], tf_pools = [''p1''], tf_networks = [''n1''], tf_profiles = [''default''],
     tf_instanceNames = [], tf_defaultProfileDevices = [], tf_apiExtensions = [], tf_dropsBootState = False\<rparr>"

definition a_move :: preflight_input where
  "a_move = \<lparr>pi_source = a_source, pi_target = a_target, pi_targetName = ''web'', pi_mode = Move, pi_live = False, pi_pool = None\<rparr>"

lemma a_move_ok: "pf_ok (preflight (\<lambda>_. None) a_move)" "m_wf (si_expandedDevices (pi_source a_move))"
  by code_simp+

theorem preflight_exact_witness:
  "pf_ok (preflight (\<lambda>_. None) a_move) \<and> pi_targetName a_move \<notin> set (tf_instanceNames (pi_target a_move)) \<and>
     \<not> pf_ok (preflight (\<lambda>_. None) (a_move\<lparr>pi_live := True\<rparr>))"
proof -
  have "\<not> live_ready (\<lambda>_. None) a_source a_target" by code_simp
  then have "\<not> pf_ok (preflight (\<lambda>_. None) (a_move\<lparr>pi_live := True\<rparr>))"
    unfolding preflight_exact[of _ "a_move\<lparr>pi_live := True\<rparr>"] by (simp add: a_move_def)
  with a_move_ok(1) show ?thesis unfolding preflight_exact[of _ a_move] by blast
qed

theorem request_fits_witness:
  "\<exists>d. m_get (tr_devices (pf_request (preflight (\<lambda>_. None) a_move))) ''root'' = Some d \<and> m_get d ''pool'' = Some ''p1'' \<and>
     m_get (tr_config (pf_request (preflight (\<lambda>_. None) a_move))) ''volatile.uuid'' = Some ''u1''"
proof -
  have root: "m_get (si_expandedDevices (pi_source a_move)) ''root'' = Some [(''type'', ''disk''), (''path'', ''/''), (''pool'', ''old'')]"
    "rootOf (si_expandedDevices (pi_source a_move)) = Some (''root'', [(''type'', ''disk''), (''path'', ''/''), (''pool'', ''old'')])"
    "set (tf_pools (pi_target a_move)) = {''p1''}" "m_get (si_config (pi_source a_move)) ''volatile.uuid'' = Some ''u1''" "pi_mode a_move = Move"
    by code_simp+
  note f = request_fits[OF a_move_ok(2,1) refl]
  from f root(1,2) obtain d where d: "m_get (tr_devices (pf_request (preflight (\<lambda>_. None) a_move))) ''root'' = Some d" by blast
  with f root(2) have "\<exists>d0. d = m_set d0 ''pool'' ''p1''" unfolding root(3) by fastforce
  moreover from f have "m_get (tr_config (pf_request (preflight (\<lambda>_. None) a_move))) ''volatile.uuid'' = Some ''u1''"
    using root(4,5) by simp
  ultimately show ?thesis using d by auto
qed

end
