(* ===== verification/Effects.thy ===== *)
theory Effects
  imports Js_Data
begin

text \<open>
  Handlers that change a state, may throw on the way and clean up after themselves: \<open>await\<close> in sequence,
  \<open>try\<close> with \<open>catch\<close> and \<open>finally\<close>, and \<open>.catch(() => {})\<close>. A handler takes the state and gives the state
  it leaves, whether it returns or throws, and the value or the error. A triple says what holds
  when it returns and what holds when it throws; its rules follow the constructs.
\<close>

type_synonym ('s, 'a) handler = "'s \<Rightarrow> 's \<times> 'a result"

definition give :: "'a \<Rightarrow> ('s, 'a) handler" where
  "give x s = (s, Inr x)"

definition throw :: "failure \<Rightarrow> ('s, 'a) handler" where
  "throw e s = (s, Inl e)"

definition run_then :: "('s, 'a) handler \<Rightarrow> ('a \<Rightarrow> ('s, 'b) handler) \<Rightarrow> ('s, 'b) handler" where
  "run_then m f s = (case m s of (s1, Inl e) \<Rightarrow> (s1, Inl e) | (s1, Inr x) \<Rightarrow> f x s1)"

definition catching :: "('s, 'a) handler \<Rightarrow> (failure \<Rightarrow> ('s, 'a) handler) \<Rightarrow> ('s, 'a) handler" where
  "catching m h s = (case m s of (s1, Inl e) \<Rightarrow> h e s1 | (s1, Inr x) \<Rightarrow> (s1, Inr x))"

definition finally_do :: "('s, 'a) handler \<Rightarrow> ('s \<Rightarrow> 's) \<Rightarrow> ('s, 'a) handler" where
  "finally_do m g s = (case m s of (s1, r) \<Rightarrow> (g s1, r))"

definition only_if :: "bool \<Rightarrow> ('s, unit) handler \<Rightarrow> ('s, unit) handler" where
  "only_if b m = (if b then m else give ())"

definition ignoring :: "('s, 'a) handler \<Rightarrow> ('s, unit) handler" where
  "ignoring m s = (fst (m s), Inr ())"

definition change :: "('s \<Rightarrow> 's) \<Rightarrow> ('s, unit) handler" where
  "change g s = (g s, Inr ())"

definition asking :: "('s \<Rightarrow> 'a result) \<Rightarrow> ('s, 'a) handler" where
  "asking f s = (s, f s)"

section \<open>Triples\<close>

definition triple :: "('s \<Rightarrow> bool) \<Rightarrow> ('s, 'a) handler \<Rightarrow> ('a \<Rightarrow> 's \<Rightarrow> bool) \<Rightarrow> ('s \<Rightarrow> bool) \<Rightarrow> bool" where
  "triple P m Q R \<longleftrightarrow> (\<forall>s. P s \<longrightarrow> (case m s of (s', Inl _) \<Rightarrow> R s' | (s', Inr x) \<Rightarrow> Q x s'))"

lemma tripleI: "(\<And>s. P s \<Longrightarrow> case m s of (s', Inl _) \<Rightarrow> R s' | (s', Inr x) \<Rightarrow> Q x s') \<Longrightarrow> triple P m Q R"
  by (simp add: triple_def)

lemma tripleD:
  assumes "triple P m Q R" "P s"
  shows "m s = (s', Inr x) \<Longrightarrow> Q x s'" "m s = (s', Inl e) \<Longrightarrow> R s'"
  using assms by (auto simp: triple_def)

lemma triple_weaken:
  assumes "triple P' m Q' R'" "\<And>s. P s \<Longrightarrow> P' s" "\<And>x s. Q' x s \<Longrightarrow> Q x s" "\<And>s. R' s \<Longrightarrow> R s"
  shows "triple P m Q R"
  using assms unfolding triple_def by (fastforce split: prod.splits sum.splits)

lemma triple_pre: "triple P' m Q R \<Longrightarrow> (\<And>s. P s \<Longrightarrow> P' s) \<Longrightarrow> triple P m Q R"
  by (rule triple_weaken)

lemma triple_give: "(\<And>s. P s \<Longrightarrow> Q x s) \<Longrightarrow> triple P (give x) Q R"
  by (simp add: triple_def give_def)

lemma triple_throw: "(\<And>s. P s \<Longrightarrow> R s) \<Longrightarrow> triple P (throw e) Q R"
  by (simp add: triple_def throw_def)

lemma triple_then: "triple P m Q' R \<Longrightarrow> (\<And>x. triple (Q' x) (f x) Q R) \<Longrightarrow> triple P (run_then m f) Q R"
  unfolding triple_def run_then_def by (fastforce split: prod.splits sum.splits)

lemma triple_catch: "triple P m Q R' \<Longrightarrow> (\<And>e. triple R' (h e) Q R) \<Longrightarrow> triple P (catching m h) Q R"
  unfolding triple_def catching_def by (fastforce split: prod.splits sum.splits)

lemma triple_finally:
  "triple P m Q' R' \<Longrightarrow> (\<And>x s. Q' x s \<Longrightarrow> Q x (g s)) \<Longrightarrow> (\<And>s. R' s \<Longrightarrow> R (g s)) \<Longrightarrow> triple P (finally_do m g) Q R"
  unfolding triple_def finally_do_def by (fastforce split: prod.splits sum.splits)

lemma triple_when: "triple (\<lambda>s. P s \<and> b) m Q R \<Longrightarrow> (\<And>s. P s \<Longrightarrow> \<not> b \<Longrightarrow> Q () s) \<Longrightarrow> triple P (only_if b m) Q R"
  by (cases b) (auto simp: triple_def only_if_def give_def)

lemma triple_ignoring: "triple P m (\<lambda>_. Q) Q \<Longrightarrow> triple P (ignoring m) (\<lambda>_. Q) R"
  unfolding triple_def ignoring_def by (fastforce split: prod.splits sum.splits)

lemma triple_change: "(\<And>s. P s \<Longrightarrow> Q () (g s)) \<Longrightarrow> triple P (change g) Q R"
  by (simp add: triple_def change_def)

lemma triple_asking: "(\<And>s x. P s \<Longrightarrow> f s = Inr x \<Longrightarrow> Q x s) \<Longrightarrow> (\<And>s. P s \<Longrightarrow> R s) \<Longrightarrow> triple P (asking f) Q R"
  by (simp add: triple_def asking_def split: sum.splits)

lemma triple_if: "(b \<Longrightarrow> triple P m Q R) \<Longrightarrow> (\<not> b \<Longrightarrow> triple P n Q R) \<Longrightarrow> triple P (if b then m else n) Q R"
  by simp

lemma triple_assume: "(H \<Longrightarrow> triple P m Q R) \<Longrightarrow> triple (\<lambda>s. P s \<and> H) m Q R"
  by (cases H) (simp_all add: triple_def)

lemma triple_cond:
  assumes "triple (\<lambda>s. P s \<and> c s) m Q R" "triple (\<lambda>s. P s \<and> \<not> c s) n Q R"
  shows "triple P (\<lambda>s. if c s then m s else n s) Q R"
  using assms by (simp add: triple_def)

end
