(* ===== verification/Migrate.thy ===== *)
theory Migrate
  imports Preflight Effects
begin

text \<open>
  The migration job (\<^verbatim>\<open>mobility/migrate-job.ts\<close>): an instance is copied or moved to another cluster, project or
  name. Two clusters' Incus are a world \<open>'w\<close> with the requests the job makes, each of which may fail with or
  without having had its effect; the job's signal is part of it. The transfer and the facts it starts from
  are parameters, as in the source. Waiting for an operation is part of the request that started it.
\<close>

section \<open>Incus, as the jobs use it\<close>

record instance_view =
  iv_type :: string
  iv_status :: string
  iv_architecture :: string
  iv_config :: config
  iv_devices :: devices
  iv_profiles :: "string list"
  iv_ephemeral :: "bool option"
  iv_stateful :: "bool option"
  iv_description :: "string option"

record transfer_options =
  to_src :: instance_key
  to_dst :: instance_key
  to_request :: target_request
  to_refresh :: bool
  to_live :: bool
  to_instanceOnly :: bool
  to_targetCert :: string
  to_transport :: string

record instance_put =
  ip_architecture :: string
  ip_config :: config
  ip_devices :: devices
  ip_profiles :: "string list"
  ip_ephemeral :: bool
  ip_stateful :: bool
  ip_description :: string

record 'w incus_api =
  ap_sourceFacts :: "'w \<Rightarrow> instance_key \<Rightarrow> source_instance result"
  ap_targetFacts :: "'w \<Rightarrow> string \<Rightarrow> string \<Rightarrow> target_facts result"
  ap_read :: "'w \<Rightarrow> instance_key \<Rightarrow> instance_view option result"
  ap_state :: "'w \<Rightarrow> instance_key \<Rightarrow> string \<Rightarrow> 'w \<times> unit result"
  ap_delete :: "'w \<Rightarrow> instance_key \<Rightarrow> 'w \<times> unit result"
  ap_put :: "'w \<Rightarrow> instance_key \<Rightarrow> instance_put \<Rightarrow> 'w \<times> unit result"
  ap_transfer :: "'w \<Rightarrow> transfer_options \<Rightarrow> 'w \<times> string result"
  ap_aborted :: "'w \<Rightarrow> failure option"

text \<open>What a running job changes: the database and the clusters.\<close>

record 'w job_run =
  jr_db :: db
  jr_world :: 'w

definition on_world :: "('w \<Rightarrow> 'w \<times> 'a result) \<Rightarrow> (('w, 'z) job_run_scheme, 'a) handler" where
  "on_world f s = (case f (jr_world s) of (w, r) \<Rightarrow> (s\<lparr>jr_world := w\<rparr>, r))"

definition on_db :: "(db \<Rightarrow> db) \<Rightarrow> (('w, 'z) job_run_scheme, unit) handler" where
  "on_db f = change (\<lambda>s. s\<lparr>jr_db := f (jr_db s)\<rparr>)"

definition progress :: "string \<Rightarrow> string \<Rightarrow> (('w, 'z) job_run_scheme, unit) handler" where
  "progress job stage = on_db (set_progress job \<lparr>jp_stage = stage, jp_percent = None, jp_message = None\<rparr>)"

definition setState :: "'w incus_api \<Rightarrow> instance_key \<Rightarrow> string \<Rightarrow> (('w, 'z) job_run_scheme, unit) handler" where
  "setState A k action = catching (on_world (\<lambda>w. ap_state A w k action))
     (\<lambda>e. if contains (error_message e) (''The instance is already '' @ (if action = ''stop'' then ''stopped'' else ''running''))
       then give () else throw e)"

definition readInstance :: "'w incus_api \<Rightarrow> instance_key \<Rightarrow> (('w, 'z) job_run_scheme, instance_view option) handler" where
  "readInstance A k = asking (\<lambda>s. ap_read A (jr_world s) k)"

text \<open>\<open>readInstance(\<dots>).catch(() => undefined)\<close>\<close>

definition read_quietly :: "'w incus_api \<Rightarrow> instance_key \<Rightarrow> (('w, 'z) job_run_scheme, instance_view option) handler" where
  "read_quietly A k = catching (readInstance A k) (\<lambda>_. give None)"

definition delete_instance :: "'w incus_api \<Rightarrow> instance_key \<Rightarrow> (('w, 'z) job_run_scheme, unit) handler" where
  "delete_instance A k = on_world (\<lambda>w. ap_delete A w k)"

definition check_signal :: "'w incus_api \<Rightarrow> (('w, 'z) job_run_scheme, unit) handler" where
  "check_signal A = asking (\<lambda>s. case ap_aborted A (jr_world s) of None \<Rightarrow> Inr () | Some e \<Rightarrow> Inl e)"

definition TAG_JOB :: string where
  "TAG_JOB = ''user.incuscloud.job''"

definition TAG_MIGRATED_FROM :: string where
  "TAG_MIGRATED_FROM = ''user.incuscloud.migrated-from''"

definition key_text :: "instance_key \<Rightarrow> string" where
  "key_text k = ik_clusterId k @ ''/'' @ ik_project k @ ''/'' @ ik_name k"

section \<open>The job\<close>

record migrate_payload =
  mp_sourceClusterId :: string
  mp_sourceProject :: string
  mp_name :: string
  mp_targetClusterId :: string
  mp_targetProject :: string
  mp_targetName :: string
  mp_mode :: mode
  mp_live :: bool
  mp_pool :: "string option"
  mp_transport :: string

definition mp_from :: "migrate_payload \<Rightarrow> instance_key" where
  "mp_from p = \<lparr>ik_clusterId = mp_sourceClusterId p, ik_project = mp_sourceProject p, ik_name = mp_name p\<rparr>"

definition mp_to :: "migrate_payload \<Rightarrow> instance_key" where
  "mp_to p = \<lparr>ik_clusterId = mp_targetClusterId p, ik_project = mp_targetProject p, ik_name = mp_targetName p\<rparr>"

text \<open>The handler's variables: whether it stopped the source, and whether the source is going away.\<close>

record 'w migrating = "'w job_run" +
  mg_stoppedSource :: bool
  mg_committed :: bool

definition stop_source :: "'w incus_api \<Rightarrow> string \<Rightarrow> migrate_payload \<Rightarrow> bool \<Rightarrow> ('w migrating, unit) handler" where
  "stop_source A job p wasRunning =
     only_if (mp_mode p = Move \<and> wasRunning \<and> \<not> mp_live p)
      (run_then (progress job ''stopping the source'') (\<lambda>_.
       run_then (setState A (mp_from p) ''stop'') (\<lambda>_.
       change (\<lambda>s. s\<lparr>mg_stoppedSource := True\<rparr>))))"

definition start_copy :: "'w incus_api \<Rightarrow> string \<Rightarrow> migrate_payload \<Rightarrow> bool \<Rightarrow> instance_view \<Rightarrow> ('w migrating, unit) handler" where
  "start_copy A job p wasRunning copy =
     only_if (mp_mode p = Move \<and> wasRunning \<and> \<not> mp_live p \<and> iv_status copy \<noteq> ''Running'')
      (run_then (progress job ''starting the copy'') (\<lambda>_. setState A (mp_to p) ''start''))"

definition delete_source :: "'w incus_api \<Rightarrow> string \<Rightarrow> migrate_payload \<Rightarrow> ('w migrating, unit) handler" where
  "delete_source A job p =
     run_then (check_signal A) (\<lambda>_.
     run_then (change (\<lambda>s. s\<lparr>mg_committed := True\<rparr>)) (\<lambda>_.
     run_then (progress job ''deleting the source'') (\<lambda>_.
     run_then (readInstance A (mp_from p)) (\<lambda>left.
     run_then (only_if (case left of None \<Rightarrow> False | Some v \<Rightarrow> iv_status v \<noteq> ''Stopped'') (setState A (mp_from p) ''stop'')) (\<lambda>_.
     delete_instance A (mp_from p))))))"

text \<open>Who owns the copy, and the lease a moved instance keeps.\<close>

definition settle_copy :: "int \<Rightarrow> job_row \<Rightarrow> migrate_payload \<Rightarrow> instance_lease_row option \<Rightarrow> db \<Rightarrow> db" where
  "settle_copy now j p lease d =
    (let actor = actorOf (Some (jo_actorType j)) (Some (jo_actorId j));
         d1 = (if mp_mode p = Move then carryOwner now d (mp_from p) (mp_to p) True
               else case actor of Some a \<Rightarrow> recordOwner now d (mp_to p) a Incuscloud | None \<Rightarrow> d)
     in case lease of None \<Rightarrow> d1 | Some l \<Rightarrow> putLease d1 (mp_to p) l)"

definition migrate_body ::
  "'w incus_api \<Rightarrow> int \<Rightarrow> job_row \<Rightarrow> migrate_payload \<Rightarrow> source_instance \<Rightarrow> target_request \<Rightarrow> string \<Rightarrow> ('w migrating, string) handler" where
  "migrate_body A now j p source request cert =
    (let job = jo_id j; wasRunning = (si_status source = ''Running'') in
     run_then (stop_source A job p wasRunning) (\<lambda>_.
     run_then (progress job ''transferring'') (\<lambda>_.
     run_then (on_world (\<lambda>w. ap_transfer A w \<lparr>to_src = mp_from p, to_dst = mp_to p, to_request = request, to_refresh = False,
       to_live = mp_live p, to_instanceOnly = False, to_targetCert = cert, to_transport = mp_transport p\<rparr>)) (\<lambda>transport.
     run_then (progress job ''verifying'') (\<lambda>_.
     run_then (readInstance A (mp_to p)) (\<lambda>copy.
     case copy of
       None \<Rightarrow> throw (ApiError 502 ''migration_failed'' ''The copy is missing on the target after the transfer'')
     | Some c \<Rightarrow>
         if iv_type c \<noteq> si_type source then throw (ApiError 502 ''migration_failed'' ''The copy is missing on the target after the transfer'')
         else
           run_then (start_copy A job p wasRunning c) (\<lambda>_.
           run_then (asking (\<lambda>s. Inr (if mp_mode p = Move then leaseOf (jr_db s) (mp_from p) else None))) (\<lambda>lease.
           run_then (only_if (mp_mode p = Move) (delete_source A job p)) (\<lambda>_.
           run_then (on_db (settle_copy now j p lease)) (\<lambda>_. give transport))))))))))"

definition made_by :: "string \<Rightarrow> instance_view option \<Rightarrow> bool" where
  "made_by job copy = (case copy of None \<Rightarrow> False | Some c \<Rightarrow> m_get (iv_config c) TAG_JOB = Some job)"

definition remove_copy :: "'w incus_api \<Rightarrow> string \<Rightarrow> migrate_payload \<Rightarrow> ('w migrating, unit) handler" where
  "remove_copy A job p =
     run_then (read_quietly A (mp_to p)) (\<lambda>copy.
     only_if (made_by job copy)
      (run_then (only_if (iv_status (the copy) = ''Running'') (ignoring (setState A (mp_to p) ''stop''))) (\<lambda>_.
       ignoring (delete_instance A (mp_to p)))))"

definition rollback :: "'w incus_api \<Rightarrow> string \<Rightarrow> migrate_payload \<Rightarrow> failure \<Rightarrow> ('w migrating, 'a) handler" where
  "rollback A job p e s =
    (if mg_committed s then throw e s
     else run_then (progress job ''rolling back'') (\<lambda>_.
       run_then (remove_copy A job p) (\<lambda>_.
       run_then (\<lambda>s. only_if (mg_stoppedSource s) (ignoring (setState A (mp_from p) ''start'')) s) (\<lambda>_.
       throw e))) s)"

definition checked_migration ::
  "'w incus_api \<Rightarrow> (string \<Rightarrow> json option) \<Rightarrow> int \<Rightarrow> job_row \<Rightarrow> migrate_payload \<Rightarrow> string \<Rightarrow> source_instance \<Rightarrow> target_facts \<Rightarrow> ('w migrating, string) handler" where
  "checked_migration A parse now j p cert source target =
    (let check = preflight parse \<lparr>pi_source = source, pi_target = target, pi_targetName = mp_targetName p, pi_mode = mp_mode p,
           pi_live = mp_live p, pi_pool = mp_pool p\<rparr>;
         r = pf_request check;
         request = r\<lparr>tr_config := m_set (m_set (tr_config r) TAG_JOB (jo_id j)) TAG_MIGRATED_FROM (key_text (mp_from p))\<rparr>
     in if \<not> pf_ok check then throw (ApiError 409 ''preflight_failed'' (join_with ''; '' (pf_problems check)))
        else finally_do (catching (migrate_body A now j p source request cert) (rollback A (jo_id j) p))
               (\<lambda>s. s\<lparr>jr_db := refreshInventory (jr_db s) [mp_sourceClusterId p, mp_targetClusterId p]\<rparr>))"

definition migrateHandler ::
  "'w incus_api \<Rightarrow> (string \<Rightarrow> json option) \<Rightarrow> int \<Rightarrow> job_row \<Rightarrow> migrate_payload \<Rightarrow> ('w migrating, string) handler" where
  "migrateHandler A parse now j p =
     run_then (asking (\<lambda>s. clientFor (jr_db s) (mp_sourceClusterId p))) (\<lambda>_.
     run_then (asking (\<lambda>s. clientFor (jr_db s) (mp_targetClusterId p))) (\<lambda>dst.
     run_then (progress (jo_id j) ''checking'') (\<lambda>_.
     run_then (asking (\<lambda>s. ap_sourceFacts A (jr_world s) (mp_from p))) (\<lambda>source.
     run_then (asking (\<lambda>s. ap_targetFacts A (jr_world s) (mp_targetClusterId p) (mp_targetProject p))) (\<lambda>target.
     checked_migration A parse now j p (cl_serverCert dst) source target)))))"

definition migrating :: "db \<Rightarrow> 'w \<Rightarrow> 'w migrating" where
  "migrating d w = \<lparr>jr_db = d, jr_world = w, mg_stoppedSource = False, mg_committed = False\<rparr>"

section \<open>What Incus is relied on for\<close>

text \<open>
  \<open>look\<close> is what a cluster has under a name. A read is true; a request to start or stop keeps the
  instance, and its \<open>user.\<close> configuration; a request to delete removes it or does not, and concerns no other; a
  transfer changes nothing but its target (the source's state apart), creates it as asked, removes nothing and does not
  change an instance it was not told to refresh. Nothing is assumed of whether a request succeeds, nor of what a failed
  deletion has done.
\<close>

definition alike :: "instance_view \<Rightarrow> instance_view \<Rightarrow> bool" where
  "alike a b \<longleftrightarrow> iv_type b = iv_type a \<and> (\<forall>t. startsWith t ''user.'' \<longrightarrow> m_get (iv_config b) t = m_get (iv_config a) t)"

definition reads_true :: "'w incus_api \<Rightarrow> ('w \<Rightarrow> instance_key \<Rightarrow> instance_view option) \<Rightarrow> bool" where
  "reads_true A look \<longleftrightarrow>
    (\<forall>w k v. ap_read A w k = Inr v \<longrightarrow> v = look w k) \<and>
    (\<forall>w k s. ap_sourceFacts A w k = Inr s \<longrightarrow> (\<exists>v. look w k = Some v \<and> iv_type v = si_type s)) \<and>
    (\<forall>w k t. ap_targetFacts A w (ik_clusterId k) (ik_project k) = Inr t \<longrightarrow> look w k \<noteq> None \<longrightarrow> tf_projectExists t
      \<longrightarrow> ik_name k \<in> set (tf_instanceNames t))"

definition state_keeps :: "'w incus_api \<Rightarrow> ('w \<Rightarrow> instance_key \<Rightarrow> instance_view option) \<Rightarrow> bool" where
  "state_keeps A look \<longleftrightarrow> (\<forall>w k a w' r. ap_state A w k a = (w', r) \<longrightarrow>
    rel_option alike (look w k) (look w' k) \<and> (\<forall>k'. k' \<noteq> k \<longrightarrow> look w' k' = look w k'))"

definition delete_local :: "'w incus_api \<Rightarrow> ('w \<Rightarrow> instance_key \<Rightarrow> instance_view option) \<Rightarrow> bool" where
  "delete_local A look \<longleftrightarrow> (\<forall>w k w' r. ap_delete A w k = (w', r) \<longrightarrow>
    (look w' k = None \<or> rel_option alike (look w k) (look w' k)) \<and> (\<forall>k'. k' \<noteq> k \<longrightarrow> look w' k' = look w k'))"

definition transfer_local :: "'w incus_api \<Rightarrow> ('w \<Rightarrow> instance_key \<Rightarrow> instance_view option) \<Rightarrow> bool" where
  "transfer_local A look \<longleftrightarrow> (\<forall>w t w' r. ap_transfer A w t = (w', r) \<longrightarrow>
    (\<forall>k. k \<noteq> to_dst t \<longrightarrow> k \<noteq> to_src t \<longrightarrow> look w' k = look w k) \<and>
    (to_src t \<noteq> to_dst t \<longrightarrow> rel_option alike (look w (to_src t)) (look w' (to_src t))) \<and>
    (\<forall>v. look w (to_dst t) = Some v \<longrightarrow> \<not> to_refresh t \<longrightarrow> look w' (to_dst t) = Some v) \<and>
    (look w (to_dst t) \<noteq> None \<longrightarrow> look w' (to_dst t) \<noteq> None) \<and>
    (\<forall>v. look w (to_dst t) = None \<longrightarrow> look w' (to_dst t) = Some v \<longrightarrow>
      (\<forall>u. startsWith u ''user.'' \<longrightarrow> m_get (iv_config v) u = m_get (tr_config (to_request t)) u)))"

definition incus_lawful :: "'w incus_api \<Rightarrow> ('w \<Rightarrow> instance_key \<Rightarrow> instance_view option) \<Rightarrow> bool" where
  "incus_lawful A look \<longleftrightarrow> reads_true A look \<and> state_keeps A look \<and> delete_local A look \<and> transfer_local A look"

lemma alike_refl [simp]: "alike v v"
  by (simp add: alike_def)

lemma alike_trans: "alike a b \<Longrightarrow> alike b c \<Longrightarrow> alike a c"
  by (simp add: alike_def)

lemma still_refl [simp]: "rel_option alike v v"
  by (cases v) simp_all

lemma still_trans: "rel_option alike a b \<Longrightarrow> rel_option alike b c \<Longrightarrow> rel_option alike a c"
  by (cases a; cases b; cases c) (auto dest: alike_trans)

section \<open>Triples of the requests\<close>

text \<open>What holds of every state a request can leave is enough for a triple.\<close>

lemma triple_world:
  assumes "\<And>s w' r. P s \<Longrightarrow> f (jr_world s) = (w', r) \<Longrightarrow> Q (s\<lparr>jr_world := w'\<rparr>)"
  shows "triple P (on_world f) (\<lambda>_. Q) Q"
  using assms unfolding triple_def on_world_def by (auto split: prod.splits sum.splits)

lemma triple_db: "(\<And>s d. P s \<Longrightarrow> Q (s\<lparr>jr_db := d\<rparr>)) \<Longrightarrow> triple P (on_db f) (\<lambda>_. Q) R"
  unfolding on_db_def by (rule triple_change)

lemma triple_progress: "(\<And>s d. P s \<Longrightarrow> Q (s\<lparr>jr_db := d\<rparr>)) \<Longrightarrow> triple P (progress job stage) (\<lambda>_. Q) R"
  unfolding progress_def by (rule triple_db)

lemma triple_state:
  assumes "\<And>s w' r. P s \<Longrightarrow> ap_state A (jr_world s) k a = (w', r) \<Longrightarrow> Q (s\<lparr>jr_world := w'\<rparr>)"
  shows "triple P (setState A k a) (\<lambda>_. Q) Q"
  unfolding setState_def
proof (rule triple_catch[where R' = Q])
  show "triple P (on_world (\<lambda>w. ap_state A w k a)) (\<lambda>_. Q) Q" by (rule triple_world) (rule assms)
qed (auto intro!: triple_if triple_give triple_throw)

lemma triple_delete:
  assumes "\<And>s w' r. P s \<Longrightarrow> ap_delete A (jr_world s) k = (w', r) \<Longrightarrow> Q (s\<lparr>jr_world := w'\<rparr>)"
  shows "triple P (delete_instance A k) (\<lambda>_. Q) Q"
  unfolding delete_instance_def by (rule triple_world) (rule assms)

lemma triple_read:
  assumes "reads_true A look"
  shows "triple P (readInstance A k) (\<lambda>v s. P s \<and> v = look (jr_world s) k) P"
  unfolding readInstance_def using assms by (intro triple_asking) (auto simp: reads_true_def)

lemma triple_read_quietly:
  assumes "reads_true A look"
  shows "triple P (read_quietly A k) (\<lambda>v s. P s \<and> (v = None \<or> v = look (jr_world s) k)) R"
  unfolding read_quietly_def
proof (rule triple_catch[where R' = P])
  show "triple P (readInstance A k) (\<lambda>v s. P s \<and> (v = None \<or> v = look (jr_world s) k)) P"
    by (rule triple_weaken[OF triple_read[OF assms]]) auto
qed (rule triple_give, simp)

lemma triple_signal: "triple P (check_signal A) (\<lambda>_. P) P"
  unfolding check_signal_def by (rule triple_asking) (auto split: option.splits)

section \<open>The states of a migration\<close>

text \<open>
  \<open>before\<close>: the source is as it was and what is under the target's name is the job's own; \<open>after\<close>: the source is
  going away and the copy is there. Other instances are as they were in both.
\<close>

definition others_kept :: "('w \<Rightarrow> instance_key \<Rightarrow> instance_view option) \<Rightarrow> 'w \<Rightarrow> migrate_payload \<Rightarrow> 'w \<Rightarrow> bool" where
  "others_kept look w0 p w \<longleftrightarrow> (\<forall>k. k \<noteq> mp_from p \<longrightarrow> k \<noteq> mp_to p \<longrightarrow> look w k = look w0 k)"

definition copy_there :: "('w \<Rightarrow> instance_key \<Rightarrow> instance_view option) \<Rightarrow> 'w \<Rightarrow> migrate_payload \<Rightarrow> 'w \<Rightarrow> bool" where
  "copy_there look w0 p w \<longleftrightarrow> (\<exists>v c. look w0 (mp_from p) = Some v \<and> look w (mp_to p) = Some c \<and> iv_type c = iv_type v)"

definition before :: "('w \<Rightarrow> instance_key \<Rightarrow> instance_view option) \<Rightarrow> 'w \<Rightarrow> migrate_payload \<Rightarrow> string \<Rightarrow> 'w migrating \<Rightarrow> bool" where
  "before look w0 p job s \<longleftrightarrow> \<not> mg_committed s \<and> others_kept look w0 p (jr_world s) \<and>
     rel_option alike (look w0 (mp_from p)) (look (jr_world s) (mp_from p)) \<and>
     (look (jr_world s) (mp_to p) = None \<or> made_by job (look (jr_world s) (mp_to p)))"

definition after :: "('w \<Rightarrow> instance_key \<Rightarrow> instance_view option) \<Rightarrow> 'w \<Rightarrow> migrate_payload \<Rightarrow> 'w migrating \<Rightarrow> bool" where
  "after look w0 p s \<longleftrightarrow> mg_committed s \<and> mp_mode p = Move \<and> others_kept look w0 p (jr_world s) \<and> copy_there look w0 p (jr_world s)"

lemma made_by_alike: "rel_option alike v v' \<Longrightarrow> made_by job v \<Longrightarrow> made_by job v'"
  by (cases v; cases v') (auto simp: made_by_def alike_def TAG_JOB_def)

lemma copy_alike:
  assumes "rel_option alike (look w (mp_to p)) (look w' (mp_to p))" "copy_there look w0 p w"
  shows "copy_there look w0 p w'"
  using assms unfolding copy_there_def by (auto simp: option_rel_Some1 alike_def)

lemma before_db [simp]: "before look w0 p job (s\<lparr>jr_db := d\<rparr>) = before look w0 p job s"
  by (simp add: before_def)

lemma before_stopped [simp]: "before look w0 p job (s\<lparr>mg_stoppedSource := b\<rparr>) = before look w0 p job s"
  by (simp add: before_def)

lemma after_db [simp]: "after look w0 p (s\<lparr>jr_db := d\<rparr>) = after look w0 p s"
  by (simp add: after_def)

text \<open>A request that changes at most one of the two instances, and keeps it.\<close>

lemma before_changed:
  assumes "before look w0 p job s" "\<And>k. k \<noteq> mp_from p \<Longrightarrow> k \<noteq> mp_to p \<Longrightarrow> look w' k = look (jr_world s) k"
    "rel_option alike (look (jr_world s) (mp_from p)) (look w' (mp_from p))"
    "look w' (mp_to p) = None \<or> rel_option alike (look (jr_world s) (mp_to p)) (look w' (mp_to p)) \<or> made_by job (look w' (mp_to p))"
  shows "before look w0 p job (s\<lparr>jr_world := w'\<rparr>)"
proof -
  have "rel_option alike (look w0 (mp_from p)) (look w' (mp_from p))"
    using assms(1,3) still_trans unfolding before_def by blast
  moreover have "look w' (mp_to p) = None \<or> made_by job (look w' (mp_to p))"
    using assms(4)
  proof (elim disjE)
    assume a: "rel_option alike (look (jr_world s) (mp_to p)) (look w' (mp_to p))"
    from assms(1) have "look (jr_world s) (mp_to p) = None \<or> made_by job (look (jr_world s) (mp_to p))" by (simp add: before_def)
    with a made_by_alike[OF a] show ?thesis by auto
  qed simp_all
  ultimately show ?thesis using assms(1,2) unfolding before_def others_kept_def by simp
qed

lemma state_changed:
  assumes "state_keeps A look" "ap_state A w k a = (w', r)"
  shows "rel_option alike (look w k') (look w' k')" "k' \<noteq> k \<Longrightarrow> look w' k' = look w k'"
  using assms unfolding state_keeps_def by (cases "k' = k"; force)+

lemma before_state:
  assumes "state_keeps A look" "before look w0 p job s" "ap_state A (jr_world s) k a = (w', r)" "k = mp_from p \<or> k = mp_to p"
  shows "before look w0 p job (s\<lparr>jr_world := w'\<rparr>)"
  by (rule before_changed[OF assms(2)]) (use assms(4) state_changed[OF assms(1,3)] in auto)

lemma delete_changed:
  assumes "delete_local A look" "ap_delete A w k = (w', r)"
  shows "look w' k = None \<or> rel_option alike (look w k) (look w' k)" "k' \<noteq> k \<Longrightarrow> look w' k' = look w k'"
  using assms unfolding delete_local_def by blast+

lemma before_delete:
  assumes "delete_local A look" "before look w0 p job s" "ap_delete A (jr_world s) (mp_to p) = (w', r)" "mp_from p \<noteq> mp_to p"
  shows "before look w0 p job (s\<lparr>jr_world := w'\<rparr>)"
  by (rule before_changed[OF assms(2)]) (use assms(4) delete_changed[OF assms(1,3)] in auto)

lemma before_transfer:
  assumes "transfer_local A look" "before look w0 p job s" "ap_transfer A (jr_world s) t = (w', r)" "mp_from p \<noteq> mp_to p"
    "to_src t = mp_from p" "to_dst t = mp_to p" "\<not> to_refresh t" "m_get (tr_config (to_request t)) TAG_JOB = Some job"
  shows "before look w0 p job (s\<lparr>jr_world := w'\<rparr>)"
proof (rule before_changed[OF assms(2)])
  note t = assms(1)[unfolded transfer_local_def, rule_format, OF assms(3), unfolded assms(5,6)]
  from t show "look w' k = look (jr_world s) k" if "k \<noteq> mp_from p" "k \<noteq> mp_to p" for k using that by blast
  from t assms(4) show "rel_option alike (look (jr_world s) (mp_from p)) (look w' (mp_from p))" by blast
  show "look w' (mp_to p) = None \<or> rel_option alike (look (jr_world s) (mp_to p)) (look w' (mp_to p)) \<or> made_by job (look w' (mp_to p))"
  proof (cases "look (jr_world s) (mp_to p)")
    case None
    with t assms(8) show ?thesis by (cases "look w' (mp_to p)") (auto simp: made_by_def TAG_JOB_def)
  next
    case (Some v)
    with t assms(7) have "look w' (mp_to p) = Some v" by blast
    with Some show ?thesis by simp
  qed
qed

section \<open>The parts of the job\<close>

text \<open>A copy that was verified, while the source is still there.\<close>

definition verified :: "('w \<Rightarrow> instance_key \<Rightarrow> instance_view option) \<Rightarrow> 'w \<Rightarrow> migrate_payload \<Rightarrow> string \<Rightarrow> 'w migrating \<Rightarrow> bool" where
  "verified look w0 p job s \<longleftrightarrow> before look w0 p job s \<and> copy_there look w0 p (jr_world s)"

lemma verified_db [simp]: "verified look w0 p job (s\<lparr>jr_db := d\<rparr>) = verified look w0 p job s"
  by (simp add: verified_def)

lemma triple_stop_source:
  assumes "state_keeps A look"
  shows "triple (before look w0 p job) (stop_source A i p b) (\<lambda>_. before look w0 p job) (before look w0 p job)"
proof -
  have "triple (before look w0 p job) (setState A (mp_from p) ''stop'') (\<lambda>_. before look w0 p job) (before look w0 p job)"
    by (rule triple_state) (rule before_state[OF assms], auto)
  then show ?thesis unfolding stop_source_def
    by (intro triple_when triple_then[where Q' = "\<lambda>_. before look w0 p job"] triple_progress)
      (auto intro: triple_change)
qed

lemma triple_start_copy:
  assumes "state_keeps A look"
  shows "triple (verified look w0 p job) (start_copy A i p b c) (\<lambda>_. verified look w0 p job) (verified look w0 p job)"
proof -
  have "triple (verified look w0 p job) (setState A (mp_to p) ''start'') (\<lambda>_. verified look w0 p job) (verified look w0 p job)"
  proof (rule triple_state)
    fix s w' r assume s: "verified look w0 p job s" "ap_state A (jr_world s) (mp_to p) ''start'' = (w', r)"
    then show "verified look w0 p job (s\<lparr>jr_world := w'\<rparr>)"
      using before_state[OF assms _ s(2)] copy_alike[of look "jr_world s" p w', OF state_changed(1)[OF assms s(2)]]
      by (simp add: verified_def)
  qed
  then show ?thesis unfolding start_copy_def
    by (intro triple_when triple_then[where Q' = "\<lambda>_. verified look w0 p job"] triple_progress) (auto intro: triple_pre)
qed

text \<open>Once it is committed, the job touches nothing but the source.\<close>

lemma after_changed:
  assumes "after look w0 p s" "\<And>k. k \<noteq> mp_from p \<Longrightarrow> look w' k = look (jr_world s) k" "mp_from p \<noteq> mp_to p"
  shows "after look w0 p (s\<lparr>jr_world := w'\<rparr>)"
  using assms unfolding after_def others_kept_def copy_there_def by auto

lemma triple_delete_source:
  assumes "incus_lawful A look" "mp_from p \<noteq> mp_to p" "mp_mode p = Move"
  shows "triple (verified look w0 p job) (delete_source A i p) (\<lambda>_. after look w0 p)
    (\<lambda>s. before look w0 p job s \<or> after look w0 p s)"
proof -
  let ?A = "after look w0 p" and ?R = "\<lambda>s. before look w0 p job s \<or> after look w0 p s"
  have laws: "reads_true A look" "state_keeps A look" "delete_local A look" using assms(1) by (simp_all add: incus_lawful_def)
  have stop: "triple ?A (setState A (mp_from p) ''stop'') (\<lambda>_. ?A) ?A"
    by (rule triple_state, rule after_changed) (use assms(2) state_changed(2)[OF laws(2)] in auto)
  have delete: "triple ?A (delete_instance A (mp_from p)) (\<lambda>_. ?A) ?A"
    by (rule triple_delete, rule after_changed) (use assms(2) delete_changed(2)[OF laws(3)] in auto)
  have rest: "triple ?A (run_then (progress i ''deleting the source'') (\<lambda>_. run_then (readInstance A (mp_from p)) (\<lambda>left.
     run_then (only_if (case left of None \<Rightarrow> False | Some v \<Rightarrow> iv_status v \<noteq> ''Stopped'') (setState A (mp_from p) ''stop'')) (\<lambda>_.
     delete_instance A (mp_from p))))) (\<lambda>_. ?A) ?A"
  proof (intro triple_then[where Q' = "\<lambda>_. ?A"])
    show "triple ?A (progress i ''deleting the source'') (\<lambda>_. ?A) ?A" by (rule triple_progress) simp
    show "triple ?A (readInstance A (mp_from p)) (\<lambda>_. ?A) ?A" by (rule triple_weaken[OF triple_read[OF laws(1)]]) auto
    show "triple ?A (only_if (case left of None \<Rightarrow> False | Some v \<Rightarrow> iv_status v \<noteq> ''Stopped'') (setState A (mp_from p) ''stop'')) (\<lambda>_. ?A) ?A" for left
      by (rule triple_when) (auto intro: triple_pre[OF stop])
  qed (rule delete)
  show ?thesis unfolding delete_source_def
  proof (rule triple_then[where Q' = "\<lambda>_. verified look w0 p job"])
    show "triple (verified look w0 p job) (check_signal A) (\<lambda>_. verified look w0 p job) ?R"
      by (rule triple_weaken[OF triple_signal[of "verified look w0 p job" A]]) (auto simp: verified_def)
    show "triple (verified look w0 p job) (run_then (change (\<lambda>s. s\<lparr>mg_committed := True\<rparr>)) (\<lambda>_. run_then (progress i ''deleting the source'') (\<lambda>_.
      run_then (readInstance A (mp_from p)) (\<lambda>left.
      run_then (only_if (case left of None \<Rightarrow> False | Some v \<Rightarrow> iv_status v \<noteq> ''Stopped'') (setState A (mp_from p) ''stop'')) (\<lambda>_.
      delete_instance A (mp_from p)))))) (\<lambda>_. ?A) ?R" for x
      by (rule triple_then[OF triple_change triple_weaken[OF rest]])
        (use assms(3) in \<open>auto simp: verified_def before_def after_def\<close>)
  qed
qed

definition safe :: "('w \<Rightarrow> instance_key \<Rightarrow> instance_view option) \<Rightarrow> 'w \<Rightarrow> migrate_payload \<Rightarrow> string \<Rightarrow> 'w migrating \<Rightarrow> bool" where
  "safe look w0 p job s \<longleftrightarrow> before look w0 p job s \<or> after look w0 p s"

lemma safe_db [simp]: "safe look w0 p job (s\<lparr>jr_db := d\<rparr>) = safe look w0 p job s"
  by (simp add: safe_def)

definition migrated :: "('w \<Rightarrow> instance_key \<Rightarrow> instance_view option) \<Rightarrow> 'w \<Rightarrow> migrate_payload \<Rightarrow> string \<Rightarrow> 'w migrating \<Rightarrow> bool" where
  "migrated look w0 p job s \<longleftrightarrow> (if mp_mode p = Move then after look w0 p s else verified look w0 p job s)"

lemma migrated_db [simp]: "migrated look w0 p job (s\<lparr>jr_db := d\<rparr>) = migrated look w0 p job s"
  by (simp add: migrated_def)

text \<open>From the verified copy on.\<close>

lemma triple_rest:
  assumes "incus_lawful A look" "mp_from p \<noteq> mp_to p"
  shows "triple (verified look w0 p job)
    (run_then (start_copy A i p b c) (\<lambda>_. run_then (asking f) (\<lambda>lease.
     run_then (only_if (mp_mode p = Move) (delete_source A i p)) (\<lambda>_. run_then (on_db (g lease)) (\<lambda>_. give t)))))
    (\<lambda>_. migrated look w0 p job) (safe look w0 p job)"
proof (rule triple_then[where Q' = "\<lambda>_. verified look w0 p job"])
  have "state_keeps A look" using assms(1) by (simp add: incus_lawful_def)
  from triple_start_copy[OF this] show "triple (verified look w0 p job) (start_copy A i p b c) (\<lambda>_. verified look w0 p job) (safe look w0 p job)"
    by (rule triple_weaken) (auto simp: safe_def verified_def)
  have del: "triple (verified look w0 p job) (only_if (mp_mode p = Move) (delete_source A i p)) (\<lambda>_. migrated look w0 p job) (safe look w0 p job)"
  proof (rule triple_when)
    show "triple (\<lambda>s. verified look w0 p job s \<and> mp_mode p = Move) (delete_source A i p) (\<lambda>_. migrated look w0 p job) (safe look w0 p job)"
      by (rule triple_assume) (rule triple_weaken[OF triple_delete_source[OF assms]], auto simp: safe_def migrated_def)
  qed (simp add: migrated_def)
  show "triple (verified look w0 p job) (run_then (asking f) (\<lambda>lease.
     run_then (only_if (mp_mode p = Move) (delete_source A i p)) (\<lambda>_. run_then (on_db (g lease)) (\<lambda>_. give t)))) (\<lambda>_. migrated look w0 p job) (safe look w0 p job)" for x
  proof (rule triple_then[where Q' = "\<lambda>_. verified look w0 p job"])
    show "triple (verified look w0 p job) (asking f) (\<lambda>_. verified look w0 p job) (safe look w0 p job)"
      by (rule triple_asking) (auto simp: safe_def verified_def)
    show "triple (verified look w0 p job) (run_then (only_if (mp_mode p = Move) (delete_source A i p)) (\<lambda>_. run_then (on_db (g lease)) (\<lambda>_. give t)))
      (\<lambda>_. migrated look w0 p job) (safe look w0 p job)" for lease
      by (rule triple_then[OF del], rule triple_then[OF triple_db[where Q = "migrated look w0 p job"] triple_give]) simp_all
  qed
qed

lemma triple_body:
  assumes "incus_lawful A look" "mp_from p \<noteq> mp_to p" "m_get (tr_config request) TAG_JOB = Some (jo_id j)"
    "look w0 (mp_from p) = Some v" "iv_type v = si_type source"
  shows "triple (before look w0 p (jo_id j)) (migrate_body A now j p source request cert)
    (\<lambda>_. migrated look w0 p (jo_id j)) (safe look w0 p (jo_id j))"
  unfolding migrate_body_def Let_def
proof (rule triple_then[where Q' = "\<lambda>_. before look w0 p (jo_id j)"], goal_cases stop step)
  case stop
  have "state_keeps A look" using assms(1) by (simp add: incus_lawful_def)
  from triple_stop_source[OF this] show ?case by (rule triple_weaken) (auto simp: safe_def)
next
  case (step x)
  let ?B = "before look w0 p (jo_id j)" and ?S = "safe look w0 p (jo_id j)"
  have laws: "reads_true A look" "transfer_local A look" using assms(1) by (simp_all add: incus_lawful_def)
  have progress: "triple ?B (progress (jo_id j) stage) (\<lambda>_. ?B) ?S" for stage by (rule triple_progress) simp
  have transfer: "triple ?B (on_world (\<lambda>w. ap_transfer A w \<lparr>to_src = mp_from p, to_dst = mp_to p, to_request = request, to_refresh = False,
       to_live = mp_live p, to_instanceOnly = False, to_targetCert = cert, to_transport = mp_transport p\<rparr>)) (\<lambda>_. ?B) ?S"
    by (rule triple_weaken[OF triple_world[where P = ?B and Q = ?B], OF before_transfer[OF laws(2)]])
      (use assms(2,3) in \<open>auto simp: safe_def\<close>)
  have copy: "triple (\<lambda>s. ?B s \<and> c = look (jr_world s) (mp_to p))
      (case c of None \<Rightarrow> throw e | Some c \<Rightarrow> if iv_type c \<noteq> si_type source then throw e else
        run_then (start_copy A (jo_id j) p b c) (\<lambda>_. run_then (asking f) (\<lambda>lease.
        run_then (only_if (mp_mode p = Move) (delete_source A (jo_id j) p)) (\<lambda>_. run_then (on_db (g lease)) (\<lambda>_. give t)))))
      (\<lambda>_. migrated look w0 p (jo_id j)) ?S" for c e b f g t
  proof (cases c)
    case None
    then show ?thesis by (auto intro!: triple_throw simp: safe_def)
  next
    case (Some v')
    show ?thesis unfolding Some option.case
    proof (rule triple_if)
      assume "\<not> iv_type v' \<noteq> si_type source"
      with assms(4,5) show "triple (\<lambda>s. ?B s \<and> Some v' = look (jr_world s) (mp_to p))
        (run_then (start_copy A (jo_id j) p b v') (\<lambda>_. run_then (asking f) (\<lambda>lease.
        run_then (only_if (mp_mode p = Move) (delete_source A (jo_id j) p)) (\<lambda>_. run_then (on_db (g lease)) (\<lambda>_. give t)))))
        (\<lambda>_. migrated look w0 p (jo_id j)) ?S"
        by (intro triple_pre[OF triple_rest[OF assms(1,2)]]) (auto simp: verified_def copy_there_def dest!: sym[where t = "look _ _"])
    qed (auto intro!: triple_throw simp: safe_def)
  qed
  have read: "triple ?B (readInstance A (mp_to p)) (\<lambda>c s. ?B s \<and> c = look (jr_world s) (mp_to p)) ?S"
    by (rule triple_weaken[OF triple_read[OF laws(1), where P = ?B]]) (auto simp: safe_def)
  show ?case
    by (rule triple_then[OF progress], rule triple_then[OF transfer], rule triple_then[OF progress], rule triple_then[OF read], rule copy)
qed

section \<open>Rolling back\<close>

lemma triple_remove_copy:
  assumes "incus_lawful A look" "mp_from p \<noteq> mp_to p"
  shows "triple (before look w0 p job) (remove_copy A i p) (\<lambda>_. before look w0 p job) (before look w0 p job)"
proof -
  let ?B = "before look w0 p job"
  have laws: "reads_true A look" "state_keeps A look" "delete_local A look" using assms(1) by (simp_all add: incus_lawful_def)
  have stop: "triple ?B (setState A (mp_to p) ''stop'') (\<lambda>_. ?B) ?B" by (rule triple_state) (rule before_state[OF laws(2)], auto)
  have delete: "triple ?B (delete_instance A (mp_to p)) (\<lambda>_. ?B) ?B"
    by (rule triple_delete) (rule before_delete[OF laws(3) _ _ assms(2)])
  show ?thesis unfolding remove_copy_def
  proof (rule triple_then[where Q' = "\<lambda>_. ?B"])
    show "triple ?B (read_quietly A (mp_to p)) (\<lambda>_. ?B) ?B" by (rule triple_weaken[OF triple_read_quietly[OF laws(1), where P = ?B]]) auto
    show "triple ?B (only_if (made_by i c) (run_then (only_if (iv_status (the c) = ''Running'') (ignoring (setState A (mp_to p) ''stop''))) (\<lambda>_.
        ignoring (delete_instance A (mp_to p))))) (\<lambda>_. ?B) ?B" for c
      by (intro triple_when triple_then[where Q' = "\<lambda>_. ?B"] triple_ignoring) (auto intro: triple_pre[OF stop] delete)
  qed
qed

lemma triple_restart:
  assumes "state_keeps A look"
  shows "triple (before look w0 p job) (\<lambda>s. only_if (mg_stoppedSource s) (ignoring (setState A (mp_from p) ''start'')) s)
    (\<lambda>_. before look w0 p job) R"
proof -
  let ?B = "before look w0 p job"
  have "triple ?B (ignoring (setState A (mp_from p) ''start'')) (\<lambda>_. ?B) R"
    by (intro triple_ignoring triple_state before_state[OF assms]) auto
  then show ?thesis unfolding triple_def only_if_def give_def by auto
qed

lemma triple_rollback_of:
  assumes "triple (before look w0 p job) (run_then (progress i ''rolling back'') (\<lambda>_. run_then (remove_copy A i p) (\<lambda>_.
      run_then (\<lambda>s. only_if (mg_stoppedSource s) (ignoring (setState A (mp_from p) ''start'')) s) (\<lambda>_. throw e)))) Q R"
    "\<And>s. after look w0 p s \<Longrightarrow> R s"
  shows "triple (safe look w0 p job) (rollback A i p e) Q R"
proof (rule tripleI)
  fix s assume s: "safe look w0 p job s"
  show "case rollback A i p e s of (s', Inl _) \<Rightarrow> R s' | (s', Inr x) \<Rightarrow> Q x s'"
  proof (cases "mg_committed s")
    case True
    with s assms(2) show ?thesis by (simp add: rollback_def throw_def safe_def before_def)
  next
    case False
    with s have "before look w0 p job s" by (simp add: safe_def after_def)
    with assms(1) False show ?thesis by (simp add: rollback_def triple_def)
  qed
qed

lemma triple_rollback:
  assumes "incus_lawful A look" "mp_from p \<noteq> mp_to p"
  shows "triple (safe look w0 p job) (rollback A i p e) Q (safe look w0 p job)"
proof -
  let ?B = "before look w0 p job"
  have "state_keeps A look" using assms(1) by (simp add: incus_lawful_def)
  note restart = triple_restart[OF this]
  let ?m = "run_then (progress i ''rolling back'') (\<lambda>_. run_then (remove_copy A i p) (\<lambda>_.
      run_then (\<lambda>s. only_if (mg_stoppedSource s) (ignoring (setState A (mp_from p) ''start'')) s) (\<lambda>_. throw e)))"
  have undone: "triple ?B ?m Q ?B"
    by (rule triple_then[OF triple_progress[where Q = ?B]], simp, rule triple_then[OF triple_remove_copy[OF assms]],
        rule triple_then[OF restart]) (rule triple_throw)
  show ?thesis by (rule triple_rollback_of[OF triple_weaken[OF undone]]) (auto simp: safe_def)
qed

lemma triple_checked:
  assumes "incus_lawful A look" "look w0 (mp_from p) = Some v" "iv_type v = si_type source"
    "look w0 (mp_to p) \<noteq> None \<Longrightarrow> tf_projectExists target \<Longrightarrow> mp_targetName p \<in> set (tf_instanceNames target)"
    "\<And>e. mp_from p \<noteq> mp_to p \<Longrightarrow> triple (safe look w0 p (jo_id j)) (rollback A (jo_id j) p e) (\<lambda>_::string. migrated look w0 p (jo_id j)) Z"
    "\<And>s d. Z s \<Longrightarrow> Z (s\<lparr>jr_db := d\<rparr>)"
  shows "triple (\<lambda>s. jr_world s = w0 \<and> \<not> mg_committed s) (checked_migration A parse now j p cert source target)
    (\<lambda>_ s. look w0 (mp_to p) = None \<and> migrated look w0 p (jo_id j) s) (\<lambda>s. jr_world s = w0 \<and> \<not> mg_committed s \<or> look w0 (mp_to p) = None \<and> Z s)"
  unfolding checked_migration_def Let_def
proof (rule triple_if, goal_cases refused accepted)
  case refused
  show ?case by (rule triple_throw) simp
next
  case accepted
  then have "tf_projectExists target" "mp_targetName p \<notin> set (tf_instanceNames target)"
    by (simp_all add: preflight_simps place_problems_none)
  with assms(4) have free: "look w0 (mp_to p) = None" by blast
  with assms(2) have ne: "mp_from p \<noteq> mp_to p" by auto
  show ?case
  proof (rule triple_finally[where Q' = "\<lambda>_. migrated look w0 p (jo_id j)" and R' = Z], goal_cases body)
    case body
    show ?case
    proof (rule triple_catch, rule triple_pre[OF triple_body[OF assms(1) ne _ assms(2,3)]])
      fix s :: "'a migrating" assume "jr_world s = w0 \<and> \<not> mg_committed s"
      then show "before look w0 p (jo_id j) s" using free by (simp add: before_def others_kept_def)
    qed (simp add: TAG_JOB_def TAG_MIGRATED_FROM_def, rule assms(5)[OF ne])
  qed (simp_all add: free assms(6))
qed

lemma triple_migrate:
  assumes "incus_lawful A look"
    "\<And>e. mp_from p \<noteq> mp_to p \<Longrightarrow> triple (safe look w0 p (jo_id j)) (rollback A (jo_id j) p e) (\<lambda>_::string. migrated look w0 p (jo_id j)) Z"
    "\<And>s d. Z s \<Longrightarrow> Z (s\<lparr>jr_db := d\<rparr>)"
  shows "triple (\<lambda>s. jr_world s = w0 \<and> \<not> mg_committed s) (migrateHandler A parse now j p)
    (\<lambda>_ s. look w0 (mp_to p) = None \<and> migrated look w0 p (jo_id j) s) (\<lambda>s. jr_world s = w0 \<and> \<not> mg_committed s \<or> look w0 (mp_to p) = None \<and> Z s)"
    (is "triple ?P _ ?Q ?R")
proof -
  have reads: "reads_true A look" using assms(1) by (simp add: incus_lawful_def)
  have src: "triple ?P (asking (\<lambda>s. ap_sourceFacts A (jr_world s) (mp_from p))) (\<lambda>x s. ?P s \<and> ap_sourceFacts A w0 (mp_from p) = Inr x) ?R"
    by (rule triple_asking) auto
  have tgt: "triple (\<lambda>s. ?P s \<and> H) (asking (\<lambda>s. ap_targetFacts A (jr_world s) (mp_targetClusterId p) (mp_targetProject p)))
      (\<lambda>t s. ?P s \<and> H \<and> ap_targetFacts A w0 (mp_targetClusterId p) (mp_targetProject p) = Inr t) ?R" for H
    by (rule triple_asking) auto
  have go: "triple (\<lambda>s. ?P s \<and> ap_sourceFacts A w0 (mp_from p) = Inr source \<and> ap_targetFacts A w0 (mp_targetClusterId p) (mp_targetProject p) = Inr target)
      (checked_migration A parse now j p cert source target) ?Q ?R" for source target cert
  proof (rule triple_assume, elim conjE)
    assume f: "ap_sourceFacts A w0 (mp_from p) = Inr source" "ap_targetFacts A w0 (mp_targetClusterId p) (mp_targetProject p) = Inr target"
    from reads f(1) obtain v where v: "look w0 (mp_from p) = Some v" "iv_type v = si_type source" unfolding reads_true_def by blast
    have k: "ik_clusterId (mp_to p) = mp_targetClusterId p" "ik_project (mp_to p) = mp_targetProject p" "ik_name (mp_to p) = mp_targetName p"
      by (simp_all add: mp_to_def)
    from reads f(2) have "look w0 (mp_to p) \<noteq> None \<Longrightarrow> tf_projectExists target \<Longrightarrow> mp_targetName p \<in> set (tf_instanceNames target)"
      unfolding reads_true_def k[symmetric] by blast
    from triple_checked[OF assms(1) v this assms(2,3)] show "triple ?P (checked_migration A parse now j p cert source target) ?Q ?R" .
  qed
  show ?thesis unfolding migrateHandler_def
    by (rule triple_then[where Q' = "\<lambda>_. ?P"], rule triple_asking, simp, simp)
      (rule triple_then[where Q' = "\<lambda>_. ?P"], rule triple_asking, simp, simp,
       rule triple_then[OF triple_progress[where Q = ?P]], simp, rule triple_then[OF src], rule triple_then[OF tgt], rule go)
qed

text \<open>Where reads and deletions work, rolling back leaves nothing under the target's name.\<close>

lemma triple_removed:
  assumes "incus_lawful A look" "mp_from p \<noteq> mp_to p" "\<And>w k. ap_read A w k = Inr (look w k)" "\<And>w k. look (fst (ap_delete A w k)) k = None"
  shows "triple (before look w0 p job) (remove_copy A job p) (\<lambda>_ s. before look w0 p job s \<and> look (jr_world s) (mp_to p) = None) R"
proof -
  let ?B = "before look w0 p job" and ?Z = "\<lambda>s. before look w0 p job s \<and> look (jr_world s) (mp_to p) = None"
  have laws: "state_keeps A look" "delete_local A look" using assms(1) by (simp_all add: incus_lawful_def)
  have stop: "triple ?B (setState A (mp_to p) ''stop'') (\<lambda>_. ?B) ?B" by (rule triple_state) (rule before_state[OF laws(1)], auto)
  have delete: "triple ?B (delete_instance A (mp_to p)) (\<lambda>_. ?Z) ?Z"
  proof (rule triple_delete)
    fix s w' r assume s: "?B s" "ap_delete A (jr_world s) (mp_to p) = (w', r)"
    with before_delete[OF laws(2) s assms(2)] assms(4)[of "jr_world s" "mp_to p"] show "?Z (s\<lparr>jr_world := w'\<rparr>)" by simp
  qed
  show ?thesis unfolding remove_copy_def
  proof (rule triple_then)
    show "triple ?B (read_quietly A (mp_to p)) (\<lambda>c s. ?B s \<and> c = look (jr_world s) (mp_to p)) R"
      unfolding read_quietly_def readInstance_def triple_def catching_def asking_def by (simp add: assms(3))
    show "triple (\<lambda>s. ?B s \<and> c = look (jr_world s) (mp_to p)) (only_if (made_by job c)
        (run_then (only_if (iv_status (the c) = ''Running'') (ignoring (setState A (mp_to p) ''stop''))) (\<lambda>_. ignoring (delete_instance A (mp_to p))))) (\<lambda>_. ?Z) R" for c
      by (intro triple_when triple_then[where Q' = "\<lambda>_. ?B"] triple_ignoring delete)
        (auto intro: triple_pre[OF stop] simp: before_def)
  qed
qed

lemma triple_undone:
  assumes "incus_lawful A look" "mp_from p \<noteq> mp_to p" "\<And>w k. ap_read A w k = Inr (look w k)" "\<And>w k. look (fst (ap_delete A w k)) k = None"
  shows "triple (safe look w0 p job) (rollback A job p e) Q (\<lambda>s. mg_committed s \<or> before look w0 p job s \<and> look (jr_world s) (mp_to p) = None)"
proof -
  let ?Z = "\<lambda>s. before look w0 p job s \<and> look (jr_world s) (mp_to p) = None"
  have keeps: "state_keeps A look" using assms(1) by (simp add: incus_lawful_def)
  have "triple ?Z (ignoring (setState A (mp_from p) ''start'')) (\<lambda>_. ?Z) R" for R
    by (intro triple_ignoring triple_state conjI before_state[OF keeps])
      (use assms(2) state_changed(2)[OF keeps] in auto)
  then have restart: "triple ?Z (\<lambda>s. only_if (mg_stoppedSource s) (ignoring (setState A (mp_from p) ''start'')) s) (\<lambda>_. ?Z) R" for R
    unfolding triple_def only_if_def give_def by auto
  let ?m = "run_then (progress job ''rolling back'') (\<lambda>_. run_then (remove_copy A job p) (\<lambda>_.
      run_then (\<lambda>s. only_if (mg_stoppedSource s) (ignoring (setState A (mp_from p) ''start'')) s) (\<lambda>_. throw e)))"
  have undone: "triple (before look w0 p job) ?m Q ?Z"
    by (rule triple_then[OF triple_progress[where Q = "before look w0 p job"]], simp, rule triple_then[OF triple_removed[OF assms]],
        rule triple_then[OF restart]) (rule triple_throw)
  show ?thesis by (rule triple_rollback_of[OF triple_weaken[OF undone]]) (auto simp: after_def)
qed

lemma started: "jr_world (migrating d w) = w \<and> \<not> mg_committed (migrating d w)"
  by (simp add: migrating_def)

lemma migrate_ends:
  assumes "incus_lawful A look" "migrateHandler A parse now j p (migrating d w) = (s, r)"
  shows "if is_ok r then look w (mp_to p) = None \<and> migrated look w p (jo_id j) s
    else jr_world s = w \<or> look w (mp_to p) = None \<and> safe look w p (jo_id j) s"
proof -
  have t: "triple (\<lambda>s. jr_world s = w \<and> \<not> mg_committed s) (migrateHandler A parse now j p)
    (\<lambda>_ s. look w (mp_to p) = None \<and> migrated look w p (jo_id j) s) (\<lambda>s. jr_world s = w \<and> \<not> mg_committed s \<or> look w (mp_to p) = None \<and> safe look w p (jo_id j) s)"
    by (rule triple_migrate[OF assms(1) triple_rollback[OF assms(1)]]) simp_all
  show ?thesis
  proof (cases r)
    case (Inl e)
    from tripleD(2)[OF t started assms(2)[unfolded Inl]] Inl show ?thesis by auto
  next
    case (Inr x)
    from tripleD(1)[OF t started assms(2)[unfolded Inr]] Inr show ?thesis by simp
  qed
qed

section \<open>Properties\<close>

text \<open>
  C11: A migration never loses the instance, whichever request fails and wherever it is cancelled: at the end the source
  is still there, or it was a move, the source was given up only after the copy had been verified, and the copy,
  of the source's type, is there. A migration that reports success has a copy.
\<close>

theorem never_lost:
  assumes "incus_lawful A look" "migrateHandler A parse now j p (migrating d w) = (s, r)" "look w (mp_from p) = Some v"
  shows "((\<exists>v'. look (jr_world s) (mp_from p) = Some v' \<and> alike v v') \<or>
      mp_mode p = Move \<and> mg_committed s \<and> (\<exists>c. look (jr_world s) (mp_to p) = Some c \<and> iv_type c = iv_type v)) \<and>
    (is_ok r \<longrightarrow> (\<exists>c. look (jr_world s) (mp_to p) = Some c \<and> iv_type c = iv_type v))"
proof -
  have there: "\<exists>v'. look (jr_world s) (mp_from p) = Some v' \<and> alike v v'" if "before look w p (jo_id j) s"
    using that assms(3) by (auto simp: before_def option_rel_Some1)
  show ?thesis
  proof (cases r)
    case (Inl e)
    with migrate_ends[OF assms(1,2)] have "jr_world s = w \<or> safe look w p (jo_id j) s" by auto
    with there assms(3) Inl show ?thesis by (auto simp: safe_def after_def copy_there_def)
  next
    case (Inr x)
    with migrate_ends[OF assms(1,2)] have "migrated look w p (jo_id j) s" by auto
    with there assms(3) show ?thesis by (auto simp: migrated_def verified_def after_def copy_there_def split: if_splits)
  qed
qed


text \<open>
  C13: A migration that fails or is cancelled before the source is given up undoes itself where the clusters still answer
  reads and deletions: nothing is left under the target's name, and the source is there.
\<close>

theorem rolled_back:
  assumes "incus_lawful A look" "migrateHandler A parse now j p (migrating d w) = (s, Inl e)" "\<not> mg_committed s"
    "look w (mp_from p) = Some v" "look w (mp_to p) = None"
    "\<And>w k. ap_read A w k = Inr (look w k)" "\<And>w k. look (fst (ap_delete A w k)) k = None"
  shows "look (jr_world s) (mp_to p) = None \<and> (\<exists>v'. look (jr_world s) (mp_from p) = Some v' \<and> alike v v')"
proof -
  let ?Z = "\<lambda>s. mg_committed s \<or> before look w p (jo_id j) s \<and> look (jr_world s) (mp_to p) = None"
  have t: "triple (\<lambda>s. jr_world s = w \<and> \<not> mg_committed s) (migrateHandler A parse now j p)
    (\<lambda>_ s. look w (mp_to p) = None \<and> migrated look w p (jo_id j) s) (\<lambda>s. jr_world s = w \<and> \<not> mg_committed s \<or> look w (mp_to p) = None \<and> ?Z s)"
    by (rule triple_migrate[OF assms(1) triple_undone[OF assms(1) _ assms(6,7)]]) simp_all
  from tripleD(2)[OF t started assms(2)] assms(3-5) show ?thesis by (auto simp: before_def option_rel_Some1)
qed

section \<open>Two clusters\<close>

text \<open>Clusters that do as they are told; \<open>stop\<close> is the reason the job is cancelled for, if it is.\<close>

type_synonym rack = "(instance_key, instance_view) jsmap"

definition view_of :: "target_request \<Rightarrow> instance_view" where
  "view_of r = \<lparr>iv_type = tr_type r, iv_status = ''Stopped'', iv_architecture = tr_architecture r, iv_config = tr_config r,
     iv_devices = tr_devices r, iv_profiles = tr_profiles r, iv_ephemeral = None, iv_stateful = None, iv_description = None\<rparr>"

definition with_status :: "instance_key \<Rightarrow> string \<Rightarrow> rack \<Rightarrow> rack" where
  "with_status k st = map (\<lambda>(k', v). (k', if k' = k then v\<lparr>iv_status := st\<rparr> else v))"

definition rack_names :: "rack \<Rightarrow> string \<Rightarrow> string \<Rightarrow> string list" where
  "rack_names w c p = map (\<lambda>(k, _). ik_name k) (filter (\<lambda>(k, _). ik_clusterId k = c \<and> ik_project k = p) w)"

definition rack_api :: "failure option \<Rightarrow> rack incus_api" where
  "rack_api stop = \<lparr>
     ap_sourceFacts = (\<lambda>w k. case m_get w k of None \<Rightarrow> Inl (OtherError ''gone'')
       | Some v \<Rightarrow> Inr (a_source\<lparr>si_type := iv_type v, si_status := iv_status v, si_config := iv_config v\<rparr>)),
     ap_targetFacts = (\<lambda>w c p. Inr (a_target\<lparr>tf_instanceNames := rack_names w c p\<rparr>)),
     ap_read = (\<lambda>w k. Inr (m_get w k)),
     ap_state = (\<lambda>w k a. (with_status k (if a = ''stop'' then ''Stopped'' else ''Running'') w, Inr ())),
     ap_delete = (\<lambda>w k. (m_del w k, Inr ())),
     ap_put = (\<lambda>w k v. (w, Inr ())),
     ap_transfer = (\<lambda>w t. if m_get w (to_dst t) = None then (m_set w (to_dst t) (view_of (to_request t)), Inr ''direct'') else (w, Inl (OtherError ''exists''))),
     ap_aborted = (\<lambda>_. stop)\<rparr>"

lemma get_with_status: "m_get (with_status k st w) k' = (if k' = k then map_option (\<lambda>v. v\<lparr>iv_status := st\<rparr>) (m_get w k') else m_get w k')"
  by (induction w) (auto simp: with_status_def m_get_Cons)

lemma in_rack_names: "m_get w k \<noteq> None \<Longrightarrow> ik_name k \<in> set (rack_names w (ik_clusterId k) (ik_project k))"
  unfolding m_get_None_iff rack_names_def by force

lemma rack_lawful: "incus_lawful (rack_api stop) m_get"
  unfolding incus_lawful_def
proof (intro conjI)
  show "reads_true (rack_api stop) m_get"
    unfolding reads_true_def rack_api_def using in_rack_names by (auto split: option.splits)
  show "state_keeps (rack_api stop) m_get"
    unfolding state_keeps_def rack_api_def by (auto simp: get_with_status alike_def option.rel_map intro!: option.rel_refl)
  show "delete_local (rack_api stop) m_get" by (auto simp: delete_local_def rack_api_def)
  show "transfer_local (rack_api stop) m_get" by (auto simp: transfer_local_def rack_api_def view_of_def split: if_splits)
qed

definition a_view :: instance_view where
  "a_view = (view_of \<lparr>tr_name = ''web'', tr_type = ''container'', tr_architecture = ''x86_64'', tr_config = [(''limits.cpu'', ''1'')],
     tr_devices = [], tr_profiles = [''default'']\<rparr>)\<lparr>iv_status := ''Running''\<rparr>"

definition a_payload :: migrate_payload where
  "a_payload = \<lparr>mp_sourceClusterId = ''C1'', mp_sourceProject = ''p'', mp_name = ''web'', mp_targetClusterId = ''C2'', mp_targetProject = ''p'',
     mp_targetName = ''web'', mp_mode = Move, mp_live = False, mp_pool = None, mp_transport = ''auto''\<rparr>"

definition a_rack :: rack where
  "a_rack = [(mp_from a_payload, a_view), (\<lparr>ik_clusterId = ''C2'', ik_project = ''p'', ik_name = ''db''\<rparr>, a_view)]"

definition moving_db :: db where
  "moving_db = empty_db\<lparr>db_clusters := [a_cluster\<lparr>cl_id := ''C1''\<rparr>, a_cluster\<lparr>cl_id := ''C2''\<rparr>]\<rparr>"

definition a_run :: "failure option \<Rightarrow> rack migrating \<times> string result" where
  "a_run stop = migrateHandler (rack_api stop) (\<lambda>_. None) 5 (new_row 1 ''j1'' a_job) a_payload (migrating moving_db a_rack)"

lemma a_run_moves: "is_ok (snd (a_run None))" "m_get (jr_world (fst (a_run None))) (mp_from a_payload) = None"
  by code_simp+

lemma a_run_stopped: "snd (a_run (Some (OtherError ''stop''))) = Inl (OtherError ''stop'')" "\<not> mg_committed (fst (a_run (Some (OtherError ''stop''))))"
  by code_simp+

lemma a_rack_has: "m_get a_rack (mp_from a_payload) = Some a_view" "m_get a_rack (mp_to a_payload) = None"
  "m_get a_rack \<lparr>ik_clusterId = ''C2'', ik_project = ''p'', ik_name = ''db''\<rparr> = Some a_view"
  "\<lparr>ik_clusterId = ''C2'', ik_project = ''p'', ik_name = ''db''\<rparr> \<noteq> mp_from a_payload"
  by code_simp+

lemma a_run_ends: "migrateHandler (rack_api stop) (\<lambda>_. None) 5 (new_row 1 ''j1'' a_job) a_payload (migrating moving_db a_rack) = (fst (a_run stop), snd (a_run stop))"
  by (simp add: a_run_def)

theorem never_lost_witness:
  "is_ok (snd (a_run None)) \<and> m_get (jr_world (fst (a_run None))) (mp_from a_payload) = None \<and>
     (\<exists>c. m_get (jr_world (fst (a_run None))) (mp_to a_payload) = Some c \<and> iv_type c = iv_type a_view)"
  using never_lost[OF rack_lawful a_run_ends a_rack_has(1), of None] a_run_moves by simp


theorem rolled_back_witness:
  "m_get (jr_world (fst (a_run (Some (OtherError ''stop''))))) (mp_to a_payload) = None \<and>
   (\<exists>v'. m_get (jr_world (fst (a_run (Some (OtherError ''stop''))))) (mp_from a_payload) = Some v' \<and> alike a_view v')"
proof -
  have r: "ap_read (rack_api stop) w k = Inr (m_get w k)" "m_get (fst (ap_delete (rack_api stop) w k)) k = None" for stop w k
    by (simp_all add: rack_api_def)
  show ?thesis
    using rolled_back[OF rack_lawful a_run_ends[of "Some (OtherError ''stop'')", unfolded a_run_stopped(1)] a_run_stopped(2) a_rack_has(1,2) r] .
qed

end
