(* ===== verification/Schedules.thy ===== *)
theory Schedules
  imports Jobs
begin

text \<open>
  What the schedules of replications and backups share: a policy that is due has its job queued, unless its instance
  is busy, and notes when and which. The locale \<open>periodic\<close> is the contract of such policies; the schedulers of
  \<^verbatim>\<open>mobility/replication.ts\<close> and \<^verbatim>\<open>backups/backup-job.ts\<close> interpret it.
\<close>

definition queue_due ::
  "(db \<Rightarrow> string) \<Rightarrow> int \<Rightarrow> ('p \<Rightarrow> new_job) \<Rightarrow> ('p \<Rightarrow> string) \<Rightarrow> (int \<Rightarrow> string \<Rightarrow> 'p \<Rightarrow> 'p) \<Rightarrow> 'p \<Rightarrow> db \<times> 'p list \<Rightarrow> db \<times> 'p list" where
  "queue_due gen now job_of key mark p st =
    (case enqueueJob now (gen (fst st)) (fst st) (job_of p) of
       Inl _ \<Rightarrow> st
     | Inr (d, j) \<Rightarrow> (d, t_update (\<lambda>q. key q = key p) (mark now (jo_id j)) (snd st)))"

text \<open>An interval has passed since the last run, or there was none.\<close>

definition interval_passed :: "int \<Rightarrow> int \<Rightarrow> int option \<Rightarrow> bool" where
  "interval_passed now intervalS lastRunAt = (case lastRunAt of None \<Rightarrow> True | Some t \<Rightarrow> t < now - intervalS * 1000)"

lemma queue_due_jobs:
  "set (db_jobs d) \<subseteq> set (db_jobs (fst (queue_due gen now job_of key mark p (d, ps))))"
  "j \<in> set (db_jobs (fst (queue_due gen now job_of key mark p (d, ps)))) \<Longrightarrow> j \<notin> set (db_jobs d) \<Longrightarrow> \<exists>i. j = new_row now i (job_of p)"
  by (auto simp: queue_due_def enqueueJob_def Let_def split: if_splits)

lemma queue_due_busy:
  assumes "nj_instanceKey (job_of p) = Some k" "gen d \<notin> jo_id ` set (db_jobs d)"
  shows "\<exists>j\<in>set (db_jobs (fst (queue_due gen now job_of key mark p (d, ps)))). jo_instanceKey j = Some k \<and> active_job j"
  using assms by (auto simp: queue_due_def enqueueJob_def job_conflict_def new_row_def active_job_def image_iff Let_def)

locale periodic =
  fixes due :: "int \<Rightarrow> 'p \<Rightarrow> bool" and key :: "'p \<Rightarrow> string" and instance_of :: "'p \<Rightarrow> string"
    and job_of :: "'p \<Rightarrow> new_job" and mark :: "int \<Rightarrow> string \<Rightarrow> 'p \<Rightarrow> 'p" and well :: "'p \<Rightarrow> bool"
  assumes mark_key: "key (mark now i p) = key p"
    and mark_waits: "well p \<Longrightarrow> \<not> due now (mark now i p)"
    and mark_well: "well p \<Longrightarrow> well (mark now i p)"
    and job_instance: "nj_instanceKey (job_of p) = Some (instance_of p)"
begin

definition run_all :: "(db \<Rightarrow> string) \<Rightarrow> int \<Rightarrow> 'p list \<Rightarrow> db \<times> 'p list \<Rightarrow> db \<times> 'p list" where
  "run_all gen now qs st = fold (queue_due gen now job_of key mark) qs st"

lemma jobs_kept: "set (db_jobs (fst st)) \<subseteq> set (db_jobs (fst (run_all gen now qs st)))"
proof (induction qs arbitrary: st)
  case (Cons q qs)
  from queue_due_jobs(1)[of "fst st" gen now job_of key mark q "snd st"] Cons show ?case unfolding run_all_def by fastforce
qed (simp add: run_all_def)

lemma only_for_policies:
  assumes "j \<in> set (db_jobs (fst (run_all gen now qs st)))" "j \<notin> set (db_jobs (fst st))"
  shows "\<exists>p\<in>set qs. \<exists>i. j = new_row now i (job_of p)"
  using assms
proof (induction qs arbitrary: st)
  case (Cons q qs)
  let ?st = "queue_due gen now job_of key mark q st"
  show ?case
  proof (cases "j \<in> set (db_jobs (fst ?st))")
    case True
    with queue_due_jobs(2)[of j gen now job_of key mark q "fst st" "snd st"] Cons.prems(2) show ?thesis by auto
  next
    case False
    with Cons.IH[of ?st] Cons.prems(1) show ?thesis by (auto simp: run_all_def)
  qed
qed (simp add: run_all_def)

lemma every_policy_served:
  assumes "p \<in> set qs" "\<And>d. gen d \<notin> jo_id ` set (db_jobs d)"
  shows "\<exists>j\<in>set (db_jobs (fst (run_all gen now qs st))). jo_instanceKey j = Some (instance_of p) \<and> active_job j"
  using assms(1)
proof (induction qs arbitrary: st)
  case (Cons q qs)
  let ?st = "queue_due gen now job_of key mark q st"
  show ?case
  proof (cases "p = q")
    case True
    from queue_due_busy[where d = "fst st" and ps = "snd st" and job_of = job_of and p = q and gen = gen, OF job_instance assms(2), of now key mark]
      jobs_kept[of ?st gen now qs] True show ?thesis by (auto simp: run_all_def)
  next
    case False
    with Cons.IH[of ?st] Cons.prems show ?thesis by (auto simp: run_all_def)
  qed
qed simp

text \<open>What was queued now is not due any more, and a policy that was not served is as before.\<close>

lemma queue_due_policies:
  assumes "q \<in> set (snd (queue_due gen now job_of key mark p st))" "\<forall>x\<in>set (snd st). well x"
  shows "well q \<and> (q \<in> set (snd st) \<or> \<not> due now q)"
  using assms mark_waits mark_well
  by (auto simp: queue_due_def t_update_def split: sum.splits if_splits)

lemma not_twice:
  assumes "q \<in> set (snd (run_all gen now qs st))" "\<forall>x\<in>set (snd st). well x"
  shows "q \<in> set (snd st) \<or> \<not> due now q"
  using assms
proof (induction qs arbitrary: st)
  case (Cons p qs)
  let ?st = "queue_due gen now job_of key mark p st"
  from Cons.prems(2) queue_due_policies[of _ gen now p st] have "\<forall>x\<in>set (snd ?st). well x" by blast
  with Cons.IH[of ?st] Cons.prems(1) have "q \<in> set (snd ?st) \<or> \<not> due now q" by (simp add: run_all_def)
  with queue_due_policies[of q gen now p st] Cons.prems(2) show ?case by blast
qed (simp add: run_all_def)

lemma unserved_same: "filter (\<lambda>q. key q \<notin> key ` set qs) (snd (run_all gen now qs st)) = filter (\<lambda>q. key q \<notin> key ` set qs) (snd st)"
proof (induction qs arbitrary: st)
  case (Cons p qs)
  have step: "filter (\<lambda>q. key q \<noteq> key p) (snd (queue_due gen now job_of key mark p st)) = filter (\<lambda>q. key q \<noteq> key p) (snd st)"
  proof -
    have "filter (\<lambda>q. key q \<noteq> key p) (t_update (\<lambda>q. key q = key p) (mark now i) ps) = filter (\<lambda>q. key q \<noteq> key p) ps" for i ps
      by (induction ps) (auto simp: t_update_def mark_key)
    then show ?thesis by (auto simp: queue_due_def split: sum.splits)
  qed
  have split: "filter (\<lambda>q. key q \<notin> key ` set (p # qs)) xs = filter (\<lambda>q. key q \<noteq> key p) (filter (\<lambda>q. key q \<notin> key ` set qs) xs)"
    "filter (\<lambda>q. key q \<notin> key ` set (p # qs)) xs = filter (\<lambda>q. key q \<notin> key ` set qs) (filter (\<lambda>q. key q \<noteq> key p) xs)" for xs
    by (auto intro!: filter_cong)
  have "snd (run_all gen now (p # qs) st) = snd (run_all gen now qs (queue_due gen now job_of key mark p st))" by (simp add: run_all_def)
  then have "filter (\<lambda>q. key q \<notin> key ` set (p # qs)) (snd (run_all gen now (p # qs) st)) =
      filter (\<lambda>q. key q \<noteq> key p) (filter (\<lambda>q. key q \<notin> key ` set qs) (snd (queue_due gen now job_of key mark p st)))"
    unfolding split(1) Cons.IH[of "queue_due gen now job_of key mark p st", symmetric] by simp
  also have "\<dots> = filter (\<lambda>q. key q \<notin> key ` set qs) (filter (\<lambda>q. key q \<noteq> key p) (snd st))" using step by (metis split)
  finally show ?case unfolding split(2) .
qed (simp add: run_all_def)

text \<open>The whole schedule: jobs for what is due and nothing else, every due instance busy, and the policies.\<close>

lemma schedule_exact:
  assumes "\<And>d. gen d \<notin> jo_id ` set (db_jobs d)" "\<forall>p\<in>set ps. well p" "run_all gen now (filter (due now) ps) (d, ps) = (d', ps')"
  shows "(\<forall>j\<in>set (db_jobs d') - set (db_jobs d). \<exists>p\<in>set ps. due now p \<and> (\<exists>i. j = new_row now i (job_of p))) \<and>
    (\<forall>p\<in>set ps. due now p \<longrightarrow> (\<exists>j\<in>set (db_jobs d'). jo_instanceKey j = Some (instance_of p) \<and> active_job j)) \<and>
    (\<forall>q\<in>set ps'. q \<in> set ps \<or> \<not> due now q) \<and>
    filter (\<lambda>q. key q \<notin> key ` {p \<in> set ps. due now p}) ps' = filter (\<lambda>q. key q \<notin> key ` {p \<in> set ps. due now p}) ps"
proof -
  let ?due = "filter (due now) ps"
  have f: "fst (run_all gen now ?due (d, ps)) = d'" "snd (run_all gen now ?due (d, ps)) = ps'" using assms(3) by simp_all
  note l = only_for_policies[of _ gen now ?due "(d, ps)", unfolded f] every_policy_served[of _ ?due gen now "(d, ps)", OF _ assms(1), unfolded f]
    not_twice[of _ gen now ?due "(d, ps)", unfolded f] unserved_same[of ?due gen now "(d, ps)", unfolded f]
  show ?thesis
  proof (intro conjI ballI impI)
    fix j assume "j \<in> set (db_jobs d') - set (db_jobs d)"
    with l(1)[of j] show "\<exists>p\<in>set ps. due now p \<and> (\<exists>i. j = new_row now i (job_of p))" by auto
  next
    fix p assume "p \<in> set ps" "due now p"
    with l(2)[of p] show "\<exists>j\<in>set (db_jobs d'). jo_instanceKey j = Some (instance_of p) \<and> active_job j" by simp
  next
    fix q assume "q \<in> set ps'"
    with l(3)[of q] assms(2) show "q \<in> set ps \<or> \<not> due now q" by simp
  next
    show "filter (\<lambda>q. key q \<notin> key ` {p \<in> set ps. due now p}) ps' = filter (\<lambda>q. key q \<notin> key ` {p \<in> set ps. due now p}) ps"
      using l(4) by simp
  qed
qed

end

text \<open>Identifiers that no job has.\<close>

definition fresh_id :: "db \<Rightarrow> string" where
  "fresh_id d = ''j'' @ concat (map jo_id (db_jobs d))"

lemma fresh_id: "fresh_id d \<notin> jo_id ` set (db_jobs d)"
proof
  assume "fresh_id d \<in> jo_id ` set (db_jobs d)"
  then obtain r where r: "r \<in> set (db_jobs d)" "fresh_id d = jo_id r" by blast
  from r(1) have "length (jo_id r) \<le> length (concat (map jo_id (db_jobs d)))" by (auto simp: length_concat intro: member_le_sum_list)
  with r(2) show False by (simp add: fresh_id_def flip: r(2))
qed

end
