(* ===== verification/Replicate.thy ===== *)
theory Replicate
  imports Migrate Schedules
begin

text \<open>
  Replication (\<^verbatim>\<open>mobility/replication.ts\<close>): the run that copies or refreshes a policy's replica, the failover that makes
  the replica an ordinary instance, and the schedule. The policies' table is part of the handlers' state. The
  clusters are those of \<open>Migrate\<close>.
\<close>

section \<open>Policies\<close>

record replication_policy =
  rp_id :: string
  rp_tenantId :: "string option"
  rp_sourceClusterId :: string
  rp_sourceProject :: string
  rp_instanceName :: string
  rp_targetClusterId :: string
  rp_targetProject :: string
  rp_targetName :: string
  rp_intervalS :: int
  rp_enabled :: bool
  rp_state :: string
  rp_lastRunAt :: "int option"
  rp_lastSuccessAt :: "int option"
  rp_lastError :: string
  rp_lastJobId :: "string option"
  rp_createdBy :: string
  rp_createdAt :: int

definition rp_from :: "replication_policy \<Rightarrow> instance_key" where
  "rp_from p = \<lparr>ik_clusterId = rp_sourceClusterId p, ik_project = rp_sourceProject p, ik_name = rp_instanceName p\<rparr>"

definition rp_to :: "replication_policy \<Rightarrow> instance_key" where
  "rp_to p = \<lparr>ik_clusterId = rp_targetClusterId p, ik_project = rp_targetProject p, ik_name = rp_targetName p\<rparr>"

definition TAG_REPLICA_OF :: string where
  "TAG_REPLICA_OF = ''user.incuscloud.replica-of''"

definition TAG_PROMOTED_FROM :: string where
  "TAG_PROMOTED_FROM = ''user.incuscloud.promoted-from''"

definition policyInstanceKey :: "replication_policy \<Rightarrow> string" where
  "policyInstanceKey p = key_text (rp_from p)"

text \<open>The handlers' state: the policies, and the replica a run found.\<close>

record 'w replicating = "'w job_run" +
  rg_policies :: "replication_policy list"
  rg_existing :: "instance_view option"

definition set_policy :: "string \<Rightarrow> (replication_policy \<Rightarrow> replication_policy) \<Rightarrow> ('w replicating, unit) handler" where
  "set_policy i f = change (\<lambda>s. s\<lparr>rg_policies := t_update (\<lambda>p. rp_id p = i) f (rg_policies s)\<rparr>)"

definition loadPolicy :: "string \<Rightarrow> ('w replicating, replication_policy) handler" where
  "loadPolicy i = asking (\<lambda>s. case t_lookup rp_id (rg_policies s) i of
     None \<Rightarrow> Inl (ApiError 404 ''not_found'' ''The replication policy no longer exists'') | Some p \<Rightarrow> Inr p)"

definition replica_of :: "replication_policy \<Rightarrow> instance_view \<Rightarrow> bool" where
  "replica_of p v \<longleftrightarrow> m_get (iv_config v) TAG_REPLICA_OF = Some (rp_id p)"

section \<open>A run\<close>

definition replica_request :: "string \<Rightarrow> replication_policy \<Rightarrow> bool \<Rightarrow> target_request \<Rightarrow> target_request" where
  "replica_request job p refresh r =
    (let config = m_set (tr_config r) TAG_REPLICA_OF (rp_id p)
     in r\<lparr>tr_config := if refresh then config else m_set config TAG_JOB job\<rparr>)"

definition replicate_checked ::
  "'w incus_api \<Rightarrow> (string \<Rightarrow> json option) \<Rightarrow> int \<Rightarrow> string \<Rightarrow> replication_policy \<Rightarrow> string \<Rightarrow> bool \<Rightarrow> source_instance \<Rightarrow> target_facts \<Rightarrow> ('w replicating, string \<times> bool) handler" where
  "replicate_checked A parse now job p cert refresh source target =
    (let facts = (if refresh then target\<lparr>tf_instanceNames := filter (\<lambda>n. n \<noteq> rp_targetName p) (tf_instanceNames target)\<rparr> else target);
         check = preflight parse \<lparr>pi_source = source, pi_target = facts, pi_targetName = rp_targetName p, pi_mode = Copy, pi_live = False, pi_pool = None\<rparr>
     in if \<not> pf_ok check then throw (ApiError 409 ''preflight_failed'' (join_with ''; '' (pf_problems check)))
        else run_then (progress job (if refresh then ''refreshing'' else ''copying'')) (\<lambda>_.
          run_then (on_world (\<lambda>w. ap_transfer A w \<lparr>to_src = rp_from p, to_dst = rp_to p, to_request = replica_request job p refresh (pf_request check),
            to_refresh = refresh, to_live = False, to_instanceOnly = False, to_targetCert = cert, to_transport = ''auto''\<rparr>)) (\<lambda>transport.
          run_then (set_policy (rp_id p) (\<lambda>q. q\<lparr>rp_lastSuccessAt := Some now, rp_lastError := []\<rparr>)) (\<lambda>_.
          run_then (on_db (\<lambda>d. if refresh then d else carryOwner now d (rp_from p) (rp_to p) False)) (\<lambda>_.
          give (transport, refresh))))))"

definition replicate_body ::
  "'w incus_api \<Rightarrow> (string \<Rightarrow> json option) \<Rightarrow> int \<Rightarrow> string \<Rightarrow> replication_policy \<Rightarrow> string \<Rightarrow> ('w replicating, string \<times> bool) handler" where
  "replicate_body A parse now job p cert =
     run_then (progress job ''checking'') (\<lambda>_.
     run_then (readInstance A (rp_to p)) (\<lambda>existing.
     run_then (change (\<lambda>s. s\<lparr>rg_existing := existing\<rparr>)) (\<lambda>_.
     if (case existing of None \<Rightarrow> False | Some v \<Rightarrow> \<not> replica_of p v)
     then throw (ApiError 409 ''conflict'' (''A different instance named '' @ quoted (rp_targetName p) @ '' exists on the target; it is not overwritten''))
     else run_then (asking (\<lambda>s. ap_sourceFacts A (jr_world s) (rp_from p))) (\<lambda>source.
       run_then (asking (\<lambda>s. ap_targetFacts A (jr_world s) (rp_targetClusterId p) (rp_targetProject p))) (\<lambda>target.
       replicate_checked A parse now job p cert (existing \<noteq> None) source target)))))"

definition replicate_failed :: "'w incus_api \<Rightarrow> string \<Rightarrow> replication_policy \<Rightarrow> failure \<Rightarrow> ('w replicating, 'a) handler" where
  "replicate_failed A job p e =
     run_then (\<lambda>s. only_if (rg_existing s = None)
       (run_then (read_quietly A (rp_to p)) (\<lambda>left. only_if (made_by job left) (ignoring (delete_instance A (rp_to p))))) s) (\<lambda>_.
     run_then (set_policy (rp_id p) (\<lambda>q. q\<lparr>rp_lastError := take 1000 (error_message e)\<rparr>)) (\<lambda>_.
     throw e))"

definition replicateHandler ::
  "'w incus_api \<Rightarrow> (string \<Rightarrow> json option) \<Rightarrow> int \<Rightarrow> string \<Rightarrow> string \<Rightarrow> ('w replicating, string \<times> bool) handler" where
  "replicateHandler A parse now job policyId =
     run_then (loadPolicy policyId) (\<lambda>p.
     run_then (asking (\<lambda>s. clientFor (jr_db s) (rp_sourceClusterId p))) (\<lambda>_.
     run_then (asking (\<lambda>s. clientFor (jr_db s) (rp_targetClusterId p))) (\<lambda>dst.
     finally_do (catching (replicate_body A parse now job p (cl_serverCert dst)) (replicate_failed A job p))
       (\<lambda>s. s\<lparr>jr_db := refreshInventory (jr_db s) [rp_targetClusterId p]\<rparr>))))"

definition replicating :: "db \<Rightarrow> replication_policy list \<Rightarrow> 'w \<Rightarrow> 'w replicating" where
  "replicating d ps w = \<lparr>jr_db = d, jr_world = w, rg_policies = ps, rg_existing = None\<rparr>"

section \<open>Failing over\<close>

definition stop_original :: "'w incus_api \<Rightarrow> string \<Rightarrow> replication_policy \<Rightarrow> ('w replicating, string list) handler" where
  "stop_original A job p =
     run_then (progress job ''stopping the source'') (\<lambda>_.
     catching
      (run_then (asking (\<lambda>s. clientFor (jr_db s) (rp_sourceClusterId p))) (\<lambda>_.
       run_then (readInstance A (rp_from p)) (\<lambda>original.
       run_then (only_if (case original of None \<Rightarrow> False | Some v \<Rightarrow> iv_status v = ''Running'') (setState A (rp_from p) ''stop'')) (\<lambda>_.
       give []))))
      (\<lambda>e. give [''The source could not be stopped: '' @ error_message e]))"

definition promotion :: "replication_policy \<Rightarrow> instance_view \<Rightarrow> instance_put" where
  "promotion p r = \<lparr>ip_architecture = iv_architecture r,
     ip_config = m_set (m_del (m_del (iv_config r) TAG_REPLICA_OF) TAG_JOB) TAG_PROMOTED_FROM (policyInstanceKey p),
     ip_devices = iv_devices r, ip_profiles = iv_profiles r,
     ip_ephemeral = (case iv_ephemeral r of None \<Rightarrow> False | Some b \<Rightarrow> b), ip_stateful = (case iv_stateful r of None \<Rightarrow> False | Some b \<Rightarrow> b),
     ip_description = (case iv_description r of None \<Rightarrow> [] | Some x \<Rightarrow> x)\<rparr>"

definition failoverHandler ::
  "'w incus_api \<Rightarrow> string \<Rightarrow> string \<Rightarrow> bool \<Rightarrow> ('w replicating, string list) handler" where
  "failoverHandler A job policyId stopSource =
     run_then (loadPolicy policyId) (\<lambda>p.
     if rp_state p \<noteq> ''active'' then throw (ApiError 409 ''conflict'' ''This policy has already failed over'')
     else run_then (asking (\<lambda>s. clientFor (jr_db s) (rp_targetClusterId p))) (\<lambda>_.
       run_then (readInstance A (rp_to p)) (\<lambda>replica.
       if (case replica of None \<Rightarrow> True | Some v \<Rightarrow> \<not> replica_of p v)
       then throw (ApiError 409 ''conflict'' ''There is no replica to fail over to'')
       else run_then (if stopSource then stop_original A job p else give []) (\<lambda>warnings.
         run_then (progress job ''promoting the replica'') (\<lambda>_.
         run_then (on_world (\<lambda>w. ap_put A w (rp_to p) (promotion p (the replica)))) (\<lambda>_.
         run_then (progress job ''starting the replica'') (\<lambda>_.
         run_then (only_if (iv_status (the replica) \<noteq> ''Running'') (setState A (rp_to p) ''start'')) (\<lambda>_.
         run_then (set_policy (rp_id p) (\<lambda>q. q\<lparr>rp_state := ''failed-over'', rp_enabled := False\<rparr>)) (\<lambda>_.
         run_then (on_db (\<lambda>d. refreshInventory d [rp_sourceClusterId p, rp_targetClusterId p])) (\<lambda>_.
         give warnings))))))))))"

section \<open>The schedule\<close>

definition replication_due :: "int \<Rightarrow> replication_policy \<Rightarrow> bool" where
  "replication_due now p \<longleftrightarrow> rp_enabled p \<and> rp_state p = ''active'' \<and> interval_passed now (rp_intervalS p) (rp_lastRunAt p)"

definition replicate_job :: "replication_policy \<Rightarrow> new_job" where
  "replicate_job p = \<lparr>nj_type = ''replicate'', nj_payload = [(''policyId'', JStr (rp_id p))], nj_actorType = ''system'', nj_actorId = ''replication'',
     nj_tenantId = rp_tenantId p, nj_clusterIds = Some [rp_sourceClusterId p, rp_targetClusterId p], nj_instanceKey = Some (policyInstanceKey p)\<rparr>"

definition mark_run :: "int \<Rightarrow> string \<Rightarrow> replication_policy \<Rightarrow> replication_policy" where
  "mark_run now job p = p\<lparr>rp_lastRunAt := Some now, rp_lastJobId := Some job\<rparr>"

definition scheduleReplication :: "(db \<Rightarrow> string) \<Rightarrow> int \<Rightarrow> db \<times> replication_policy list \<Rightarrow> db \<times> replication_policy list" where
  "scheduleReplication gen now st = fold (queue_due gen now replicate_job rp_id mark_run) (filter (replication_due now) (snd st)) st"

interpretation replication: periodic replication_due rp_id policyInstanceKey replicate_job mark_run "\<lambda>p. rp_intervalS p \<ge> 0"
  by unfold_locales (auto simp: mark_run_def replication_due_def interval_passed_def replicate_job_def)

lemma schedule_is_run: "scheduleReplication gen now st = replication.run_all gen now (filter (replication_due now) (snd st)) st"
  by (simp add: scheduleReplication_def replication.run_all_def)

section \<open>The states of a run\<close>

text \<open>
  Everything but the replica is as it was at the start (\<open>w\<close>); where there was nothing, the run's own copy may be; what was
  there is there, and unchanged when it is not the policy's replica.
\<close>

definition replica_framed ::
  "('w \<Rightarrow> instance_key \<Rightarrow> instance_view option) \<Rightarrow> 'w \<Rightarrow> replication_policy \<Rightarrow> string \<Rightarrow> 'w \<Rightarrow> bool" where
  "replica_framed look w p job w' \<longleftrightarrow>
    (\<forall>k. k \<noteq> rp_from p \<longrightarrow> k \<noteq> rp_to p \<longrightarrow> look w' k = look w k) \<and> rel_option alike (look w (rp_from p)) (look w' (rp_from p)) \<and>
    (case look w (rp_to p) of
       None \<Rightarrow> (case look w' (rp_to p) of None \<Rightarrow> True | Some c \<Rightarrow> replica_of p c \<and> made_by job (Some c))
     | Some v \<Rightarrow> look w' (rp_to p) \<noteq> None \<and> (\<not> replica_of p v \<longrightarrow> look w' (rp_to p) = Some v))"

definition run_ahead :: "('w \<Rightarrow> instance_key \<Rightarrow> instance_view option) \<Rightarrow> 'w \<Rightarrow> replication_policy \<Rightarrow> 'w replicating \<Rightarrow> bool" where
  "run_ahead look w p s \<longleftrightarrow> jr_world s = w \<and> rg_existing s = look w (rp_to p)"

definition run_over ::
  "('w \<Rightarrow> instance_key \<Rightarrow> instance_view option) \<Rightarrow> 'w \<Rightarrow> replication_policy \<Rightarrow> string \<Rightarrow> 'w replicating \<Rightarrow> bool" where
  "run_over look w p job s \<longleftrightarrow> replica_framed look w p job (jr_world s) \<and>
     (look w (rp_to p) \<noteq> None \<longrightarrow> rg_existing s = None \<longrightarrow> jr_world s = w)"

lemma framed_refl: "replica_framed look w p job w"
  by (simp add: replica_framed_def split: option.splits)

lemma ahead_over: "run_ahead look w p s \<Longrightarrow> run_over look w p job s"
  by (simp add: run_ahead_def run_over_def framed_refl)

lemma ahead_simps [simp]:
  "run_ahead look w p (s\<lparr>jr_db := d\<rparr>) = run_ahead look w p s" "run_over look w p job (s\<lparr>jr_db := d\<rparr>) = run_over look w p job s"
  "run_over look w p job (s\<lparr>rg_policies := ps\<rparr>) = run_over look w p job s"
  by (simp_all add: run_ahead_def run_over_def)

lemma tags: "startsWith TAG_REPLICA_OF ''user.''" "startsWith TAG_JOB ''user.''" "TAG_JOB \<noteq> TAG_REPLICA_OF"
  by (simp_all add: TAG_REPLICA_OF_def TAG_JOB_def)

lemma transfer_framed:
  assumes "transfer_local A look" "rp_from p \<noteq> rp_to p"
    "ap_transfer A w \<lparr>to_src = rp_from p, to_dst = rp_to p, to_request = replica_request job p (look w (rp_to p) \<noteq> None) q,
       to_refresh = (look w (rp_to p) \<noteq> None), to_live = l, to_instanceOnly = i, to_targetCert = c, to_transport = t\<rparr> = (w', r)"
    "\<And>v. look w (rp_to p) = Some v \<Longrightarrow> replica_of p v"
  shows "replica_framed look w p job w'"
proof -
  note t = assms(1)[unfolded transfer_local_def, rule_format, OF assms(3), simplified]
  show ?thesis
  proof (cases "look w (rp_to p)")
    case None
    have "m_get (tr_config (replica_request job p False q)) TAG_REPLICA_OF = Some (rp_id p)"
      "m_get (tr_config (replica_request job p False q)) TAG_JOB = Some job" using tags(3) by (auto simp: replica_request_def Let_def)
    with t None tags(1,2) assms(2) show ?thesis
      by (auto simp: replica_framed_def replica_of_def made_by_def split: option.splits)
  next
    case (Some v)
    with t assms(2) assms(4)[OF Some] show ?thesis by (auto simp: replica_framed_def)
  qed
qed

lemma triple_replicate_checked:
  assumes "transfer_local A look" "rp_from p \<noteq> rp_to p" "\<And>v. look w (rp_to p) = Some v \<Longrightarrow> replica_of p v"
    "refresh = (look w (rp_to p) \<noteq> None)"
  shows "triple (run_ahead look w p) (replicate_checked A parse now job p cert refresh source target)
    (\<lambda>_. run_over look w p job) (run_over look w p job)"
  unfolding replicate_checked_def Let_def
proof (rule triple_if, goal_cases refused accepted)
  case refused
  show ?case by (rule triple_throw) (rule ahead_over)
next
  case accepted
  let ?S = "run_over look w p job"
  show ?case
  proof (rule triple_then[OF triple_progress[where Q = "run_ahead look w p"]], simp, rule triple_then[OF triple_world[where Q = ?S]], goal_cases transfer rest)
    case (transfer x s w' r)
    then have s: "jr_world s = w" "rg_existing s = look w (rp_to p)" by (simp_all add: run_ahead_def)
    from transfer(2) have "replica_framed look w p job w'" unfolding s(1) assms(4) by (rule transfer_framed[OF assms(1,2) _ assms(3)])
    with s show ?case by (auto simp: run_over_def)
  next
    case (rest x y)
    show ?case
      by (rule triple_then[where Q' = "\<lambda>_. ?S"], simp add: set_policy_def, rule triple_change, simp,
          rule triple_then[OF triple_db[where Q = ?S]], simp, rule triple_give, simp)
  qed
qed

lemma triple_replicate_body:
  assumes "reads_true A look" "transfer_local A look" "rp_from p \<noteq> rp_to p"
  shows "triple (\<lambda>s. jr_world s = w \<and> rg_existing s = None) (replicate_body A parse now job p cert)
    (\<lambda>_. run_over look w p job) (run_over look w p job)" (is "triple ?P _ ?Q ?R")
proof -
  let ?A = "run_ahead look w p"
  have start: "?P s \<Longrightarrow> ?R s" for s by (simp add: run_over_def framed_refl)
  have read: "triple ?P (readInstance A (rp_to p)) (\<lambda>v s. ?P s \<and> v = look w (rp_to p)) ?R"
    by (rule triple_weaken[OF triple_read[OF assms(1), where P = ?P]]) (simp_all add: start)
  have "triple (\<lambda>s. ?P s \<and> v = look w (rp_to p)) (run_then (change (\<lambda>s. s\<lparr>rg_existing := v\<rparr>)) (\<lambda>_.
     if (case v of None \<Rightarrow> False | Some x \<Rightarrow> \<not> replica_of p x) then throw e
     else run_then (asking f) (\<lambda>source. run_then (asking g) (\<lambda>target.
       replicate_checked A parse now job p cert (v \<noteq> None) source target)))) ?Q ?R" for v e f g
  proof (rule triple_assume)
    assume v: "v = look w (rp_to p)"
    have "triple ?A (if (case v of None \<Rightarrow> False | Some x \<Rightarrow> \<not> replica_of p x) then throw e
     else run_then (asking f) (\<lambda>source. run_then (asking g) (\<lambda>target.
       replicate_checked A parse now job p cert (v \<noteq> None) source target))) ?Q ?R"
    proof (rule triple_if)
      assume "\<not> (case v of None \<Rightarrow> False | Some x \<Rightarrow> \<not> replica_of p x)"
      then have "\<And>x. look w (rp_to p) = Some x \<Longrightarrow> replica_of p x" by (simp add: v)
      note checked = triple_replicate_checked[OF assms(2,3) this arg_cong[OF v, of "\<lambda>x. x \<noteq> None"]]
      show "triple ?A (run_then (asking f) (\<lambda>source. run_then (asking g) (\<lambda>target.
          replicate_checked A parse now job p cert (v \<noteq> None) source target))) ?Q ?R"
        by (rule triple_then[where Q' = "\<lambda>_. ?A"], rule triple_asking, assumption, rule ahead_over, assumption,
            rule triple_then[where Q' = "\<lambda>_. ?A"], rule triple_asking, assumption, rule ahead_over, assumption, rule checked)
    qed (rule triple_throw, rule ahead_over)
    then show "triple ?P (run_then (change (\<lambda>s. s\<lparr>rg_existing := v\<rparr>)) (\<lambda>_.
       if (case v of None \<Rightarrow> False | Some x \<Rightarrow> \<not> replica_of p x) then throw e
       else run_then (asking f) (\<lambda>source. run_then (asking g) (\<lambda>target.
       replicate_checked A parse now job p cert (v \<noteq> None) source target)))) ?Q ?R"
      by (intro triple_then[where Q' = "\<lambda>_. ?A"] triple_change) (simp_all add: run_ahead_def v)
  qed
  then show ?thesis unfolding replicate_body_def
    by (intro triple_then[OF triple_progress[where Q = ?P] triple_then[OF read]]) simp_all
qed

lemma triple_replicate_failed:
  assumes "reads_true A look" "delete_local A look" "rp_from p \<noteq> rp_to p" "\<not> made_by job (look w (rp_to p))"
  shows "triple (run_over look w p job) (replicate_failed A job p e) Q (\<lambda>s. replica_framed look w p job (jr_world s))"
proof -
  let ?O = "run_over look w p job" and ?F = "\<lambda>s. replica_framed look w p job (jr_world s)"
  have removed: "?F (s\<lparr>jr_world := w'\<rparr>)"
    if s: "?O s" "rg_existing s = None" "made_by job (look (jr_world s) (rp_to p))" and d: "ap_delete A (jr_world s) (rp_to p) = (w', r)" for s :: "'a replicating" and w' r
  proof -
    have none: "look w (rp_to p) = None"
    proof (rule ccontr)
      assume "look w (rp_to p) \<noteq> None"
      with s(1,2) have "jr_world s = w" by (simp add: run_over_def)
      with s(3) assms(4) show False by simp
    qed
    from s(1) have f: "replica_framed look w p job (jr_world s)" by (simp add: run_over_def)
    from s(3) obtain c where c: "look (jr_world s) (rp_to p) = Some c" by (auto simp: made_by_def split: option.splits)
    with f none have own: "replica_of p c" "made_by job (Some c)" by (simp_all add: replica_framed_def)
    have "case look w' (rp_to p) of None \<Rightarrow> True | Some c \<Rightarrow> replica_of p c \<and> made_by job (Some c)"
      using delete_changed(1)[OF assms(2) d] c own tags by (auto simp: replica_of_def alike_def made_by_def split: option.splits)
    with f none delete_changed(2)[OF assms(2) d] assms(3) show ?thesis by (simp add: replica_framed_def)
  qed
  have clean: "triple (\<lambda>s. ?O s \<and> rg_existing s = None) (run_then (read_quietly A (rp_to p)) (\<lambda>left.
      only_if (made_by job left) (ignoring (delete_instance A (rp_to p))))) (\<lambda>_. ?F) ?F"
  proof (rule triple_then[OF triple_read_quietly[OF assms(1)]])
    show "triple (\<lambda>s. (?O s \<and> rg_existing s = None) \<and> (left = None \<or> left = look (jr_world s) (rp_to p)))
      (only_if (made_by job left) (ignoring (delete_instance A (rp_to p)))) (\<lambda>_. ?F) ?F" for left
    proof (rule triple_when, rule triple_ignoring, rule triple_delete)
      fix s :: "'a replicating" and w' r
      assume "((?O s \<and> rg_existing s = None) \<and> (left = None \<or> left = look (jr_world s) (rp_to p))) \<and> made_by job left" "ap_delete A (jr_world s) (rp_to p) = (w', r)"
      then show "?F (s\<lparr>jr_world := w'\<rparr>)" using removed[of s w' r] by (auto simp: made_by_def)
    qed (simp add: run_over_def)
  qed
  have "triple ?O (\<lambda>s. only_if (rg_existing s = None) (run_then (read_quietly A (rp_to p)) (\<lambda>left.
      only_if (made_by job left) (ignoring (delete_instance A (rp_to p))))) s) (\<lambda>_. ?F) ?F"
    using clean unfolding triple_def[of "?O"] triple_def[of "\<lambda>s. ?O s \<and> rg_existing s = None"]
    by (auto simp: only_if_def give_def run_over_def)
  then show ?thesis unfolding replicate_failed_def
    by (intro triple_then[where Q' = "\<lambda>_. ?F"]) (auto simp: set_policy_def intro!: triple_change triple_throw)
qed

section \<open>Properties\<close>

text \<open>
  C15: A replication run touches nothing but its own replica: whichever request fails, every other instance is as
  before, the source but for its state; an instance under the replica's name that is not this policy's
  replica is unchanged; an existing replica is never removed; and where there was nothing, there is at most a copy marked
  as the policy's replica. The hypothesis on the job's mark says that no instance bears the new job's
  identifier yet.
\<close>

theorem replicas_only:
  assumes "incus_lawful A look" "t_lookup rp_id ps i = Some p" "rp_from p \<noteq> rp_to p" "\<not> made_by job (look w (rp_to p))"
    "replicateHandler A parse now job i (replicating d ps w) = (s, r)"
  shows "(\<forall>k. k \<noteq> rp_from p \<longrightarrow> k \<noteq> rp_to p \<longrightarrow> look (jr_world s) k = look w k) \<and>
    rel_option alike (look w (rp_from p)) (look (jr_world s) (rp_from p)) \<and>
    (\<forall>v. look w (rp_to p) = Some v \<longrightarrow> look (jr_world s) (rp_to p) \<noteq> None \<and> (\<not> replica_of p v \<longrightarrow> look (jr_world s) (rp_to p) = Some v)) \<and>
    (\<forall>c. look w (rp_to p) = None \<longrightarrow> look (jr_world s) (rp_to p) = Some c \<longrightarrow> replica_of p c)"
proof -
  have laws: "reads_true A look" "transfer_local A look" "delete_local A look" using assms(1) by (simp_all add: incus_lawful_def)
  let ?P = "\<lambda>s. jr_world s = w \<and> rg_existing s = None \<and> rg_policies s = ps" and ?F = "\<lambda>s. replica_framed look w p job (jr_world s)"
  have load: "triple ?P (loadPolicy i) (\<lambda>q s. q = p \<and> ?P s) ?F"
    unfolding loadPolicy_def by (rule triple_asking) (auto simp: assms(2) framed_refl)
  have run: "triple (\<lambda>s. q = p \<and> ?P s) (run_then (asking f) (\<lambda>_. run_then (asking g) (\<lambda>dst.
      finally_do (catching (replicate_body A parse now job q (cl_serverCert dst)) (replicate_failed A job q))
       (\<lambda>s. s\<lparr>jr_db := h s\<rparr>)))) (\<lambda>_. ?F) ?F" for q h and f g :: "'a replicating \<Rightarrow> cluster_row result"
  proof -
    have asks: "triple (\<lambda>s. q = p \<and> ?P s) (asking f) (\<lambda>_ s. q = p \<and> ?P s) ?F" for f :: "'a replicating \<Rightarrow> cluster_row result"
      by (rule triple_asking) (auto simp: framed_refl)
    have "triple (\<lambda>s. q = p \<and> ?P s) (catching (replicate_body A parse now job q cert) (replicate_failed A job q)) (\<lambda>_. ?F) ?F" for cert
    proof -
      have b: "triple (\<lambda>s. jr_world s = w \<and> rg_existing s = None) (catching (replicate_body A parse now job p cert) (replicate_failed A job p)) (\<lambda>_. ?F) ?F"
        by (rule triple_catch[OF triple_weaken[OF triple_replicate_body[OF laws(1,2) assms(3)]] triple_replicate_failed[OF laws(1,3) assms(3,4)]])
          (auto simp: run_over_def)
      show ?thesis
      proof (cases "q = p")
        case True
        show ?thesis unfolding True by (rule triple_pre[OF b]) simp
      next
        case False
        then show ?thesis by (simp add: triple_def)
      qed
    qed
    then show ?thesis by (intro triple_then[OF asks] triple_finally[where Q' = "\<lambda>_. ?F" and R' = ?F]) simp_all
  qed
  have t: "triple ?P (replicateHandler A parse now job i) (\<lambda>_. ?F) ?F"
    unfolding replicateHandler_def by (rule triple_then[OF load]) (rule run)
  have "?F s"
  proof (cases r)
    case (Inl e)
    from tripleD(2)[OF t _ assms(5)[unfolded Inl]] show ?thesis by (simp add: replicating_def)
  next
    case (Inr x)
    from tripleD(1)[OF t _ assms(5)[unfolded Inr]] show ?thesis by (simp add: replicating_def)
  qed
  then show ?thesis by (auto simp: replica_framed_def split: option.splits)
qed

lemma lookup_set:
  "t_lookup rp_id (t_update (\<lambda>q. rp_id q = i) (\<lambda>q. q\<lparr>rp_state := st, rp_enabled := b\<rparr>) ps) i =
     map_option (\<lambda>q. q\<lparr>rp_state := st, rp_enabled := b\<rparr>) (t_lookup rp_id ps i)"
  by (induction ps) (auto simp: t_lookup_def t_update_def)

text \<open>What a failover does to the policies: nothing, or what the last step says.\<close>

lemma triple_promote:
  fixes ps :: "replication_policy list" and A :: "'w incus_api"
  defines "P \<equiv> \<lambda>s. rg_policies s = ps"
  shows "triple P (run_then (if stopSource then stop_original A job p else give []) (\<lambda>warnings.
         run_then (progress job stage) (\<lambda>_. run_then (on_world (\<lambda>w. ap_put A w (rp_to p) v)) (\<lambda>_.
         run_then (progress job stage') (\<lambda>_. run_then (only_if b (setState A (rp_to p) ''start'')) (\<lambda>_.
         run_then (set_policy i f) (\<lambda>_. run_then (on_db g) (\<lambda>_. give warnings))))))))
    (\<lambda>_ s. rg_policies s = t_update (\<lambda>q. rp_id q = i) f ps) P"
proof -
  have state: "triple P (setState A k a) (\<lambda>_. P) P" for k a by (rule triple_state) (simp add: P_def)
  have prog: "triple P (progress job stage) (\<lambda>_. P) R" for stage R by (rule triple_progress) (simp add: P_def)
  have "triple P (run_then (asking h) (\<lambda>_. run_then (readInstance A k) (\<lambda>original. run_then (only_if (c original) (setState A k ''stop'')) (\<lambda>_. give ([] :: string list)))))
      (\<lambda>_. P) P" for h :: "'w replicating \<Rightarrow> cluster_row result" and k c
    by (rule triple_then[where Q' = "\<lambda>_. P"], rule triple_asking, assumption, assumption,
        rule triple_then[where Q' = "\<lambda>_. P"], simp add: readInstance_def, rule triple_asking, assumption, assumption,
        rule triple_then[where Q' = "\<lambda>_. P"], rule triple_when, rule triple_pre[OF state], simp, assumption, rule triple_give, assumption)
  then have stop: "triple P (stop_original A job p) (\<lambda>_. P) P" unfolding stop_original_def
    by (intro triple_then[OF prog] triple_catch[where R' = P] triple_give) auto
  show ?thesis
    by (rule triple_then[where Q' = "\<lambda>_. P"], rule triple_if, rule stop, rule triple_give, assumption, rule triple_then[OF prog],
        rule triple_then[OF triple_world[where Q = P]], simp add: P_def, rule triple_then[OF prog],
        rule triple_then[where Q' = "\<lambda>_. P"], rule triple_when, rule triple_pre[OF state], simp, assumption,
        rule triple_then[where Q' = "\<lambda>_ s. rg_policies s = t_update (\<lambda>q. rp_id q = i) f ps"], unfold set_policy_def, rule triple_change, simp add: P_def,
        rule triple_then[OF triple_db[where Q = "\<lambda>s. rg_policies s = t_update (\<lambda>q. rp_id q = i) f ps"]], simp, rule triple_give, assumption)
qed

lemma failover_cases:
  assumes "reads_true A look" "failoverHandler A job i stopSource s0 = (s, r)" "t_lookup rp_id (rg_policies s0) i = Some p"
  shows "if is_ok r then rp_state p = ''active'' \<and> (\<exists>v. look (jr_world s0) (rp_to p) = Some v \<and> replica_of p v) \<and>
      rg_policies s = t_update (\<lambda>q. rp_id q = rp_id p) (\<lambda>q. q\<lparr>rp_state := ''failed-over'', rp_enabled := False\<rparr>) (rg_policies s0)
    else rg_policies s = rg_policies s0"
proof -
  let ?ps = "rg_policies s0" and ?w = "jr_world s0"
  let ?Q = "\<lambda>_ s. rp_state p = ''active'' \<and> (\<exists>v. look ?w (rp_to p) = Some v \<and> replica_of p v) \<and>
      rg_policies s = t_update (\<lambda>q. rp_id q = rp_id p) (\<lambda>q. q\<lparr>rp_state := ''failed-over'', rp_enabled := False\<rparr>) ?ps"
  let ?P = "\<lambda>s. rg_policies s = ?ps \<and> jr_world s = ?w" and ?R = "\<lambda>s. rg_policies s = ?ps"
  have t: "triple (\<lambda>s. s = s0) (failoverHandler A job i stopSource) ?Q ?R" unfolding failoverHandler_def
  proof (rule triple_then[where Q' = "\<lambda>q s. q = p \<and> s = s0"], unfold loadPolicy_def, rule triple_asking, simp add: assms(3), simp, goal_cases go)
    case (go q)
    have q: "triple (\<lambda>s. q = p \<and> s = s0) m ?Q ?R" if "q = p \<Longrightarrow> triple (\<lambda>s. s = s0) m ?Q ?R" for m :: "('a replicating, string list) handler"
      using that by (auto simp: triple_def)
    show ?case
    proof (rule q, simp only:, rule triple_if, rule triple_throw, simp, goal_cases active)
      case active
      show ?case
      proof (rule triple_then[where Q' = "\<lambda>_ s. s = s0"], rule triple_asking, simp, simp,
          rule triple_then[where Q' = "\<lambda>v s. s = s0 \<and> v = look ?w (rp_to p)"], rule triple_weaken[OF triple_read[OF assms(1), where P = "\<lambda>s. s = s0"]], simp, simp, simp,
          goal_cases read)
        case (read _ v)
        show ?case
        proof (rule triple_assume, rule triple_if, rule triple_throw, simp, goal_cases found)
          case found
          then obtain x where x: "look ?w (rp_to p) = Some x" "replica_of p x" by (auto split: option.splits)
          from active x show ?case by (intro triple_weaken[OF triple_promote[where ps = ?ps]]) auto
        qed
      qed
    qed
  qed
  show ?thesis
  proof (cases r)
    case (Inl e)
    from tripleD(2)[OF t refl assms(2)[unfolded Inl]] Inl show ?thesis by simp
  next
    case (Inr x)
    from tripleD(1)[OF t refl assms(2)[unfolded Inr]] Inr show ?thesis by simp
  qed
qed


text \<open>
  C17: The schedule of replications queues a job for a policy only when the policy is due; afterwards the instance of every
  policy that was due has an active job, the policies that were not due are as before, and what was queued is
  not due again at once.
\<close>

theorem replication_scheduled:
  assumes "\<And>d. gen d \<notin> jo_id ` set (db_jobs d)" "\<forall>p\<in>set ps. rp_intervalS p \<ge> 0" "scheduleReplication gen now (d, ps) = (d', ps')"
  shows "(\<forall>j\<in>set (db_jobs d') - set (db_jobs d). \<exists>p\<in>set ps. replication_due now p \<and> (\<exists>i. j = new_row now i (replicate_job p))) \<and>
    (\<forall>p\<in>set ps. replication_due now p \<longrightarrow> (\<exists>j\<in>set (db_jobs d'). jo_instanceKey j = Some (policyInstanceKey p) \<and> active_job j)) \<and>
    (\<forall>q\<in>set ps'. q \<in> set ps \<or> \<not> replication_due now q) \<and>
    filter (\<lambda>q. rp_id q \<notin> rp_id ` {p \<in> set ps. replication_due now p}) ps' = filter (\<lambda>q. rp_id q \<notin> rp_id ` {p \<in> set ps. replication_due now p}) ps"
  using replication.schedule_exact[OF assms(1,2)] assms(3) by (simp add: schedule_is_run)

section \<open>A policy\<close>

definition a_replication :: replication_policy where
  "a_replication = \<lparr>rp_id = ''R1'', rp_tenantId = None, rp_sourceClusterId = ''C1'', rp_sourceProject = ''p'', rp_instanceName = ''web'',
     rp_targetClusterId = ''C2'', rp_targetProject = ''p'', rp_targetName = ''web'', rp_intervalS = 3600, rp_enabled = True, rp_state = ''active'',
     rp_lastRunAt = None, rp_lastSuccessAt = None, rp_lastError = [], rp_lastJobId = None, rp_createdBy = ''system:seed'', rp_createdAt = 0\<rparr>"

definition a_first_run :: "rack replicating \<times> (string \<times> bool) result" where
  "a_first_run = replicateHandler (rack_api None) (\<lambda>_. None) 5 ''j1'' ''R1'' (replicating moving_db [a_replication] a_rack)"

definition a_failover :: "rack replicating \<times> string list result" where
  "a_failover = failoverHandler (rack_api None) ''j2'' ''R1'' True (fst a_first_run)"

lemma a_first_run_facts:
  "t_lookup rp_id [a_replication] ''R1'' = Some a_replication" "rp_from a_replication \<noteq> rp_to a_replication"
  "\<not> made_by ''j1'' (m_get a_rack (rp_to a_replication))" "m_get a_rack (rp_to a_replication) = None"
  "m_get (jr_world (fst a_first_run)) (rp_to a_replication) \<noteq> None" "is_ok (snd a_failover)"
  "map_option rp_id (t_lookup rp_id (rg_policies (fst a_first_run)) ''R1'') = Some ''R1''"
  by code_simp+

theorem replicas_only_witness:
  "\<exists>c. m_get (jr_world (fst a_first_run)) (rp_to a_replication) = Some c \<and> replica_of a_replication c \<and>
     m_get (jr_world (fst a_first_run)) \<lparr>ik_clusterId = ''C2'', ik_project = ''p'', ik_name = ''db''\<rparr> = Some a_view"
proof -
  have run: "replicateHandler (rack_api None) (\<lambda>_. None) 5 ''j1'' ''R1'' (replicating moving_db [a_replication] a_rack) = (fst a_first_run, snd a_first_run)"
    by (simp add: a_first_run_def)
  have other: "\<lparr>ik_clusterId = ''C2'', ik_project = ''p'', ik_name = ''db''\<rparr> \<noteq> rp_from a_replication"
    "\<lparr>ik_clusterId = ''C2'', ik_project = ''p'', ik_name = ''db''\<rparr> \<noteq> rp_to a_replication" by code_simp+
  note r = replicas_only[OF rack_lawful a_first_run_facts(1-3) run]
  from a_first_run_facts(5) obtain c where c: "m_get (jr_world (fst a_first_run)) (rp_to a_replication) = Some c" by blast
  with r a_first_run_facts(4) have "replica_of a_replication c" by blast
  moreover from r other a_rack_has(3) have "m_get (jr_world (fst a_first_run)) \<lparr>ik_clusterId = ''C2'', ik_project = ''p'', ik_name = ''db''\<rparr> = Some a_view" by metis
  ultimately show ?thesis using c by blast
qed


theorem replication_scheduled_witness:
  "\<exists>j\<in>set (db_jobs (fst (scheduleReplication fresh_id 5 (moving_db, [a_replication])))). jo_instanceKey j = Some ''C1/p/web'' \<and> active_job j"
proof -
  have "policyInstanceKey a_replication = ''C1/p/web''" "replication_due 5 a_replication" "rp_intervalS a_replication \<ge> 0" by code_simp+
  with replication_scheduled[OF fresh_id, of "[a_replication]" 5 moving_db "fst (scheduleReplication fresh_id 5 (moving_db, [a_replication]))"
      "snd (scheduleReplication fresh_id 5 (moving_db, [a_replication]))"]
  show ?thesis by simp
qed

end
