(* ===== verification/Mobility_Routes.thy ===== *)
theory Mobility_Routes
  imports Replicate Accounts
begin

text \<open>
  The routes that start migrations and keep replication policies (\<^verbatim>\<open>api/mobility.ts\<close>, \<^verbatim>\<open>api/replication.ts\<close>): the checks in front of the
  jobs of \<open>Migrate\<close> and \<open>Replicate\<close>. \<open>s\<close> is the snapshot of the permissions a request is decided on; what the two clusters say of the
  instance and of the target (\<open>inspect\<close>) is an argument. The schemas of the bodies are the framework's.
\<close>

section \<open>Where an instance may go\<close>

record migration_body =
  mb_targetClusterId :: string
  mb_mode :: mode
  mb_live :: "bool option"
  mb_targetName :: "string option"
  mb_targetProject :: "string option"
  mb_pool :: "string option"
  mb_transport :: "string option"

record inventory_instance =
  vi_id :: string
  vi_clusterId :: string
  vi_clusterName :: string
  vi_project :: string
  vi_name :: string
  vi_tenantId :: "string option"
  vi_path :: string

definition placed_tenant :: "db \<Rightarrow> string \<Rightarrow> string \<Rightarrow> string option" where
  "placed_tenant d clusterId project = map_option pl_tenantId (find (\<lambda>x. pl_clusterId x = clusterId \<and> pl_project x = project) (db_placements d))"

definition visibleInventoryInstance :: "snapshot \<Rightarrow> db \<Rightarrow> principal \<Rightarrow> string \<Rightarrow> inventory_instance result" where
  "visibleInventoryInstance s d p i =
     then_do (uuidParam i ''Instance not found'') (\<lambda>i.
     case t_lookup in_id (db_instances d) (uuid_of i) of
       None \<Rightarrow> Inl (notFound ''Instance not found'')
     | Some r \<Rightarrow> (case t_lookup cl_id (db_clusters d) (in_clusterId r) of
         None \<Rightarrow> Inl (notFound ''Instance not found'')
       | Some c \<Rightarrow>
           (let path = instance_path (cl_name c) (in_project r) (in_name r)
            in if can s p ''instance.view'' path None
               then Inr \<lparr>vi_id = in_id r, vi_clusterId = in_clusterId r, vi_clusterName = cl_name c, vi_project = in_project r, vi_name = in_name r,
                 vi_tenantId = placed_tenant d (in_clusterId r) (in_project r), vi_path = path\<rparr>
               else Inl (notFound ''Instance not found''))))"

record resolved_target =
  rt_dst :: cluster_row
  rt_targetProject :: string
  rt_pool :: "string option"
  rt_transport :: string

definition tenant_placement :: "db \<Rightarrow> string option \<Rightarrow> string \<Rightarrow> placement_row option" where
  "tenant_placement d tenantId clusterId =
     (if truthy tenantId then find (\<lambda>x. pl_tenantId x = the tenantId \<and> pl_clusterId x = clusterId) (db_placements d) else None)"

definition cluster_path :: "cluster_row \<Rightarrow> string" where
  "cluster_path c = ''/clusters/'' @ cl_name c"

definition resolveTarget ::
  "snapshot \<Rightarrow> db \<Rightarrow> principal \<Rightarrow> inventory_instance \<Rightarrow> migration_body \<Rightarrow> privilege \<Rightarrow> resolved_target result" where
  "resolveTarget s d p inst body privilege =
     then_do (check_that (can s p privilege (vi_path inst) None) forbidden) (\<lambda>_.
     then_do (uuidParam (mb_targetClusterId body) ''Target cluster not found'') (\<lambda>targetClusterId.
     then_do (check_that (targetClusterId \<noteq> vi_clusterId inst) (ApiError 400 ''invalid_request'' ''The instance is already on that cluster'')) (\<lambda>_.
     case t_lookup cl_id (db_clusters d) (uuid_of targetClusterId) of
       None \<Rightarrow> Inl (notFound ''Target cluster not found'')
     | Some dst \<Rightarrow>
         then_do (check_that (cl_status dst \<noteq> ''disabled'') (ApiError 400 ''invalid_request'' ''The target cluster is disabled'')) (\<lambda>_.
         let placement = tenant_placement d (vi_tenantId inst) (cl_id dst) in
         if can s p ''instance.create'' (cluster_path dst) None
         then Inr \<lparr>rt_dst = dst,
           rt_targetProject = (case mb_targetProject body of Some x \<Rightarrow> x | None \<Rightarrow> (case placement of Some pl \<Rightarrow> pl_project pl | None \<Rightarrow> vi_project inst)),
           rt_pool = mb_pool body, rt_transport = (case mb_transport body of Some x \<Rightarrow> x | None \<Rightarrow> ''auto'')\<rparr>
         else (case placement of
             None \<Rightarrow> Inl (ApiError 403 ''forbidden'' ''The tenant is not placed on that cluster'')
           | Some pl \<Rightarrow>
               if pl_status pl \<noteq> ''ready'' then Inl (ApiError 403 ''forbidden'' ''The tenant is not placed on that cluster'')
               else then_do (check_that (can s p ''instance.create'' (cluster_path dst @ ''/projects/'' @ pl_project pl) None) forbidden) (\<lambda>_.
                    then_do (check_that (\<not> (truthy (mb_targetProject body) \<and> mb_targetProject body \<noteq> Some (pl_project pl))) forbidden) (\<lambda>_.
                    Inr \<lparr>rt_dst = dst, rt_targetProject = pl_project pl, rt_pool = None, rt_transport = ''auto''\<rparr>)))))))"

section \<open>Migrations\<close>

type_synonym inspect = "cluster_row \<Rightarrow> cluster_row \<Rightarrow> string \<Rightarrow> string \<Rightarrow> string \<Rightarrow> (source_instance \<times> target_facts) result"

record planned_migration =
  pm_inst :: inventory_instance
  pm_target :: resolved_target
  pm_targetName :: string
  pm_check :: preflight_result

definition plan_migration ::
  "inspect \<Rightarrow> (string \<Rightarrow> json option) \<Rightarrow> snapshot \<Rightarrow> db \<Rightarrow> principal \<Rightarrow> string \<Rightarrow> migration_body \<Rightarrow> planned_migration result" where
  "plan_migration inspect parse s d p i body =
     then_do (visibleInventoryInstance s d p i) (\<lambda>inst.
     then_do (resolveTarget s d p inst body ''instance.relocate'') (\<lambda>target.
     case t_lookup cl_id (db_clusters d) (vi_clusterId inst) of
       None \<Rightarrow> Inl (OtherError ''no such cluster'')
     | Some src \<Rightarrow>
         let targetName = (case mb_targetName body of Some n \<Rightarrow> n | None \<Rightarrow> vi_name inst) in
         then_do (inspect src (rt_dst target) (vi_project inst) (vi_name inst) (rt_targetProject target)) (\<lambda>(source, facts).
         Inr \<lparr>pm_inst = inst, pm_target = target, pm_targetName = targetName,
           pm_check = preflight parse \<lparr>pi_source = source, pi_target = facts, pi_targetName = targetName, pi_mode = mb_mode body,
             pi_live = (mb_live body = Some True), pi_pool = rt_pool target\<rparr>\<rparr>)))"

definition kind_text :: "principal \<Rightarrow> string" where
  "kind_text p = (if p_kind p = KService then ''service'' else ''user'')"

definition migrate_of :: "planned_migration \<Rightarrow> migration_body \<Rightarrow> migrate_payload" where
  "migrate_of m body = \<lparr>mp_sourceClusterId = vi_clusterId (pm_inst m), mp_sourceProject = vi_project (pm_inst m), mp_name = vi_name (pm_inst m),
     mp_targetClusterId = cl_id (rt_dst (pm_target m)), mp_targetProject = rt_targetProject (pm_target m), mp_targetName = pm_targetName m,
     mp_mode = mb_mode body, mp_live = (mb_live body = Some True),
     mp_pool = (if truthy (rt_pool (pm_target m)) then rt_pool (pm_target m) else None), mp_transport = rt_transport (pm_target m)\<rparr>"

text \<open>The payload as the queue stores it.\<close>

definition migrate_json :: "migrate_payload \<Rightarrow> (string, json) jsmap" where
  "migrate_json q = [(''sourceClusterId'', JStr (mp_sourceClusterId q)), (''sourceProject'', JStr (mp_sourceProject q)), (''name'', JStr (mp_name q)),
     (''targetClusterId'', JStr (mp_targetClusterId q)), (''targetProject'', JStr (mp_targetProject q)), (''targetName'', JStr (mp_targetName q)),
     (''mode'', JStr (if mp_mode q = Copy then ''copy'' else ''move'')), (''live'', JBool (mp_live q))] @
     (case mp_pool q of None \<Rightarrow> [] | Some x \<Rightarrow> [(''pool'', JStr x)]) @ [(''transport'', JStr (mp_transport q))]"

definition migrate_job :: "principal \<Rightarrow> planned_migration \<Rightarrow> migration_body \<Rightarrow> new_job" where
  "migrate_job p m body = \<lparr>nj_type = ''migrate'', nj_payload = migrate_json (migrate_of m body), nj_actorType = kind_text p, nj_actorId = p_id p,
     nj_tenantId = vi_tenantId (pm_inst m), nj_clusterIds = Some [vi_clusterId (pm_inst m), cl_id (rt_dst (pm_target m))],
     nj_instanceKey = Some (vi_clusterId (pm_inst m) @ ''/'' @ vi_project (pm_inst m) @ ''/'' @ vi_name (pm_inst m))\<rparr>"

definition post_migration ::
  "inspect \<Rightarrow> (string \<Rightarrow> json option) \<Rightarrow> int \<Rightarrow> string \<Rightarrow> snapshot \<Rightarrow> db \<Rightarrow> principal \<Rightarrow> string \<Rightarrow> migration_body \<Rightarrow> (db \<times> job_row) result" where
  "post_migration inspect parse now jobId s d p i body =
     then_do (plan_migration inspect parse s d p i body) (\<lambda>m.
     then_do (check_that (pf_ok (pm_check m)) (ApiError 409 ''preflight_failed'' (''Pre-flight failed: '' @ join_with ''; '' (pf_problems (pm_check m))))) (\<lambda>_.
     enqueueJob now jobId d (migrate_job p m body)))"

section \<open>Replication policies\<close>

definition may_policy :: "snapshot \<Rightarrow> principal \<Rightarrow> privilege \<Rightarrow> replication_policy \<Rightarrow> bool" where
  "may_policy s p privilege r = canOnInstance s p privilege \<lparr>ir_clusterId = Some (rp_sourceClusterId r), ir_project = rp_sourceProject r,
     ir_name = rp_instanceName r, ir_tenantId = rp_tenantId r, ir_createdBy = Some (rp_createdBy r)\<rparr>"

definition load_policy :: "snapshot \<Rightarrow> replication_policy list \<Rightarrow> principal \<Rightarrow> string \<Rightarrow> replication_policy result" where
  "load_policy s rows p i =
     then_do (uuidParam i ''Policy not found'') (\<lambda>i.
     case t_lookup rp_id rows (uuid_of i) of
       None \<Rightarrow> Inl (notFound ''Policy not found'')
     | Some row \<Rightarrow> if may_policy s p ''replication.view'' row then Inr row else Inl (notFound ''Policy not found''))"

definition manage_policy :: "snapshot \<Rightarrow> replication_policy list \<Rightarrow> principal \<Rightarrow> string \<Rightarrow> replication_policy result" where
  "manage_policy s rows p i = then_do (load_policy s rows p i) (\<lambda>row.
     if may_policy s p ''replication.manage'' row then Inr row else Inl forbidden)"

definition list_policies :: "snapshot \<Rightarrow> replication_policy list \<Rightarrow> principal \<Rightarrow> replication_policy list" where
  "list_policies s rows p = filter (may_policy s p ''replication.view'') (sort_key (\<lambda>r. - rp_createdAt r) rows)"

record policy_body =
  pb_instanceId :: string
  pb_targetClusterId :: string
  pb_targetName :: "string option"
  pb_targetProject :: "string option"
  pb_intervalS :: "int option"

text \<open>The unique constraint \<open>replication_policies_instance_target\<close>.\<close>

definition policy_key :: "replication_policy \<Rightarrow> string \<times> string \<times> string \<times> string" where
  "policy_key r = (rp_sourceClusterId r, rp_sourceProject r, rp_instanceName r, rp_targetClusterId r)"

definition create_policy ::
  "int \<Rightarrow> string \<Rightarrow> snapshot \<Rightarrow> db \<Rightarrow> replication_policy list \<Rightarrow> principal \<Rightarrow> policy_body \<Rightarrow> (replication_policy list \<times> replication_policy) result" where
  "create_policy now i s d rows p b =
     then_do (visibleInventoryInstance s d p (pb_instanceId b)) (\<lambda>inst.
     then_do (resolveTarget s d p inst \<lparr>mb_targetClusterId = pb_targetClusterId b, mb_mode = Copy, mb_live = None, mb_targetName = None,
       mb_targetProject = pb_targetProject b, mb_pool = None, mb_transport = None\<rparr> ''replication.manage'') (\<lambda>to.
     let r = \<lparr>rp_id = i, rp_tenantId = vi_tenantId inst, rp_sourceClusterId = vi_clusterId inst, rp_sourceProject = vi_project inst,
           rp_instanceName = vi_name inst, rp_targetClusterId = cl_id (rt_dst to), rp_targetProject = rt_targetProject to,
           rp_targetName = (case pb_targetName b of Some n \<Rightarrow> n | None \<Rightarrow> vi_name inst),
           rp_intervalS = (case pb_intervalS b of Some n \<Rightarrow> n | None \<Rightarrow> 3600), rp_enabled = True, rp_state = ''active'',
           rp_lastRunAt = None, rp_lastSuccessAt = None, rp_lastError = [], rp_lastJobId = None,
           rp_createdBy = kind_text p @ '':'' @ p_id p, rp_createdAt = now\<rparr>
     in if i \<in> rp_id ` set rows \<or> policy_key r \<in> policy_key ` set rows
        then Inl (ApiError 409 ''conflict'' ''This instance already replicates to that cluster'')
        else Inr (rows @ [r], r)))"

text \<open>An update with nothing to set is an error of the query builder.\<close>

definition update_policy ::
  "snapshot \<Rightarrow> replication_policy list \<Rightarrow> principal \<Rightarrow> string \<Rightarrow> bool option \<Rightarrow> int option \<Rightarrow> (replication_policy list \<times> replication_policy) result" where
  "update_policy s rows p i enabled intervalS =
     then_do (manage_policy s rows p i) (\<lambda>row.
     if enabled = None \<and> intervalS = None then Inl (OtherError ''No values to set'')
     else let f = (\<lambda>r. r\<lparr>rp_enabled := (case enabled of Some b \<Rightarrow> b | None \<Rightarrow> rp_enabled r),
                         rp_intervalS := (case intervalS of Some n \<Rightarrow> n | None \<Rightarrow> rp_intervalS r)\<rparr>)
       in Inr (t_update (\<lambda>r. rp_id r = uuid_of i) f rows, f row))"

definition delete_policy :: "snapshot \<Rightarrow> replication_policy list \<Rightarrow> principal \<Rightarrow> string \<Rightarrow> replication_policy list result" where
  "delete_policy s rows p i = then_do (manage_policy s rows p i) (\<lambda>_. Inr (filter (\<lambda>r. rp_id r \<noteq> uuid_of i) rows))"

definition run_policy ::
  "int \<Rightarrow> string \<Rightarrow> snapshot \<Rightarrow> db \<Rightarrow> replication_policy list \<Rightarrow> principal \<Rightarrow> string \<Rightarrow> (db \<times> replication_policy list \<times> job_row) result" where
  "run_policy now jobId s d rows p i =
     then_do (manage_policy s rows p i) (\<lambda>row.
     then_do (check_that (rp_state row = ''active'') (ApiError 409 ''conflict'' ''This policy has failed over'')) (\<lambda>_.
     then_do (enqueueJob now jobId d ((replicate_job row)\<lparr>nj_actorType := kind_text p, nj_actorId := p_id p\<rparr>)) (\<lambda>(d', j).
     Inr (d', t_update (\<lambda>r. rp_id r = rp_id row) (mark_run now (jo_id j)) rows, j))))"

definition failover_job :: "principal \<Rightarrow> replication_policy \<Rightarrow> bool \<Rightarrow> new_job" where
  "failover_job p row stopSource = \<lparr>nj_type = ''failover'', nj_payload = [(''policyId'', JStr (rp_id row)), (''stopSource'', JBool stopSource)],
     nj_actorType = kind_text p, nj_actorId = p_id p, nj_tenantId = rp_tenantId row,
     nj_clusterIds = Some [rp_sourceClusterId row, rp_targetClusterId row], nj_instanceKey = None\<rparr>"

definition failover_policy ::
  "int \<Rightarrow> string \<Rightarrow> snapshot \<Rightarrow> db \<Rightarrow> replication_policy list \<Rightarrow> principal \<Rightarrow> string \<Rightarrow> bool \<Rightarrow> (db \<times> job_row) result" where
  "failover_policy now jobId s d rows p i stopSource =
     then_do (manage_policy s rows p i) (\<lambda>row.
     then_do (check_that (rp_state row = ''active'') (ApiError 409 ''conflict'' ''This policy has already failed over'')) (\<lambda>_.
     enqueueJob now jobId d (failover_job p row stopSource)))"

section \<open>What a request has been checked for\<close>

definition may_receive :: "snapshot \<Rightarrow> db \<Rightarrow> principal \<Rightarrow> inventory_instance \<Rightarrow> cluster_row \<Rightarrow> string \<Rightarrow> bool" where
  "may_receive s d p inst dst project \<longleftrightarrow> can s p ''instance.create'' (cluster_path dst) None \<or>
     (\<exists>pl. tenant_placement d (vi_tenantId inst) (cl_id dst) = Some pl \<and> pl_status pl = ''ready'' \<and> pl_project pl = project \<and>
        can s p ''instance.create'' (cluster_path dst @ ''/projects/'' @ project) None)"

lemma resolveTargetD:
  assumes "resolveTarget s d p inst body privilege = Inr t"
  shows "can s p privilege (vi_path inst) None" "rt_dst t \<in> set (db_clusters d)" "cl_status (rt_dst t) \<noteq> ''disabled''"
    "may_receive s d p inst (rt_dst t) (rt_targetProject t)"
    "\<not> can s p ''instance.create'' (cluster_path (rt_dst t)) None \<Longrightarrow> rt_pool t = None \<and> rt_transport t = ''auto''"
proof -
  from assms obtain dst where d: "t_lookup cl_id (db_clusters d) (uuid_of (mb_targetClusterId body)) = Some dst"
    and c: "can s p privilege (vi_path inst) None" "cl_status dst \<noteq> ''disabled''" and r: "rt_dst t = dst"
    by (auto simp: resolveTarget_def then_do_Inr_iff check_that_Inr uuidParam_def Let_def split: if_splits option.splits)
  show "can s p privilege (vi_path inst) None" by (rule c(1))
  show "rt_dst t \<in> set (db_clusters d)" using t_lookup_SomeD[OF d] r by simp
  show "cl_status (rt_dst t) \<noteq> ''disabled''" using c(2) r by simp
  show "may_receive s d p inst (rt_dst t) (rt_targetProject t)"
    "\<not> can s p ''instance.create'' (cluster_path (rt_dst t)) None \<Longrightarrow> rt_pool t = None \<and> rt_transport t = ''auto''"
    using assms d by (auto simp: resolveTarget_def may_receive_def then_do_Inr_iff check_that_Inr uuidParam_def Let_def split: if_splits option.splits)
qed

lemma visibleD:
  assumes "visibleInventoryInstance s d p i = Inr inst"
  shows "\<exists>r\<in>set (db_instances d). in_id r = uuid_of i \<and> vi_clusterId inst = in_clusterId r \<and> vi_project inst = in_project r \<and> vi_name inst = in_name r"
    "can s p ''instance.view'' (vi_path inst) None" "vi_tenantId inst = placed_tenant d (vi_clusterId inst) (vi_project inst)"
    "\<exists>c\<in>set (db_clusters d). cl_id c = vi_clusterId inst \<and> vi_path inst = instance_path (cl_name c) (vi_project inst) (vi_name inst)"
proof -
  from assms obtain r c where r: "t_lookup in_id (db_instances d) (uuid_of i) = Some r" "t_lookup cl_id (db_clusters d) (in_clusterId r) = Some c"
    and v: "can s p ''instance.view'' (instance_path (cl_name c) (in_project r) (in_name r)) None"
      "inst = \<lparr>vi_id = in_id r, vi_clusterId = in_clusterId r, vi_clusterName = cl_name c, vi_project = in_project r, vi_name = in_name r,
         vi_tenantId = placed_tenant d (in_clusterId r) (in_project r), vi_path = instance_path (cl_name c) (in_project r) (in_name r)\<rparr>"
    by (auto simp: visibleInventoryInstance_def then_do_Inr_iff uuidParam_def Let_def split: if_splits option.splits)
  from t_lookup_SomeD[OF r(1)] t_lookup_SomeD[OF r(2)] v show
    "\<exists>r\<in>set (db_instances d). in_id r = uuid_of i \<and> vi_clusterId inst = in_clusterId r \<and> vi_project inst = in_project r \<and> vi_name inst = in_name r"
    "can s p ''instance.view'' (vi_path inst) None" "vi_tenantId inst = placed_tenant d (vi_clusterId inst) (vi_project inst)"
    "\<exists>c\<in>set (db_clusters d). cl_id c = vi_clusterId inst \<and> vi_path inst = instance_path (cl_name c) (vi_project inst) (vi_name inst)" by auto
qed

lemma enqueued:
  assumes "enqueueJob now i d j = Inr (d', row)"
  shows "row = new_row now i j" "d' = d\<lparr>db_jobs := db_jobs d @ [row]\<rparr>"
    "nj_instanceKey j = Some k \<Longrightarrow> \<forall>r\<in>set (db_jobs d). active_job r \<longrightarrow> jo_instanceKey r \<noteq> Some k"
  using assms by (auto simp: enqueueJob_def Let_def job_conflict_def new_row_def split: if_splits)


section \<open>Policies over time\<close>

text \<open>What a request of one caller does to the policies.\<close>

inductive policy_step :: "snapshot \<Rightarrow> db \<Rightarrow> principal \<Rightarrow> replication_policy list \<Rightarrow> replication_policy list \<Rightarrow> bool" for s d p where
  Create: "create_policy now i s d rows p b = Inr (rows', r) \<Longrightarrow> policy_step s d p rows rows'"
| Update: "update_policy s rows p i enabled intervalS = Inr (rows', r) \<Longrightarrow> policy_step s d p rows rows'"
| Delete: "delete_policy s rows p i = Inr rows' \<Longrightarrow> policy_step s d p rows rows'"
| Run: "run_policy now jobId s d rows p i = Inr (d', rows', j) \<Longrightarrow> policy_step s d p rows rows'"

definition policies_ok :: "replication_policy list \<Rightarrow> bool" where
  "policies_ok rows \<longleftrightarrow> t_wf rp_id rows \<and> t_wf policy_key rows"

definition manages_policy :: "snapshot \<Rightarrow> principal \<Rightarrow> replication_policy \<Rightarrow> bool" where
  "manages_policy s p r \<longleftrightarrow> may_policy s p ''replication.view'' r \<and> may_policy s p ''replication.manage'' r"

lemma manageD:
  assumes "manage_policy s rows p i = Inr row"
  shows "t_lookup rp_id rows (uuid_of i) = Some row" "manages_policy s p row" "rp_id row = uuid_of i"
proof -
  from assms show t: "t_lookup rp_id rows (uuid_of i) = Some row" and "manages_policy s p row"
    by (auto simp: manage_policy_def load_policy_def then_do_Inr_iff uuidParam_def manages_policy_def split: if_splits option.splits)
  from t_lookup_SomeD[OF t] show "rp_id row = uuid_of i" by simp
qed

text \<open>A change to one row that keeps its identity.\<close>

lemma policies_updated:
  assumes "policies_ok rows" "\<And>r. rp_id (f r) = rp_id r" "\<And>r. policy_key (f r) = policy_key r"
  shows "policies_ok (t_update (\<lambda>r. rp_id r = i) f rows)" "j \<noteq> i \<Longrightarrow> t_lookup rp_id (t_update (\<lambda>r. rp_id r = i) f rows) j = t_lookup rp_id rows j"
proof -
  let ?g = "\<lambda>r. if rp_id r = i then f r else r"
  have "map rp_id (map ?g rows) = map rp_id rows" "map policy_key (map ?g rows) = map policy_key rows" using assms(2,3) by simp_all
  with assms(1) show "policies_ok (t_update (\<lambda>r. rp_id r = i) f rows)" unfolding policies_ok_def t_wf_def t_update_def by presburger
  show "t_lookup rp_id (t_update (\<lambda>r. rp_id r = i) f rows) j = t_lookup rp_id rows j" if "j \<noteq> i"
  proof -
    have "t_lookup rp_id (map ?g rows) j = map_option ?g (t_lookup rp_id rows j)" by (rule t_lookup_map_same) (simp add: assms(2))
    also have "\<dots> = t_lookup rp_id rows j" using that by (cases "t_lookup rp_id rows j") (auto dest: t_lookup_SomeD)
    finally show ?thesis by (simp add: t_update_def)
  qed
qed

lemma policy_kept:
  assumes "policies_ok rows" "manage_policy s rows p i = Inr row" "\<And>r. rp_id (f r) = rp_id r" "\<And>r. policy_key (f r) = policy_key r"
  shows "t_lookup rp_id (t_update (\<lambda>r. rp_id r = uuid_of i) f rows) j = t_lookup rp_id rows j \<or>
    (case t_lookup rp_id rows j of Some r \<Rightarrow> manages_policy s p r | None \<Rightarrow> X)"
proof (cases "j = uuid_of i")
  case True
  with manageD[OF assms(2)] show ?thesis by simp
next
  case False
  from policies_updated(2)[OF assms(1,3,4) this] show ?thesis by simp
qed

lemma created:
  assumes "create_policy now i s d rows p b = Inr (rows', r)"
  shows "rows' = rows @ [r]" "rp_id r \<notin> rp_id ` set rows" "policy_key r \<notin> policy_key ` set rows"
    "\<exists>inst to. visibleInventoryInstance s d p (pb_instanceId b) = Inr inst \<and> rp_from r = \<lparr>ik_clusterId = vi_clusterId inst, ik_project = vi_project inst, ik_name = vi_name inst\<rparr> \<and>
      can s p ''replication.manage'' (vi_path inst) None \<and> to \<in> set (db_clusters d) \<and> cl_id to = rp_targetClusterId r \<and>
      may_receive s d p inst to (rp_targetProject r)"
proof -
  from assms obtain inst to m where v: "visibleInventoryInstance s d p (pb_instanceId b) = Inr inst"
    and t: "resolveTarget s d p inst m ''replication.manage'' = Inr to"
    and r: "rows' = rows @ [r]" "rp_id r \<notin> rp_id ` set rows" "policy_key r \<notin> policy_key ` set rows"
      "rp_sourceClusterId r = vi_clusterId inst" "rp_sourceProject r = vi_project inst" "rp_instanceName r = vi_name inst"
      "rp_targetClusterId r = cl_id (rt_dst to)" "rp_targetProject r = rt_targetProject to"
    by (auto simp: create_policy_def then_do_Inr_iff Let_def split: if_splits)
  from r show "rows' = rows @ [r]" "rp_id r \<notin> rp_id ` set rows" "policy_key r \<notin> policy_key ` set rows" by simp_all
  show "\<exists>inst to. visibleInventoryInstance s d p (pb_instanceId b) = Inr inst \<and> rp_from r = \<lparr>ik_clusterId = vi_clusterId inst, ik_project = vi_project inst, ik_name = vi_name inst\<rparr> \<and>
      can s p ''replication.manage'' (vi_path inst) None \<and> to \<in> set (db_clusters d) \<and> cl_id to = rp_targetClusterId r \<and>
      may_receive s d p inst to (rp_targetProject r)"
    using v r resolveTargetD(1,2,4)[OF t] by (intro exI[of _ inst] exI[of _ "rt_dst to"]) (simp add: rp_from_def)
qed

text \<open>
  C22: Policies stay consistent and in their managers' hands: no request gives two policies one identifier, or one instance
  two policies to the same cluster; a policy that a request changes or removes is one its caller may see and manage; and a policy it
  adds replicates an instance the caller sees and may manage the replication of, to a cluster and project where they may create instances.
\<close>

theorem policies_guarded:
  assumes "policy_step s d p rows rows'" "policies_ok rows"
  shows "policies_ok rows' \<and> (\<forall>j. t_lookup rp_id rows' j = t_lookup rp_id rows j \<or>
    (case t_lookup rp_id rows j of
       Some r \<Rightarrow> manages_policy s p r
     | None \<Rightarrow> \<exists>r i inst to. t_lookup rp_id rows' j = Some r \<and> visibleInventoryInstance s d p i = Inr inst \<and>
         rp_from r = \<lparr>ik_clusterId = vi_clusterId inst, ik_project = vi_project inst, ik_name = vi_name inst\<rparr> \<and>
         can s p ''replication.manage'' (vi_path inst) None \<and> to \<in> set (db_clusters d) \<and> cl_id to = rp_targetClusterId r \<and>
         may_receive s d p inst to (rp_targetProject r)))"
  using assms(1)
proof cases
  case (Create now i b r)
  note C = created[OF Create]
  have "policies_ok rows'" using assms(2) C(1-3) by (auto simp: policies_ok_def t_wf_def)
  moreover have "t_lookup rp_id rows' j = (if j = rp_id r \<and> t_lookup rp_id rows j = None then Some r else t_lookup rp_id rows j)" for j
    unfolding C(1) t_lookup_append by (auto simp: t_lookup_def[of _ "[r]"] split: option.splits)
  ultimately show ?thesis using C(4) by (auto split: option.splits)
next
  case (Update i enabled intervalS r)
  then obtain row f where m: "manage_policy s rows p i = Inr row" and u: "rows' = t_update (\<lambda>r. rp_id r = uuid_of i) f rows"
    and f: "\<And>r. rp_id (f r) = rp_id r" "\<And>r. policy_key (f r) = policy_key r"
    by (auto simp: update_policy_def then_do_Inr_iff Let_def policy_key_def split: if_splits)
  from policy_kept[OF assms(2) m f] policies_updated(1)[OF assms(2) f] show ?thesis unfolding u by blast
next
  case (Delete i)
  then obtain row where m: "manage_policy s rows p i = Inr row" and u: "rows' = t_remove rp_id rows (uuid_of i)"
    by (auto simp: delete_policy_def then_do_Inr_iff t_remove_def)
  have "policies_ok rows'" using assms(2) unfolding u policies_ok_def t_remove_def t_wf_def by (simp add: distinct_map_filter)
  with manageD[OF m] show ?thesis unfolding u by (auto simp: t_lookup_remove split: option.splits)
next
  case (Run now jobId i d' j)
  then obtain row where m: "manage_policy s rows p i = Inr row" and u: "rows' = t_update (\<lambda>r. rp_id r = rp_id row) (mark_run now (jo_id j)) rows"
    by (auto simp: run_policy_def then_do_Inr_iff split: prod.splits)
  have f: "rp_id (mark_run now (jo_id j) r) = rp_id r" "policy_key (mark_run now (jo_id j) r) = policy_key r" for r
    by (simp_all add: mark_run_def policy_key_def)
  from policy_kept[OF assms(2) m f] policies_updated(1)[OF assms(2) f] show ?thesis unfolding u manageD(3)[OF m] by blast
qed

section \<open>A deployment with two clusters\<close>

definition here_id :: string where
  "here_id = ''00000000-0000-0000-0000-0000000000c1''"

definition HERE_ID :: string where
  "HERE_ID = ''00000000-0000-0000-0000-0000000000C1''"

definition there_id :: string where
  "there_id = ''00000000-0000-0000-0000-0000000000c2''"

definition web_id :: string where
  "web_id = ''00000000-0000-0000-0000-0000000000e1''"

definition pair_db :: db where
  "pair_db = lone_db\<lparr>db_clusters := [a_cluster\<lparr>cl_id := here_id\<rparr>, a_cluster\<lparr>cl_id := there_id, cl_name := ''e''\<rparr>],
     db_instances := [(an_instance web_id)\<lparr>in_clusterId := here_id, in_name := ''web''\<rparr>]\<rparr>"

definition move_to :: "string \<Rightarrow> migration_body" where
  "move_to c = \<lparr>mb_targetClusterId = c, mb_mode = Move, mb_live = None, mb_targetName = None, mb_targetProject = None, mb_pool = None, mb_transport = None\<rparr>"

definition a_migration :: "(db \<times> job_row) result" where
  "a_migration = post_migration (\<lambda>_ _ _ _ _. Inr (a_source, a_target)) (\<lambda>_. None) 5 ''j1'' (load 0 pair_db) pair_db (a_user ada_id) web_id (move_to there_id)"

definition a_policy_body :: policy_body where
  "a_policy_body = \<lparr>pb_instanceId = web_id, pb_targetClusterId = there_id, pb_targetName = None, pb_targetProject = None, pb_intervalS = None\<rparr>"

lemma requests_work: "is_ok a_migration" "is_ok (create_policy 5 ''R1'' (load 0 pair_db) pair_db [] (a_user ada_id) a_policy_body)"
  by code_simp+


theorem policies_guarded_witness:
  "\<exists>rows' r. create_policy 5 ''R1'' (load 0 pair_db) pair_db [] (a_user ada_id) a_policy_body = Inr (rows', r) \<and> policies_ok rows'"
proof -
  obtain rows' r where c: "create_policy 5 ''R1'' (load 0 pair_db) pair_db [] (a_user ada_id) a_policy_body = Inr (rows', r)"
    using requests_work(2) by (auto simp: is_ok_iff)
  have "policies_ok []" by (simp add: policies_ok_def t_wf_def)
  from policies_guarded[OF policy_step.Create[OF c] this] c show ?thesis by blast
qed

text \<open>
  The case of an identifier decides whether an instance may be sent to the cluster it is on: it is refused when the cluster's
  identifier is written as the database has it, and resolved to that very cluster when it is written in capitals.
\<close>

lemma same_cluster_by_case:
  "then_do (visibleInventoryInstance (load 0 pair_db) pair_db (a_user ada_id) web_id)
     (\<lambda>inst. map_sum id (\<lambda>t. cl_id (rt_dst t) = vi_clusterId inst) (resolveTarget (load 0 pair_db) pair_db (a_user ada_id) inst (move_to here_id) ''instance.relocate'')) =
   Inl (ApiError 400 ''invalid_request'' ''The instance is already on that cluster'')"
  "then_do (visibleInventoryInstance (load 0 pair_db) pair_db (a_user ada_id) web_id)
     (\<lambda>inst. map_sum id (\<lambda>t. cl_id (rt_dst t) = vi_clusterId inst) (resolveTarget (load 0 pair_db) pair_db (a_user ada_id) inst (move_to HERE_ID) ''instance.relocate'')) =
   Inr True"
  by code_simp+

end
