(* ===== verification/Backups.thy ===== *)
theory Backups
  imports Migrate Schedules Tenants
begin

text \<open>
  Backups (\<^verbatim>\<open>backups/backup-job.ts\<close>, \<open>objectKey\<close> of \<^verbatim>\<open>backups/store.ts\<close>): the job that makes one, the retention of a policy's
  backups and the schedule. The cluster and the object store are a world with the requests the job makes; how the
  bytes get there (a backup uploaded by the cluster, or one streamed through the control plane) is one request each,
  which gives the size or fails. The text of a date and the validity of a URL are the runtime's.
\<close>

section \<open>Targets, policies and objects\<close>

record backup_target =
  bt_id :: string
  bt_name :: string
  bt_endpoint :: string
  bt_region :: string
  bt_bucket :: string
  bt_prefix :: string
  bt_accessKeyId :: string
  bt_secretKeyEnc :: string
  bt_enabled :: bool

record backup_policy =
  bp_id :: string
  bp_tenantId :: "string option"
  bp_clusterId :: string
  bp_project :: string
  bp_instanceName :: string
  bp_targetId :: string
  bp_intervalS :: int
  bp_keep :: nat
  bp_instanceOnly :: bool
  bp_enabled :: bool
  bp_lastRunAt :: "int option"
  bp_lastSuccessAt :: "int option"
  bp_lastError :: string
  bp_lastJobId :: "string option"

text \<open>\<open>stamp\<close>: the date's text without its fraction, dashes and colons.\<close>

definition strip_fraction :: "string \<Rightarrow> string" where
  "strip_fraction t =
    (let r = rev t; digits = takeWhile is_digit (tl r); rest = drop (length digits) (tl r) in
     if r \<noteq> [] \<and> hd r = CHR ''Z'' \<and> digits \<noteq> [] \<and> rest \<noteq> [] \<and> hd rest = CHR ''.'' then rev (tl rest) @ ''Z'' else t)"

definition stamp :: "(int \<Rightarrow> string) \<Rightarrow> int \<Rightarrow> string" where
  "stamp dateText d = filter (\<lambda>c. c \<noteq> CHR ''-'' \<and> c \<noteq> CHR '':'') (strip_fraction (dateText d))"

definition trim_slashes :: "string \<Rightarrow> string" where
  "trim_slashes s = rev (dropWhile (\<lambda>c. c = CHR ''/'') (rev (dropWhile (\<lambda>c. c = CHR ''/'') s)))"

definition objectKey :: "(int \<Rightarrow> string) \<Rightarrow> string \<Rightarrow> string \<Rightarrow> string \<Rightarrow> int \<Rightarrow> string \<Rightarrow> string" where
  "objectKey dateText prefix project instanceName t i =
    (let pre = trim_slashes prefix in
     (if pre = [] then [] else pre @ ''/'') @ project @ ''/'' @ instanceName @ ''/'' @ stamp dateText t @ ''-'' @ take 8 i @ ''.tar.gz'')"

text \<open>The region Incus signs its own uploads for, from the endpoint's host as it is written.\<close>

definition url_host :: "string \<Rightarrow> string" where
  "url_host endpoint =
    (let scheme = takeWhile (\<lambda>c. c \<noteq> CHR '':'') endpoint;
         rest = drop (length scheme + 3) endpoint;
         authority = takeWhile (\<lambda>c. c \<notin> set ''/?#'') rest;
         user = takeWhile (\<lambda>c. c \<noteq> CHR ''@'') authority;
         host = (if CHR ''@'' \<in> set authority then drop (length user + 1) authority else authority);
         port = takeWhile is_digit (rev host)
     in if scheme = [] \<or> \<not> startsWith (drop (length scheme) endpoint) ''://'' then []
        else if length port < length host \<and> rev host ! length port = CHR '':'' then rev (drop (length port + 1) (rev host)) else host)"

definition incusUploadRegion :: "(string \<Rightarrow> bool) \<Rightarrow> string \<Rightarrow> string" where
  "incusUploadRegion valid endpoint =
    (let fallback = ''us-east-1''; host = url_host endpoint in
     if \<not> valid endpoint then fallback
     else if \<not> endsWith host ''.amazonaws.com'' then fallback
     else let parts = split_on CHR ''.'' (take (length host - length ''.amazonaws.com'') host);
              found = dropWhile (\<lambda>p. \<not> (p = ''s3'' \<or> startsWith p ''s3-'')) parts
       in case found of
            [] \<Rightarrow> fallback
          | p # rest \<Rightarrow>
              if startsWith p ''s3-'' \<and> length p > 3 then drop 3 p
              else (case find (\<lambda>x. x \<noteq> [] \<and> x \<notin> {''dualstack'', ''fips'', ''accesspoint''}) rest of Some r \<Rightarrow> r | None \<Rightarrow> fallback))"

section \<open>The requests\<close>

record 'w backup_api =
  bx_read :: "'w \<Rightarrow> instance_key \<Rightarrow> instance_view option result"
  bx_extensions :: "'w \<Rightarrow> string \<Rightarrow> string list result"
  bx_direct :: "'w \<Rightarrow> backup_target \<Rightarrow> string \<Rightarrow> 'w \<times> int result"
  bx_relay :: "'w \<Rightarrow> backup_target \<Rightarrow> string \<Rightarrow> bool \<Rightarrow> 'w \<times> int result"
  bx_dropLocal :: "'w \<Rightarrow> 'w \<times> unit result"
  bx_delete :: "'w \<Rightarrow> backup_target \<Rightarrow> string \<Rightarrow> 'w \<times> unit result"
  bx_aborted :: "'w \<Rightarrow> bool"

record 'w backing_up = "'w job_run" +
  bu_targets :: "backup_target list"
  bu_policies :: "backup_policy list"
  bu_rowMade :: bool

record backup_payload =
  bl_clusterId :: string
  bl_project :: string
  bl_instanceName :: string
  bl_targetId :: string
  bl_instanceOnly :: bool
  bl_transport :: string
  bl_policyId :: "string option"

section \<open>Retention\<close>

definition prunable :: "backup_target list \<Rightarrow> string \<Rightarrow> backup_row \<Rightarrow> bool" where
  "prunable ts policyId b \<longleftrightarrow> ba_policyId b = Some policyId \<and> ba_state b = BReady \<and> t_lookup bt_id ts (ba_targetId b) \<noteq> None"

definition newest_first :: "backup_target list \<Rightarrow> string \<Rightarrow> backup_row list \<Rightarrow> backup_row list" where
  "newest_first ts policyId rows = sort_by (\<lambda>a b. of_int (ba_createdAt b - ba_createdAt a)) (filter (prunable ts policyId) rows)"

definition prune_one :: "'w backup_api \<Rightarrow> backup_row \<Rightarrow> ('w backing_up, string list) handler" where
  "prune_one B b s =
     catching
      (run_then (on_world (\<lambda>w. bx_delete B w (the (t_lookup bt_id (bu_targets s) (ba_targetId b))) (ba_objectKey b))) (\<lambda>_.
       run_then (on_db (\<lambda>d. d\<lparr>db_backups := t_remove ba_id (db_backups d) (ba_id b)\<rparr>)) (\<lambda>_.
       give [])))
      (\<lambda>e. give [ba_objectKey b @ '': '' @ error_message e]) s"

fun prune_each :: "'w backup_api \<Rightarrow> backup_row list \<Rightarrow> ('w backing_up, nat \<times> string list) handler" where
  "prune_each B [] = give (0, [])"
| "prune_each B (b # bs) =
     run_then (prune_one B b) (\<lambda>err.
     run_then (prune_each B bs) (\<lambda>(n, errs).
     give (if err = [] then Suc n else n, err @ errs)))"

definition pruneBackups :: "'w backup_api \<Rightarrow> string \<Rightarrow> nat \<Rightarrow> ('w backing_up, nat \<times> string list) handler" where
  "pruneBackups B policyId n s = prune_each B (drop n (newest_first (bu_targets s) policyId (db_backups (jr_db s)))) s"

section \<open>The job\<close>

definition set_backup :: "string \<Rightarrow> (backup_row \<Rightarrow> backup_row) \<Rightarrow> ('w backing_up, unit) handler" where
  "set_backup i f = on_db (\<lambda>d. d\<lparr>db_backups := t_update (\<lambda>b. ba_id b = i) f (db_backups d)\<rparr>)"

definition setPolicy :: "backup_payload \<Rightarrow> (backup_policy \<Rightarrow> backup_policy) \<Rightarrow> ('w backing_up, unit) handler" where
  "setPolicy p f = only_if (truthy (bl_policyId p)) (change (\<lambda>s. s\<lparr>bu_policies := t_update (\<lambda>q. bp_id q = the (bl_policyId p)) f (bu_policies s)\<rparr>))"

definition new_backup :: "int \<Rightarrow> string \<Rightarrow> string \<Rightarrow> job_row \<Rightarrow> backup_payload \<Rightarrow> backup_target \<Rightarrow> instance_view \<Rightarrow> backup_row" where
  "new_backup now i key j p target inst = \<lparr>ba_id = i, ba_tenantId = jo_tenantId j, ba_policyId = bl_policyId p, ba_targetId = bt_id target,
     ba_objectKey = key, ba_clusterId = Some (bl_clusterId p), ba_project = bl_project p, ba_instanceName = bl_instanceName p,
     ba_instanceType = iv_type inst, ba_instanceOnly = bl_instanceOnly p, ba_sizeBytes = None, ba_state = BCreating, ba_error = [],
     ba_jobId = Some (jo_id j), ba_transport = [], ba_createdBy = jo_actorType j @ '':'' @ jo_actorId j, ba_createdAt = now, ba_completedAt = None\<rparr>"

definition send_backup ::
  "'w backup_api \<Rightarrow> (string \<Rightarrow> bool) \<Rightarrow> string \<Rightarrow> backup_payload \<Rightarrow> backup_target \<Rightarrow> string \<Rightarrow> string list \<Rightarrow> ('w backing_up, string \<times> int) handler" where
  "send_backup B valid job p target key exts =
    (let signs = incusUploadRegion valid (bt_endpoint target);
         regionOk = (bt_region target = [] \<or> bt_region target = signs);
         canDirect = (''backup_s3_upload'' \<in> set exts \<and> regionOk) in
     if bl_transport p = ''direct'' \<and> \<not> canDirect then
       throw (ApiError 409 ''conflict''
         (if regionOk then ''The cluster cannot upload backups itself (it lacks the backup_s3_upload API extension)''
          else ''The cluster cannot upload to this target itself: Incus signs its uploads to this endpoint for region '' @ signs @ '', and the target is in '' @ bt_region target))
     else run_then
       (if bl_transport p \<noteq> ''relay'' \<and> canDirect then
          catching
           (run_then (progress job ''backing up and uploading'') (\<lambda>_.
            run_then (on_world (\<lambda>w. bx_direct B w target key)) (\<lambda>bytes. give (Some bytes))))
           (\<lambda>e s. if bl_transport p = ''direct'' \<or> bx_aborted B (jr_world s) then throw e s
              else run_then (ignoring (on_world (\<lambda>w. bx_delete B w target key))) (\<lambda>_.
                run_then (ignoring (on_world (bx_dropLocal B))) (\<lambda>_.
                run_then (on_db (set_progress job \<lparr>jp_stage = ''relaying'', jp_percent = None, jp_message = Some (''The cluster could not upload it: '' @ error_message e)\<rparr>)) (\<lambda>_.
                give None))) s)
        else give None)
       (\<lambda>sent. case sent of
          Some bytes \<Rightarrow> give (''direct'', bytes)
        | None \<Rightarrow> run_then (on_world (\<lambda>w. bx_relay B w target key (''direct_backup'' \<in> set exts))) (\<lambda>bytes. give (''relay'', bytes))))"

text \<open>Once it is stored: the row, the policy's retention, and what could not be pruned.\<close>

definition keep_newest :: "'w backup_api \<Rightarrow> int \<Rightarrow> backup_payload \<Rightarrow> ('w backing_up, nat \<times> string list) handler" where
  "keep_newest B now p s =
    (if truthy (bl_policyId p) then
       run_then (case t_lookup bp_id (bu_policies s) (the (bl_policyId p)) of
           None \<Rightarrow> give (0, [])
         | Some policy \<Rightarrow> run_then (pruneBackups B (bp_id policy) (bp_keep policy)) (\<lambda>(n, errs). give (n, map (\<lambda>e. ''Not pruned: '' @ e) errs))) (\<lambda>(n, warnings).
       run_then (setPolicy p (\<lambda>q. q\<lparr>bp_lastSuccessAt := Some now, bp_lastError := join_with ''; '' warnings\<rparr>)) (\<lambda>_.
       give (n, warnings))) s
     else give (0, []) s)"

definition backup_body ::
  "'w backup_api \<Rightarrow> (string \<Rightarrow> bool) \<Rightarrow> int \<Rightarrow> string \<Rightarrow> string \<Rightarrow> job_row \<Rightarrow> backup_payload \<Rightarrow> backup_target \<Rightarrow> ('w backing_up, string \<times> int \<times> nat \<times> string list) handler" where
  "backup_body B valid now i key j p target =
     run_then (asking (\<lambda>s. bx_read B (jr_world s) \<lparr>ik_clusterId = bl_clusterId p, ik_project = bl_project p, ik_name = bl_instanceName p\<rparr>)) (\<lambda>inst.
     case inst of
       None \<Rightarrow> throw (ApiError 404 ''not_found'' (''Instance '' @ quoted (bl_instanceName p) @ '' not found in '' @ bl_project p))
     | Some v \<Rightarrow>
         run_then (change (\<lambda>s. s\<lparr>jr_db := (jr_db s)\<lparr>db_backups := db_backups (jr_db s) @ [new_backup now i key j p target v]\<rparr>, bu_rowMade := True\<rparr>)) (\<lambda>_.
         run_then (asking (\<lambda>s. bx_extensions B (jr_world s) (bl_clusterId p))) (\<lambda>exts.
         run_then (send_backup B valid (jo_id j) p target key exts) (\<lambda>(transport, bytes).
         run_then (set_backup i (\<lambda>b. b\<lparr>ba_state := BReady, ba_sizeBytes := Some bytes, ba_transport := transport, ba_completedAt := Some now\<rparr>)) (\<lambda>_.
         run_then (keep_newest B now p) (\<lambda>(n, warnings).
         give (transport, bytes, n, warnings)))))))"

definition backup_failed :: "'w backup_api \<Rightarrow> int \<Rightarrow> string \<Rightarrow> string \<Rightarrow> backup_payload \<Rightarrow> backup_target \<Rightarrow> failure \<Rightarrow> ('w backing_up, 'a) handler" where
  "backup_failed B now i key p target e =
     run_then (ignoring (on_world (\<lambda>w. bx_delete B w target key))) (\<lambda>_.
     run_then (\<lambda>s. only_if (bu_rowMade s)
       (set_backup i (\<lambda>b. b\<lparr>ba_state := BFailed, ba_error := take 1000 (error_message e), ba_completedAt := Some now\<rparr>)) s) (\<lambda>_.
     run_then (setPolicy p (\<lambda>q. q\<lparr>bp_lastError := take 1000 (error_message e)\<rparr>)) (\<lambda>_.
     throw e)))"

definition backup_allowed :: "job_row \<Rightarrow> backup_payload \<Rightarrow> 'w backing_up \<Rightarrow> backup_target result" where
  "backup_allowed j p s =
    (case t_lookup bt_id (bu_targets s) (bl_targetId p) of
       None \<Rightarrow> Inl (ApiError 404 ''not_found'' ''The backup target no longer exists'')
     | Some target \<Rightarrow>
         then_do (check_that (bt_enabled target) (ApiError 409 ''conflict'' (''The backup target '' @ quoted (bt_name target) @ '' is disabled''))) (\<lambda>_.
         then_do (if truthy (jo_tenantId j) then
             then_do (needBackupQuota (jr_db s) (jo_tenantId j)
               (case t_lookup te_id (db_tenants (jr_db s)) (the (jo_tenantId j)) of None \<Rightarrow> no_quotas | Some t \<Rightarrow> te_quotas t)) (\<lambda>_.
             if jo_actorType j = ''user'' \<and> jo_actorId j \<noteq> []
             then needUserQuota (jr_db s) (the (jo_tenantId j)) (jo_actorId j) \<lparr>uu_instances = 0, uu_cpu = 0, uu_memory = 0, uu_backups = 1\<rparr>
             else Inr ())
           else Inr ()) (\<lambda>_.
         then_do (clientFor (jr_db s) (bl_clusterId p)) (\<lambda>_. Inr target))))"

definition backupHandler ::
  "'w backup_api \<Rightarrow> (string \<Rightarrow> bool) \<Rightarrow> (int \<Rightarrow> string) \<Rightarrow> int \<Rightarrow> string \<Rightarrow> job_row \<Rightarrow> backup_payload \<Rightarrow> ('w backing_up, string \<times> int \<times> nat \<times> string list) handler" where
  "backupHandler B valid dateText now i j p =
     run_then (asking (backup_allowed j p)) (\<lambda>target.
     let key = objectKey dateText (bt_prefix target) (bl_project p) (bl_instanceName p) now i in
     finally_do (catching (backup_body B valid now i key j p target) (backup_failed B now i key p target))
       (\<lambda>s. fst (ignoring (on_world (bx_dropLocal B)) s)))"

definition backing_up :: "db \<Rightarrow> backup_target list \<Rightarrow> backup_policy list \<Rightarrow> 'w \<Rightarrow> 'w backing_up" where
  "backing_up d ts ps w = \<lparr>jr_db = d, jr_world = w, bu_targets = ts, bu_policies = ps, bu_rowMade = False\<rparr>"

section \<open>The schedule\<close>

definition backup_due :: "int \<Rightarrow> backup_policy \<Rightarrow> bool" where
  "backup_due now p \<longleftrightarrow> bp_enabled p \<and> interval_passed now (bp_intervalS p) (bp_lastRunAt p)"

definition backup_instance :: "backup_policy \<Rightarrow> string" where
  "backup_instance p = bp_clusterId p @ ''/'' @ bp_project p @ ''/'' @ bp_instanceName p"

definition backup_job :: "backup_policy \<Rightarrow> new_job" where
  "backup_job p = \<lparr>nj_type = ''backup'',
     nj_payload = [(''clusterId'', JStr (bp_clusterId p)), (''project'', JStr (bp_project p)), (''instanceName'', JStr (bp_instanceName p)),
       (''targetId'', JStr (bp_targetId p)), (''instanceOnly'', JBool (bp_instanceOnly p)), (''transport'', JStr ''auto''), (''policyId'', JStr (bp_id p))],
     nj_actorType = ''system'', nj_actorId = ''backups'', nj_tenantId = bp_tenantId p, nj_clusterIds = Some [bp_clusterId p],
     nj_instanceKey = Some (backup_instance p)\<rparr>"

definition mark_backup :: "int \<Rightarrow> string \<Rightarrow> backup_policy \<Rightarrow> backup_policy" where
  "mark_backup now job p = p\<lparr>bp_lastRunAt := Some now, bp_lastJobId := Some job\<rparr>"

definition scheduleBackups :: "(db \<Rightarrow> string) \<Rightarrow> int \<Rightarrow> db \<times> backup_policy list \<Rightarrow> db \<times> backup_policy list" where
  "scheduleBackups gen now st = fold (queue_due gen now backup_job bp_id mark_backup) (filter (backup_due now) (snd st)) st"

interpretation backup_schedule: periodic backup_due bp_id backup_instance backup_job mark_backup "\<lambda>p. bp_intervalS p \<ge> 0"
  by unfold_locales (auto simp: mark_backup_def backup_due_def interval_passed_def backup_job_def)

section \<open>What retention removes\<close>

lemma prune_one_cases:
  assumes "prune_one B b s = (s', r)"
  obtains w where "r = Inr []" "s' = s\<lparr>jr_world := w, jr_db := (jr_db s)\<lparr>db_backups := t_remove ba_id (db_backups (jr_db s)) (ba_id b)\<rparr>\<rparr>"
      "bx_delete B (jr_world s) (the (t_lookup bt_id (bu_targets s) (ba_targetId b))) (ba_objectKey b) = (w, Inr ())"
    | w e where "r = Inr [e]" "s' = s\<lparr>jr_world := w\<rparr>"
      "fst (bx_delete B (jr_world s) (the (t_lookup bt_id (bu_targets s) (ba_targetId b))) (ba_objectKey b)) = w"
proof (cases "bx_delete B (jr_world s) (the (t_lookup bt_id (bu_targets s) (ba_targetId b))) (ba_objectKey b)")
  case (Pair w x)
  show thesis
  proof (cases x)
    case (Inl e)
    with Pair assms that(2) show thesis
      by (auto simp: prune_one_def catching_def run_then_def on_world_def give_def)
  next
    case (Inr u)
    with Pair assms that(1) show thesis
      by (auto simp: prune_one_def catching_def run_then_def on_world_def on_db_def change_def give_def)
  qed
qed

text \<open>The store as far as it matters: which objects it has.\<close>

definition store_lawful :: "'w backup_api \<Rightarrow> ('w \<Rightarrow> string set) \<Rightarrow> bool" where
  "store_lawful B stored \<longleftrightarrow> (\<forall>w t k w' r. bx_delete B w t k = (w', r) \<longrightarrow> stored w' \<subseteq> stored w \<and> (r = Inr () \<longrightarrow> k \<notin> stored w'))"

lemma prune_each_result:
  assumes "prune_each B bs s = (s', r)" "store_lawful B stored"
  shows "\<exists>n errs gone. r = Inr (n, errs) \<and> gone \<subseteq> set bs \<and> n + length errs = length bs \<and> (errs = [] \<longrightarrow> gone = set bs) \<and>
    jr_db s' = (jr_db s)\<lparr>db_backups := filter (\<lambda>b. ba_id b \<notin> ba_id ` gone) (db_backups (jr_db s))\<rparr> \<and>
    bu_targets s' = bu_targets s \<and> bu_policies s' = bu_policies s \<and> stored (jr_world s') \<subseteq> stored (jr_world s) \<and>
    (\<forall>b\<in>gone. ba_objectKey b \<notin> stored (jr_world s'))"
  using assms(1)
proof (induction bs arbitrary: s s' r)
  case Nil
  then show ?case by (auto simp: give_def)
next
  case (Cons b bs)
  obtain s1 r1 where one: "prune_one B b s = (s1, r1)" by (cases "prune_one B b s")
  obtain s2 r2 where rest: "prune_each B bs s1 = (s2, r2)" by (cases "prune_each B bs s1")
  from Cons.IH[OF rest] obtain n errs gone where g: "r2 = Inr (n, errs)" "gone \<subseteq> set bs" "n + length errs = length bs" "errs = [] \<longrightarrow> gone = set bs"
    "jr_db s2 = (jr_db s1)\<lparr>db_backups := filter (\<lambda>b. ba_id b \<notin> ba_id ` gone) (db_backups (jr_db s1))\<rparr>"
    "bu_targets s2 = bu_targets s1" "bu_policies s2 = bu_policies s1" "stored (jr_world s2) \<subseteq> stored (jr_world s1)"
    "\<forall>b\<in>gone. ba_objectKey b \<notin> stored (jr_world s2)" by blast
  note law = assms(2)[unfolded store_lawful_def, rule_format]
  from one show ?case
  proof (cases rule: prune_one_cases)
    case (1 w)
    then have "s' = s2" "r = Inr (Suc n, errs)" using Cons.prems one rest g(1) by (simp_all add: run_then_def give_def)
    moreover have "stored w \<subseteq> stored (jr_world s)" "ba_objectKey b \<notin> stored w" using law[OF 1(3)] by auto
    moreover have "filter (\<lambda>x. ba_id x \<notin> ba_id ` gone) (t_remove ba_id rows (ba_id b)) = filter (\<lambda>x. ba_id x \<notin> ba_id ` insert b gone) rows" for rows
      by (auto simp: t_remove_def intro!: filter_cong)
    moreover have "jr_db s2 = (jr_db s)\<lparr>db_backups := filter (\<lambda>x. ba_id x \<notin> ba_id ` insert b gone) (db_backups (jr_db s))\<rparr>"
      unfolding g(5) 1(2) by (simp add: calculation(5))
    ultimately show ?thesis
      using g(2-4,6-9) 1(2) by (intro exI[of _ "Suc n"] exI[of _ errs] exI[of _ "insert b gone"] conjI) (auto simp del: image_insert)
  next
    case (2 w e)
    then have "s' = s2" "r = Inr (n, e # errs)" using Cons.prems one rest g(1) by (simp_all add: run_then_def give_def)
    moreover have "stored w \<subseteq> stored (jr_world s)" using law[OF surjective_pairing] unfolding 2(3)[symmetric] by (rule conjunct1)
    ultimately show ?thesis using g(2-9) 2(2) by (intro exI[of _ n] exI[of _ "e # errs"] exI[of _ gone] conjI) auto
  qed
qed

lemma newest_first_mem [simp]: "set (newest_first ts i rows) = {b \<in> set rows. prunable ts i b}"
  by (auto simp: newest_first_def)

lemma newest_first_length: "length (newest_first ts i rows) = length (filter (prunable ts i) rows)"
  by (simp add: newest_first_def)

lemma newest_first_distinct: "t_wf ba_id rows \<Longrightarrow> distinct (newest_first ts i rows)"
  by (simp add: newest_first_def t_wf_def distinct_map)

lemma newest_first_sorted: "sorted_wrt (\<lambda>a b. ba_createdAt b \<le> ba_createdAt a) (newest_first ts i rows)"
proof -
  have "orders_on A (\<lambda>a b. of_int (ba_createdAt b - ba_createdAt a))" for A by (auto simp: orders_on_def)
  from sorted_sort_by[OF this] show ?thesis unfolding newest_first_def by (rule sorted_wrt_mono_rel[rotated]) auto
qed

lemma take_newer:
  assumes "b \<in> set (drop n (newest_first ts i rows))" "x \<in> set (take n (newest_first ts i rows))"
  shows "ba_createdAt b \<le> ba_createdAt x"
  using newest_first_sorted[of ts i rows] assms by (subst (asm) append_take_drop_id[of n, symmetric]) (auto simp: sorted_wrt_append simp del: append_take_drop_id)

lemma ids_apart:
  assumes "t_wf ba_id rows" "gone \<subseteq> set (drop n (newest_first ts i rows))" "x \<in> set (take n (newest_first ts i rows))"
  shows "ba_id x \<notin> ba_id ` gone"
proof
  assume "ba_id x \<in> ba_id ` gone"
  then obtain y where y: "y \<in> gone" "ba_id x = ba_id y" by blast
  have m: "x \<in> set rows" "y \<in> set rows" using assms(2,3) y(1) by (auto dest!: in_set_takeD in_set_dropD subsetD)
  with assms(1) y(2) have "x = y" by (auto simp: t_wf_def distinct_map inj_on_def)
  moreover have "set (take n (newest_first ts i rows)) \<inter> set (drop n (newest_first ts i rows)) = {}"
    by (rule set_take_disj_set_drop_if_distinct[OF newest_first_distinct[OF assms(1)]]) simp
  ultimately show False using assms(2,3) y(1) by blast
qed

section \<open>The rows of a run\<close>

text \<open>What a run depends on: the rows of the backups, the policies, the targets and whether the row is made.\<close>

definition rows_are :: "backup_row list \<Rightarrow> backup_policy list \<Rightarrow> backup_target list \<Rightarrow> bool \<Rightarrow> 'w backing_up \<Rightarrow> bool" where
  "rows_are rows ps ts made s \<longleftrightarrow> db_backups (jr_db s) = rows \<and> bu_policies s = ps \<and> bu_targets s = ts \<and> bu_rowMade s = made"

lemma triple_rows_world: "triple (rows_are rows ps ts made) (on_world f) (\<lambda>_. rows_are rows ps ts made) (rows_are rows ps ts made)"
  by (rule triple_world) (simp add: rows_are_def)

lemma triple_rows_progress: "triple (rows_are rows ps ts made) (on_db (set_progress job p)) (\<lambda>_. rows_are rows ps ts made) R"
  unfolding on_db_def by (rule triple_change) (simp add: rows_are_def set_progress_def set_job_def)

lemma triple_rows_asking: "triple (rows_are rows ps ts made) (asking f) (\<lambda>_. rows_are rows ps ts made) (rows_are rows ps ts made)"
  by (rule triple_asking)

lemma triple_send:
  "triple (rows_are rows ps ts made) (send_backup B valid job p target key exts) (\<lambda>_. rows_are rows ps ts made) (rows_are rows ps ts made)"
proof -
  let ?P = "rows_are rows ps ts made"
  have fallback: "triple ?P (\<lambda>s. if bl_transport p = ''direct'' \<or> bx_aborted B (jr_world s) then throw e s
      else run_then (ignoring (on_world f)) (\<lambda>_. run_then (ignoring (on_world g)) (\<lambda>_. run_then (on_db (set_progress job q)) (\<lambda>_. give None))) s)
      (\<lambda>_. ?P) ?P" for e q f and g :: "'a \<Rightarrow> 'a \<times> unit result"
  proof -
    have m: "triple ?P (run_then (ignoring (on_world f)) (\<lambda>_. run_then (ignoring (on_world g)) (\<lambda>_. run_then (on_db (set_progress job q)) (\<lambda>_. give None)))) (\<lambda>_. ?P) ?P"
      by (rule triple_then[OF triple_ignoring[OF triple_rows_world]], rule triple_then[OF triple_ignoring[OF triple_rows_world]],
          rule triple_then[OF triple_rows_progress], rule triple_give)
    show ?thesis by (rule triple_cond, rule triple_throw, simp, rule triple_pre[OF m], simp)
  qed
  have direct: "triple ?P (run_then (progress job st) (\<lambda>_. run_then (on_world (\<lambda>w. bx_direct B w target key)) (\<lambda>bytes. give (Some bytes)))) (\<lambda>_. ?P) ?P" for st
    unfolding progress_def by (rule triple_then[OF triple_rows_progress], rule triple_then[OF triple_rows_world], rule triple_give)
  have last: "triple ?P (case sent of Some bytes \<Rightarrow> give (''direct'', bytes)
      | None \<Rightarrow> run_then (on_world (\<lambda>w. bx_relay B w target key b)) (\<lambda>bytes. give (''relay'', bytes))) (\<lambda>_. ?P) ?P" for sent b
    by (cases sent) (auto intro!: triple_then[OF triple_rows_world] triple_give)
  show ?thesis unfolding send_backup_def Let_def
    by (rule triple_if, rule triple_throw, assumption, rule triple_then[where Q' = "\<lambda>_. ?P"], rule triple_if,
        rule triple_catch[OF direct fallback], rule triple_give, assumption, rule last)
qed

lemma keep_newest_result:
  assumes "store_lawful B stored" "keep_newest B now p s = (s', r)"
  shows "is_ok r \<and> (\<exists>gone. db_backups (jr_db s') = filter (\<lambda>b. ba_id b \<notin> ba_id ` gone) (db_backups (jr_db s)) \<and>
    (gone = {} \<or> (\<exists>q. t_lookup bp_id (bu_policies s) (the (bl_policyId p)) = Some q \<and> truthy (bl_policyId p) \<and>
       gone \<subseteq> set (drop (bp_keep q) (newest_first (bu_targets s) (bp_id q) (db_backups (jr_db s)))))))"
proof (cases "truthy (bl_policyId p)")
  case True
  show ?thesis
  proof (cases "t_lookup bp_id (bu_policies s) (the (bl_policyId p))")
    case None
    with assms(2) True show ?thesis
      by (auto simp: keep_newest_def run_then_def give_def setPolicy_def only_if_def change_def intro!: exI[of _ "{}"])
  next
    case (Some q)
    let ?bs = "drop (bp_keep q) (newest_first (bu_targets s) (bp_id q) (db_backups (jr_db s)))"
    obtain s1 r1 where e: "prune_each B ?bs s = (s1, r1)" by (cases "prune_each B ?bs s")
    from prune_each_result[OF e assms(1)] obtain n errs gone where g: "r1 = Inr (n, errs)" "gone \<subseteq> set ?bs"
      "jr_db s1 = (jr_db s)\<lparr>db_backups := filter (\<lambda>b. ba_id b \<notin> ba_id ` gone) (db_backups (jr_db s))\<rparr>" by blast
    have "s' = s1\<lparr>bu_policies := bu_policies s'\<rparr>" "is_ok r"
      using assms(2) True Some e g(1)
      by (auto simp: keep_newest_def pruneBackups_def run_then_def give_def setPolicy_def only_if_def change_def)
    then have "jr_db s' = jr_db s1" "is_ok r" by (metis job_run.select_convs(1) backing_up.surjective backing_up.update_convs(2), simp)
    with g(2,3) Some True show ?thesis by (intro conjI exI[of _ gone]) auto
  qed
next
  case False
  with assms(2) show ?thesis by (auto simp: keep_newest_def give_def intro!: exI[of _ "{}"])
qed

lemma update_absent: "i \<notin> ba_id ` set rows \<Longrightarrow> t_update (\<lambda>b. ba_id b = i) f rows = rows"
  by (induction rows) (auto simp: t_update_def)

lemma update_last: "i \<notin> ba_id ` set rows \<Longrightarrow> ba_id row = i \<Longrightarrow> t_update (\<lambda>b. ba_id b = i) f (rows @ [row]) = rows @ [f row]"
  using update_absent[of i rows f] by (simp add: t_update_def)

lemma triple_failed:
  assumes "made \<longrightarrow> (\<exists>row. rows = rows0 @ [row] \<and> ba_id row = i)" "\<not> made \<longrightarrow> rows = rows0" "i \<notin> ba_id ` set rows0"
  shows "triple (rows_are rows ps ts made) (backup_failed B now i key p target e) Q
    (\<lambda>s. db_backups (jr_db s) = rows0 \<or> (\<exists>row. db_backups (jr_db s) = rows0 @ [row] \<and> ba_id row = i \<and> ba_state row = BFailed))"
    (is "triple _ _ _ ?R")
proof -
  have policy: "triple ?R (setPolicy p f) (\<lambda>_. ?R) ?R" for f
    unfolding setPolicy_def by (rule triple_when, rule triple_change, simp, assumption)
  have mark: "triple (rows_are rows ps ts made) (\<lambda>s. only_if (bu_rowMade s) (set_backup i (\<lambda>b. b\<lparr>ba_state := BFailed, ba_error := m, ba_completedAt := c\<rparr>)) s) (\<lambda>_. ?R) ?R" for m c
  proof (cases made)
    case True
    with assms(1) obtain row where row: "rows = rows0 @ [row]" "ba_id row = i" by blast
    with True show ?thesis
      by (auto simp: triple_def only_if_def set_backup_def on_db_def change_def rows_are_def update_last[OF assms(3) row(2)])
  next
    case False
    with assms(2) show ?thesis by (simp add: triple_def only_if_def give_def rows_are_def)
  qed
  show ?thesis unfolding backup_failed_def
    by (rule triple_then[OF triple_ignoring[OF triple_rows_world]], rule triple_then[OF mark], rule triple_then[OF policy], rule triple_throw)
qed

text \<open>A run that succeeds: its row is ready, and only the policy's ready backups beyond those to keep are gone.\<close>

definition made_ready :: "int \<Rightarrow> string \<Rightarrow> backup_payload \<Rightarrow> backup_row list \<Rightarrow> backup_policy list \<Rightarrow> backup_target list \<Rightarrow> backup_row list \<Rightarrow> bool" where
  "made_ready now i p rows0 ps ts rows \<longleftrightarrow> (\<exists>row gone. ba_id row = i \<and> ba_state row = BReady \<and> ba_sizeBytes row \<noteq> None \<and> ba_createdAt row = now \<and>
     rows = filter (\<lambda>b. ba_id b \<notin> ba_id ` gone) (rows0 @ [row]) \<and>
     (gone = {} \<or> (\<exists>q. t_lookup bp_id ps (the (bl_policyId p)) = Some q \<and> truthy (bl_policyId p) \<and> gone \<subseteq> set (drop (bp_keep q) (newest_first ts (bp_id q) (rows0 @ [row]))))))"

lemma triple_rest_of_backup:
  assumes "store_lawful B stored" "i \<notin> ba_id ` set rows0" "ba_id row = i" "ba_createdAt row = now"
  shows "triple (rows_are (rows0 @ [row]) ps ts True)
    (run_then (asking f) (\<lambda>exts. run_then (send_backup B valid job p target key exts) (\<lambda>(transport, bytes).
     run_then (set_backup i (\<lambda>b. b\<lparr>ba_state := BReady, ba_sizeBytes := Some bytes, ba_transport := transport, ba_completedAt := Some now\<rparr>)) (\<lambda>_.
     run_then (keep_newest B now p) (\<lambda>(n, warnings). give (transport, bytes, n, warnings))))))
    (\<lambda>_ s. made_ready now i p rows0 ps ts (db_backups (jr_db s))) (rows_are (rows0 @ [row]) ps ts True)"
proof (rule triple_then[OF triple_rows_asking], rule triple_then[OF triple_send], goal_cases ready)
  case (ready _ x)
  obtain transport bytes where x: "x = (transport, bytes)" by (cases x)
  let ?row = "row\<lparr>ba_state := BReady, ba_sizeBytes := Some bytes, ba_transport := transport, ba_completedAt := Some now\<rparr>"
  let ?P = "rows_are (rows0 @ [?row]) ps ts True" and ?M = "\<lambda>s. made_ready now i p rows0 ps ts (db_backups (jr_db s))"
  have set: "triple (rows_are (rows0 @ [row]) ps ts True) (set_backup i (\<lambda>b. b\<lparr>ba_state := BReady, ba_sizeBytes := Some bytes, ba_transport := transport, ba_completedAt := Some now\<rparr>))
      (\<lambda>_. ?P) R" for R
    unfolding set_backup_def on_db_def by (rule triple_change) (simp add: rows_are_def update_last[OF assms(2,3)])
  have keep: "triple ?P (keep_newest B now p) (\<lambda>_. ?M) R" for R
  proof (rule tripleI)
    fix s :: "'a backing_up" assume s: "?P s"
    obtain s' r where k: "keep_newest B now p s = (s', r)" by (cases "keep_newest B now p s")
    from s have e: "db_backups (jr_db s) = rows0 @ [?row]" "bu_policies s = ps" "bu_targets s = ts" by (simp_all add: rows_are_def)
    from keep_newest_result[OF assms(1) k, unfolded e] obtain gone where ok: "is_ok r"
      and g: "db_backups (jr_db s') = filter (\<lambda>b. ba_id b \<notin> ba_id ` gone) (rows0 @ [?row])"
        "gone = {} \<or> (\<exists>q. t_lookup bp_id ps (the (bl_policyId p)) = Some q \<and> truthy (bl_policyId p) \<and> gone \<subseteq> set (drop (bp_keep q) (newest_first ts (bp_id q) (rows0 @ [?row]))))"
      by blast
    have "?M s'" unfolding made_ready_def by (rule exI[of _ ?row], rule exI[of _ gone]) (simp only: g(1), simp add: assms(3,4) g(2))
    with ok k show "case keep_newest B now p s of (s', Inl _) \<Rightarrow> R s' | (s', Inr x) \<Rightarrow> ?M s'" by (auto simp: is_ok_iff)
  qed
  show ?case unfolding x prod.case
    by (rule triple_then[OF set], rule triple_then[OF keep]) (auto intro: triple_give split: prod.splits)
qed

lemma triple_backup_body:
  assumes "store_lawful B stored" "i \<notin> ba_id ` set rows0"
  shows "triple (rows_are rows0 ps ts False) (catching (backup_body B valid now i key j p target) (backup_failed B now i key p target))
    (\<lambda>_ s. made_ready now i p rows0 ps ts (db_backups (jr_db s)))
    (\<lambda>s. db_backups (jr_db s) = rows0 \<or> (\<exists>row. db_backups (jr_db s) = rows0 @ [row] \<and> ba_id row = i \<and> ba_state row = BFailed))"
    (is "triple _ _ ?Q ?R")
proof -
  let ?E = "\<lambda>s. rows_are rows0 ps ts False s \<or> (\<exists>row. ba_id row = i \<and> rows_are (rows0 @ [row]) ps ts True s)"
  have read: "triple (rows_are rows0 ps ts False) (asking f) (\<lambda>_. rows_are rows0 ps ts False) ?E" for f :: "'a backing_up \<Rightarrow> instance_view option result"
    by (rule triple_asking) auto
  have body: "triple (rows_are rows0 ps ts False) (backup_body B valid now i key j p target) ?Q ?E" unfolding backup_body_def
  proof (rule triple_then[OF read], goal_cases inst)
    case (inst v)
    show ?case
    proof (cases v)
      case None
      then show ?thesis by (auto intro: triple_throw)
    next
      case (Some inst')
      let ?row = "new_backup now i key j p target inst'"
      have row: "ba_id ?row = i" "ba_createdAt ?row = now" by (simp_all add: new_backup_def)
      show ?thesis unfolding Some option.case
        by (rule triple_then[where Q' = "\<lambda>_. rows_are (rows0 @ [?row]) ps ts True"], rule triple_change, simp add: rows_are_def,
            rule triple_weaken[OF triple_rest_of_backup[OF assms row]]) (use row in auto)
    qed
  qed
  have failed: "triple ?E (backup_failed B now i key p target e) ?Q ?R" for e
  proof (rule tripleI)
    fix s :: "'a backing_up" assume "?E s"
    then show "case backup_failed B now i key p target e s of (s', Inl _) \<Rightarrow> ?R s' | (s', Inr x) \<Rightarrow> ?Q x s'"
    proof (elim disjE exE conjE)
      assume s: "rows_are rows0 ps ts False s"
      from triple_failed[where made = False and rows = rows0 and ?rows0.0 = rows0 and i = i and Q = ?Q] assms(2) s show ?thesis by (auto simp: triple_def)
    next
      fix row assume s: "ba_id row = i" "rows_are (rows0 @ [row]) ps ts True s"
      from triple_failed[where made = True and rows = "rows0 @ [row]" and ?rows0.0 = rows0 and i = i and Q = ?Q] assms(2) s show ?thesis by (auto simp: triple_def)
    qed
  qed
  show ?thesis by (rule triple_catch[OF body failed])
qed

text \<open>A backup newer than all others is not among those a policy's retention removes.\<close>

lemma new_backup_kept:
  assumes "t_wf ba_id (rows @ [row])" "\<forall>b\<in>set rows. ba_createdAt b < ba_createdAt row" "\<forall>q\<in>set ps. bp_keep q \<ge> 1"
    "gone = {} \<or> (\<exists>q. t_lookup bp_id ps (the (bl_policyId p)) = Some q \<and> truthy (bl_policyId p) \<and> gone \<subseteq> set (drop (bp_keep q) (newest_first ts (bp_id q) (rows @ [row]))))"
  shows "ba_id row \<notin> ba_id ` gone \<and> (\<forall>b\<in>gone. b \<in> set (rows @ [row]) \<and> ba_state b = BReady \<and> ba_policyId b = bl_policyId p)"
proof (cases "gone = {}")
  case False
  with assms(4) obtain q where q: "t_lookup bp_id ps (the (bl_policyId p)) = Some q" "truthy (bl_policyId p)"
    "gone \<subseteq> set (drop (bp_keep q) (newest_first ts (bp_id q) (rows @ [row])))" by blast
  let ?xs = "newest_first ts (bp_id q) (rows @ [row])"
  have keep: "bp_keep q \<ge> 1" "bp_id q = the (bl_policyId p)" using t_lookup_SomeD[OF q(1)] assms(3) by auto
  have "b \<noteq> row" if "b \<in> gone" for b
  proof
    assume "b = row"
    with that q(3) have d: "row \<in> set (drop (bp_keep q) ?xs)" by blast
    then have "?xs \<noteq> []" by auto
    then have h: "hd ?xs \<in> set (take (bp_keep q) ?xs)" using keep(1) by (cases ?xs; cases "bp_keep q") auto
    from take_newer[OF d h] assms(2) have "hd ?xs = row" using h by (fastforce dest: in_set_takeD)
    moreover have "set (take (bp_keep q) ?xs) \<inter> set (drop (bp_keep q) ?xs) = {}"
      by (rule set_take_disj_set_drop_if_distinct[OF newest_first_distinct[OF assms(1)]]) simp
    ultimately show False using h d by auto
  qed
  moreover have mem: "b \<in> set (rows @ [row]) \<and> prunable ts (bp_id q) b" if "b \<in> gone" for b using that q(3) by (auto dest!: subsetD in_set_dropD)
  ultimately have "ba_id row \<notin> ba_id ` gone" using assms(1) by (force simp: t_wf_def)
  with mem keep(2) q(2) show ?thesis by (cases "bl_policyId p") (auto simp: prunable_def)
qed simp

section \<open>Properties\<close>


text \<open>
  C19: A backup job leaves no backup unsettled: when it fails, the table is as before or has one more row, the job's, marked as
  failed; when it succeeds, the job's row is ready with its size, was not removed by the policy's own retention (which
  keeps at least one, and the new backup is the newest), and every other row is as before or was a ready backup
  of the policy.
\<close>

theorem backup_settled:
  assumes "store_lawful B stored" "t_wf ba_id (db_backups d)" "i \<notin> ba_id ` set (db_backups d)" "\<forall>b\<in>set (db_backups d). ba_createdAt b < now"
    "\<forall>q\<in>set ps. bp_keep q \<ge> 1" "backupHandler B valid dateText now i j p (backing_up d ts ps w) = (s, r)"
  shows "(\<not> is_ok r \<longrightarrow> db_backups (jr_db s) = db_backups d \<or> (\<exists>row. db_backups (jr_db s) = db_backups d @ [row] \<and> ba_id row = i \<and> ba_state row = BFailed)) \<and>
    (is_ok r \<longrightarrow> (\<exists>row\<in>set (db_backups (jr_db s)). ba_id row = i \<and> ba_state row = BReady \<and> ba_sizeBytes row \<noteq> None \<and>
       set (db_backups (jr_db s)) \<subseteq> insert row (set (db_backups d)) \<and>
       (\<forall>b\<in>set (db_backups d) - set (db_backups (jr_db s)). ba_state b = BReady \<and> ba_policyId b = bl_policyId p)))"
proof -
  let ?rows = "db_backups d"
  let ?R = "\<lambda>s. db_backups (jr_db s) = ?rows \<or> (\<exists>row. db_backups (jr_db s) = ?rows @ [row] \<and> ba_id row = i \<and> ba_state row = BFailed)"
  let ?Q = "\<lambda>_ s. made_ready now i p ?rows ps ts (db_backups (jr_db s))"
  have t: "triple (rows_are ?rows ps ts False) (backupHandler B valid dateText now i j p) ?Q ?R" unfolding backupHandler_def Let_def
    by (rule triple_then[where Q' = "\<lambda>_. rows_are ?rows ps ts False"], rule triple_asking, assumption, simp add: rows_are_def,
        rule triple_finally[OF triple_backup_body[OF assms(1,3)]]) (simp_all add: ignoring_def on_world_def split: prod.splits)
  have init: "rows_are ?rows ps ts False (backing_up d ts ps w)" by (simp add: rows_are_def backing_up_def)
  have e: "if is_ok r then ?Q () s else ?R s"
  proof (cases r)
    case (Inl e)
    with tripleD(2)[OF t init assms(6)[unfolded Inl]] show ?thesis by simp
  next
    case (Inr x)
    with tripleD(1)[OF t init assms(6)[unfolded Inr]] show ?thesis by simp
  qed
  show ?thesis
  proof (cases "is_ok r")
    case True
    with e obtain row gone where row: "ba_id row = i" "ba_state row = BReady" "ba_sizeBytes row \<noteq> None" "ba_createdAt row = now"
      and rows: "db_backups (jr_db s) = filter (\<lambda>b. ba_id b \<notin> ba_id ` gone) (?rows @ [row])"
      and gone: "gone = {} \<or> (\<exists>q. t_lookup bp_id ps (the (bl_policyId p)) = Some q \<and> truthy (bl_policyId p) \<and> gone \<subseteq> set (drop (bp_keep q) (newest_first ts (bp_id q) (?rows @ [row]))))"
      unfolding made_ready_def by auto
    have wf: "t_wf ba_id (?rows @ [row])" using assms(2,3) row(1) by (auto simp: t_wf_def)
    have facts: "ba_id row \<notin> ba_id ` gone \<and> (\<forall>b\<in>gone. b \<in> set (?rows @ [row]) \<and> ba_state b = BReady \<and> ba_policyId b = bl_policyId p)"
      using gone new_backup_kept[OF wf _ assms(5)] assms(4) row(4) by blast
    then have "row \<in> set (db_backups (jr_db s))" by (simp add: rows)
    moreover have "ba_state b = BReady \<and> ba_policyId b = bl_policyId p" if "b \<in> set ?rows - set (db_backups (jr_db s))" for b
    proof -
      from that obtain y where y: "y \<in> gone" "ba_id b = ba_id y" by (auto simp: rows)
      with facts that wf have "b = y" by (auto simp: t_wf_def distinct_map inj_on_def)
      with facts y(1) show ?thesis by simp
    qed
    moreover have "set (db_backups (jr_db s)) \<subseteq> insert row (set ?rows)" by (auto simp: rows)
    ultimately show ?thesis using True row(1-3) by blast
  qed (use e in simp)
qed

text \<open>
  The schedule of backups queues a job for a policy only when it is due; afterwards the instance of every policy that was due has
  an active job, the policies that were not due are as before, and what was queued is not due again at once.
\<close>

theorem backups_scheduled:
  assumes "\<And>d. gen d \<notin> jo_id ` set (db_jobs d)" "\<forall>p\<in>set ps. bp_intervalS p \<ge> 0" "scheduleBackups gen now (d, ps) = (d', ps')"
  shows "(\<forall>j\<in>set (db_jobs d') - set (db_jobs d). \<exists>p\<in>set ps. backup_due now p \<and> (\<exists>i. j = new_row now i (backup_job p))) \<and>
    (\<forall>p\<in>set ps. backup_due now p \<longrightarrow> (\<exists>j\<in>set (db_jobs d'). jo_instanceKey j = Some (backup_instance p) \<and> active_job j)) \<and>
    (\<forall>q\<in>set ps'. q \<in> set ps \<or> \<not> backup_due now q) \<and>
    filter (\<lambda>q. bp_id q \<notin> bp_id ` {p \<in> set ps. backup_due now p}) ps' = filter (\<lambda>q. bp_id q \<notin> bp_id ` {p \<in> set ps. backup_due now p}) ps"
  using backup_schedule.schedule_exact[OF assms(1,2)] assms(3) by (simp add: scheduleBackups_def backup_schedule.run_all_def)

section \<open>A bucket\<close>

definition bucket_api :: "string list backup_api" where
  "bucket_api = \<lparr>bx_read = (\<lambda>w k. Inr (Some a_view)), bx_extensions = (\<lambda>w c. Inr []), bx_direct = (\<lambda>w t k. (w, Inl (OtherError ''no''))),
     bx_relay = (\<lambda>w t k b. (k # w, Inr 42)), bx_dropLocal = (\<lambda>w. (w, Inr ())), bx_delete = (\<lambda>w t k. (filter (\<lambda>x. x \<noteq> k) w, Inr ())), bx_aborted = (\<lambda>_. False)\<rparr>"

lemma bucket_lawful: "store_lawful bucket_api set"
  by (auto simp: store_lawful_def bucket_api_def)

definition a_bucket :: backup_target where
  "a_bucket = \<lparr>bt_id = ''T'', bt_name = ''main'', bt_endpoint = ''https://s3.eu-west-1.amazonaws.com'', bt_region = [], bt_bucket = ''b'', bt_prefix = ''/x/'',
     bt_accessKeyId = [], bt_secretKeyEnc = [], bt_enabled = True\<rparr>"

definition a_backup_policy :: backup_policy where
  "a_backup_policy = \<lparr>bp_id = ''P'', bp_tenantId = None, bp_clusterId = ''C1'', bp_project = ''p'', bp_instanceName = ''web'', bp_targetId = ''T'', bp_intervalS = 3600,
     bp_keep = 1, bp_instanceOnly = False, bp_enabled = True, bp_lastRunAt = None, bp_lastSuccessAt = None, bp_lastError = [], bp_lastJobId = None\<rparr>"

definition a_backup_payload :: backup_payload where
  "a_backup_payload = \<lparr>bl_clusterId = ''C1'', bl_project = ''p'', bl_instanceName = ''web'', bl_targetId = ''T'', bl_instanceOnly = False, bl_transport = ''auto'',
     bl_policyId = Some ''P''\<rparr>"

definition an_old_backup :: backup_row where
  "an_old_backup = (new_backup 1 ''b1'' ''k1'' (new_row 0 ''j0'' a_job) a_backup_payload a_bucket a_view)\<lparr>ba_state := BReady\<rparr>"

definition backups_db :: db where
  "backups_db = moving_db\<lparr>db_backups := [an_old_backup]\<rparr>"

definition a_backup :: "string list backing_up \<times> (string \<times> int \<times> nat \<times> string list) result" where
  "a_backup = backupHandler bucket_api (\<lambda>_. True) (\<lambda>_. ''2026-01-02T03:04:05.678Z'') 9 ''b2'' (new_row 5 ''j1'' a_job) a_backup_payload
     (backing_up backups_db [a_bucket] [a_backup_policy] [''k1''])"

definition a_pruning :: "string list backing_up \<times> (nat \<times> string list) result" where
  "a_pruning = pruneBackups bucket_api ''P'' 0 (backing_up backups_db [a_bucket] [a_backup_policy] [''k1''])"

lemma a_backup_facts:
  "snd a_backup = Inr (''relay'', 42, 1, [])" "map ba_id (db_backups (jr_db (fst a_backup))) = [''b2'']" "t_wf ba_id (db_backups backups_db)"
  "''b2'' \<notin> ba_id ` set (db_backups backups_db)" "\<forall>b\<in>set (db_backups backups_db). ba_createdAt b < 9" "\<forall>q\<in>set [a_backup_policy]. bp_keep q \<ge> 1"
  "db_backups (jr_db (fst a_pruning)) = []" "db_backups backups_db = [an_old_backup]"
  by code_simp+


theorem backup_settled_witness:
  "\<exists>row\<in>set (db_backups (jr_db (fst a_backup))). ba_id row = ''b2'' \<and> ba_state row = BReady"
proof -
  have run: "backupHandler bucket_api (\<lambda>_. True) (\<lambda>_. ''2026-01-02T03:04:05.678Z'') 9 ''b2'' (new_row 5 ''j1'' a_job) a_backup_payload
     (backing_up backups_db [a_bucket] [a_backup_policy] [''k1'']) = (fst a_backup, snd a_backup)" by (simp add: a_backup_def)
  from backup_settled[OF bucket_lawful a_backup_facts(3-6) run] a_backup_facts(1) show ?thesis by auto
qed

theorem backups_scheduled_witness:
  "\<exists>j\<in>set (db_jobs (fst (scheduleBackups fresh_id 5 (backups_db, [a_backup_policy])))). jo_instanceKey j = Some ''C1/p/web''"
proof -
  have "backup_instance a_backup_policy = ''C1/p/web''" "backup_due 5 a_backup_policy" "bp_intervalS a_backup_policy \<ge> 0" by code_simp+
  with backups_scheduled[OF fresh_id, of "[a_backup_policy]" 5 backups_db "fst (scheduleBackups fresh_id 5 (backups_db, [a_backup_policy]))"
      "snd (scheduleBackups fresh_id 5 (backups_db, [a_backup_policy]))"]
  show ?thesis by auto
qed

lemma aws_region: "incusUploadRegion (\<lambda>_. True) ''https://s3.eu-west-1.amazonaws.com'' = ''eu-west-1''"
  "incusUploadRegion (\<lambda>_. True) ''http://minio:9000'' = ''us-east-1''"
  by code_simp+

end
