(* ===== verification/Restore.thy ===== *)
theory Restore
  imports Backups
begin

text \<open>
  Restoring a backup (\<^verbatim>\<open>backups/restore-job.ts\<close>): as an import where the project is not restricted, otherwise through the
  staging project and a transfer from there. The clusters are those of \<open>Migrate\<close>, with the requests only a restore
  makes beside them.
\<close>

section \<open>The job\<close>

record 'w restore_api =
  rx_project :: "'w \<Rightarrow> string \<Rightarrow> string \<Rightarrow> config option result"
  rx_get :: "'w \<Rightarrow> backup_target \<Rightarrow> string \<Rightarrow> bool result"
  rx_newProject :: "'w \<Rightarrow> string \<Rightarrow> string \<Rightarrow> string \<Rightarrow> config \<Rightarrow> 'w \<times> unit result"
  rx_import :: "'w \<Rightarrow> instance_key \<Rightarrow> string option \<Rightarrow> 'w \<times> unit result"
  rx_patch :: "'w \<Rightarrow> instance_key \<Rightarrow> config \<Rightarrow> 'w \<times> unit result"

record restore_payload =
  rl_backupId :: string
  rl_targetClusterId :: string
  rl_targetProject :: string
  rl_targetName :: string
  rl_pool :: "string option"
  rl_start :: bool

definition rl_to :: "restore_payload \<Rightarrow> instance_key" where
  "rl_to p = \<lparr>ik_clusterId = rl_targetClusterId p, ik_project = rl_targetProject p, ik_name = rl_targetName p\<rparr>"

definition TAG_RESTORED_FROM :: string where
  "TAG_RESTORED_FROM = ''user.incuscloud.restored-from''"

definition STAGING_PROJECT :: string where
  "STAGING_PROJECT = ''incuscloud-restore''"

definition isTrue :: "string option \<Rightarrow> bool" where
  "isTrue v \<longleftrightarrow> map to_lower (case v of None \<Rightarrow> [] | Some s \<Rightarrow> s) \<in> {''true'', ''1'', ''yes'', ''on''}"

definition ensureStaging :: "'w restore_api \<Rightarrow> string \<Rightarrow> ('w job_run, unit) handler" where
  "ensureStaging X cluster =
     run_then (asking (\<lambda>s. rx_project X (jr_world s) cluster STAGING_PROJECT)) (\<lambda>found.
     only_if (found = None) (on_world (\<lambda>w. rx_newProject X w cluster STAGING_PROJECT ''IncusCloud: backups being restored into restricted projects''
       [(''features.images'', ''false''), (''features.profiles'', ''false''), (''features.storage.volumes'', ''false''),
        (''features.networks'', ''false''), (''user.incuscloud.internal'', ''restore staging'')])))"

text \<open>The instance a job stages.\<close>

definition staged_key :: "job_row \<Rightarrow> restore_payload \<Rightarrow> instance_key" where
  "staged_key j p = \<lparr>ik_clusterId = rl_targetClusterId p, ik_project = STAGING_PROJECT, ik_name = ''r-'' @ take 8 (jo_id j)\<rparr>"

definition move_in ::
  "'w incus_api \<Rightarrow> (string \<Rightarrow> json option) \<Rightarrow> job_row \<Rightarrow> restore_payload \<Rightarrow> string \<Rightarrow> target_facts \<Rightarrow> source_instance \<Rightarrow> ('w job_run, unit) handler" where
  "move_in A parse j p cert target source =
    (let check = preflight parse \<lparr>pi_source = source, pi_target = target, pi_targetName = rl_targetName p, pi_mode = Copy, pi_live = False, pi_pool = rl_pool p\<rparr>;
         r = pf_request check;
         request = r\<lparr>tr_config := m_set (m_set (tr_config r) TAG_RESTORED_FROM (rl_backupId p)) TAG_JOB (jo_id j)\<rparr>
     in if \<not> pf_ok check then throw (ApiError 409 ''preflight_failed'' (join_with ''; '' (pf_problems check)))
        else run_then (progress (jo_id j) ''moving into the project'') (\<lambda>_.
          run_then (on_world (\<lambda>w. ap_transfer A w \<lparr>to_src = staged_key j p, to_dst = rl_to p, to_request = request, to_refresh = False, to_live = False,
            to_instanceOnly = False, to_targetCert = cert, to_transport = ''auto''\<rparr>)) (\<lambda>_. give ())))"

definition drop_half_made :: "'w incus_api \<Rightarrow> job_row \<Rightarrow> restore_payload \<Rightarrow> failure \<Rightarrow> ('w job_run, unit) handler" where
  "drop_half_made A j p e =
     run_then (read_quietly A (rl_to p)) (\<lambda>copy.
     run_then (only_if (made_by (jo_id j) copy) (ignoring (delete_instance A (rl_to p)))) (\<lambda>_.
     throw e))"

definition restoreViaStaging ::
  "'w incus_api \<Rightarrow> 'w restore_api \<Rightarrow> (string \<Rightarrow> json option) \<Rightarrow> job_row \<Rightarrow> restore_payload \<Rightarrow> string \<Rightarrow> ('w job_run, unit) handler" where
  "restoreViaStaging A X parse j p cert =
     run_then (asking (\<lambda>s. ap_targetFacts A (jr_world s) (rl_targetClusterId p) (rl_targetProject p))) (\<lambda>target.
     run_then (ensureStaging X (rl_targetClusterId p)) (\<lambda>_.
     finally_do
      (catching
        (run_then (progress (jo_id j) ''restoring into staging'') (\<lambda>_.
         run_then (on_world (\<lambda>w. rx_import X w (staged_key j p) (case rl_pool p of Some x \<Rightarrow> Some x | None \<Rightarrow> profile_pool target))) (\<lambda>_.
         run_then (asking (\<lambda>s. ap_sourceFacts A (jr_world s) (staged_key j p))) (\<lambda>source.
         move_in A parse j p cert target source))))
        (drop_half_made A j p))
      (\<lambda>s. fst (ignoring (delete_instance A (staged_key j p)) s))))"

definition restore_import :: "'w restore_api \<Rightarrow> job_row \<Rightarrow> restore_payload \<Rightarrow> ('w job_run, unit) handler" where
  "restore_import X j p =
     run_then (progress (jo_id j) ''restoring'') (\<lambda>_.
     run_then (on_world (\<lambda>w. rx_import X w (rl_to p) (rl_pool p))) (\<lambda>_.
     on_world (\<lambda>w. rx_patch X w (rl_to p) [(TAG_RESTORED_FROM, rl_backupId p)])))"

definition restore_settle :: "'w incus_api \<Rightarrow> int \<Rightarrow> job_row \<Rightarrow> restore_payload \<Rightarrow> ('w job_run, unit) handler" where
  "restore_settle A now j p =
     run_then (on_db (\<lambda>d. case actorOf (Some (jo_actorType j)) (Some (jo_actorId j)) of None \<Rightarrow> d | Some o' \<Rightarrow> recordOwner now d (rl_to p) o' Incuscloud)) (\<lambda>_.
     only_if (rl_start p) (run_then (progress (jo_id j) ''starting'') (\<lambda>_. setState A (rl_to p) ''start'')))"

text \<open>What follows the last check.\<close>

definition restore_work ::
  "'w incus_api \<Rightarrow> 'w restore_api \<Rightarrow> (string \<Rightarrow> json option) \<Rightarrow> int \<Rightarrow> job_row \<Rightarrow> restore_payload \<Rightarrow> config \<Rightarrow> string \<Rightarrow> ('w job_run, unit) handler" where
  "restore_work A X parse now j p projectConfig cert =
     finally_do
      (run_then (if \<not> isTrue (m_get projectConfig ''restricted'') then restore_import X j p else restoreViaStaging A X parse j p cert) (\<lambda>_.
       restore_settle A now j p))
      (\<lambda>s. s\<lparr>jr_db := refreshInventory (jr_db s) [rl_targetClusterId p]\<rparr>)"

definition restorable :: "backup_target list \<Rightarrow> restore_payload \<Rightarrow> db \<Rightarrow> (backup_row \<times> backup_target) result" where
  "restorable ts p d =
    (case t_lookup ba_id (db_backups d) (rl_backupId p) of
       None \<Rightarrow> Inl (ApiError 404 ''not_found'' ''The backup no longer exists'')
     | Some b \<Rightarrow> (case t_lookup bt_id ts (ba_targetId b) of
         None \<Rightarrow> Inl (ApiError 404 ''not_found'' ''The backup no longer exists'')
       | Some t \<Rightarrow> if ba_state b = BReady then Inr (b, t)
           else Inl (ApiError 409 ''conflict'' (''Only a ready backup can be restored (this one is '' @ (if ba_state b = BCreating then ''creating'' else ''failed'') @ '')''))))"

definition restoreHandler ::
  "'w incus_api \<Rightarrow> 'w restore_api \<Rightarrow> (string \<Rightarrow> json option) \<Rightarrow> backup_target list \<Rightarrow> int \<Rightarrow> job_row \<Rightarrow> restore_payload \<Rightarrow> ('w job_run, unit) handler" where
  "restoreHandler A X parse ts now j p =
     run_then (asking (\<lambda>s. restorable ts p (jr_db s))) (\<lambda>(b, t).
     run_then (asking (\<lambda>s. clientFor (jr_db s) (rl_targetClusterId p))) (\<lambda>cluster.
     run_then (progress (jo_id j) ''checking'') (\<lambda>_.
     run_then (asking (\<lambda>s. case rx_project X (jr_world s) (rl_targetClusterId p) (rl_targetProject p) of
         Inl e \<Rightarrow> Inl e
       | Inr None \<Rightarrow> Inl (ApiError 409 ''conflict'' (''Project '' @ quoted (rl_targetProject p) @ '' does not exist on the target cluster''))
       | Inr (Some c) \<Rightarrow> Inr c)) (\<lambda>projectConfig.
     run_then (readInstance A (rl_to p)) (\<lambda>there.
     if there \<noteq> None then throw (ApiError 409 ''conflict'' (''An instance named '' @ quoted (rl_targetName p) @ '' already exists in '' @ rl_targetProject p @ '' on the target; it is not overwritten''))
     else run_then (check_signal A) (\<lambda>_.
       run_then (asking (\<lambda>s. case rx_get X (jr_world s) t (ba_objectKey b) of
           Inl e \<Rightarrow> Inl e
         | Inr False \<Rightarrow> Inl (ApiError 409 ''conflict'' (''The backup is not in its target any more ('' @ ba_objectKey b @ '')''))
         | Inr True \<Rightarrow> Inr ())) (\<lambda>_.
       restore_work A X parse now j p projectConfig (cl_serverCert cluster))))))))"

definition restoring :: "db \<Rightarrow> 'w \<Rightarrow> 'w job_run" where
  "restoring d w = \<lparr>jr_db = d, jr_world = w\<rparr>"

section \<open>What it touches\<close>

text \<open>
  An import concerns the instance it names only, a change of the configuration too; making a project concerns none.
\<close>

definition restore_lawful :: "'w restore_api \<Rightarrow> ('w \<Rightarrow> instance_key \<Rightarrow> instance_view option) \<Rightarrow> bool" where
  "restore_lawful X look \<longleftrightarrow>
    (\<forall>w k o' w' r. rx_import X w k o' = (w', r) \<longrightarrow> (\<forall>k'. k' \<noteq> k \<longrightarrow> look w' k' = look w k')) \<and>
    (\<forall>w k c w' r. rx_patch X w k c = (w', r) \<longrightarrow> (\<forall>k'. k' \<noteq> k \<longrightarrow> look w' k' = look w k')) \<and>
    (\<forall>w c n t g w' r. rx_newProject X w c n t g = (w', r) \<longrightarrow> look w' = look w)"

text \<open>A handler that works on the instances \<open>ks\<close> only, whether it returns or throws.\<close>

definition confined :: "('w \<Rightarrow> instance_key \<Rightarrow> instance_view option) \<Rightarrow> instance_key set \<Rightarrow> ('w job_run, 'a) handler \<Rightarrow> bool" where
  "confined look ks m \<longleftrightarrow> (\<forall>s k. k \<notin> ks \<longrightarrow> look (jr_world (fst (m s))) k = look (jr_world s) k)"

named_theorems confine

lemma confined_then [confine]: "confined look ks m \<Longrightarrow> (\<And>x. confined look ks (f x)) \<Longrightarrow> confined look ks (run_then m f)"
  unfolding confined_def run_then_def by (simp split: prod.splits sum.splits) (metis fst_conv)

lemma confined_catching [confine]: "confined look ks m \<Longrightarrow> (\<And>e. confined look ks (h e)) \<Longrightarrow> confined look ks (catching m h)"
  unfolding confined_def catching_def by (simp split: prod.splits sum.splits) (metis fst_conv)

lemma confined_finally [confine]:
  "confined look ks m \<Longrightarrow> (\<And>s k. k \<notin> ks \<Longrightarrow> look (jr_world (g s)) k = look (jr_world s) k) \<Longrightarrow> confined look ks (finally_do m g)"
  unfolding confined_def finally_do_def by (simp split: prod.splits) (metis fst_conv)

lemma confined_basic [confine]:
  "confined look ks (give x)" "confined look ks (throw e)" "confined look ks (asking f)"
  "confined look ks m \<Longrightarrow> confined look ks (only_if b m)" "confined look ks m \<Longrightarrow> confined look ks (ignoring m)"
  "confined look ks (on_db g)" "confined look ks (progress job stage)"
  by (simp_all add: confined_def give_def throw_def asking_def only_if_def ignoring_def on_db_def change_def progress_def)

lemma confined_world:
  "(\<And>w w' r k. f w = (w', r) \<Longrightarrow> k \<notin> ks \<Longrightarrow> look w' k = look w k) \<Longrightarrow> confined look ks (on_world f)"
  by (simp add: confined_def on_world_def split: prod.splits)

lemma confined_state: "state_keeps A look \<Longrightarrow> k \<in> ks \<Longrightarrow> confined look ks (on_world (\<lambda>w. ap_state A w k a))"
  unfolding state_keeps_def by (rule confined_world) metis

lemma confined_delete: "delete_local A look \<Longrightarrow> k \<in> ks \<Longrightarrow> confined look ks (on_world (\<lambda>w. ap_delete A w k))"
  unfolding delete_local_def by (rule confined_world) metis

lemma confined_incus [confine]:
  assumes "incus_lawful A look" "k \<in> ks"
  shows "confined look ks (setState A k a)" "confined look ks (delete_instance A k)" "confined look ks (read_quietly A k)"
proof -
  show "confined look ks (setState A k a)"
    using confined_state[of A look k ks a] assms unfolding setState_def incus_lawful_def
    by (intro confined_catching) (simp_all add: confine)
  show "confined look ks (delete_instance A k)"
    using confined_delete[of A look k ks] assms unfolding delete_instance_def incus_lawful_def by simp
  show "confined look ks (read_quietly A k)" unfolding read_quietly_def readInstance_def by (intro confine)
qed

lemma confined_transfer:
  assumes "incus_lawful A look" "to_src t \<in> ks" "to_dst t \<in> ks"
  shows "confined look ks (on_world (\<lambda>w. ap_transfer A w t))"
proof (rule confined_world)
  fix w w' r k assume "ap_transfer A w t = (w', r)" "k \<notin> ks"
  moreover from assms(2,3) \<open>k \<notin> ks\<close> have "k \<noteq> to_src t" "k \<noteq> to_dst t" by auto
  ultimately show "look w' k = look w k" using assms(1) unfolding incus_lawful_def transfer_local_def by blast
qed

lemma confined_restore:
  assumes "restore_lawful X look"
  shows "k \<in> ks \<Longrightarrow> confined look ks (on_world (\<lambda>w. rx_import X w k o'))" "k \<in> ks \<Longrightarrow> confined look ks (on_world (\<lambda>w. rx_patch X w k c))"
    "confined look ks (on_world (\<lambda>w. rx_newProject X w c' n t g))"
  using assms unfolding restore_lawful_def by (rule_tac confined_world; metis)+

lemma confined_ensure: "restore_lawful X look \<Longrightarrow> confined look ks (ensureStaging X c)"
  unfolding ensureStaging_def by (intro confine confined_restore)

lemma confined_import: "restore_lawful X look \<Longrightarrow> confined look {rl_to p} (restore_import X j p)"
  unfolding restore_import_def by (intro confine confined_restore) simp_all

lemma confined_settle: "incus_lawful A look \<Longrightarrow> confined look {rl_to p} (restore_settle A now j p)"
  unfolding restore_settle_def by (intro confine) simp_all

lemma confined_move: "incus_lawful A look \<Longrightarrow> confined look {staged_key j p, rl_to p} (move_in A parse j p cert target source)"
  unfolding move_in_def Let_def by (simp add: confine) (intro impI confine confined_transfer; simp)

lemma confined_drop: "incus_lawful A look \<Longrightarrow> confined look {staged_key j p, rl_to p} (drop_half_made A j p e)"
  unfolding drop_half_made_def by (intro confine) simp_all

lemma confined_mono: "confined look ks m \<Longrightarrow> ks \<subseteq> ks' \<Longrightarrow> confined look ks' m"
  unfolding confined_def by blast

lemma confined_staging:
  fixes A :: "'w incus_api"
  assumes "incus_lawful A look" "restore_lawful X look"
  shows "confined look {staged_key j p, rl_to p} (restoreViaStaging A X parse j p cert)"
proof -
  have "confined look {staged_key j p, rl_to p} (ignoring (delete_instance A (staged_key j p)))"
    by (intro confine) (simp_all add: assms)
  then have "look (jr_world (fst (ignoring (delete_instance A (staged_key j p)) s))) k = look (jr_world s) k"
    if "k \<notin> {staged_key j p, rl_to p}" for s :: "'w job_run" and k
    using that unfolding confined_def by blast
  then show ?thesis
    unfolding restoreViaStaging_def
    by (intro confine confined_ensure confined_restore confined_move confined_drop assms) simp_all
qed

lemma confined_work:
  assumes "incus_lawful A look" "restore_lawful X look"
  shows "confined look {staged_key j p, rl_to p} (restore_work A X parse now j p c cert)"
proof -
  have "confined look {staged_key j p, rl_to p} (if b then restore_import X j p else restoreViaStaging A X parse j p cert)" for b
    using confined_mono[OF confined_import[OF assms(2)], of p "{staged_key j p, rl_to p}" j] confined_staging[OF assms] by simp
  moreover have "confined look {staged_key j p, rl_to p} (restore_settle A now j p)"
    by (rule confined_mono[OF confined_settle[OF assms(1)]]) simp
  ultimately show ?thesis
    unfolding restore_work_def by (intro confine) simp_all
qed

text \<open>A restore works on the clusters only once it has read that its target's name is free.\<close>

lemma triple_restore:
  assumes "incus_lawful A look" "\<And>c cert. look w (rl_to p) = None \<Longrightarrow> triple (\<lambda>s. jr_world s = w) (restore_work A X parse now j p c cert) (\<lambda>_. T) T"
    "\<And>s. jr_world s = w \<Longrightarrow> T s"
  shows "triple (\<lambda>s. jr_world s = w) (restoreHandler A X parse ts now j p) (\<lambda>_. T) T"
proof -
  have read: "triple (\<lambda>s. jr_world s = w) (readInstance A (rl_to p)) (\<lambda>v s. jr_world s = w \<and> v = look w (rl_to p)) T"
    unfolding readInstance_def using assms(1,3) by (intro triple_asking) (auto simp: incus_lawful_def reads_true_def)
  have ask: "triple (\<lambda>s. jr_world s = w) (asking f) (\<lambda>_ s. jr_world s = w) T" for f :: "'a job_run \<Rightarrow> 'b result"
    using assms(3) by (intro triple_asking) simp_all
  have told: "triple (\<lambda>s. jr_world s = w) (progress (jo_id j) stage) (\<lambda>_ s. jr_world s = w) T" for stage
    unfolding progress_def on_db_def by (intro triple_change) simp
  show ?thesis
    unfolding restoreHandler_def check_signal_def
    apply (rule triple_then[OF ask])
    apply (simp only: split_beta)
    apply (rule triple_then[OF ask], rule triple_then[OF told], rule triple_then[OF ask], rule triple_then[OF read])
    subgoal for bt cluster u c there
      apply (rule triple_assume)
      apply (rule triple_if)
       apply (rule triple_throw, erule assms(3))
      apply (rule triple_then[OF ask], rule triple_then[OF ask])
      apply (rule assms(2))
      by simp
    done
qed

lemma confined_triple:
  assumes "confined look ks m" "\<And>s. (\<forall>k. k \<notin> ks \<longrightarrow> look (jr_world s) k = look w k) \<Longrightarrow> T s"
  shows "triple (\<lambda>s. jr_world s = w) m (\<lambda>_. T) T"
  using assms unfolding confined_def triple_def by (auto split: prod.splits sum.splits) (metis fst_conv)+

text \<open>
  C20: A restore never replaces or changes an instance: whatever the clusters have, one under the name the backup is to be
  restored to included, is as before when the job ends, whether it worked or failed anywhere on the way. The staged
  copy's own name, made of the job's id, is the only exception.
\<close>

theorem restore_never_overwrites:
  assumes "incus_lawful A look" "restore_lawful X look" "restoreHandler A X parse ts now j p (restoring d w) = (s, r)"
    "look w k \<noteq> None" "k \<noteq> staged_key j p"
  shows "look (jr_world s) k = look w k"
proof -
  let ?T = "\<lambda>s. look (jr_world s) k = look w k"
  have "triple (\<lambda>s. jr_world s = w) (restore_work A X parse now j p c cert) (\<lambda>_. ?T) ?T" if "look w (rl_to p) = None" for c cert
    using confined_work[OF assms(1,2)] by (rule confined_triple) (use that assms(4,5) in auto)
  then have "triple (\<lambda>s. jr_world s = w) (restoreHandler A X parse ts now j p) (\<lambda>_. ?T) ?T"
    by (rule triple_restore[OF assms(1)]) simp_all
  from tripleD[OF this, of "restoring d w" s] assms(3) show ?thesis by (cases r) (simp_all add: restoring_def)
qed

lemma confined_kept:
  assumes "confined look ks m" "k \<notin> ks" "\<And>s. P s \<Longrightarrow> T (look (jr_world s) k)"
  shows "triple P m (\<lambda>_ s. T (look (jr_world s) k)) (\<lambda>s. T (look (jr_world s) k))"
  using assms unfolding confined_def triple_def by (auto split: prod.splits sum.splits) (metis fst_conv)+

lemma triple_gone:
  assumes "restore_lawful X look" "\<And>w k. look (fst (ap_delete A w k)) k = None" "T None" "T (look w (staged_key j p))"
  shows "triple (\<lambda>s. jr_world s = w) (restoreViaStaging A X parse j p cert) (\<lambda>_ s. T (look (jr_world s) (staged_key j p))) (\<lambda>s. T (look (jr_world s) (staged_key j p)))"
proof -
  have "look (jr_world (fst (ignoring (delete_instance A (staged_key j p)) s))) (staged_key j p) = None" for s :: "'a job_run"
    using assms(2)[of "jr_world s"] by (simp add: ignoring_def delete_instance_def on_world_def split: prod.splits) (metis fst_conv)
  note gone = this
  let ?T = "\<lambda>s. T (look (jr_world s) (staged_key j p))"
  have clear: "triple ?T (finally_do m (\<lambda>s. fst (ignoring (delete_instance A (staged_key j p)) s))) (\<lambda>_. ?T) ?T" for m :: "('a job_run, unit) handler"
    using assms(3) by (simp add: triple_def finally_do_def gone split: prod.splits sum.splits)
  have ask: "triple (\<lambda>s. jr_world s = w) (asking f) (\<lambda>_ s. jr_world s = w) ?T" for f :: "'a job_run \<Rightarrow> 'b result"
    using assms(4) by (intro triple_asking) simp_all
  have ensure: "triple (\<lambda>s. jr_world s = w) (ensureStaging X c) (\<lambda>_. ?T) ?T" for c
    by (rule confined_kept[OF confined_ensure[OF assms(1)], where ks = "{}"]) (simp_all add: assms(4))
  show ?thesis
    unfolding restoreViaStaging_def by (rule triple_then[OF ask], rule triple_then[OF ensure], rule clear)
qed

text \<open>
  The staged copy is always removed: where deletions work, no restore leaves an instance under the staged
  name that was not there before, whichever step failed.
\<close>

theorem staging_cleared:
  assumes "incus_lawful A look" "restore_lawful X look" "restoreHandler A X parse ts now j p (restoring d w) = (s, r)"
    "\<And>w k. look (fst (ap_delete A w k)) k = None" "staged_key j p \<noteq> rl_to p"
  shows "look (jr_world s) (staged_key j p) = None \<or> look (jr_world s) (staged_key j p) = look w (staged_key j p)"
proof -
  let ?k = "staged_key j p"
  let ?O = "\<lambda>v. v = None \<or> v = look w ?k"
  let ?T = "\<lambda>s. ?O (look (jr_world s) ?k)"
  have i: "triple (\<lambda>s. jr_world s = w) (restore_import X j p) (\<lambda>_. ?T) ?T"
    by (rule confined_kept[OF confined_import[OF assms(2)], where T = ?O]) (use assms(5) in auto)
  have v: "triple (\<lambda>s. jr_world s = w) (restoreViaStaging A X parse j p cert) (\<lambda>_. ?T) ?T" for cert
    by (rule triple_gone[OF assms(2,4), where T = ?O]) simp_all
  have e: "triple ?T (restore_settle A now j p) (\<lambda>_. ?T) ?T"
    by (rule confined_kept[OF confined_settle[OF assms(1)], where T = ?O]) (use assms(5) in auto)
  have "triple (\<lambda>s. jr_world s = w) (restore_work A X parse now j p c cert) (\<lambda>_. ?T) ?T" for c cert
    unfolding restore_work_def
    by (rule triple_finally[OF triple_then[OF triple_if[OF i v] e]]) simp_all
  then have "triple (\<lambda>s. jr_world s = w) (restoreHandler A X parse ts now j p) (\<lambda>_. ?T) ?T"
    by (rule triple_restore[OF assms(1)]) simp_all
  from tripleD[OF this, of "restoring d w" s] assms(3) show ?thesis by (cases r) (simp_all add: restoring_def)
qed

section \<open>A restore through staging\<close>

text \<open>The clusters of \<open>Migrate\<close> with restores: every project is restricted, and \<open>full\<close> makes every import fail half-way.\<close>

definition rack_restore :: "bool \<Rightarrow> rack restore_api" where
  "rack_restore full = \<lparr>
     rx_project = (\<lambda>w c n. Inr (if n = STAGING_PROJECT then None else Some [(''restricted'', ''true'')])),
     rx_get = (\<lambda>w t o'. Inr True),
     rx_newProject = (\<lambda>w c n t g. (w, Inr ())),
     rx_import = (\<lambda>w k pool. if m_get w k = None then (m_set w k a_view, if full then Inl (OtherError ''full'') else Inr ()) else (w, Inl (OtherError ''exists''))),
     rx_patch = (\<lambda>w k c. (w, Inr ()))\<rparr>"

lemma rack_restore_lawful: "restore_lawful (rack_restore full) m_get"
  by (auto simp: restore_lawful_def rack_restore_def split: if_splits)

definition a_restore_payload :: restore_payload where
  "a_restore_payload = \<lparr>rl_backupId = ''b1'', rl_targetClusterId = ''C2'', rl_targetProject = ''p'', rl_targetName = ''web2'', rl_pool = None, rl_start = True\<rparr>"

definition a_restore :: "bool \<Rightarrow> rack job_run \<times> unit result" where
  "a_restore full = restoreHandler (rack_api None) (rack_restore full) (\<lambda>_. None) [a_bucket] 9 (new_row 5 ''j1'' a_job) a_restore_payload (restoring backups_db a_rack)"

lemma a_restore_ends:
  "restoreHandler (rack_api None) (rack_restore full) (\<lambda>_. None) [a_bucket] 9 (new_row 5 ''j1'' a_job) a_restore_payload (restoring backups_db a_rack)
     = (fst (a_restore full), snd (a_restore full))"
  by (simp add: a_restore_def)

lemma a_restore_facts:
  "snd (a_restore False) = Inr ()" "map_option iv_status (m_get (jr_world (fst (a_restore False))) (rl_to a_restore_payload)) = Some ''Running''"
  "snd (a_restore True) = Inl (OtherError ''full'')" "m_get a_rack (staged_key (new_row 5 ''j1'' a_job) a_restore_payload) = None"
  "staged_key (new_row 5 ''j1'' a_job) a_restore_payload \<noteq> rl_to a_restore_payload" "mp_from a_payload \<noteq> staged_key (new_row 5 ''j1'' a_job) a_restore_payload"
  by code_simp+

theorem restore_never_overwrites_witness:
  "snd (a_restore False) = Inr () \<and> m_get (jr_world (fst (a_restore False))) (mp_from a_payload) = Some a_view"
  using restore_never_overwrites[OF rack_lawful rack_restore_lawful a_restore_ends, of "mp_from a_payload"] a_rack_has(1) a_restore_facts(1,6) by simp

theorem staging_cleared_witness:
  "snd (a_restore True) = Inl (OtherError ''full'') \<and> m_get (jr_world (fst (a_restore True))) (staged_key (new_row 5 ''j1'' a_job) a_restore_payload) = None"
proof -
  have "m_get (fst (ap_delete (rack_api None) w k)) k = None" for w k by (simp add: rack_api_def)
  from staging_cleared[OF rack_lawful rack_restore_lawful a_restore_ends this a_restore_facts(5), of True] a_restore_facts(3,4) show ?thesis by simp
qed

end
