(* ===== verification/K8s.thy ===== *)
theory K8s
  imports Inventory
begin

text \<open>
  What a Kubernetes cluster of a tenant is made of (\<^verbatim>\<open>k8s/model.ts\<close>): sizes and specifications, what they count against the quota, which versions
  follow which, and why a specification is refused; the address ranges of MetalLB (\<open>ipToInt\<close>, \<open>intToIp\<close> and \<open>parseRange\<close> of
  \<^verbatim>\<open>packages/k8s/src/lib/metallb.ts\<close>); and what the sync makes of a cluster's conditions (\<open>assess\<close> of \<^verbatim>\<open>k8s/worker.ts\<close>). Whether
  a text is an IP address (\<open>isIP\<close> of Node) is an argument.
\<close>

section \<open>Numbers as JavaScript reads them\<close>

text \<open>\<open>Number(s)\<close>; \<open>None\<close> is \<open>NaN\<close> or an infinity. White space around it is ignored, and nothing is 0.\<close>

definition base_value :: "nat \<Rightarrow> string \<Rightarrow> rat option" where
  "base_value b s =
    (let value = (\<lambda>c. if is_digit c then cc c - 48 else if hex_digit c then cc (to_lower c) - 87 else b)
     in if s \<noteq> [] \<and> list_all (\<lambda>c. value c < b) s then Some (of_nat (foldl (\<lambda>n c. b * n + value c) 0 s)) else None)"

definition exponent :: "string \<Rightarrow> rat option" where
  "exponent s = (case s of
     [] \<Rightarrow> Some 1
   | c # r \<Rightarrow> if c \<noteq> CHR ''e'' \<and> c \<noteq> CHR ''E'' then None
       else let neg = startsWith r ''-''; ds = (if neg \<or> startsWith r ''+'' then tl r else r)
         in if ds = [] \<or> \<not> list_all is_digit ds then None
            else Some (if neg then 1 / 10 ^ digits_value ds else 10 ^ digits_value ds))"

definition decimal_value :: "string \<Rightarrow> rat option" where
  "decimal_value s =
    (let whole = takeWhile is_digit s; rest = dropWhile is_digit s;
         frac = (if startsWith rest ''.'' then takeWhile is_digit (tl rest) else []);
         tail = (if startsWith rest ''.'' then dropWhile is_digit (tl rest) else rest)
     in if whole = [] \<and> frac = [] then None
        else map_option (\<lambda>e. (of_nat (digits_value whole) + of_nat (digits_value frac) / 10 ^ length frac) * e) (exponent tail))"

definition js_number :: "string \<Rightarrow> rat option" where
  "js_number s =
    (let t = trim s; two = map to_lower (take 2 t)
     in if t = [] then Some 0
        else if two = ''0x'' then base_value 16 (drop 2 t)
        else if two = ''0o'' then base_value 8 (drop 2 t)
        else if two = ''0b'' then base_value 2 (drop 2 t)
        else if startsWith t ''-'' then map_option uminus (decimal_value (tl t))
        else if startsWith t ''+'' then decimal_value (tl t)
        else decimal_value t)"

section \<open>Addresses\<close>

definition octet :: "string \<Rightarrow> nat option" where
  "octet s = (if s \<noteq> [] \<and> length s \<le> 3 \<and> list_all is_digit s then Some (digits_value s) else None)"

definition ipToInt :: "string \<Rightarrow> int option" where
  "ipToInt ip = (case map octet (split_on CHR ''.'' (trim ip)) of
     [Some a, Some b, Some c, Some d] \<Rightarrow>
       if a > 255 \<or> b > 255 \<or> c > 255 \<or> d > 255 then None
       else Some (foldl (\<lambda>acc x. acc * 256 + int x) 0 [a, b, c, d])
   | _ \<Rightarrow> None)"

definition intToIp :: "int \<Rightarrow> string" where
  "intToIp n = join_with ''.'' (map (\<lambda>shift. show_int (n div 2 ^ shift mod 256)) [24, 16, 8, 0])"

record ip_range =
  ip_start :: int
  ip_end :: int

definition parseRange :: "string \<Rightarrow> ip_range option" where
  "parseRange value =
    (let t = trim value in
     if CHR ''-'' \<in> set t then
       (let parts = split_on CHR ''-'' t
        in case (ipToInt (parts ! 0), ipToInt (parts ! 1)) of
             (Some a, Some b) \<Rightarrow> if a \<le> b then Some \<lparr>ip_start = a, ip_end = b\<rparr> else None
           | _ \<Rightarrow> None)
     else if CHR ''/'' \<in> set t then
       (let parts = split_on CHR ''/'' t
        in case (ipToInt (parts ! 0), js_number (parts ! 1)) of
             (Some base, Some q) \<Rightarrow>
               if of_int \<lfloor>q\<rfloor> \<noteq> q \<or> q < 0 \<or> q > 32 then None
               else let sz = 2 ^ nat (32 - \<lfloor>q\<rfloor>); start = base div sz * sz in Some \<lparr>ip_start = start, ip_end = start + sz - 1\<rparr>
           | _ \<Rightarrow> None)
     else map_option (\<lambda>a. \<lparr>ip_start = a, ip_end = a\<rparr>) (ipToInt t))"

section \<open>Sizes and versions\<close>

definition KUBERNETES_VERSIONS :: "string list" where
  "KUBERNETES_VERSIONS = [''v1.34.0'', ''v1.35.5'', ''v1.36.4'', ''v1.37.0'']"

datatype k8s_size = Small | Medium | Large

record flavor =
  fv_cpu :: int
  fv_memoryGiB :: rat

definition SIZES :: "k8s_size \<Rightarrow> flavor \<times> string" where
  "SIZES s = (case s of
     Small \<Rightarrow> (\<lparr>fv_cpu = 2, fv_memoryGiB = 2\<rparr>, ''c2-m2'')
   | Medium \<Rightarrow> (\<lparr>fv_cpu = 2, fv_memoryGiB = 4\<rparr>, ''c2-m4'')
   | Large \<Rightarrow> (\<lparr>fv_cpu = 4, fv_memoryGiB = 8\<rparr>, ''c4-m8''))"

definition LB :: "flavor \<times> string" where
  "LB = (\<lparr>fv_cpu = 1, fv_memoryGiB = 1\<rparr>, ''c1-m1'')"

definition NODE_DISK :: int where
  "NODE_DISK = 10 * GiB"

definition namespaceOf :: "string \<Rightarrow> string" where
  "namespaceOf slug = ''ic-'' @ slug"

definition usageOf :: "k8s_size \<Rightarrow> int \<Rightarrow> int \<Rightarrow> bool \<Rightarrow> usage" where
  "usageOf sz controlPlanes workers withLb =
    (let s = fst (SIZES sz); nodes = controlPlanes + workers; lb = (if withLb then 1 else 0)
     in \<lparr>u_instances = nodes + lb, u_cpu = nodes * fv_cpu s + lb * fv_cpu (fst LB),
         u_memory = \<lfloor>(of_int nodes * fv_memoryGiB s + of_int lb * fv_memoryGiB (fst LB)) * of_int GiB\<rfloor>, u_disk = (nodes + lb) * NODE_DISK\<rparr>)"

definition minorOf :: "string \<Rightarrow> nat option" where
  "minorOf v =
    (if startsWith v ''v1.''
     then let ds = takeWhile is_digit (drop 3 v)
          in if ds \<noteq> [] \<and> startsWith (drop (3 + length ds) v) ''.'' then Some (digits_value ds) else None
     else None)"

text \<open>Comparisons with \<open>NaN\<close> are false.\<close>

definition upgradeError :: "string \<Rightarrow> string \<Rightarrow> string option" where
  "upgradeError from to =
    (if to \<notin> set KUBERNETES_VERSIONS then Some (to @ '' is not offered; choose one of '' @ join_with '', '' KUBERNETES_VERSIONS)
     else case (minorOf from, minorOf to) of
       (Some a, Some b) \<Rightarrow>
         if b < a \<or> (b = a \<and> to < from) then Some (''Kubernetes cannot be downgraded ('' @ from @ '' to '' @ to @ '')'')
         else if b > a + 1 then Some (''Upgrade one minor version at a time: '' @ from @ '' can go to v1.'' @ show_nat (a + 1) @ '' next'')
         else None
     | _ \<Rightarrow> None)"

section \<open>Specifications\<close>

datatype machine_type = Container | Virtual_machine

record machine_spec =
  mc_type :: machine_type
  mc_flavor :: string
  mc_profiles :: "string list"
  mc_target :: string

datatype lb_spec =
    Lb_instance (lb_oci: bool) (lb_flavor: string) (lb_profiles: "string list") (lb_target: string)
  | Kube_vip (lb_host: string) (lb_interface: string)
  | Ovn (lb_host: string) (lb_networkName: string)

record k8s_spec =
  ks_controlPlane :: machine_spec
  ks_worker :: machine_spec
  ks_loadBalancer :: lb_spec
  ks_image :: string
  ks_privileged :: bool
  ks_flannel :: bool
  ks_installKubeadm :: bool
  ks_podCidr :: string
  ks_serviceCidr :: string
  ks_metallb :: "string list option"

definition DEFAULT_POD_CIDR :: string where
  "DEFAULT_POD_CIDR = ''10.244.0.0/16''"

definition DEFAULT_SERVICE_CIDR :: string where
  "DEFAULT_SERVICE_CIDR = ''10.96.0.0/12''"

text \<open>\<open>/^c(\d+)-m(\d+(?:\.\d+)?)$/\<close>\<close>

definition parseFlavor :: "string \<Rightarrow> flavor option" where
  "parseFlavor f =
    (let t = trim f; cs = takeWhile is_digit (tl t); rest = drop (1 + length cs) t
     in if startsWith t ''c'' \<and> cs \<noteq> [] \<and> startsWith rest ''-m''
        then (case decimal_of (drop 2 rest) of
            Some (m, []) \<Rightarrow> if digits_value cs > 0 \<and> m > 0 then Some \<lparr>fv_cpu = int (digits_value cs), fv_memoryGiB = m\<rparr> else None
          | _ \<Rightarrow> None)
        else None)"

definition specFromSize :: "k8s_size \<Rightarrow> string \<Rightarrow> k8s_spec" where
  "specFromSize sz member =
    (let machine = \<lparr>mc_type = Container, mc_flavor = snd (SIZES sz), mc_profiles = [''default''], mc_target = member\<rparr>
     in \<lparr>ks_controlPlane = machine, ks_worker = machine, ks_loadBalancer = Lb_instance False (snd LB) [''default''] member, ks_image = [],
         ks_privileged = False, ks_flannel = True, ks_installKubeadm = False, ks_podCidr = DEFAULT_POD_CIDR, ks_serviceCidr = DEFAULT_SERVICE_CIDR,
         ks_metallb = None\<rparr>)"

definition lbIsInstance :: "lb_spec \<Rightarrow> bool" where
  "lbIsInstance lb = (case lb of Lb_instance _ _ _ _ \<Rightarrow> True | _ \<Rightarrow> False)"

definition flavorOf :: "string \<Rightarrow> flavor" where
  "flavorOf f = (case parseFlavor f of Some x \<Rightarrow> x | None \<Rightarrow> \<lparr>fv_cpu = 0, fv_memoryGiB = 0\<rparr>)"

definition usageOfSpec :: "k8s_spec \<Rightarrow> int \<Rightarrow> int \<Rightarrow> bool \<Rightarrow> usage" where
  "usageOfSpec spec controlPlanes workers withLb =
    (let cp = flavorOf (mc_flavor (ks_controlPlane spec)); w = flavorOf (mc_flavor (ks_worker spec));
         lb = (if withLb \<and> lbIsInstance (ks_loadBalancer spec) then Some (flavorOf (lb_flavor (ks_loadBalancer spec))) else None);
         instances = controlPlanes + workers + (if lb = None then 0 else 1)
     in \<lparr>u_instances = instances,
         u_cpu = controlPlanes * fv_cpu cp + workers * fv_cpu w + (case lb of None \<Rightarrow> 0 | Some x \<Rightarrow> fv_cpu x),
         u_memory = js_round ((of_int controlPlanes * fv_memoryGiB cp + of_int workers * fv_memoryGiB w + (case lb of None \<Rightarrow> 0 | Some x \<Rightarrow> fv_memoryGiB x)) * of_int GiB),
         u_disk = instances * NODE_DISK\<rparr>)"

text \<open>\<open>25[0-5]|2[0-4]\d|1?\d?\d\<close>, four times: up to three digits, at most 255, and of three the first is 1 or 2.\<close>

definition strict_octet :: "string \<Rightarrow> bool" where
  "strict_octet s \<longleftrightarrow> s \<noteq> [] \<and> length s \<le> 3 \<and> list_all is_digit s \<and> digits_value s \<le> 255 \<and> (length s = 3 \<longrightarrow> hd s \<noteq> CHR ''0'')"

definition ipv4 :: "string \<Rightarrow> bool" where
  "ipv4 s \<longleftrightarrow> (let parts = split_on CHR ''.'' s in length parts = 4 \<and> list_all strict_octet parts)"

definition cidrOk :: "string \<Rightarrow> bool" where
  "cidrOk c = (case split_on CHR ''/'' c of
     [ip, bits] \<Rightarrow> ipv4 ip \<and> bits \<noteq> [] \<and> list_all is_digit bits \<and> digits_value bits \<le> 32
   | _ \<Rightarrow> False)"

definition name_char :: "char \<Rightarrow> bool" where
  "name_char c \<longleftrightarrow> is_alnum c \<or> c \<in> set ''._-''"

definition MEMBER :: "string \<Rightarrow> bool" where
  "MEMBER s \<longleftrightarrow> s = [] \<or> (is_alnum (hd s) \<and> list_all name_char (tl s) \<and> length s \<le> 63)"

definition TARGET :: "string \<Rightarrow> bool" where
  "TARGET s \<longleftrightarrow> s = [] \<or> (let t = (if startsWith s ''@'' then tl s else s) in t \<noteq> [] \<and> MEMBER t)"

definition flavors_of :: "k8s_spec \<Rightarrow> (string \<times> string) list" where
  "flavors_of s = [(''control plane'', mc_flavor (ks_controlPlane s)), (''worker'', mc_flavor (ks_worker s))] @
     (if lbIsInstance (ks_loadBalancer s) then [(''load balancer'', lb_flavor (ks_loadBalancer s))] else [])"

fun first_error :: "(bool \<times> string) list \<Rightarrow> string option" where
  "first_error [] = None"
| "first_error ((bad, e) # r) = (if bad then Some e else first_error r)"

definition specError :: "(string \<Rightarrow> bool) \<Rightarrow> k8s_spec \<Rightarrow> string option" where
  "specError isIP s =
    (let lb = ks_loadBalancer s; cp = flavorOf (mc_flavor (ks_controlPlane s)); quote = (\<lambda>x. CHR 0x22 # x @ [CHR 0x22])
     in first_error (
       map (\<lambda>(role, f). (parseFlavor f = None, ''The '' @ role @ '' flavor '' @ quote f @ '' must be c<cores>-m<GiB>'')) (flavors_of s) @
       [(fv_cpu cp < 2, ''A control plane needs at least 2 CPUs (kubeadm)''),
        (fv_memoryGiB cp * 1024 < 1700, ''A control plane needs at least 1700 MiB of memory (kubeadm)''),
        (\<not> cidrOk (ks_podCidr s), ''The pod CIDR '' @ quote (ks_podCidr s) @ '' is not an IPv4 CIDR''),
        (\<not> cidrOk (ks_serviceCidr s), ''The service CIDR '' @ quote (ks_serviceCidr s) @ '' is not an IPv4 CIDR''),
        ((case lb of Kube_vip h _ \<Rightarrow> trim h = [] | _ \<Rightarrow> False), ''kube-vip needs its virtual IP address''),
        ((case lb of Ovn h n \<Rightarrow> trim h = [] \<or> trim n = [] | _ \<Rightarrow> False), ''An OVN load balancer needs its address and its OVN network''),
        (ks_metallb s = Some [], ''MetalLB needs at least one address range'')] @
       map (\<lambda>a. (parseRange a = None, quote a @ '' is not an IPv4 range (a.b.c.d-e.f.g.h), CIDR or address'')) (case ks_metallb s of None \<Rightarrow> [] | Some as \<Rightarrow> as) @
       [(\<not> TARGET (mc_target (ks_controlPlane s)), ''The control plane target '' @ quote (mc_target (ks_controlPlane s)) @ '' is not a member or @group''),
        (\<not> TARGET (mc_target (ks_worker s)), ''The worker target '' @ quote (mc_target (ks_worker s)) @ '' is not a member or @group''),
        (lbIsInstance lb \<and> \<not> MEMBER (lb_target lb), ''The load balancer's target is a member, not '' @ quote (lb_target lb)),
        (\<not> lbIsInstance lb \<and> \<not> isIP (lb_host lb), ''The load balancer address '' @ quote (lb_host lb) @ '' is not an IP address''),
        (ks_privileged s, ''Tenant projects do not allow privileged containers'')]))"

section \<open>What the sync sees\<close>

record condition =
  co_type :: string
  co_status :: string
  co_message :: "string option"

definition condition_of :: "condition list \<Rightarrow> string \<Rightarrow> condition option" where
  "condition_of cs t = find (\<lambda>c. co_type c = t) cs"

record assessed =
  as_status :: string
  as_statusMessage :: string
  as_nodes :: nat
  as_nodesReady :: nat

definition assess :: "nat \<Rightarrow> nat \<Rightarrow> condition list option \<Rightarrow> condition list list \<Rightarrow> assessed" where
  "assess controlPlanes workers cluster machines =
    (let nodes = length machines;
         ready = length (filter (\<lambda>m. map_option co_status (condition_of m ''Ready'') = Some ''True'') machines);
         want = controlPlanes + workers;
         said = (\<lambda>st msg. \<lparr>as_status = st, as_statusMessage = msg, as_nodes = nodes, as_nodesReady = ready\<rparr>)
     in case cluster of
          None \<Rightarrow> said ''error'' ''Its Cluster is missing from the management cluster''
        | Some cs \<Rightarrow>
            (let cp = condition_of cs ''ControlPlaneAvailable''
             in if map_option co_status cp \<noteq> Some ''True''
                then said ''degraded'' (''Control plane not available'' @ (case cp of Some c \<Rightarrow> if truthy (co_message c) then '': '' @ the (co_message c) else [] | None \<Rightarrow> []))
                else if ready < want then said ''degraded'' (show_nat ready @ '' of '' @ show_nat want @ '' nodes ready'')
                else said ''ready'' []))"

section \<open>What holds\<close>

text \<open>A cluster made from a size counts the same whether it is counted by its size or by its specification.\<close>

lemma flavors_of_sizes:
  "parseFlavor (snd (SIZES sz)) = Some (fst (SIZES sz))" "parseFlavor (snd LB) = Some (fst LB)"
  by (cases sz) (simp_all, code_simp+)

theorem usage_of_size: "usageOfSpec (specFromSize sz member) controlPlanes workers withLb = usageOf sz controlPlanes workers withLb"
proof -
  define k :: int where "k = (case sz of Small \<Rightarrow> 2 | Medium \<Rightarrow> 4 | Large \<Rightarrow> 8)"
  have k: "fv_memoryGiB (fst (SIZES sz)) = of_int k" by (cases sz) (simp_all add: SIZES_def k_def)
  have e: "js_round (of_int a * of_int GiB) = \<lfloor>of_int a * of_int GiB :: rat\<rfloor>" for a
    by (metis js_round_int of_int_mult floor_of_int)
  have "js_round ((of_int controlPlanes * of_int k + of_int workers * of_int k + of_int l) * of_int GiB) = \<lfloor>(of_int (controlPlanes + workers) * of_int k + of_int l) * of_int GiB :: rat\<rfloor>" for l
    using e[of "controlPlanes * k + workers * k + l"] by (simp add: distrib_right)
  from this[of 0] this[of 1] show ?thesis
    by (simp add: usageOfSpec_def usageOf_def specFromSize_def Let_def flavorOf_def flavors_of_sizes lbIsInstance_def k LB_def flavors_of_sizes(2)[unfolded LB_def, simplified] distrib_right)
qed

text \<open>An upgrade that is let through goes to an offered version, never back, and over no minor version.\<close>

theorem upgrade_sound:
  assumes "upgradeError from to = None" "minorOf from = Some a"
  shows "to \<in> set KUBERNETES_VERSIONS \<and> (\<exists>b. minorOf to = Some b \<and> a \<le> b \<and> b \<le> a + 1 \<and> (b = a \<longrightarrow> from \<le> to))"
proof -
  have "\<forall>v\<in>set KUBERNETES_VERSIONS. minorOf v \<noteq> None" by code_simp
  with assms show ?thesis by (auto simp: upgradeError_def not_less split: if_splits option.splits)
qed

theorem upgrade_sound_witness: "\<exists>b. minorOf ''v1.35.5'' = Some b \<and> 34 \<le> b \<and> b \<le> 35"
proof -
  have "upgradeError ''v1.34.0'' ''v1.35.5'' = None" "minorOf ''v1.34.0'' = Some 34" by code_simp+
  from upgrade_sound[OF this] show ?thesis by auto
qed

lemma ip_bounds: "ipToInt s = Some n \<Longrightarrow> 0 \<le> n \<and> n < 2 ^ 32"
  by (auto simp: ipToInt_def split: list.splits option.splits if_splits)

text \<open>Printing an address and reading it are inverse.\<close>

lemma digit_char_digit: "k < 10 \<Longrightarrow> is_digit (digit_char k) \<and> cc (digit_char k) = 48 + k"
  by (simp add: is_digit_def digit_char_def cc_def)

lemma shown_digits: "list_all is_digit (show_nat n) \<and> show_nat n \<noteq> [] \<and> digits_value (show_nat n) = n"
proof (induction n rule: show_nat.induct)
  case (1 n)
  then show ?case
    by (cases "n < 10") (simp_all add: show_nat.simps[of n] digits_value_def digit_char_digit)
qed

lemma shown_length: "n < 1000 \<Longrightarrow> length (show_nat n) \<le> 3"
  by (simp add: show_nat.simps[of n] show_nat.simps[of "n div 10"] show_nat.simps[of "n div 10 div 10"])

lemma octet_shown: "0 \<le> x \<Longrightarrow> x < 256 \<Longrightarrow> octet (show_int x) = Some (nat x) \<and> list_all is_digit (show_int x)"
  using shown_digits[of "nat x"] shown_length[of "nat x"] by (simp add: show_int_def octet_def)

lemma trim_plain:
  assumes "list_all (\<lambda>c. \<not> is_space c) s"
  shows "trim s = s"
proof -
  have "dropWhile is_space t = t" if "set t \<subseteq> set s" for t using assms that by (cases t) (auto simp: list_all_iff)
  then show ?thesis by (simp add: trim_def)
qed

lemma set_join_with: "set (join_with sep xs) \<subseteq> set sep \<union> \<Union> (set ` set xs)"
  by (induction sep xs rule: join_with.induct) auto

lemma digit_no_space: "is_digit c \<Longrightarrow> \<not> is_space c"
  by (auto simp: is_digit_def is_space_def)

lemma ip_of_octets:
  "map octet (split_on CHR ''.'' (trim s)) = [Some a, Some b, Some c, Some d] \<Longrightarrow> a \<le> 255 \<Longrightarrow> b \<le> 255 \<Longrightarrow> c \<le> 255 \<Longrightarrow> d \<le> 255 \<Longrightarrow>
    ipToInt s = Some (((int a * 256 + int b) * 256 + int c) * 256 + int d)"
  by (simp add: ipToInt_def)

lemma octets_sum:
  fixes n :: int
  assumes "0 \<le> n" "n < 2 ^ 32"
  shows "n = (((n div 2 ^ 24 mod 256) * 256 + n div 2 ^ 16 mod 256) * 256 + n div 2 ^ 8 mod 256) * 256 + n mod 256"
proof -
  define c where "c = n div 256"
  define b where "b = c div 256"
  define a where "a = b div 256"
  have d: "n div 2 ^ 8 = c" "n div 2 ^ 16 = b" "n div 2 ^ 24 = a" by (simp_all add: a_def b_def c_def flip: zdiv_zmult2_eq)
  have "0 \<le> a" "a < 256" using assms unfolding d(3)[symmetric] by simp_all
  then have "a mod 256 = a" by simp
  moreover have "a * 256 + b mod 256 = b" "b * 256 + c mod 256 = c" "c * 256 + n mod 256 = n" by (simp_all add: a_def b_def c_def)
  ultimately show ?thesis unfolding d by (simp only:)
qed

theorem address_round_trip:
  assumes "0 \<le> n" "n < 2 ^ 32"
  shows "ipToInt (intToIp n) = Some n"
proof -
  define os where "os = map (\<lambda>shift. n div 2 ^ shift mod 256) [24, 16, 8, 0 :: nat]"
  have o: "octet (show_int x) = Some (nat x)" "list_all is_digit (show_int x)" if "x \<in> set os" for x
    using octet_shown[of x] that by (auto simp: os_def)
  have digits: "list_all is_digit p" if "p \<in> set (map show_int os)" for p using o(2) that by auto
  have dot: "CHR ''.'' \<notin> set p" if "p \<in> set (map show_int os)" for p
    using digits[OF that] by (auto simp: list_all_iff is_digit_def cc_def)
  have ip: "intToIp n = join_with ''.'' (map show_int os)" by (simp add: intToIp_def os_def)
  have "list_all (\<lambda>c. \<not> is_space c) (intToIp n)"
  proof -
    have "\<not> is_space c" if "c \<in> set (intToIp n)" for c
    proof -
      from that have "c \<in> set ''.'' \<union> \<Union> (set ` set (map show_int os))" unfolding ip using set_join_with by blast
      then consider "c = CHR ''.''" | p where "p \<in> set (map show_int os)" "c \<in> set p" by auto
      then show ?thesis using digits digit_no_space by cases (simp add: is_space_def cc_def, auto simp: list_all_iff)
    qed
    then show ?thesis by (simp add: list_all_iff)
  qed
  then have "split_on CHR ''.'' (trim (intToIp n)) = map show_int os"
    using split_join[of "map show_int os" "CHR ''.''"] dot by (simp add: trim_plain ip os_def)
  then have parts: "map octet (split_on CHR ''.'' (trim (intToIp n))) = map (\<lambda>x. Some (nat x)) os" using o(1) by simp
  obtain a b c e where os: "os = [a, b, c, e]" and d: "a = n div 2 ^ 24 mod 256" "b = n div 2 ^ 16 mod 256" "c = n div 2 ^ 8 mod 256" "e = n mod 256"
    unfolding os_def by simp
  have r: "0 \<le> x \<and> x < 256" if "x \<in> {a, b, c, e}" for x using that unfolding d by auto
  have "ipToInt (intToIp n) = Some (((int (nat a) * 256 + int (nat b)) * 256 + int (nat c)) * 256 + int (nat e))"
  proof (rule ip_of_octets)
    show "map octet (split_on CHR ''.'' (trim (intToIp n))) = [Some (nat a), Some (nat b), Some (nat c), Some (nat e)]"
      by (simp only: parts os list.map)
    show "nat a \<le> 255" "nat b \<le> 255" "nat c \<le> 255" "nat e \<le> 255" using r[of a] r[of b] r[of c] r[of e] by (simp_all add: nat_le_iff)
  qed
  also have "\<dots> = Some (((a * 256 + b) * 256 + c) * 256 + e)" using r[of a] r[of b] r[of c] r[of e] by simp
  also have "((a * 256 + b) * 256 + c) * 256 + e = n" unfolding d using octets_sum[OF assms] by (rule sym)
  finally show ?thesis .
qed

theorem address_round_trip_witness: "ipToInt (intToIp 167772165) = Some 167772165"
  by (rule address_round_trip) simp_all

text \<open>A range that is accepted is a range of IPv4 addresses, and not empty.\<close>

theorem range_valid:
  assumes "parseRange v = Some r"
  shows "0 \<le> ip_start r \<and> ip_start r \<le> ip_end r \<and> ip_end r < 2 ^ 32"
proof -
  have block: "0 \<le> base div (2::int) ^ k * 2 ^ k \<and> base div 2 ^ k * 2 ^ k + 2 ^ k - 1 < 2 ^ 32" if "0 \<le> base" "base < 2 ^ 32" "k \<le> 32" for base and k :: nat
  proof -
    have "(2::int) ^ 32 = 2 ^ (32 - k) * 2 ^ k" using that(3) by (simp flip: power_add)
    moreover have "base div 2 ^ k * 2 ^ k = base - base mod 2 ^ k" by (simp add: minus_mod_eq_div_mult)
    moreover have "0 \<le> base mod 2 ^ k" by simp
    moreover have "2 ^ (32 - k) * 2 ^ k \<le> base div 2 ^ k * 2 ^ k" if "2 ^ (32 - k) \<le> base div 2 ^ k" using that by (intro mult_right_mono) simp_all
    ultimately have "base div 2 ^ k < 2 ^ (32 - k)" using that(1,2) by linarith
    then have "(base div 2 ^ k + 1) * 2 ^ k \<le> 2 ^ (32 - k) * 2 ^ k" by (intro mult_right_mono) simp_all
    moreover have "0 \<le> base div 2 ^ k * 2 ^ k" using that(1) by (simp add: pos_imp_zdiv_nonneg_iff)
    ultimately show ?thesis using \<open>(2::int) ^ 32 = 2 ^ (32 - k) * 2 ^ k\<close> by (simp add: distrib_right)
  qed
  show ?thesis
    using assms ip_bounds block unfolding parseRange_def Let_def
    by (auto split: if_splits option.splits)
qed

theorem range_valid_witness: "ip_end (\<lparr>ip_start = 167772160, ip_end = 167772415\<rparr>) < 2 ^ 32"
proof -
  have "parseRange ''10.0.0.0/24'' = Some \<lparr>ip_start = 167772160, ip_end = 167772415\<rparr>" by code_simp
  from range_valid[OF this] show ?thesis by simp
qed

text \<open>A CIDR whose prefix length is left out is the whole address space: nothing reads as the number 0.\<close>

lemma empty_prefix: "parseRange ''10.0.0.5/'' = Some \<lparr>ip_start = 0, ip_end = 4294967295\<rparr>"
  by code_simp

end
